(* ===== verification/Rbac_Prelude.thy ===== *)
theory Rbac_Prelude
  imports Main "HOL-Library.AList" "HOL-Library.Multiset"
begin

text \<open>
  What the component theories share.

  \<^item> \<open>py_error\<close> lists the exceptions the modelled code raises; a fallible operation returns a
    \<open>'a result\<close>, whose left summand is the exception. Messages are not modelled. The flag of
    \<open>OperationalError\<close> says whether it is a serialization failure or a deadlock, that of \<open>RpcError\<close>
    whether its status is \<open>FAILED_PRECONDITION\<close>. \<open>MessageValidationError\<close> is the class
    \<open>ValidationError\<close> of the Kafka consumer.
  \<^item> An operation that changes a state also when it fails returns \<open>'s \<times> 'a result\<close>; \<open>bind_s\<close>
    sequences such operations.
  \<^item> \<open>pyval\<close> is a dynamically typed value: what a JSON column, a request body or an unchecked
    argument may hold.
  \<^item> \<open>bind_r\<close>, \<open>mapM_r\<close> and \<open>foldM_r\<close> sequence fallible operations as statements, list
    comprehensions and \<open>for\<close> loops do.
  \<^item> The string operations of the language that the sources use, on \<open>char list\<close> (the code's
    identifiers are ASCII).
  \<^item> Python dictionaries are association lists in insertion order: \<open>AList.update\<close> is item
    assignment, \<open>AList.delete\<close> is \<open>pop(key, None)\<close>, \<open>map_of\<close> is \<open>get\<close>.
\<close>

named_theorems result_simps "equations and inversions for fallible computations"

section \<open>Errors and results\<close>

datatype py_error =
    ValueError
  | TypeError
  | KeyError
  | IndexError
  | AttributeError
  | AssertionError
  | RuntimeError
  | PyException
  | DoesNotExist
  | MultipleObjectsReturned
  | IntegrityError
  | DatabaseError
  | ValidationError
  | SerializerValidationError
  | RequiredFieldError string
  | InvalidPermissionDataError
  | WorkspaceAlreadyExistsError
  | InvalidWorkspaceTypeError
  | TenantNotBootstrappedError
  | UngroupedWorkspaceError
  | V1WriteBlockedError
  | InvalidV2OptOutError
  | DualWriteException
  | DefaultGroupNotAvailableError
  | RpcError bool
  | OperationalError bool
  | MessageValidationError
  | ParseError
  | JSONDecodeError
  | UnicodeDecodeError
  | InterruptedError
  | ConnectionError
  | TimeoutError
  | OSError
  | KafkaError

type_synonym 'a result = "py_error + 'a"

definition bind_r :: "'a result \<Rightarrow> ('a \<Rightarrow> 'b result) \<Rightarrow> 'b result" where
  "bind_r m f = (case m of Inl e \<Rightarrow> Inl e | Inr x \<Rightarrow> f x)"

definition check_r :: "bool \<Rightarrow> py_error \<Rightarrow> unit result" where
  "check_r ok e = (if ok then Inr () else Inl e)"

fun mapM_r :: "('a \<Rightarrow> 'b result) \<Rightarrow> 'a list \<Rightarrow> 'b list result" where
  "mapM_r f [] = Inr []"
| "mapM_r f (x # xs) = bind_r (f x) (\<lambda>y. bind_r (mapM_r f xs) (\<lambda>ys. Inr (y # ys)))"

fun foldM_r :: "('s \<Rightarrow> 'a \<Rightarrow> 's result) \<Rightarrow> 's \<Rightarrow> 'a list \<Rightarrow> 's result" where
  "foldM_r f s [] = Inr s"
| "foldM_r f s (x # xs) = bind_r (f s x) (\<lambda>s'. foldM_r f s' xs)"

definition is_ok :: "'a result \<Rightarrow> bool" where
  "is_ok m = (case m of Inl _ \<Rightarrow> False | Inr _ \<Rightarrow> True)"

definition res_default :: "'a \<Rightarrow> 'a result \<Rightarrow> 'a" where
  "res_default d m = (case m of Inl _ \<Rightarrow> d | Inr x \<Rightarrow> x)"

lemma bind_r_simps [simp]:
  "bind_r (Inl e) f = Inl e"
  "bind_r (Inr x) f = f x"
  by (simp_all add: bind_r_def)

lemma bind_r_Inr_iff [result_simps]:
  "bind_r m f = Inr y \<longleftrightarrow> (\<exists>x. m = Inr x \<and> f x = Inr y)"
  by (cases m) auto

lemma bind_r_Inl_iff [result_simps]:
  "bind_r m f = Inl e \<longleftrightarrow> m = Inl e \<or> (\<exists>x. m = Inr x \<and> f x = Inl e)"
  by (cases m) auto

lemma bind_r_assoc: "bind_r (bind_r m f) g = bind_r m (\<lambda>x. bind_r (f x) g)"
  by (cases m) auto

lemma bind_r_cong [fundef_cong]:
  "m = m' \<Longrightarrow> (\<And>x. m' = Inr x \<Longrightarrow> f x = f' x) \<Longrightarrow> bind_r m f = bind_r m' f'"
  by (cases m') auto

lemma check_r_simps [simp]:
  "check_r True e = Inr ()"
  "check_r False e = Inl e"
  by (simp_all add: check_r_def)

lemma check_r_Inr_iff [result_simps]: "check_r b e = Inr u \<longleftrightarrow> b"
  by (simp add: check_r_def)

lemma check_r_Inl_iff [result_simps]: "check_r b e = Inl e' \<longleftrightarrow> \<not> b \<and> e' = e"
  by (auto simp: check_r_def)

lemma is_ok_simps [simp]: "\<not> is_ok (Inl e)" "is_ok (Inr x)"
  by (simp_all add: is_ok_def)

lemma is_ok_iff: "is_ok m \<longleftrightarrow> (\<exists>x. m = Inr x)"
  by (cases m) auto

lemma mapM_r_Inr_iff [result_simps]:
  "mapM_r f xs = Inr ys \<longleftrightarrow> list_all2 (\<lambda>x y. f x = Inr y) xs ys"
  by (induction xs arbitrary: ys) (auto simp: bind_r_Inr_iff list_all2_Cons1)

lemma mapM_r_total: "(\<And>x. x \<in> set xs \<Longrightarrow> f x = Inr (g x)) \<Longrightarrow> mapM_r f xs = Inr (map g xs)"
  by (induction xs) auto

lemma mapM_r_ok: "(\<forall>x \<in> set xs. is_ok (f x)) \<Longrightarrow> is_ok (mapM_r f xs)"
  by (induction xs) (auto simp: is_ok_iff)

lemma foldM_r_append:
  "foldM_r f s (xs @ ys) = bind_r (foldM_r f s xs) (\<lambda>s'. foldM_r f s' ys)"
  by (induction xs arbitrary: s) (auto simp: bind_r_assoc)

lemma foldM_r_invariant:
  assumes "foldM_r f s xs = Inr s'" and "P s"
    and "\<And>s x s'. P s \<Longrightarrow> x \<in> set xs \<Longrightarrow> f s x = Inr s' \<Longrightarrow> P s'"
  shows "P s'"
  using assms
proof (induction xs arbitrary: s)
  case Nil
  then show ?case by simp
next
  case (Cons x xs)
  from Cons.prems(1) obtain t where t: "f s x = Inr t" and rest: "foldM_r f t xs = Inr s'"
    by (auto simp: bind_r_Inr_iff)
  have "P t" using Cons.prems(2,3) t by auto
  with rest show ?case by (rule Cons.IH) (use Cons.prems(3) in auto)
qed

lemma foldM_r_collect:
  assumes "foldM_r f s xs = Inr s'" and "I s"
    and "\<And>s x s'. x \<in> set xs \<Longrightarrow> I s \<Longrightarrow> f s x = Inr s' \<Longrightarrow> I s' \<and> R s' = R s \<union> T x"
  shows "I s' \<and> R s' = R s \<union> (\<Union>x \<in> set xs. T x)"
  using assms
proof (induction xs arbitrary: s)
  case (Cons x xs)
  from Cons.prems(1) obtain t where t: "f s x = Inr t" and rest: "foldM_r f t xs = Inr s'"
    by (auto simp: bind_r_Inr_iff)
  have step: "I t \<and> R t = R s \<union> T x" using Cons.prems(2,3) t by auto
  then have "I s' \<and> R s' = R t \<union> (\<Union>x \<in> set xs. T x)"
    using Cons.IH [OF rest] Cons.prems(3) by auto
  with step show ?case by auto
qed simp

text \<open>Operations whose effects survive an exception.\<close>

definition bind_s :: "'s \<times> 'a result \<Rightarrow> ('s \<Rightarrow> 'a \<Rightarrow> 's \<times> 'b result) \<Rightarrow> 's \<times> 'b result" where
  "bind_s m f = (case snd m of Inl e \<Rightarrow> (fst m, Inl e) | Inr x \<Rightarrow> f (fst m) x)"

lemma bind_s_simps [simp]:
  "bind_s (s, Inl e) f = (s, Inl e)"
  "bind_s (s, Inr x) f = f s x"
  by (simp_all add: bind_s_def)

lemma bind_s_Inr_iff [result_simps]:
  "bind_s m f = (s', Inr y) \<longleftrightarrow> (\<exists>s x. m = (s, Inr x) \<and> f s x = (s', Inr y))"
  by (cases m; cases "snd m") auto

lemma bind_s_cases:
  "bind_s m f = (s', r) \<longleftrightarrow>
     (\<exists>e. m = (s', Inl e) \<and> r = Inl e) \<or> (\<exists>s x. m = (s, Inr x) \<and> f s x = (s', r))"
  by (cases m; cases "snd m") auto

section \<open>Dynamically typed values\<close>

datatype pyval =
    PyNone
  | PyBool bool
  | PyInt int
  | PyStr string
  | PyList "pyval list"
  | PyDict "(string \<times> pyval) list"

definition py_getitem :: "pyval \<Rightarrow> string \<Rightarrow> pyval result" where
  "py_getitem v k =
     (case v of
        PyDict d \<Rightarrow> (case map_of d k of None \<Rightarrow> Inl KeyError | Some x \<Rightarrow> Inr x)
      | _ \<Rightarrow> Inl TypeError)"

definition py_get :: "pyval \<Rightarrow> string \<Rightarrow> pyval \<Rightarrow> pyval result" where
  "py_get v k dflt =
     (case v of
        PyDict d \<Rightarrow> Inr (case map_of d k of None \<Rightarrow> dflt | Some x \<Rightarrow> x)
      | _ \<Rightarrow> Inl AttributeError)"

definition py_opt_str :: "string option \<Rightarrow> pyval" where
  "py_opt_str x = (case x of None \<Rightarrow> PyNone | Some s \<Rightarrow> PyStr s)"

lemma py_opt_str_simps [simp]:
  "py_opt_str None = PyNone"
  "py_opt_str (Some s) = PyStr s"
  by (simp_all add: py_opt_str_def)

lemma py_getitem_dict [simp]:
  "py_getitem (PyDict d) k = (case map_of d k of None \<Rightarrow> Inl KeyError | Some x \<Rightarrow> Inr x)"
  by (simp add: py_getitem_def)

lemma py_get_dict [simp]:
  "py_get (PyDict d) k dflt = Inr (case map_of d k of None \<Rightarrow> dflt | Some x \<Rightarrow> x)"
  by (simp add: py_get_def)

section \<open>Strings\<close>

text \<open>\<open>pat in s\<close> on strings; \<open>k in v\<close> and \<open>v.keys()\<close> on a dynamically typed value.\<close>

fun str_contains :: "string \<Rightarrow> string \<Rightarrow> bool" where
  "str_contains pat [] = (pat = [])"
| "str_contains pat (c # cs) = (take (length pat) (c # cs) = pat \<or> str_contains pat cs)"

definition py_in :: "string \<Rightarrow> pyval \<Rightarrow> bool result" where
  "py_in k v =
     (case v of
        PyDict d \<Rightarrow> Inr (map_of d k \<noteq> None)
      | PyStr s \<Rightarrow> Inr (str_contains k s)
      | PyList vs \<Rightarrow> Inr (PyStr k \<in> set vs)
      | _ \<Rightarrow> Inl TypeError)"

definition py_keys :: "pyval \<Rightarrow> string list result" where
  "py_keys v = (case v of PyDict d \<Rightarrow> Inr (map fst d) | _ \<Rightarrow> Inl AttributeError)"

lemma py_in_dict [simp]: "py_in k (PyDict d) = Inr (map_of d k \<noteq> None)"
  by (simp add: py_in_def)

text \<open>\<open>s.split(c)\<close> for a one-character separator, and \<open>c.join(parts)\<close>.\<close>

fun split_on :: "char \<Rightarrow> string \<Rightarrow> string list" where
  "split_on c [] = [[]]"
| "split_on c (x # xs) =
     (if x = c then [] # split_on c xs
      else (case split_on c xs of [] \<Rightarrow> [[x]] | p # ps \<Rightarrow> (x # p) # ps))"

fun join_with :: "char \<Rightarrow> string list \<Rightarrow> string" where
  "join_with c [] = []"
| "join_with c [p] = p"
| "join_with c (p # q # ps) = p @ c # join_with c (q # ps)"

lemma split_on_not_Nil [simp]: "split_on c s \<noteq> []"
  by (cases s) (auto split: list.splits)

lemma split_on_no_sep: "c \<notin> set s \<Longrightarrow> split_on c s = [s]"
  by (induction s) auto

lemma split_on_append_sep: "c \<notin> set p \<Longrightarrow> split_on c (p @ c # s) = p # split_on c s"
  by (induction p) auto

lemma split_on_parts: "p \<in> set (split_on c s) \<Longrightarrow> c \<notin> set p"
proof (induction s arbitrary: p)
  case Nil
  then show ?case by simp
next
  case (Cons x xs)
  obtain q qs where q: "split_on c xs = q # qs"
    by (cases "split_on c xs") auto
  with Cons show ?case by (auto split: if_splits)
qed

lemma join_with_Cons: "qs \<noteq> [] \<Longrightarrow> join_with c (p # qs) = p @ c # join_with c qs"
  by (cases qs) auto

lemma join_split: "join_with c (split_on c s) = s"
proof (induction s)
  case Nil
  then show ?case by simp
next
  case (Cons x xs)
  obtain q qs where q: "split_on c xs = q # qs"
    by (cases "split_on c xs") auto
  with Cons show ?case by (cases qs) auto
qed

lemma split_join:
  "ps \<noteq> [] \<Longrightarrow> \<forall>p \<in> set ps. c \<notin> set p \<Longrightarrow> split_on c (join_with c ps) = ps"
proof (induction c ps rule: join_with.induct)
  case (3 c p q ps)
  then show ?case by (simp add: split_on_append_sep)
qed (auto simp: split_on_no_sep)

text \<open>\<open>s.lower()\<close>, \<open>s.replace(c, t)\<close> for one character \<open>c\<close>, \<open>s.strip()\<close>.\<close>

definition to_lower :: "char \<Rightarrow> char" where
  "to_lower c =
     (let n = of_char c :: nat in if 65 \<le> n \<and> n \<le> 90 then char_of (n + 32) else c)"

definition str_lower :: "string \<Rightarrow> string" where
  "str_lower s = map to_lower s"

definition to_upper :: "char \<Rightarrow> char" where
  "to_upper c =
     (let n = of_char c :: nat in if 97 \<le> n \<and> n \<le> 122 then char_of (n - 32) else c)"

definition str_upper :: "string \<Rightarrow> string" where
  "str_upper s = map to_upper s"

definition str_replace :: "char \<Rightarrow> string \<Rightarrow> string \<Rightarrow> string" where
  "str_replace c t s = concat (map (\<lambda>x. if x = c then t else [x]) s)"

definition is_space :: "char \<Rightarrow> bool" where
  "is_space c = (let n = of_char c :: nat in n = 32 \<or> (9 \<le> n \<and> n \<le> 13) \<or> (28 \<le> n \<and> n \<le> 31) \<or> n = 133 \<or> n = 160)"

definition str_strip :: "string \<Rightarrow> string" where
  "str_strip s = rev (dropWhile is_space (rev (dropWhile is_space s)))"

text \<open>\<open>s.find(c)\<close> and \<open>s.rfind(c)\<close>; \<open>None\<close> is the code's \<open>-1\<close>.\<close>

fun str_find :: "char \<Rightarrow> string \<Rightarrow> nat option" where
  "str_find c [] = None"
| "str_find c (x # xs) = (if x = c then Some 0 else map_option Suc (str_find c xs))"

definition str_rfind :: "char \<Rightarrow> string \<Rightarrow> nat option" where
  "str_rfind c s = map_option (\<lambda>i. length s - 1 - i) (str_find c (rev s))"

lemma str_find_append: "c \<notin> set p \<Longrightarrow> str_find c (p @ c # s) = Some (length p)"
  by (induction p) auto

lemma str_find_None: "str_find c s = None \<longleftrightarrow> c \<notin> set s"
  by (induction s) auto

lemma str_rfind_append: "c \<notin> set s \<Longrightarrow> str_rfind c (p @ c # s) = Some (length p)"
  using str_find_append [of c "rev s" "rev p"] by (simp add: str_rfind_def)

lemma append_sep_inject:
  fixes c :: char
  assumes "c \<notin> set p" and "c \<notin> set p'"
  shows "p @ c # s = p' @ c # s' \<longleftrightarrow> p = p' \<and> s = s'"
proof
  assume eq: "p @ c # s = p' @ c # s'"
  then have "length p = length p'"
    using str_find_append [OF assms(1), of s] str_find_append [OF assms(2), of s'] by simp
  with eq show "p = p' \<and> s = s'" by simp
qed simp

lemma append_last_sep_inject:
  fixes c :: char
  assumes "c \<notin> set s" and "c \<notin> set s'"
  shows "p @ c # s = p' @ c # s' \<longleftrightarrow> p = p' \<and> s = s'"
  using append_sep_inject [of c "rev s" "rev s'" "rev p" "rev p'"] assms
  by (metis append.assoc append_Cons append_Nil rev.simps(2) rev_append rev_rev_ident set_rev)

lemma append_sep_absent:
  "c \<notin> set q \<Longrightarrow> p @ c # s \<noteq> q"
  "c \<notin> set q \<Longrightarrow> q \<noteq> p @ c # s"
  by auto

text \<open>\<open>str(n)\<close> on integers, \<open>repr\<close> and \<open>str\<close> on dynamically typed values.\<close>

fun nat_str :: "nat \<Rightarrow> string" where
  "nat_str n = (if n < 10 then [char_of (48 + n)] else nat_str (n div 10) @ [char_of (48 + n mod 10)])"

declare nat_str.simps [simp del]

definition int_str :: "int \<Rightarrow> string" where
  "int_str i = (if i < 0 then CHR ''-'' # nat_str (nat (- i)) else nat_str (nat i))"

definition hex_digit :: "nat \<Rightarrow> char" where
  "hex_digit n = char_of (if n < 10 then 48 + n else 87 + n)"

definition repr_char :: "char \<Rightarrow> char \<Rightarrow> string" where
  "repr_char q c =
     (let n = of_char c :: nat in
      if c = q \<or> n = 92 then [char_of (92 :: nat), c]
      else if n = 10 then [char_of (92 :: nat), CHR ''n'']
      else if n = 13 then [char_of (92 :: nat), CHR ''r'']
      else if n = 9 then [char_of (92 :: nat), CHR ''t'']
      else if n < 32 \<or> n = 127 then [char_of (92 :: nat), CHR ''x'', hex_digit (n div 16), hex_digit (n mod 16)]
      else [c])"

definition repr_str :: "string \<Rightarrow> string" where
  "repr_str s =
     (let single = char_of (39 :: nat); double = char_of (34 :: nat);
          q = (if single \<in> set s \<and> double \<notin> set s then double else single)
      in q # concat (map (repr_char q) s) @ [q])"

definition comma_sep :: "string list \<Rightarrow> string" where
  "comma_sep parts = (case parts of [] \<Rightarrow> [] | p # ps \<Rightarrow> p @ concat (map (\<lambda>q. '', '' @ q) ps))"

fun py_repr :: "pyval \<Rightarrow> string" where
  "py_repr PyNone = ''None''"
| "py_repr (PyBool b) = (if b then ''True'' else ''False'')"
| "py_repr (PyInt i) = int_str i"
| "py_repr (PyStr s) = repr_str s"
| "py_repr (PyList vs) = ''['' @ comma_sep (map py_repr vs) @ '']''"
| "py_repr (PyDict d) = ''{'' @ comma_sep (map (\<lambda>(k, v). repr_str k @ '': '' @ py_repr v) d) @ ''}''"

definition py_str :: "pyval \<Rightarrow> string" where
  "py_str v = (case v of PyStr s \<Rightarrow> s | _ \<Rightarrow> py_repr v)"

text \<open>The truth value of a dynamically typed value.\<close>

fun py_truthy :: "pyval \<Rightarrow> bool" where
  "py_truthy PyNone = False"
| "py_truthy (PyBool b) = b"
| "py_truthy (PyInt i) = (i \<noteq> 0)"
| "py_truthy (PyStr s) = (s \<noteq> [])"
| "py_truthy (PyList vs) = (vs \<noteq> [])"
| "py_truthy (PyDict d) = (d \<noteq> [])"

text \<open>Character classes of the regular expressions in the sources.\<close>

definition is_alnum :: "char \<Rightarrow> bool" where
  "is_alnum c = (let n = of_char c :: nat in
     (48 \<le> n \<and> n \<le> 57) \<or> (65 \<le> n \<and> n \<le> 90) \<or> (97 \<le> n \<and> n \<le> 122))"

section \<open>UUIDs\<close>

text \<open>
  \<open>uuid.UUID(s)\<close> and \<open>str\<close> of its value: the prefixes, braces and hyphens are dropped and the 32
  remaining characters are read by \<open>int(s, 16)\<close>, which allows a sign, \<open>0x\<close> and single underscores.
\<close>

fun remove_sub :: "string \<Rightarrow> nat \<Rightarrow> string \<Rightarrow> string" where
  "remove_sub pat n [] = []"
| "remove_sub pat (Suc n) (c # cs) = remove_sub pat n cs"
| "remove_sub pat 0 (c # cs) =
     (if take (length pat) (c # cs) = pat then remove_sub pat (length pat - 1) cs
      else c # remove_sub pat 0 cs)"

definition strip_chars :: "char list \<Rightarrow> string \<Rightarrow> string" where
  "strip_chars cs s = rev (dropWhile (\<lambda>c. c \<in> set cs) (rev (dropWhile (\<lambda>c. c \<in> set cs) s)))"

definition hex_value :: "char \<Rightarrow> int option" where
  "hex_value c =
     (let n = of_char c :: nat in
      if 48 \<le> n \<and> n \<le> 57 then Some (int n - 48)
      else if 97 \<le> n \<and> n \<le> 102 then Some (int n - 87)
      else if 65 \<le> n \<and> n \<le> 70 then Some (int n - 55)
      else None)"

fun hex_digits :: "int \<Rightarrow> bool \<Rightarrow> string \<Rightarrow> int option" where
  "hex_digits acc after_digit [] = (if after_digit then Some acc else None)"
| "hex_digits acc after_digit (c # cs) =
     (if c = CHR ''_'' then (if after_digit then hex_digits acc False cs else None)
      else case hex_value c of None \<Rightarrow> None | Some d \<Rightarrow> hex_digits (16 * acc + d) True cs)"

definition unsigned_hex :: "string \<Rightarrow> int option" where
  "unsigned_hex s =
     (if take 2 s \<in> {''0x'', ''0X''}
      then hex_digits 0 False (if take 1 (drop 2 s) = ''_'' then drop 3 s else drop 2 s)
      else hex_digits 0 False s)"

definition int_of_hex :: "string \<Rightarrow> int option" where
  "int_of_hex s =
     (case str_strip s of
        [] \<Rightarrow> None
      | c # cs \<Rightarrow>
          if c = CHR ''-'' then map_option uminus (unsigned_hex cs)
          else if c = CHR ''+'' then unsigned_hex cs
          else unsigned_hex (c # cs))"

fun hex_str :: "nat \<Rightarrow> int \<Rightarrow> string" where
  "hex_str 0 n = []"
| "hex_str (Suc k) n = hex_str k (n div 16) @ [hex_digit (nat (n mod 16))]"

definition uuid_str :: "int \<Rightarrow> string" where
  "uuid_str n =
     (let h = hex_str 32 n
      in take 8 h @ ''-'' @ take 4 (drop 8 h) @ ''-'' @ take 4 (drop 12 h) @ ''-'' @
         take 4 (drop 16 h) @ ''-'' @ drop 20 h)"

definition uuid_of :: "string \<Rightarrow> string option" where
  "uuid_of s =
     (let h = filter (\<lambda>c. c \<noteq> CHR ''-'') (strip_chars ''{}'' (remove_sub ''uuid:'' 0 (remove_sub ''urn:'' 0 s)))
      in if length h \<noteq> 32 then None
         else case int_of_hex h of
                None \<Rightarrow> None
              | Some i \<Rightarrow> if i < 0 then None else Some (uuid_str i))"

definition parse_uuid :: "string \<Rightarrow> string result" where
  "parse_uuid s = (case uuid_of s of None \<Rightarrow> Inl ValueError | Some u \<Rightarrow> Inr u)"

text \<open>A string that is the \<open>str\<close> of a UUID.\<close>

definition canonical_uuid :: "string \<Rightarrow> bool" where
  "canonical_uuid s \<longleftrightarrow> uuid_of s = Some s"

section \<open>Lists as Python sets and dictionaries\<close>

text \<open>
  \<open>distinct_by f xs\<close> keeps the first element of each key: the shape of every \<open>seen\<close> loop.
\<close>

fun dedup_by :: "('a \<Rightarrow> 'k) \<Rightarrow> 'k list \<Rightarrow> 'a list \<Rightarrow> 'a list" where
  "dedup_by f seen [] = []"
| "dedup_by f seen (x # xs) =
     (if f x \<in> set seen then dedup_by f seen xs else x # dedup_by f (f x # seen) xs)"

lemma dedup_by_keys:
  "f ` set (dedup_by f seen xs) = f ` set xs - set seen"
  by (induction xs arbitrary: seen) auto

lemma distinct_dedup_by: "distinct (map f (dedup_by f seen xs))"
proof (induction xs arbitrary: seen)
  case (Cons x xs)
  have "f x \<notin> f ` set (dedup_by f (f x # seen) xs)"
    by (simp add: dedup_by_keys)
  with Cons show ?case by auto
qed simp

text \<open>\<open>s.add(x)\<close>, \<open>s.update(ys)\<close> and \<open>s.discard(x)\<close> on sets kept as lists in iteration order.\<close>

definition set_add :: "'a \<Rightarrow> 'a list \<Rightarrow> 'a list" where
  "set_add x xs = (if x \<in> set xs then xs else xs @ [x])"

definition set_union :: "'a list \<Rightarrow> 'a list \<Rightarrow> 'a list" where
  "set_union xs ys = foldl (\<lambda>acc y. set_add y acc) xs ys"

definition set_discard :: "'a \<Rightarrow> 'a list \<Rightarrow> 'a list" where
  "set_discard x xs = filter (\<lambda>y. y \<noteq> x) xs"

lemma set_set_add [simp]: "set (set_add x xs) = insert x (set xs)"
  by (auto simp: set_add_def)

lemma set_set_union [simp]: "set (set_union xs ys) = set xs \<union> set ys"
  unfolding set_union_def by (induction ys arbitrary: xs) auto

lemma distinct_set_add [simp]: "distinct xs \<Longrightarrow> distinct (set_add x xs)"
  by (simp add: set_add_def)

lemma set_add_absent [simp]: "x \<notin> set xs \<Longrightarrow> set_add x xs = xs @ [x]"
  by (simp add: set_add_def)

lemma distinct_set_union [simp]: "distinct xs \<Longrightarrow> distinct (set_union xs ys)"
  unfolding set_union_def by (induction ys arbitrary: xs) auto

lemma set_set_discard [simp]: "set (set_discard x xs) = set xs - {x}"
  by (auto simp: set_discard_def)

lemma distinct_set_discard [simp]: "distinct xs \<Longrightarrow> distinct (set_discard x xs)"
  by (simp add: set_discard_def)

text \<open>\<open>queryset.get()\<close>.\<close>

definition get_one :: "'a list \<Rightarrow> 'a result" where
  "get_one rows = (case rows of [] \<Rightarrow> Inl DoesNotExist | [x] \<Rightarrow> Inr x | _ \<Rightarrow> Inl MultipleObjectsReturned)"

lemma get_one_Inr_iff [result_simps]: "get_one rows = Inr x \<longleftrightarrow> rows = [x]"
  by (simp add: get_one_def split: list.splits)

lemma get_one_filterD: "get_one (filter P rows) = Inr x \<Longrightarrow> x \<in> set rows \<and> P x"
  using set_filter [of P rows] by (auto simp: get_one_Inr_iff)

lemma filter_key_unique:
  "distinct (map f xs) \<Longrightarrow> x \<in> set xs \<Longrightarrow> filter (\<lambda>y. f y = f x) xs = [x]"
  by (induction xs) (auto simp: filter_empty_conv image_iff)

lemma map_of_update_AList [simp]: "map_of (AList.update k v d) = (map_of d)(k \<mapsto> v)"
  by (rule update_conv')

lemma map_of_delete_AList [simp]: "map_of (AList.delete k d) = (map_of d)(k := None)"
  by (rule delete_conv')

end
