(* ===== verification/Relation_Types.thy ===== *)
theory Relation_Types
  imports Rbac_Prelude
begin

text \<open>
  The relation tuples of the access graph: \<open>management/inventory_replicator/types.py\<close>,
  \<open>create_relationship\<close> of \<open>migration_tool/utils.py\<close> and the key function
  \<open>stringify_spicedb_relationship\<close> of \<open>logging_replicator.py\<close>.

  Each dataclass is a record; its constructor with \<open>__post_init__\<close> is the operation
  \<open>mk_...\<close>, which takes the dynamically typed arguments and raises as the code does.
  \<open>valid_relation_tuple\<close> is the type invariant the constructors establish. The protobuf
  conversions (\<open>as_message\<close>, \<open>from_message\<close>) go through a generated library and are not
  modelled; the dictionary form, which mirrors them, is.
\<close>

section \<open>The dataclasses and their validation\<close>

record object_type =
  ot_namespace :: string
  ot_name :: string

record object_reference =
  or_type :: object_type
  or_id :: string

record subject_reference =
  sr_subject :: object_reference
  sr_relation :: "string option"

record relation_tuple =
  rt_resource :: object_reference
  rt_relation :: string
  rt_subject :: subject_reference

definition validate_required_str :: "pyval \<Rightarrow> string result" where
  "validate_required_str v =
     (case v of
        PyNone \<Rightarrow> Inl TypeError
      | PyStr s \<Rightarrow> (if s = [] then Inl ValueError else Inr s)
      | _ \<Rightarrow> Inl TypeError)"

definition validate_optional_str :: "pyval \<Rightarrow> string option result" where
  "validate_optional_str v =
     (case v of
        PyNone \<Rightarrow> Inr None
      | PyStr s \<Rightarrow> (if s = [] then Inl ValueError else Inr (Some s))
      | _ \<Rightarrow> Inl TypeError)"

definition validate_pattern :: "(string \<Rightarrow> bool) \<Rightarrow> string \<Rightarrow> unit result" where
  "validate_pattern fullmatch s = check_r (fullmatch s) ValueError"

definition type_char :: "char \<Rightarrow> bool" where
  "type_char c \<longleftrightarrow> is_alnum c \<or> c = CHR ''_''"

definition id_char :: "char \<Rightarrow> bool" where
  "id_char c \<longleftrightarrow> is_alnum c \<or> c \<in> set ''/_|-=+''"

definition type_regex :: "string \<Rightarrow> bool" where
  "type_regex s \<longleftrightarrow> s \<noteq> [] \<and> list_all type_char s"

definition id_regex :: "string \<Rightarrow> bool" where
  "id_regex s \<longleftrightarrow> (s \<noteq> [] \<and> list_all id_char s) \<or> s = ''*''"

definition mk_object_type :: "pyval \<Rightarrow> pyval \<Rightarrow> object_type result" where
  "mk_object_type namespace name =
     bind_r (validate_required_str namespace) (\<lambda>ns.
     bind_r (validate_required_str name) (\<lambda>nm.
     bind_r (validate_pattern type_regex nm) (\<lambda>_.
       Inr \<lparr>ot_namespace = ns, ot_name = nm\<rparr>)))"

definition mk_object_reference :: "object_type \<Rightarrow> pyval \<Rightarrow> object_reference result" where
  "mk_object_reference type id_value =
     bind_r (validate_required_str id_value) (\<lambda>i.
     bind_r (validate_pattern id_regex i) (\<lambda>_.
       Inr \<lparr>or_type = type, or_id = i\<rparr>))"

definition mk_subject_reference :: "object_reference \<Rightarrow> pyval \<Rightarrow> subject_reference result" where
  "mk_subject_reference subject relation =
     bind_r (validate_optional_str relation) (\<lambda>r.
       Inr \<lparr>sr_subject = subject, sr_relation = r\<rparr>)"

definition mk_relation_tuple ::
  "object_reference \<Rightarrow> pyval \<Rightarrow> subject_reference \<Rightarrow> relation_tuple result" where
  "mk_relation_tuple resource relation subject =
     bind_r (validate_required_str relation) (\<lambda>r.
       if or_id resource = ''*'' then Inl ValueError
       else Inr \<lparr>rt_resource = resource, rt_relation = r, rt_subject = subject\<rparr>)"

definition create_relationship ::
  "string \<times> string \<Rightarrow> string \<Rightarrow> string \<times> string \<Rightarrow> string \<Rightarrow> string \<Rightarrow> string option
   \<Rightarrow> relation_tuple result" where
  "create_relationship resource_name resource_id subject_name subject_id relation subject_relation =
     bind_r (mk_object_type (PyStr (fst resource_name)) (PyStr (snd resource_name))) (\<lambda>rt.
     bind_r (mk_object_reference rt (PyStr resource_id)) (\<lambda>res.
     bind_r (mk_object_type (PyStr (fst subject_name)) (PyStr (snd subject_name))) (\<lambda>st.
     bind_r (mk_object_reference st (PyStr subject_id)) (\<lambda>sub.
     bind_r (mk_subject_reference sub (py_opt_str subject_relation)) (\<lambda>sref.
       mk_relation_tuple res (PyStr relation) sref)))))"

section \<open>Serialisation\<close>

definition object_to_dict :: "object_reference \<Rightarrow> pyval" where
  "object_to_dict ob =
     PyDict [(''type'', PyDict [(''namespace'', PyStr (ot_namespace (or_type ob))),
                                (''name'', PyStr (ot_name (or_type ob)))]),
             (''id'', PyStr (or_id ob))]"

definition to_dict :: "relation_tuple \<Rightarrow> pyval" where
  "to_dict t =
     PyDict [(''resource'', object_to_dict (rt_resource t)),
             (''relation'', PyStr (rt_relation t)),
             (''subject'',
               PyDict ((''subject'', object_to_dict (sr_subject (rt_subject t))) #
                 (case sr_relation (rt_subject t) of
                    None \<Rightarrow> []
                  | Some r \<Rightarrow> [(''relation'', PyStr r)])))]"

definition as_optional :: "pyval \<Rightarrow> pyval" where
  "as_optional v = (if v \<noteq> PyStr [] then v else PyNone)"

definition object_from_dict :: "pyval \<Rightarrow> object_reference result" where
  "object_from_dict d =
     bind_r (py_getitem d ''type'') (\<lambda>ty.
     bind_r (py_getitem ty ''namespace'') (\<lambda>ns.
     bind_r (py_getitem d ''type'') (\<lambda>ty'.
     bind_r (py_getitem ty' ''name'') (\<lambda>nm.
     bind_r (mk_object_type ns nm) (\<lambda>ot.
     bind_r (py_getitem d ''id'') (\<lambda>i.
       mk_object_reference ot i))))))"

definition from_message_dict :: "pyval \<Rightarrow> relation_tuple result" where
  "from_message_dict relationship =
     bind_r (py_getitem relationship ''resource'') (\<lambda>res.
     bind_r (object_from_dict res) (\<lambda>resource.
     bind_r (py_getitem relationship ''relation'') (\<lambda>rel.
     bind_r (py_getitem relationship ''subject'') (\<lambda>subj.
     bind_r (py_getitem subj ''subject'') (\<lambda>inner.
     bind_r (object_from_dict inner) (\<lambda>subject.
     bind_r (py_get subj ''relation'' (PyStr [])) (\<lambda>srel.
     bind_r (mk_subject_reference subject (as_optional srel)) (\<lambda>sref.
       mk_relation_tuple resource rel sref))))))))"

definition stringify :: "relation_tuple \<Rightarrow> string" where
  "stringify t =
     (let res = rt_resource t; sub = sr_subject (rt_subject t) in
      ot_namespace (or_type res) @ ''/'' @ ot_name (or_type res) @ '':'' @ or_id res @ ''#'' @
      rt_relation t @ ''@'' @
      ot_namespace (or_type sub) @ ''/'' @ ot_name (or_type sub) @ '':'' @ or_id sub @
      (case sr_relation (rt_subject t) of
         None \<Rightarrow> []
       | Some r \<Rightarrow> (if r = [] then [] else ''#'' @ r)))"

definition stringify_spicedb_relationship :: "relation_tuple \<Rightarrow> string" where
  "stringify_spicedb_relationship t =
     (let res = rt_resource t; sub = sr_subject (rt_subject t) in
      ot_name (or_type res) @ '':'' @ or_id res @ ''#'' @ rt_relation t @ ''@'' @
      ot_name (or_type sub) @ '':'' @ or_id sub)"

section \<open>The invariant the constructors establish\<close>

definition valid_object_type :: "object_type \<Rightarrow> bool" where
  "valid_object_type t \<longleftrightarrow> ot_namespace t \<noteq> [] \<and> type_regex (ot_name t)"

definition valid_object_reference :: "object_reference \<Rightarrow> bool" where
  "valid_object_reference r \<longleftrightarrow> valid_object_type (or_type r) \<and> id_regex (or_id r)"

definition valid_relation_tuple :: "relation_tuple \<Rightarrow> bool" where
  "valid_relation_tuple t \<longleftrightarrow>
     valid_object_reference (rt_resource t) \<and> or_id (rt_resource t) \<noteq> ''*'' \<and>
     rt_relation t \<noteq> [] \<and>
     valid_object_reference (sr_subject (rt_subject t)) \<and>
     sr_relation (rt_subject t) \<noteq> Some []"

lemmas valid_defs = valid_relation_tuple_def valid_object_reference_def valid_object_type_def

lemma type_regex_nonempty [simp]: "\<not> type_regex []"
  by (simp add: type_regex_def)

lemma id_regex_nonempty [simp]: "\<not> id_regex []"
  by (simp add: id_regex_def)

lemma validate_required_str_simps [simp]:
  "validate_required_str PyNone = Inl TypeError"
  "validate_required_str (PyStr s) = (if s = [] then Inl ValueError else Inr s)"
  by (simp_all add: validate_required_str_def)

lemma validate_required_str_Inr_iff [result_simps]:
  "validate_required_str v = Inr s \<longleftrightarrow> v = PyStr s \<and> s \<noteq> []"
  by (auto simp: validate_required_str_def split: pyval.splits)

lemma validate_optional_str_Inr_iff [result_simps]:
  "validate_optional_str v = Inr r \<longleftrightarrow> v = py_opt_str r \<and> r \<noteq> Some []"
  by (auto simp: validate_optional_str_def py_opt_str_def split: pyval.splits option.splits)

lemma validate_pattern_Inr_iff [result_simps]: "validate_pattern p s = Inr u \<longleftrightarrow> p s"
  by (simp add: validate_pattern_def result_simps)

lemma mk_object_type_Inr_iff [result_simps]:
  "mk_object_type ns nm = Inr t \<longleftrightarrow>
     ns = PyStr (ot_namespace t) \<and> nm = PyStr (ot_name t) \<and> valid_object_type t"
  by (cases t) (auto simp: mk_object_type_def valid_object_type_def result_simps)

lemma mk_object_reference_Inr_iff [result_simps]:
  "mk_object_reference ty i = Inr r \<longleftrightarrow>
     ty = or_type r \<and> i = PyStr (or_id r) \<and> id_regex (or_id r)"
  by (cases r) (auto simp: mk_object_reference_def result_simps)

lemma mk_subject_reference_Inr_iff [result_simps]:
  "mk_subject_reference s r = Inr sref \<longleftrightarrow>
     s = sr_subject sref \<and> r = py_opt_str (sr_relation sref) \<and> sr_relation sref \<noteq> Some []"
  by (cases sref) (auto simp: mk_subject_reference_def result_simps)

lemma mk_relation_tuple_Inr_iff [result_simps]:
  "mk_relation_tuple res rel sub = Inr t \<longleftrightarrow>
     res = rt_resource t \<and> rel = PyStr (rt_relation t) \<and> sub = rt_subject t \<and>
     rt_relation t \<noteq> [] \<and> or_id (rt_resource t) \<noteq> ''*''"
  by (cases t) (auto simp: mk_relation_tuple_def result_simps)

lemma py_opt_str_inject [simp]: "py_opt_str a = py_opt_str b \<longleftrightarrow> a = b"
  by (auto simp: py_opt_str_def split: option.splits)

text \<open>The tuple a call describes, without the validation.\<close>

definition plain_tuple ::
  "string \<times> string \<Rightarrow> string \<Rightarrow> string \<times> string \<Rightarrow> string \<Rightarrow> string \<Rightarrow> string option
   \<Rightarrow> relation_tuple" where
  "plain_tuple rn ri sn si rel srel =
     \<lparr>rt_resource = \<lparr>or_type = \<lparr>ot_namespace = fst rn, ot_name = snd rn\<rparr>, or_id = ri\<rparr>,
      rt_relation = rel,
      rt_subject = \<lparr>sr_subject = \<lparr>or_type = \<lparr>ot_namespace = fst sn, ot_name = snd sn\<rparr>, or_id = si\<rparr>,
                    sr_relation = srel\<rparr>\<rparr>"

lemma create_relationship_Inr_iff [result_simps]:
  "create_relationship rn ri sn si rel srel = Inr t \<longleftrightarrow>
     t = plain_tuple rn ri sn si rel srel \<and> valid_relation_tuple t"
  by (cases rn; cases sn)
    (auto simp: create_relationship_def mk_object_type_def mk_object_reference_def
      mk_subject_reference_def mk_relation_tuple_def plain_tuple_def valid_defs bind_r_Inr_iff
      validate_required_str_Inr_iff validate_optional_str_Inr_iff validate_pattern_Inr_iff)

lemma create_relationship_valid:
  "valid_relation_tuple (plain_tuple rn ri sn si rel srel) \<Longrightarrow>
     create_relationship rn ri sn si rel srel = Inr (plain_tuple rn ri sn si rel srel)"
  by (simp add: create_relationship_Inr_iff)

lemma plain_tuple_inject [simp]:
  "plain_tuple rn ri sn si rel srel = plain_tuple rn' ri' sn' si' rel' srel' \<longleftrightarrow>
     rn = rn' \<and> ri = ri' \<and> sn = sn' \<and> si = si' \<and> rel = rel' \<and> srel = srel'"
  by (auto simp: plain_tuple_def prod_eq_iff)

section \<open>Separators\<close>

lemma id_regex_separators [simp]:
  "id_regex s \<Longrightarrow> CHR '':'' \<notin> set s"
  "id_regex s \<Longrightarrow> CHR ''#'' \<notin> set s"
  "id_regex s \<Longrightarrow> CHR ''@'' \<notin> set s"
  by (auto simp: id_regex_def id_char_def is_alnum_def list_all_iff)

lemma type_regex_separators [simp]:
  "type_regex s \<Longrightarrow> CHR '':'' \<notin> set s"
  "type_regex s \<Longrightarrow> CHR ''/'' \<notin> set s"
  "type_regex s \<Longrightarrow> CHR ''@'' \<notin> set s"
  by (auto simp: type_regex_def type_char_def is_alnum_def list_all_iff)

text \<open>What two tuples agree on when they have the same key.\<close>

definition same_up_to_namespace :: "relation_tuple \<Rightarrow> relation_tuple \<Rightarrow> bool" where
  "same_up_to_namespace t u \<longleftrightarrow>
     ot_name (or_type (rt_resource t)) = ot_name (or_type (rt_resource u)) \<and>
     or_id (rt_resource t) = or_id (rt_resource u) \<and>
     rt_relation t = rt_relation u \<and>
     ot_name (or_type (sr_subject (rt_subject t))) = ot_name (or_type (sr_subject (rt_subject u))) \<and>
     or_id (sr_subject (rt_subject t)) = or_id (sr_subject (rt_subject u))"

lemma key_eq_iff:
  assumes "valid_relation_tuple t" and "valid_relation_tuple u"
  shows "stringify_spicedb_relationship t = stringify_spicedb_relationship u \<longleftrightarrow>
           same_up_to_namespace t u"
proof -
  have key: "stringify_spicedb_relationship t =
      ((ot_name (or_type (rt_resource t)) @ CHR '':'' # or_id (rt_resource t) @ CHR ''#'' # rt_relation t)
        @ CHR ''@'' # ot_name (or_type (sr_subject (rt_subject t)))) @ CHR '':'' # or_id (sr_subject (rt_subject t))" for t
    by (simp add: stringify_spicedb_relationship_def Let_def)
  show ?thesis
    unfolding key using assms
    by (auto simp add: same_up_to_namespace_def valid_defs append_sep_inject append_last_sep_inject
        simp del: append_assoc append_Cons append.append_Cons)
qed

lemma object_round_trip:
  "valid_object_reference r \<Longrightarrow> object_from_dict (object_to_dict r) = Inr r"
  by (cases r; cases "or_type r")
    (simp add: object_from_dict_def object_to_dict_def result_simps valid_object_reference_def)

lemma object_from_dict_valid: "object_from_dict d = Inr r \<Longrightarrow> valid_object_reference r"
  by (auto simp: object_from_dict_def result_simps valid_object_reference_def)

lemma dict_round_trip:
  assumes "valid_relation_tuple t"
  shows "from_message_dict (to_dict t) = Inr t"
proof -
  let ?s = "rt_subject t"
  have objs: "object_from_dict (object_to_dict (rt_resource t)) = Inr (rt_resource t)"
    "object_from_dict (object_to_dict (sr_subject ?s)) = Inr (sr_subject ?s)"
    using assms by (simp_all add: valid_relation_tuple_def object_round_trip)
  have "as_optional (case sr_relation ?s of None \<Rightarrow> PyStr [] | Some r \<Rightarrow> PyStr r) =
      py_opt_str (sr_relation ?s)"
    using assms by (auto simp: as_optional_def valid_relation_tuple_def split: option.splits)
  with objs assms show ?thesis
    by (cases "sr_relation ?s")
      (auto simp: from_message_dict_def to_dict_def result_simps valid_relation_tuple_def)
qed

section \<open>Properties\<close>

text \<open>
  C29 (roundtrip): the dictionary a tuple is published as parses back to the same tuple, for
  every tuple the constructors can produce.
\<close>

theorem relation_tuple_dict_round_trip:
  "valid_relation_tuple t \<Longrightarrow> from_message_dict (to_dict t) = Inr t"
  by (rule dict_round_trip)

theorem relation_tuple_dict_round_trip_witness:
  "from_message_dict (to_dict (plain_tuple (''rbac'', ''role_binding'') ''b1''
       (''rbac'', ''group'') ''g1'' ''subject'' (Some ''member''))) =
     Inr (plain_tuple (''rbac'', ''role_binding'') ''b1''
       (''rbac'', ''group'') ''g1'' ''subject'' (Some ''member''))"
  by (rule relation_tuple_dict_round_trip)
    (simp add: plain_tuple_def valid_defs type_regex_def id_regex_def type_char_def id_char_def
      is_alnum_def)

text \<open>
  C30 (type): however a tuple comes to exist, by \<open>create_relationship\<close> or by parsing a
  published message, it satisfies the invariant: a matching type name, an allowed identifier, a
  resource that is not the wildcard, and no empty relation.
\<close>

theorem constructed_tuples_valid:
  "create_relationship rn ri sn si rel srel = Inr t \<or> from_message_dict d = Inr t \<Longrightarrow>
     valid_relation_tuple t"
  by (auto simp: from_message_dict_def valid_relation_tuple_def create_relationship_Inr_iff
      result_simps dest: object_from_dict_valid)

theorem constructed_tuples_valid_witness:
  "valid_relation_tuple (plain_tuple (''rbac'', ''role'') ''r1'' (''rbac'', ''principal'') ''*''
     ''inventory_hosts_read'' None)"
  by (rule constructed_tuples_valid [where rn = "(''rbac'', ''role'')" and ri = "''r1''"
        and sn = "(''rbac'', ''principal'')" and si = "''*''" and rel = "''inventory_hosts_read''"
        and srel = None])
    (simp add: create_relationship_Inr_iff plain_tuple_def valid_defs type_regex_def id_regex_def
      type_char_def id_char_def is_alnum_def)

text \<open>
  The one-line form of a tuple determines the tuple, so that it can serve as a
  key, provided namespaces contain no slash and relations no at sign (the constructors do not
  check these two).
\<close>

theorem stringify_inject:
  assumes "valid_relation_tuple t" and "valid_relation_tuple u"
    and "CHR ''@'' \<notin> set (rt_relation t)" and "CHR ''@'' \<notin> set (rt_relation u)"
    and "\<And>x. x \<in> {t, u} \<Longrightarrow> CHR ''/'' \<notin> set (ot_namespace (or_type (rt_resource x)))"
    and "\<And>x. x \<in> {t, u} \<Longrightarrow> CHR ''/'' \<notin> set (ot_namespace (or_type (sr_subject (rt_subject x))))"
  shows "stringify t = stringify u \<longleftrightarrow> t = u"
proof
  assume eq: "stringify t = stringify u"
  define tail :: "relation_tuple \<Rightarrow> string" where "tail x = (case sr_relation (rt_subject x) of None \<Rightarrow> []
      | Some r \<Rightarrow> (if r = [] then [] else ''#'' @ r))" for x
  let ?sub = "\<lambda>x. sr_subject (rt_subject x)"
  have parts: "ot_namespace (or_type (rt_resource t)) = ot_namespace (or_type (rt_resource u))"
    "ot_name (or_type (rt_resource t)) = ot_name (or_type (rt_resource u))"
    "or_id (rt_resource t) = or_id (rt_resource u)" "rt_relation t = rt_relation u"
    "ot_namespace (or_type (?sub t)) = ot_namespace (or_type (?sub u))"
    "ot_name (or_type (?sub t)) = ot_name (or_type (?sub u))"
    and rest: "or_id (?sub t) @ tail t = or_id (?sub u) @ tail u"
    using assms eq
    by (simp_all add: stringify_def Let_def valid_defs append_sep_inject tail_def)
  have ids: "CHR ''#'' \<notin> set (or_id (?sub t))" "CHR ''#'' \<notin> set (or_id (?sub u))"
    using assms(1,2) by (simp_all add: valid_defs)
  have "or_id (?sub t) = or_id (?sub u) \<and> tail t = tail u"
    using rest ids by (auto simp: tail_def append_sep_inject append_sep_absent split: option.splits if_splits)
  then have "or_id (?sub t) = or_id (?sub u)"
    and "sr_relation (rt_subject t) = sr_relation (rt_subject u)"
    using assms(1,2) by (auto simp: tail_def valid_defs split: option.splits if_splits)
  with parts show "t = u"
    by (intro relation_tuple.equality object_reference.equality object_type.equality
        subject_reference.equality) simp_all
qed simp

theorem stringify_inject_witness:
  "stringify (plain_tuple (''rbac'', ''role_binding'') ''b'' (''rbac'', ''group'') ''g'' ''subject'' None)
     \<noteq> stringify (plain_tuple (''rbac'', ''role_binding'') ''b'' (''rbac'', ''group'') ''g'' ''subject''
         (Some ''member''))"
  by (subst stringify_inject)
    (auto simp add: plain_tuple_def valid_defs type_regex_def id_regex_def type_char_def id_char_def
      is_alnum_def)

text \<open>
  C31 (equivalence): the key the duplicate checks use identifies exactly the tuples that agree
  on type names, identifiers and relation; it ignores the namespaces and the relation of the
  subject.
\<close>

theorem duplicate_key_characterisation:
  "stringify_spicedb_relationship t = stringify_spicedb_relationship u \<longleftrightarrow> same_up_to_namespace t u"
  if "valid_relation_tuple t" and "valid_relation_tuple u"
  using that by (rule key_eq_iff)

theorem duplicate_key_characterisation_witness:
  "stringify_spicedb_relationship
     (plain_tuple (''rbac'', ''role_binding'') ''b'' (''rbac'', ''group'') ''g'' ''subject'' None) =
   stringify_spicedb_relationship
     (plain_tuple (''rbac'', ''role_binding'') ''b'' (''rbac'', ''group'') ''g'' ''subject''
       (Some ''member''))"
  by (subst duplicate_key_characterisation)
    (simp_all add: plain_tuple_def valid_defs type_regex_def id_regex_def type_char_def id_char_def
      is_alnum_def same_up_to_namespace_def)

end
