(* ===== verification/Permission_Values.thy ===== *)
theory Permission_Values
  imports Rbac_Prelude
begin

text \<open>
  Permission values and V1 permission strings: \<open>management/permission/model.py\<close>.

  \<open>permission_value\<close> is the frozen dataclass; \<open>mk_permission_value\<close> is its constructor with
  the checks of \<open>__post_init__\<close>. The lemmas show the round trip with the V1 string and that
  \<open>subsumes\<close> is inclusion of the sets of concrete permissions.
\<close>

record permission_value =
  pv_application :: string
  pv_resource_type :: string
  pv_verb :: string

definition check_valid_component :: "string option \<Rightarrow> string result" where
  "check_valid_component v =
     (case v of
        None \<Rightarrow> Inl ValueError
      | Some s \<Rightarrow>
          if CHR '':'' \<in> set s then Inl ValueError
          else if s \<noteq> ''*'' \<and> CHR ''*'' \<in> set s then Inl ValueError
          else Inr s)"

definition mk_permission_value ::
  "string option \<Rightarrow> string option \<Rightarrow> string option \<Rightarrow> permission_value result" where
  "mk_permission_value application resource_type verb =
     bind_r (check_valid_component application) (\<lambda>a.
     bind_r (check_valid_component resource_type) (\<lambda>r.
     bind_r (check_valid_component verb) (\<lambda>v.
       if CHR ''*'' \<in> set a then Inl ValueError
       else Inr \<lparr>pv_application = a, pv_resource_type = r, pv_verb = v\<rparr>)))"

definition parse_v1 :: "string \<Rightarrow> permission_value result" where
  "parse_v1 permission_str =
     (case split_on CHR '':'' permission_str of
        [a, r, v] \<Rightarrow> mk_permission_value (Some a) (Some r) (Some v)
      | _ \<Rightarrow> Inl ValueError)"

definition with_unconstrained_resource_type :: "permission_value \<Rightarrow> permission_value result" where
  "with_unconstrained_resource_type p =
     mk_permission_value (Some (pv_application p)) (Some ''*'') (Some (pv_verb p))"

definition with_unconstrained_verb :: "permission_value \<Rightarrow> permission_value result" where
  "with_unconstrained_verb p =
     mk_permission_value (Some (pv_application p)) (Some (pv_resource_type p)) (Some ''*'')"

definition with_application_only :: "permission_value \<Rightarrow> permission_value result" where
  "with_application_only p =
     mk_permission_value (Some (pv_application p)) (Some ''*'') (Some ''*'')"

definition v1_string :: "permission_value \<Rightarrow> string" where
  "v1_string p = pv_application p @ '':'' @ pv_resource_type p @ '':'' @ pv_verb p"

definition is_wildcard :: "permission_value \<Rightarrow> bool" where
  "is_wildcard p \<longleftrightarrow> pv_resource_type p = ''*'' \<or> pv_verb p = ''*''"

definition subsumes :: "permission_value \<Rightarrow> permission_value \<Rightarrow> bool" where
  "subsumes p other =
     (if pv_application p \<noteq> pv_application other then False
      else if pv_resource_type p \<noteq> ''*'' \<and> pv_resource_type p \<noteq> pv_resource_type other then False
      else if pv_verb p \<noteq> ''*'' \<and> pv_verb p \<noteq> pv_verb other then False
      else True)"

text \<open>
  API dictionaries: \<open>data.get(key)\<close> is \<open>None\<close> for a missing key and for a null value alike, and
  the empty string is falsy.
\<close>

type_synonym str_dict = "(string \<times> string option) list"

definition dict_get :: "str_dict \<Rightarrow> string \<Rightarrow> string option" where
  "dict_get d k = (case map_of d k of None \<Rightarrow> None | Some v \<Rightarrow> v)"

definition truthy :: "string option \<Rightarrow> bool" where
  "truthy v = (case v of None \<Rightarrow> False | Some s \<Rightarrow> s \<noteq> [])"

definition from_v2_dict :: "str_dict \<Rightarrow> permission_value result" where
  "from_v2_dict data =
     (let application = dict_get data ''application'';
          resource_type = dict_get data ''resource_type'';
          operation = dict_get data ''operation'';
          verb = dict_get data ''verb''
      in if truthy operation \<and> truthy verb then Inl InvalidPermissionDataError
         else if application = None then Inl (RequiredFieldError ''application'')
         else if resource_type = None then Inl (RequiredFieldError ''resource_type'')
         else let verb_value = (if truthy operation then operation else verb)
              in if verb_value = None then Inl (RequiredFieldError ''operation'')
                 else mk_permission_value application resource_type verb_value)"

definition to_v2_dict :: "permission_value \<Rightarrow> str_dict" where
  "to_v2_dict p =
     [(''application'', Some (pv_application p)),
      (''resource_type'', Some (pv_resource_type p)),
      (''operation'', Some (pv_verb p))]"

text \<open>
  The \<open>Permission\<close> row: \<open>save\<close> splits the permission string into its columns, and
  \<open>v2_string\<close> is the name of the relation in the V2 schema.
\<close>

record permission_row =
  perm_application :: string
  perm_resource_type :: string
  perm_verb :: string
  perm_permission :: string

definition save_permission :: "permission_row \<Rightarrow> permission_row result" where
  "save_permission row =
     (case split_on CHR '':'' (perm_permission row) of
        a # r # v # _ \<Rightarrow>
          Inr (row\<lparr>perm_application := a, perm_resource_type := r, perm_verb := v\<rparr>)
      | _ \<Rightarrow> Inl IndexError)"

definition cleanNameForV2SchemaCompatibility :: "string \<Rightarrow> string" where
  "cleanNameForV2SchemaCompatibility name =
     str_replace CHR ''*'' ''all''
       (str_replace CHR '' '' ''_''
         (str_replace CHR '':'' ''_''
           (str_replace CHR ''.'' ''_''
             (str_replace CHR ''-'' ''_'' (str_lower name)))))"

definition v2_string :: "permission_row \<Rightarrow> string" where
  "v2_string row = cleanNameForV2SchemaCompatibility
     (perm_application row @ ''_'' @ perm_resource_type row @ ''_'' @ perm_verb row)"

section \<open>The invariant of permission values\<close>

definition valid_component :: "string \<Rightarrow> bool" where
  "valid_component s \<longleftrightarrow> CHR '':'' \<notin> set s \<and> (s = ''*'' \<or> CHR ''*'' \<notin> set s)"

definition valid_permission :: "permission_value \<Rightarrow> bool" where
  "valid_permission p \<longleftrightarrow>
     valid_component (pv_application p) \<and> CHR ''*'' \<notin> set (pv_application p) \<and>
     valid_component (pv_resource_type p) \<and> valid_component (pv_verb p)"

lemma valid_component_star [simp]: "valid_component ''*''"
  by (simp add: valid_component_def)

lemma check_valid_component_Inr_iff [result_simps]:
  "check_valid_component v = Inr s \<longleftrightarrow> v = Some s \<and> valid_component s"
  by (auto simp: check_valid_component_def valid_component_def split: option.splits)

lemma check_valid_component_Some:
  "check_valid_component (Some s) = (if valid_component s then Inr s else Inl ValueError)"
  by (auto simp: check_valid_component_def valid_component_def)

lemma mk_permission_value_Inr_iff [result_simps]:
  "mk_permission_value a r v = Inr p \<longleftrightarrow>
     a = Some (pv_application p) \<and> r = Some (pv_resource_type p) \<and> v = Some (pv_verb p) \<and>
     valid_permission p"
  by (cases p) (auto simp: mk_permission_value_def valid_permission_def result_simps)

lemma parse_v1_Inr_iff [result_simps]:
  "parse_v1 s = Inr p \<longleftrightarrow> valid_permission p \<and> s = v1_string p"
proof
  assume "parse_v1 s = Inr p"
  then have v: "valid_permission p"
    and sp: "split_on CHR '':'' s = [pv_application p, pv_resource_type p, pv_verb p]"
    by (auto simp: parse_v1_def result_simps split: list.splits)
  have "s = join_with CHR '':'' (split_on CHR '':'' s)" by (simp add: join_split)
  then have "s = v1_string p" by (simp add: sp v1_string_def)
  with v show "valid_permission p \<and> s = v1_string p" by blast
next
  assume p: "valid_permission p \<and> s = v1_string p"
  then have "split_on CHR '':'' s = [pv_application p, pv_resource_type p, pv_verb p]"
    by (simp add: v1_string_def split_on_append_sep split_on_no_sep valid_permission_def
        valid_component_def)
  with p show "parse_v1 s = Inr p" by (simp add: parse_v1_def mk_permission_value_Inr_iff)
qed

lemma with_unconstrained_simps [simp]:
  assumes "valid_permission p"
  shows "with_unconstrained_resource_type p = Inr (p\<lparr>pv_resource_type := ''*''\<rparr>)"
    and "with_unconstrained_verb p = Inr (p\<lparr>pv_verb := ''*''\<rparr>)"
    and "with_application_only p = Inr (p\<lparr>pv_resource_type := ''*'', pv_verb := ''*''\<rparr>)"
  using assms
  by (simp_all add: with_unconstrained_resource_type_def with_unconstrained_verb_def
      with_application_only_def mk_permission_value_Inr_iff valid_permission_def)

lemma subsumes_iff:
  "subsumes p q \<longleftrightarrow> pv_application p = pv_application q \<and>
     (pv_resource_type p = ''*'' \<or> pv_resource_type p = pv_resource_type q) \<and>
     (pv_verb p = ''*'' \<or> pv_verb p = pv_verb q)"
  by (auto simp: subsumes_def)

lemma subsumes_refl [simp]: "subsumes p p"
  by (simp add: subsumes_iff)

lemma subsumes_trans: "subsumes p q \<Longrightarrow> subsumes q r \<Longrightarrow> subsumes p r"
  by (auto simp: subsumes_iff)

lemma subsumes_antisym: "subsumes p q \<Longrightarrow> subsumes q p \<Longrightarrow> p = q"
  by (cases p; cases q) (auto simp: subsumes_iff)

text \<open>The concrete permissions a pattern grants.\<close>

definition denotes :: "permission_value \<Rightarrow> (string \<times> string \<times> string) set" where
  "denotes p = {(a, r, v). a = pv_application p \<and>
     (pv_resource_type p = ''*'' \<or> r = pv_resource_type p) \<and> (pv_verb p = ''*'' \<or> v = pv_verb p)}"

lemma denotes_iff:
  "(a, r, v) \<in> denotes p \<longleftrightarrow> a = pv_application p \<and>
     (pv_resource_type p = ''*'' \<or> r = pv_resource_type p) \<and> (pv_verb p = ''*'' \<or> v = pv_verb p)"
  by (simp add: denotes_def)

lemma denotes_mono_component:
  assumes "{r. s = ''*'' \<or> r = s} \<subseteq> {r. t = ''*'' \<or> r = t}"
  shows "t = ''*'' \<or> t = s"
  using assms by (cases "s = ''*''") auto

section \<open>Properties\<close>

text \<open>
  C33 (roundtrip): a permission string parses to a value exactly when it is the string of a
  valid value; printing and parsing are inverse to each other.
\<close>

theorem permission_string_round_trip:
  "(valid_permission p \<longrightarrow> parse_v1 (v1_string p) = Inr p) \<and>
   (parse_v1 s = Inr p \<longrightarrow> v1_string p = s)"
  by (auto simp: parse_v1_Inr_iff)

theorem permission_string_round_trip_witness:
  "parse_v1 ''inventory:hosts:*'' =
     Inr \<lparr>pv_application = ''inventory'', pv_resource_type = ''hosts'', pv_verb = ''*''\<rparr> \<and>
   v1_string \<lparr>pv_application = ''inventory'', pv_resource_type = ''hosts'', pv_verb = ''*''\<rparr>
     = ''inventory:hosts:*''"
proof -
  let ?p = "\<lparr>pv_application = ''inventory'', pv_resource_type = ''hosts'', pv_verb = ''*''\<rparr>"
  have s: "v1_string ?p = ''inventory:hosts:*''" by (simp add: v1_string_def)
  have "valid_permission ?p" by (simp add: valid_permission_def valid_component_def)
  then show ?thesis
    using permission_string_round_trip [of ?p "''inventory:hosts:*''"] s by simp
qed

text \<open>
  C32 (equivalence): a pattern subsumes another one exactly when every concrete permission the
  other grants is granted by it.
\<close>

theorem subsumes_is_inclusion: "subsumes p q \<longleftrightarrow> denotes q \<subseteq> denotes p"
proof
  assume "subsumes p q"
  then show "denotes q \<subseteq> denotes p" by (auto simp: subsumes_iff denotes_def)
next
  assume sub: "denotes q \<subseteq> denotes p"
  have in_p: "(pv_application q, r, v) \<in> denotes p"
    if "pv_resource_type q = ''*'' \<or> r = pv_resource_type q" and "pv_verb q = ''*'' \<or> v = pv_verb q"
    for r v
    using subsetD [OF sub, of "(pv_application q, r, v)"] that by (simp add: denotes_iff)
  from in_p [of "pv_resource_type q" "pv_verb q"] have app: "pv_application p = pv_application q"
    by (simp add: denotes_iff)
  have "{r. pv_resource_type q = ''*'' \<or> r = pv_resource_type q} \<subseteq>
      {r. pv_resource_type p = ''*'' \<or> r = pv_resource_type p}"
    "{r. pv_verb q = ''*'' \<or> r = pv_verb q} \<subseteq> {r. pv_verb p = ''*'' \<or> r = pv_verb p}"
    using in_p [of _ "pv_verb q"] in_p [of "pv_resource_type q"] by (auto simp: denotes_iff)
  then show "subsumes p q"
    using app by (auto simp: subsumes_iff dest!: denotes_mono_component)
qed

end
