(* ===== verification/Scope_Service.thy ===== *)
theory Scope_Service
  imports Permission_Values
begin

text \<open>
  The default scope of permissions: \<open>ImplicitResourceService\<close>, \<open>PermissionScopeCache\<close>,
  \<open>split_permissions_by_binding_scope\<close> and \<open>binding_scopes_for_permissions\<close> of
  \<open>management/permission/scope_service.py\<close>. (The parts of that file that name tenants and
  workspaces are in \<open>V2_Values\<close>.)

  The service's dictionary is an association list from patterns to scopes. A Python set is a
  list without duplicates in the order of insertion. Log messages are not modelled.
\<close>

section \<open>Scopes\<close>

datatype scope = SCOPE_DEFAULT | SCOPE_ROOT | SCOPE_TENANT | SCOPE_ALL

fun scope_value :: "scope \<Rightarrow> nat" where
  "scope_value SCOPE_DEFAULT = 1"
| "scope_value SCOPE_ROOT = 2"
| "scope_value SCOPE_TENANT = 3"
| "scope_value SCOPE_ALL = 4"

lemma scope_value_inject [simp]: "scope_value s = scope_value t \<longleftrightarrow> s = t"
  by (cases s; cases t) simp_all

instantiation scope :: linorder
begin

definition less_eq_scope :: "scope \<Rightarrow> scope \<Rightarrow> bool" where
  "less_eq_scope s t \<longleftrightarrow> scope_value s \<le> scope_value t"

definition less_scope :: "scope \<Rightarrow> scope \<Rightarrow> bool" where
  "less_scope s t \<longleftrightarrow> scope_value s < scope_value t"

instance
  by standard (auto simp: less_eq_scope_def less_scope_def)

end

definition CONCRETE_SCOPES :: "scope list" where
  "CONCRETE_SCOPES = [SCOPE_DEFAULT, SCOPE_ROOT, SCOPE_TENANT]"

section \<open>The service\<close>

type_synonym permissions_map = "(permission_value \<times> scope) list"

definition add_permission ::
  "permissions_map \<Rightarrow> permission_value \<Rightarrow> scope \<Rightarrow> permissions_map result" where
  "add_permission pm permission sc =
     (case map_of pm permission of
        Some previous \<Rightarrow>
          if previous \<noteq> sc then Inl ValueError else Inr (AList.update permission sc pm)
      | None \<Rightarrow> Inr (AList.update permission sc pm))"

definition add_scope_permissions ::
  "scope \<Rightarrow> permissions_map \<Rightarrow> string list \<Rightarrow> permissions_map result" where
  "add_scope_permissions sc pm permission_strs =
     foldM_r (\<lambda>m s. bind_r (parse_v1 s) (\<lambda>p. add_permission m p sc)) pm permission_strs"

definition init_service ::
  "string list \<Rightarrow> string list \<Rightarrow> string list option \<Rightarrow> string list option
   \<Rightarrow> permissions_map result" where
  "init_service root_scope_permissions tenant_scope_permissions default_scope_permissions
       all_scope_permissions =
     (let dflt = (case default_scope_permissions of None \<Rightarrow> [] | Some l \<Rightarrow> l);
          alls = (case all_scope_permissions of None \<Rightarrow> [] | Some l \<Rightarrow> l)
      in bind_r (add_scope_permissions SCOPE_ROOT [] root_scope_permissions) (\<lambda>m.
         bind_r (add_scope_permissions SCOPE_TENANT m tenant_scope_permissions) (\<lambda>m.
         bind_r (add_scope_permissions SCOPE_DEFAULT m dflt) (\<lambda>m.
           add_scope_permissions SCOPE_ALL m alls))))"

definition parse_setting :: "string \<Rightarrow> string list" where
  "parse_setting value =
     (if str_strip value = [] then [] else map str_strip (split_on CHR '','' value))"

definition from_settings ::
  "string \<Rightarrow> string \<Rightarrow> string \<Rightarrow> string \<Rightarrow> permissions_map result" where
  "from_settings root_setting tenant_setting default_setting all_setting =
     init_service (parse_setting root_setting) (parse_setting tenant_setting)
       (Some (parse_setting default_setting)) (Some (parse_setting all_setting))"

definition wildcard_candidates :: "permission_value \<Rightarrow> permission_value list result" where
  "wildcard_candidates parsed =
     bind_r (with_unconstrained_verb parsed) (\<lambda>v.
     bind_r (with_unconstrained_resource_type parsed) (\<lambda>r.
     bind_r (with_application_only parsed) (\<lambda>a.
       Inr (parsed # filter (\<lambda>wildcard. wildcard \<noteq> parsed) [v, r, a]))))"

definition is_explicitly_scoped :: "permissions_map \<Rightarrow> string \<Rightarrow> bool result" where
  "is_explicitly_scoped pm permission =
     bind_r (parse_v1 permission) (\<lambda>parsed.
     bind_r (wildcard_candidates parsed) (\<lambda>candidates.
       Inr (list_ex (\<lambda>c. map_of pm c \<noteq> None) candidates)))"

fun first_scope :: "permissions_map \<Rightarrow> permission_value list \<Rightarrow> scope" where
  "first_scope pm [] = SCOPE_DEFAULT"
| "first_scope pm (c # cs) = (case map_of pm c of Some s \<Rightarrow> s | None \<Rightarrow> first_scope pm cs)"

definition scope_for_permission :: "permissions_map \<Rightarrow> string \<Rightarrow> scope result" where
  "scope_for_permission pm permission =
     bind_r (parse_v1 permission) (\<lambda>parsed.
     bind_r (wildcard_candidates parsed) (\<lambda>candidates.
       Inr (first_scope pm candidates)))"

definition all_scopes_for_permission :: "permissions_map \<Rightarrow> string \<Rightarrow> scope list result" where
  "all_scopes_for_permission pm permission =
     bind_r (parse_v1 permission) (\<lambda>parsed.
     bind_r (scope_for_permission pm permission) (\<lambda>primary_scope.
       if \<not> is_wildcard parsed then Inr [primary_scope]
       else Inr (foldl (\<lambda>scopes (configured_perm, configured_scope).
              if configured_scope = primary_scope then scopes
              else if subsumes parsed configured_perm
              then (if configured_scope \<in> set scopes then scopes else scopes @ [configured_scope])
              else scopes) [primary_scope] pm)))"

definition max_scope :: "scope list \<Rightarrow> scope" where
  "max_scope scopes = (case scopes of [] \<Rightarrow> SCOPE_DEFAULT | s # ss \<Rightarrow> fold max ss s)"

definition highest_scope_for_permissions :: "permissions_map \<Rightarrow> string list \<Rightarrow> scope result" where
  "highest_scope_for_permissions pm permissions =
     bind_r (mapM_r (scope_for_permission pm) permissions) (\<lambda>scopes.
       Inr (max_scope (filter (\<lambda>s. s \<noteq> SCOPE_ALL) scopes)))"

fun all_resolve_to_all :: "permissions_map \<Rightarrow> string list \<Rightarrow> bool result" where
  "all_resolve_to_all pm [] = Inr True"
| "all_resolve_to_all pm (p # ps) =
     bind_r (scope_for_permission pm p) (\<lambda>s.
       if s = SCOPE_ALL then all_resolve_to_all pm ps else Inr False)"

definition is_all_scope_only :: "permissions_map \<Rightarrow> string list \<Rightarrow> bool result" where
  "is_all_scope_only pm permissions =
     (if permissions = [] then Inr False else all_resolve_to_all pm permissions)"

section \<open>Splitting the permissions of a role by binding scope\<close>

type_synonym scope_groups = "(scope \<times> string list) list"

definition group_get :: "scope_groups \<Rightarrow> scope \<Rightarrow> string list" where
  "group_get g s = (case map_of g s of None \<Rightarrow> [] | Some l \<Rightarrow> l)"

definition group_update :: "scope_groups \<Rightarrow> scope \<Rightarrow> string list \<Rightarrow> scope_groups" where
  "group_update g s ps = AList.update s (set_union (group_get g s) ps) g"

definition collect_by_scope :: "permissions_map \<Rightarrow> string list \<Rightarrow> scope_groups result" where
  "collect_by_scope pm permissions =
     foldM_r (\<lambda>g perm.
        bind_r (all_scopes_for_permission pm perm) (\<lambda>scopes.
          Inr (foldl (\<lambda>g s. group_update g s [perm]) g scopes))) [] permissions"

definition distribute_all :: "scope_groups \<Rightarrow> scope_groups" where
  "distribute_all g =
     (let all_perms = group_get g SCOPE_ALL; rest = AList.delete SCOPE_ALL g
      in if all_perms = [] then rest
         else let targets = (if rest = [] then [SCOPE_DEFAULT] else map fst rest)
              in foldl (\<lambda>g s. group_update g s all_perms) rest targets)"

definition merge_default_into_root :: "scope_groups \<Rightarrow> scope_groups" where
  "merge_default_into_root g =
     (if map_of g SCOPE_DEFAULT \<noteq> None \<and> map_of g SCOPE_ROOT \<noteq> None
      then AList.delete SCOPE_DEFAULT (group_update g SCOPE_ROOT (group_get g SCOPE_DEFAULT))
      else g)"

definition split_permissions_by_binding_scope ::
  "permissions_map \<Rightarrow> string list \<Rightarrow> scope_groups result" where
  "split_permissions_by_binding_scope pm permissions =
     (if permissions = [] then Inr []
      else bind_r (collect_by_scope pm permissions) (\<lambda>g.
        if g = [] then Inr [(SCOPE_DEFAULT, permissions)]
        else Inr (merge_default_into_root (distribute_all g))))"

definition binding_scopes_for_permissions ::
  "permissions_map \<Rightarrow> string list \<Rightarrow> scope list result" where
  "binding_scopes_for_permissions pm permissions =
     bind_r (split_permissions_by_binding_scope pm permissions) (\<lambda>split.
       if split = [] then Inr [SCOPE_DEFAULT]
       else Inr (sort_key scope_value (map fst split)))"

section \<open>The in-process cache of permission ids\<close>

type_synonym permission_table = "(int \<times> string) list"

record scope_cache =
  ids_by_scope_cached :: "(scope \<times> int list) list option"
  explicit_default_cached :: "int list option"

definition empty_scope_cache :: scope_cache where
  "empty_scope_cache = \<lparr>ids_by_scope_cached = None, explicit_default_cached = None\<rparr>"

definition cache_row ::
  "permissions_map \<Rightarrow> (scope \<times> int list) list \<times> int list \<Rightarrow> int \<times> string
   \<Rightarrow> ((scope \<times> int list) list \<times> int list) result" where
  "cache_row pm = (\<lambda>(by_scope, explicit) (pid, permission).
     bind_r (scope_for_permission pm permission) (\<lambda>s.
     bind_r (if s = SCOPE_DEFAULT then is_explicitly_scoped pm permission else Inr False) (\<lambda>expl.
       Inr (AList.update s (set_add pid (case map_of by_scope s of None \<Rightarrow> [] | Some l \<Rightarrow> l)) by_scope,
            if expl then set_add pid explicit else explicit))))"

definition build_cache ::
  "permissions_map \<Rightarrow> permission_table \<Rightarrow> ((scope \<times> int list) list \<times> int list) result" where
  "build_cache pm rows =
     foldM_r (cache_row pm)
       (map (\<lambda>s. (s, [])) [SCOPE_DEFAULT, SCOPE_ROOT, SCOPE_TENANT, SCOPE_ALL], []) rows"

definition ids_by_scope ::
  "permissions_map \<Rightarrow> permission_table \<Rightarrow> scope_cache
   \<Rightarrow> ((scope \<times> int list) list \<times> scope_cache) result" where
  "ids_by_scope pm rows c =
     (case ids_by_scope_cached c of
        Some m \<Rightarrow> Inr (m, c)
      | None \<Rightarrow> bind_r (build_cache pm rows) (\<lambda>(m, explicit).
          Inr (m, \<lparr>ids_by_scope_cached = Some m, explicit_default_cached = Some explicit\<rparr>)))"

definition ids_for_scopes ::
  "permissions_map \<Rightarrow> permission_table \<Rightarrow> scope_cache \<Rightarrow> scope list
   \<Rightarrow> (int list \<times> scope_cache) result" where
  "ids_for_scopes pm rows c scopes =
     (if scopes = [] then Inr ([], c)
      else bind_r (ids_by_scope pm rows c) (\<lambda>(m, c').
        Inr (foldl (\<lambda>acc s. set_union acc (case map_of m s of None \<Rightarrow> [] | Some l \<Rightarrow> l)) [] scopes, c')))"

definition explicit_default_ids ::
  "permissions_map \<Rightarrow> permission_table \<Rightarrow> scope_cache \<Rightarrow> (int list \<times> scope_cache) result" where
  "explicit_default_ids pm rows c =
     bind_r (ids_by_scope pm rows c) (\<lambda>(m, c').
       case explicit_default_cached c' of
         None \<Rightarrow> Inl AssertionError
       | Some ids \<Rightarrow> Inr (ids, c'))"

definition invalidate :: "scope_cache \<Rightarrow> scope_cache" where
  "invalidate c = c\<lparr>ids_by_scope_cached := None, explicit_default_cached := None\<rparr>"

section \<open>Candidates and the precedence of patterns\<close>

text \<open>Exact patterns come first, then an open verb, then an open resource type, then both.\<close>

definition specificity :: "permission_value \<Rightarrow> nat" where
  "specificity c = (if pv_resource_type c = ''*'' then 2 else 0) + (if pv_verb c = ''*'' then 1 else 0)"

definition candidates :: "permission_value \<Rightarrow> permission_value list" where
  "candidates p = p # filter (\<lambda>w. w \<noteq> p)
     [p\<lparr>pv_verb := ''*''\<rparr>, p\<lparr>pv_resource_type := ''*''\<rparr>,
      p\<lparr>pv_resource_type := ''*'', pv_verb := ''*''\<rparr>]"

lemma wildcard_candidates_eq:
  "valid_permission p \<Longrightarrow> wildcard_candidates p = Inr (candidates p)"
  by (simp add: wildcard_candidates_def candidates_def)

lemma candidates_iff_subsumes: "c \<in> set (candidates p) \<longleftrightarrow> subsumes c p"
  by (cases c; cases p) (auto simp: candidates_def subsumes_iff)

lemma candidates_sorted: "sorted_wrt (\<lambda>c d. specificity c \<le> specificity d) (candidates p)"
  by (cases p) (auto simp: candidates_def specificity_def)

lemma first_scope_cases:
  "(\<forall>c \<in> set cs. map_of pm c = None) \<and> first_scope pm cs = SCOPE_DEFAULT \<or>
   (\<exists>ys c zs. cs = ys @ c # zs \<and> (\<forall>y \<in> set ys. map_of pm y = None) \<and>
      map_of pm c = Some (first_scope pm cs))"
proof (induction cs)
  case (Cons c cs)
  show ?case
  proof (cases "map_of pm c")
    case None
    with Cons show ?thesis
    proof (elim disjE exE conjE)
      fix ys d zs
      assume "cs = ys @ d # zs" "\<forall>y \<in> set ys. map_of pm y = None"
        "map_of pm d = Some (first_scope pm cs)"
      with None show ?thesis
        by (intro disjI2 exI [of _ "c # ys"] exI [of _ d] exI [of _ zs]) simp
    qed simp
  next
    case (Some s)
    then show ?thesis by (intro disjI2 exI [of _ "[]"]) auto
  qed
qed simp

lemma parsed_candidates: "parse_v1 s = Inr p \<Longrightarrow> wildcard_candidates p = Inr (candidates p)"
  by (rule wildcard_candidates_eq) (simp add: parse_v1_Inr_iff)

lemma scope_for_permission_eq:
  "parse_v1 s = Inr p \<Longrightarrow> scope_for_permission pm s = Inr (first_scope pm (candidates p))"
  by (simp add: scope_for_permission_def parsed_candidates)

lemma scope_for_permission_ok_iff: "is_ok (scope_for_permission pm s) \<longleftrightarrow> is_ok (parse_v1 s)"
  by (cases "parse_v1 s") (simp_all add: scope_for_permission_def parsed_candidates)

lemma is_explicitly_scoped_eq:
  "parse_v1 s = Inr p \<Longrightarrow>
     is_explicitly_scoped pm s = Inr (\<exists>c. subsumes c p \<and> map_of pm c \<noteq> None)"
  by (simp add: is_explicitly_scoped_def parsed_candidates list_ex_iff candidates_iff_subsumes Bex_def)

section \<open>All scopes of a permission\<close>

lemma foldl_scopes_set:
  "set (foldl (\<lambda>scopes (c, s). if s = pr then scopes
        else if Q c then (if s \<in> set scopes then scopes else scopes @ [s]) else scopes) acc pm) =
     set acc \<union> {s. \<exists>c. (c, s) \<in> set pm \<and> s \<noteq> pr \<and> Q c}"
proof (induction pm arbitrary: acc)
  case (Cons x pm)
  obtain c s where x: "x = (c, s)" by (cases x)
  show ?case
    unfolding x
    by (cases "s = pr"; cases "Q c"; cases "s \<in> set acc") (auto simp: Cons.IH)
qed simp

lemma all_scopes_set:
  assumes "parse_v1 s = Inr p" and "all_scopes_for_permission pm s = Inr ss"
  shows "set ss = insert (first_scope pm (candidates p))
     {t. is_wildcard p \<and> (\<exists>c. (c, t) \<in> set pm \<and> subsumes p c)}"
  using assms
  by (auto simp: all_scopes_for_permission_def scope_for_permission_eq foldl_scopes_set
      split: if_splits)

lemma all_scopes_ok:
  "parse_v1 s = Inr p \<Longrightarrow> \<exists>ss. all_scopes_for_permission pm s = Inr ss \<and> ss \<noteq> []"
  using all_scopes_set [of s p pm]
  by (cases "all_scopes_for_permission pm s")
    (auto simp: all_scopes_for_permission_def scope_for_permission_eq split: if_splits)

lemma all_scopes_parses:
  "all_scopes_for_permission pm s = Inr ss \<Longrightarrow> \<exists>p. parse_v1 s = Inr p"
  by (auto simp: all_scopes_for_permission_def result_simps)

lemma primary_in_all_scopes:
  "scope_for_permission pm s = Inr sc \<Longrightarrow> all_scopes_for_permission pm s = Inr ss \<Longrightarrow> sc \<in> set ss"
  using all_scopes_parses [of pm s ss] all_scopes_set [of s _ pm ss]
  by (auto simp: scope_for_permission_eq)

section \<open>Properties of scope lookup\<close>

text \<open>
  C20 (functional): the scope of a permission is the one configured for the most specific
  configured pattern that covers it, and the default workspace when no pattern covers it.
\<close>

theorem scope_for_permission_most_specific:
  assumes "parse_v1 s = Inr p"
  shows "\<exists>sc. scope_for_permission pm s = Inr sc \<and>
    (if \<exists>c. map_of pm c \<noteq> None \<and> subsumes c p
     then \<exists>c. map_of pm c = Some sc \<and> subsumes c p \<and>
            (\<forall>c'. map_of pm c' \<noteq> None \<and> subsumes c' p \<longrightarrow> specificity c \<le> specificity c')
     else sc = SCOPE_DEFAULT)"
proof -
  let ?cs = "candidates p"
  consider (none) "\<forall>c \<in> set ?cs. map_of pm c = None" "first_scope pm ?cs = SCOPE_DEFAULT"
    | (hit) ys c zs where "?cs = ys @ c # zs" "\<forall>y \<in> set ys. map_of pm y = None"
        "map_of pm c = Some (first_scope pm ?cs)"
    using first_scope_cases [of ?cs pm] by blast
  then show ?thesis
  proof cases
    case none
    then show ?thesis
      using assms by (auto simp: scope_for_permission_eq candidates_iff_subsumes)
  next
    case (hit ys c zs)
    have le: "specificity c \<le> specificity c'"
      if "map_of pm c' \<noteq> None" and "subsumes c' p" for c'
    proof -
      from that have "c' \<in> set (c # zs)"
        using hit(1,2) candidates_iff_subsumes [of c' p] by auto
      then show ?thesis
        using candidates_sorted [of p] hit(1) by (auto simp: sorted_wrt_append)
    qed
    have "subsumes c p"
      using hit(1) candidates_iff_subsumes [of c p] by simp
    moreover from this hit(3) have "\<exists>c. map_of pm c \<noteq> None \<and> subsumes c p" by auto
    ultimately show ?thesis
      using assms hit(3) le by (auto simp: scope_for_permission_eq)
  qed
qed

theorem scope_for_permission_most_specific_witness:
  "\<exists>sc. scope_for_permission
       [(\<lparr>pv_application = ''rbac'', pv_resource_type = ''*'', pv_verb = ''*''\<rparr>, SCOPE_TENANT)]
       ''rbac:role:read'' = Inr sc \<and> sc = SCOPE_TENANT"
proof -
  let ?c = "\<lparr>pv_application = ''rbac'', pv_resource_type = ''*'', pv_verb = ''*''\<rparr>"
  let ?p = "\<lparr>pv_application = ''rbac'', pv_resource_type = ''role'', pv_verb = ''read''\<rparr>"
  have p: "parse_v1 ''rbac:role:read'' = Inr ?p"
    by (simp add: parse_v1_Inr_iff valid_permission_def valid_component_def v1_string_def)
  have "\<exists>c. map_of [(?c, SCOPE_TENANT)] c \<noteq> None \<and> subsumes c ?p"
    by (rule exI [of _ ?c]) (simp add: subsumes_iff)
  with scope_for_permission_most_specific [OF p, of "[(?c, SCOPE_TENANT)]"] show ?thesis
    by (auto split: if_splits)
qed

section \<open>Configuration\<close>

text \<open>The configured strings with their scopes, in the order in which they are added.\<close>

definition setting_entries ::
  "string list \<Rightarrow> string list \<Rightarrow> string list \<Rightarrow> string list \<Rightarrow> (scope \<times> string) list" where
  "setting_entries r t d a = map (Pair SCOPE_ROOT) r @ map (Pair SCOPE_TENANT) t @
     map (Pair SCOPE_DEFAULT) d @ map (Pair SCOPE_ALL) a"

definition add_entry :: "permissions_map \<Rightarrow> scope \<times> string \<Rightarrow> permissions_map result" where
  "add_entry m e = bind_r (parse_v1 (snd e)) (\<lambda>p. add_permission m p (fst e))"

lemma add_scope_permissions_entries:
  "add_scope_permissions sc m strs = foldM_r add_entry m (map (Pair sc) strs)"
  by (induction strs arbitrary: m) (simp_all add: add_scope_permissions_def add_entry_def)

lemma init_service_entries:
  "init_service r t (Some d) (Some a) = foldM_r add_entry [] (setting_entries r t d a)"
  by (simp add: init_service_def add_scope_permissions_entries setting_entries_def foldM_r_append)

lemma add_permission_Inr_iff [result_simps]:
  "add_permission m p s = Inr m' \<longleftrightarrow>
     (map_of m p = None \<or> map_of m p = Some s) \<and> m' = AList.update p s m"
  by (auto simp: add_permission_def split: option.splits)

lemma foldM_add_entry_Cons:
  assumes "foldM_r add_entry m (e # es) = Inr pm"
  obtains q where "parse_v1 (snd e) = Inr q" "map_of m q = None \<or> map_of m q = Some (fst e)"
    "foldM_r add_entry (AList.update q (fst e) m) es = Inr pm"
  using assms by (auto simp: add_entry_def result_simps)

lemma foldM_add_entry_map:
  "foldM_r add_entry m es = Inr pm \<Longrightarrow>
     map_of pm p = Some s \<longleftrightarrow>
     map_of m p = Some s \<or> (\<exists>e \<in> set es. fst e = s \<and> parse_v1 (snd e) = Inr p)"
proof (induction es arbitrary: m)
  case (Cons e es)
  from Cons.prems obtain q where q: "parse_v1 (snd e) = Inr q"
    "map_of m q = None \<or> map_of m q = Some (fst e)"
    and rest: "foldM_r add_entry (AList.update q (fst e) m) es = Inr pm"
    by (rule foldM_add_entry_Cons)
  from Cons.IH [OF rest] q show ?case by (auto split: if_splits)
qed simp

lemma foldM_add_entry_consistent:
  "foldM_r add_entry m es = Inr pm \<Longrightarrow> e \<in> set es \<Longrightarrow>
     \<exists>p. parse_v1 (snd e) = Inr p \<and> map_of pm p = Some (fst e)"
proof (induction es arbitrary: m)
  case (Cons e' es)
  from Cons.prems(1) obtain q where q: "parse_v1 (snd e') = Inr q"
    "map_of m q = None \<or> map_of m q = Some (fst e')"
    and rest: "foldM_r add_entry (AList.update q (fst e') m) es = Inr pm"
    by (rule foldM_add_entry_Cons)
  show ?case
  proof (cases "e = e'")
    case True
    with q(1) foldM_add_entry_map [OF rest, of q "fst e'"] show ?thesis by simp
  next
    case False
    with Cons.prems(2) Cons.IH [OF rest] show ?thesis by simp
  qed
qed simp

definition entries_parse :: "(scope \<times> string) list \<Rightarrow> bool" where
  "entries_parse es \<longleftrightarrow> list_all (\<lambda>e. is_ok (parse_v1 (snd e))) es"

definition no_conflict :: "(scope \<times> string) list \<Rightarrow> bool" where
  "no_conflict es \<longleftrightarrow> list_all (\<lambda>e. list_all (\<lambda>e'. snd e = snd e' \<longrightarrow> fst e = fst e') es) es"

lemma no_conflictD:
  "no_conflict es \<Longrightarrow> e \<in> set es \<Longrightarrow> e' \<in> set es \<Longrightarrow> snd e = snd e' \<Longrightarrow> fst e = fst e'"
  unfolding no_conflict_def list_all_iff by blast

lemma no_conflict_tl: "no_conflict (e # es) \<Longrightarrow> no_conflict es"
  unfolding no_conflict_def list_all_iff by (meson list.set_intros(2))

lemma parse_v1_inj: "parse_v1 a = Inr p \<Longrightarrow> parse_v1 b = Inr p \<Longrightarrow> a = b"
  by (simp add: parse_v1_Inr_iff)

lemma foldM_add_entry_ok:
  assumes "entries_parse es" and "no_conflict es"
    and "\<And>p s e. map_of m p = Some s \<Longrightarrow> e \<in> set es \<Longrightarrow> parse_v1 (snd e) = Inr p \<Longrightarrow> fst e = s"
  shows "is_ok (foldM_r add_entry m es)"
  using assms
proof (induction es arbitrary: m)
  case Nil
  show ?case by simp
next
  case (Cons e es)
  obtain q where q: "parse_v1 (snd e) = Inr q"
    using Cons.prems(1) by (auto simp: entries_parse_def is_ok_iff)
  have "map_of m q = None \<or> map_of m q = Some (fst e)"
    using Cons.prems(3) [OF _ _ q] by (cases "map_of m q") auto
  then have step: "add_entry m e = Inr (AList.update q (fst e) m)"
    using q by (simp add: add_entry_def add_permission_Inr_iff)
  have "is_ok (foldM_r add_entry (AList.update q (fst e) m) es)"
  proof (rule Cons.IH)
    show "entries_parse es" using Cons.prems(1) by (simp add: entries_parse_def)
    show "no_conflict es" using Cons.prems(2) by (rule no_conflict_tl)
    fix p t e'
    assume t: "map_of (AList.update q (fst e) m) p = Some t"
      and e': "e' \<in> set es" "parse_v1 (snd e') = Inr p"
    show "fst e' = t"
    proof (cases "p = q")
      case True
      with e'(2) q have "snd e' = snd e" by (metis parse_v1_inj)
      with True t e'(1) no_conflictD [OF Cons.prems(2), of e' e] show ?thesis by simp
    next
      case False
      with t e' Cons.prems(3) [of p t e'] show ?thesis by simp
    qed
  qed
  with step show ?case by simp
qed

lemma foldM_add_entry_ok_iff:
  "is_ok (foldM_r add_entry [] es) \<longleftrightarrow> entries_parse es \<and> no_conflict es"
proof
  assume "is_ok (foldM_r add_entry [] es)"
  then obtain pm where ok: "foldM_r add_entry [] es = Inr pm" by (auto simp: is_ok_iff)
  note c = foldM_add_entry_consistent [OF ok]
  have "entries_parse es"
    using c by (auto simp: entries_parse_def list_all_iff is_ok_iff)
  moreover have "fst e = fst e'" if "e \<in> set es" "e' \<in> set es" "snd e = snd e'" for e e'
    using c [OF that(1)] c [OF that(2)] that(3) by auto
  ultimately show "entries_parse es \<and> no_conflict es"
    unfolding no_conflict_def list_all_iff by blast
next
  assume "entries_parse es \<and> no_conflict es"
  then show "is_ok (foldM_r add_entry [] es)" by (intro foldM_add_entry_ok) auto
qed

text \<open>
  C25 (error): configuring the service succeeds exactly when every configured string is a
  permission and no string is configured for two scopes; it then maps each permission to the
  scope whose setting lists it, and nothing else.
\<close>

theorem init_service_correct:
  "(is_ok (init_service r t (Some d) (Some a)) \<longleftrightarrow>
      entries_parse (setting_entries r t d a) \<and> no_conflict (setting_entries r t d a)) \<and>
   (init_service r t (Some d) (Some a) = Inr pm \<longrightarrow>
      (map_of pm p = Some s \<longleftrightarrow>
       (\<exists>e \<in> set (setting_entries r t d a). fst e = s \<and> parse_v1 (snd e) = Inr p)))"
  using foldM_add_entry_map [of "[]" "setting_entries r t d a" pm p s]
  by (simp add: init_service_entries foldM_add_entry_ok_iff)

theorem init_service_correct_witness:
  "\<exists>pm. init_service [] [''rbac:*:*''] (Some [''rbac:role_binding:*'']) (Some []) = Inr pm \<and>
     map_of pm \<lparr>pv_application = ''rbac'', pv_resource_type = ''*'', pv_verb = ''*''\<rparr> = Some SCOPE_TENANT"
proof -
  let ?p = "\<lparr>pv_application = ''rbac'', pv_resource_type = ''*'', pv_verb = ''*''\<rparr>"
  let ?q = "\<lparr>pv_application = ''rbac'', pv_resource_type = ''role_binding'', pv_verb = ''*''\<rparr>"
  have p: "parse_v1 ''rbac:*:*'' = Inr ?p" "parse_v1 ''rbac:role_binding:*'' = Inr ?q"
    by (simp_all add: parse_v1_Inr_iff valid_permission_def valid_component_def v1_string_def)
  note c = init_service_correct [of "[]" "[''rbac:*:*'']" "[''rbac:role_binding:*'']" "[]" _ ?p SCOPE_TENANT]
  have "is_ok (init_service [] [''rbac:*:*''] (Some [''rbac:role_binding:*'']) (Some []))"
    using c by (simp add: p entries_parse_def no_conflict_def setting_entries_def)
  then obtain pm where "init_service [] [''rbac:*:*''] (Some [''rbac:role_binding:*'']) (Some []) = Inr pm"
    by (auto simp: is_ok_iff)
  with c [of pm] p show ?thesis by (simp add: setting_entries_def)
qed

section \<open>The split of permissions into binding groups\<close>

definition scopes_of :: "permissions_map \<Rightarrow> string \<Rightarrow> scope list" where
  "scopes_of pm perm = res_default [] (all_scopes_for_permission pm perm)"

definition keys_of :: "scope_groups \<Rightarrow> scope set" where
  "keys_of g = fst ` set g"

lemma keys_of_dom: "keys_of g = dom (map_of g)"
  by (simp add: keys_of_def dom_map_of_conv_image_fst)

lemma keys_of_simps [simp]:
  "keys_of [] = {}"
  "keys_of (group_update g s ps) = insert s (keys_of g)"
  "keys_of (AList.delete s g) = keys_of g - {s}"
  by (simp_all add: keys_of_dom group_update_def)

lemma keys_of_map_of: "map_of g s \<noteq> None \<longleftrightarrow> s \<in> keys_of g"
  by (auto simp: keys_of_dom)

lemma group_get_simps [simp]:
  "group_get [] s = []"
  "group_get (group_update g t ps) s =
     (if s = t then set_union (group_get g t) ps else group_get g s)"
  "group_get (AList.delete t g) s = (if s = t then [] else group_get g s)"
  by (simp_all add: group_get_def group_update_def)

lemma distinct_group_update: "distinct (map fst g) \<Longrightarrow> distinct (map fst (group_update g s ps))"
  by (simp add: group_update_def distinct_update)

lemma foldl_group_update_get:
  "set (group_get (foldl (\<lambda>g s. group_update g s ps) g ss) s) =
     set (group_get g s) \<union> (if s \<in> set ss then set ps else {})"
  by (induction ss arbitrary: g) auto

lemma foldl_group_update_keys:
  "keys_of (foldl (\<lambda>g s. group_update g s ps) g ss) = keys_of g \<union> set ss"
  by (induction ss arbitrary: g) auto

lemma foldl_group_update_distinct:
  "distinct (map fst g) \<Longrightarrow> distinct (map fst (foldl (\<lambda>g s. group_update g s ps) g ss))"
  by (induction ss arbitrary: g) (simp_all add: distinct_group_update)

text \<open>The first loop, from any intermediate dictionary.\<close>

definition collect_step :: "permissions_map \<Rightarrow> scope_groups \<Rightarrow> string \<Rightarrow> scope_groups result" where
  "collect_step pm g perm = bind_r (all_scopes_for_permission pm perm) (\<lambda>scopes.
     Inr (foldl (\<lambda>g s. group_update g s [perm]) g scopes))"

lemma collect_by_scope_step: "collect_by_scope pm permissions = foldM_r (collect_step pm) [] permissions"
  by (simp add: collect_by_scope_def collect_step_def [abs_def])

lemma collect_step_Inr:
  "collect_step pm g perm = Inr g' \<longleftrightarrow> is_ok (all_scopes_for_permission pm perm) \<and>
     g' = foldl (\<lambda>g s. group_update g s [perm]) g (scopes_of pm perm)"
  by (cases "all_scopes_for_permission pm perm") (auto simp: collect_step_def scopes_of_def res_default_def)

lemma collect_from:
  assumes "foldM_r (collect_step pm) g0 perms = Inr g"
  shows "set (group_get g s) = set (group_get g0 s) \<union> {x \<in> set perms. s \<in> set (scopes_of pm x)}
    \<and> keys_of g = keys_of g0 \<union> (\<Union>x \<in> set perms. set (scopes_of pm x))
    \<and> (distinct (map fst g0) \<longrightarrow> distinct (map fst g))"
  using assms
proof (induction perms arbitrary: g0)
  case (Cons x perms)
  let ?g1 = "foldl (\<lambda>g s. group_update g s [x]) g0 (scopes_of pm x)"
  from Cons.prems have rest: "foldM_r (collect_step pm) ?g1 perms = Inr g"
    by (auto simp: bind_r_Inr_iff collect_step_Inr)
  have "set (group_get ?g1 s) = set (group_get g0 s) \<union> (if s \<in> set (scopes_of pm x) then {x} else {})"
    by (simp add: foldl_group_update_get)
  moreover have "keys_of ?g1 = keys_of g0 \<union> set (scopes_of pm x)"
    by (rule foldl_group_update_keys)
  moreover note foldl_group_update_distinct [of g0 "[x]" "scopes_of pm x"]
  ultimately show ?case using Cons.IH [OF rest] by (simp split: if_splits) blast+
qed simp

lemma collect_by_scope_props:
  assumes "collect_by_scope pm perms = Inr g"
  shows "set (group_get g s) = {x \<in> set perms. s \<in> set (scopes_of pm x)}"
    and "keys_of g = (\<Union>x \<in> set perms. set (scopes_of pm x))"
    and "distinct (map fst g)"
  using collect_from [of pm "[]" perms g s] assms by (simp_all add: collect_by_scope_step)

lemma collect_ok_iff: "is_ok (foldM_r (collect_step pm) g perms) \<longleftrightarrow> list_all (\<lambda>x. is_ok (parse_v1 x)) perms"
proof (induction perms arbitrary: g)
  case (Cons x perms)
  show ?case
  proof (cases "parse_v1 x")
    case (Inl e)
    then show ?thesis by (simp add: collect_step_def all_scopes_for_permission_def)
  next
    case (Inr p)
    then obtain ss where "all_scopes_for_permission pm x = Inr ss" using all_scopes_ok by blast
    with Inr Cons.IH show ?thesis by (simp add: collect_step_def)
  qed
qed simp

lemma scopes_of_not_Nil: "is_ok (parse_v1 x) \<Longrightarrow> scopes_of pm x \<noteq> []"
  using all_scopes_ok [of x _ pm] by (auto simp: is_ok_iff scopes_of_def res_default_def)

lemma keys_of_Nil_iff: "keys_of g = {} \<longleftrightarrow> g = []"
  by (simp add: keys_of_def)

lemma distribute_all_props:
  assumes "distinct (map fst g)" and "g \<noteq> []" and "SCOPE_ALL \<in> keys_of g \<Longrightarrow> group_get g SCOPE_ALL \<noteq> []"
  shows "distinct (map fst (distribute_all g))"
    and "SCOPE_ALL \<notin> keys_of (distribute_all g)"
    and "keys_of (distribute_all g) =
           (if keys_of g = {SCOPE_ALL} then {SCOPE_DEFAULT} else keys_of g - {SCOPE_ALL})"
    and "set (group_get (distribute_all g) s) =
           (if s \<in> keys_of (distribute_all g) then set (group_get g s) \<union> set (group_get g SCOPE_ALL) else {})"
proof -
  let ?rest = "AList.delete SCOPE_ALL g"
  have nil: "?rest = [] \<longleftrightarrow> keys_of g - {SCOPE_ALL} = {}"
    using keys_of_simps(3) [of SCOPE_ALL g] keys_of_Nil_iff [of ?rest] by simp
  have absent: "t \<notin> keys_of g \<Longrightarrow> group_get g t = []" for t
    using keys_of_map_of [of g t] by (auto simp: group_get_def)
  have ne: "keys_of g \<noteq> {}" using assms(2) by (simp add: keys_of_Nil_iff)
  have d: "distinct (map fst ?rest)" using assms(1) by (rule distinct_delete)
  have k: "set (map fst ?rest) = keys_of g - {SCOPE_ALL}"
    using keys_of_simps(3) [of SCOPE_ALL g] by (simp add: keys_of_def)
  show "distinct (map fst (distribute_all g))"
    using d by (auto simp: distribute_all_def Let_def foldl_group_update_distinct distinct_group_update)
  show keys: "keys_of (distribute_all g) =
           (if keys_of g = {SCOPE_ALL} then {SCOPE_DEFAULT} else keys_of g - {SCOPE_ALL})"
    using nil ne k assms(3)
    by (cases "group_get g SCOPE_ALL = []")
      (auto simp: distribute_all_def Let_def foldl_group_update_keys)
  then show "SCOPE_ALL \<notin> keys_of (distribute_all g)" by simp
  show "set (group_get (distribute_all g) s) =
           (if s \<in> keys_of (distribute_all g) then set (group_get g s) \<union> set (group_get g SCOPE_ALL) else {})"
    unfolding keys using nil ne k assms(3) absent
    by (cases "group_get g SCOPE_ALL = []")
      (auto simp: distribute_all_def Let_def foldl_group_update_get split: if_splits)
qed
lemma merge_default_props:
  fixes g defines "both \<equiv> SCOPE_DEFAULT \<in> keys_of g \<and> SCOPE_ROOT \<in> keys_of g"
  shows "distinct (map fst g) \<Longrightarrow> distinct (map fst (merge_default_into_root g))"
    and "keys_of (merge_default_into_root g) = (if both then keys_of g - {SCOPE_DEFAULT} else keys_of g)"
    and "set (group_get (merge_default_into_root g) s) =
      (if both then (if s = SCOPE_ROOT then set (group_get g SCOPE_ROOT) \<union> set (group_get g SCOPE_DEFAULT)
                     else if s = SCOPE_DEFAULT then {} else set (group_get g s))
       else set (group_get g s))"
  unfolding merge_default_into_root_def keys_of_map_of both_def
  by (simp_all add: distinct_delete distinct_group_update insert_absorb)

lemma split_ok_iff:
  "is_ok (split_permissions_by_binding_scope pm perms) \<longleftrightarrow> list_all (\<lambda>x. is_ok (parse_v1 x)) perms"
  unfolding split_permissions_by_binding_scope_def collect_by_scope_step
  using collect_ok_iff [of pm "[]" perms]
  by (cases "foldM_r (collect_step pm) [] perms") auto

text \<open>The two phases after the first loop, in terms of the scopes of the permissions.\<close>

lemma split_phases:
  assumes "split_permissions_by_binding_scope pm perms = Inr g" and "perms \<noteq> []"
  obtains h where "g = merge_default_into_root h" "distinct (map fst h)"
    "keys_of h = (let K = \<Union>x \<in> set perms. set (scopes_of pm x)
                  in if K = {SCOPE_ALL} then {SCOPE_DEFAULT} else K - {SCOPE_ALL})"
    "\<And>s. set (group_get h s) = (if s \<in> keys_of h
        then {x \<in> set perms. s \<in> set (scopes_of pm x) \<or> SCOPE_ALL \<in> set (scopes_of pm x)} else {})"
proof -
  have "list_all (\<lambda>x. is_ok (parse_v1 x)) perms"
    using split_ok_iff [of pm perms] assms(1) by simp
  then have ne: "x \<in> set perms \<Longrightarrow> scopes_of pm x \<noteq> []" for x
    using scopes_of_not_Nil [of x pm] by (simp add: list_all_iff)
  from assms obtain c where c: "collect_by_scope pm perms = Inr c"
    and g: "g = (if c = [] then [(SCOPE_DEFAULT, perms)] else merge_default_into_root (distribute_all c))"
    by (auto simp: split_permissions_by_binding_scope_def bind_r_Inr_iff split: if_splits)
  note props = collect_by_scope_props [OF c]
  obtain x where "x \<in> set perms" using assms(2) by (cases perms) auto
  with ne props(2) have "c \<noteq> []" by (force simp flip: keys_of_Nil_iff)
  moreover have "group_get c SCOPE_ALL \<noteq> []" if "SCOPE_ALL \<in> keys_of c"
    using that props(1) [of SCOPE_ALL] props(2) by auto
  ultimately have d: "distinct (map fst (distribute_all c))"
    "keys_of (distribute_all c) =
       (if keys_of c = {SCOPE_ALL} then {SCOPE_DEFAULT} else keys_of c - {SCOPE_ALL})"
    "set (group_get (distribute_all c) s) = (if s \<in> keys_of (distribute_all c)
        then set (group_get c s) \<union> set (group_get c SCOPE_ALL) else {})" for s
    using distribute_all_props [OF props(3)] by blast+
  show thesis
  proof (rule that [of "distribute_all c"])
    show "g = merge_default_into_root (distribute_all c)" using g \<open>c \<noteq> []\<close> by simp
    show "set (group_get (distribute_all c) s) = (if s \<in> keys_of (distribute_all c)
        then {x \<in> set perms. s \<in> set (scopes_of pm x) \<or> SCOPE_ALL \<in> set (scopes_of pm x)} else {})" for s
      using d(3) [of s] props(1) by auto
  qed (use d(1,2) props(2) in \<open>simp_all add: Let_def\<close>)
qed
text \<open>
  The contract of the split determines its groups. There is one group for each concrete scope of a permission,
  except that the root workspace stands in for the default one when both occur, and one for the default
  workspace when no permission has a concrete scope. A group holds the permissions of its scope, those of the
  default workspace if it stands in for it, and all scope-agnostic ones.
\<close>

definition split_scopes :: "permissions_map \<Rightarrow> string list \<Rightarrow> scope set" where
  "split_scopes pm perms =
     (let concrete = (\<Union>x \<in> set perms. set (scopes_of pm x)) - {SCOPE_ALL}
      in if concrete = {} then {SCOPE_DEFAULT}
         else if SCOPE_ROOT \<in> concrete then concrete - {SCOPE_DEFAULT} else concrete)"

definition split_contract :: "permissions_map \<Rightarrow> string list \<Rightarrow> scope_groups \<Rightarrow> bool" where
  "split_contract pm perms g \<longleftrightarrow>
     distinct (map fst g) \<and> keys_of g = split_scopes pm perms \<and>
     (\<forall>s \<in> keys_of g. set (group_get g s) =
        {x \<in> set perms. s \<in> set (scopes_of pm x) \<or> SCOPE_ALL \<in> set (scopes_of pm x) \<or>
           s = SCOPE_ROOT \<and> SCOPE_DEFAULT \<in> set (scopes_of pm x)})"

lemma split_scopes_shape:
  "split_scopes pm perms \<noteq> {}" "SCOPE_ALL \<notin> split_scopes pm perms"
  "\<not> (SCOPE_DEFAULT \<in> split_scopes pm perms \<and> SCOPE_ROOT \<in> split_scopes pm perms)"
  by (auto simp: split_scopes_def Let_def)

lemma split_establishes_contract:
  assumes g: "split_permissions_by_binding_scope pm perms = Inr g" and ne: "perms \<noteq> []"
  shows "split_contract pm perms g"
proof -
  define K where "K = (\<Union>x \<in> set perms. set (scopes_of pm x))"
  obtain h where h: "g = merge_default_into_root h" "distinct (map fst h)"
    and keys: "keys_of h = (if K = {SCOPE_ALL} then {SCOPE_DEFAULT} else K - {SCOPE_ALL})"
    and get: "\<And>s. set (group_get h s) = (if s \<in> keys_of h
        then {x \<in> set perms. s \<in> set (scopes_of pm x) \<or> SCOPE_ALL \<in> set (scopes_of pm x)} else {})"
    by (rule split_phases [OF g ne]) (simp add: K_def Let_def)
  have "hd perms \<in> set perms" using ne by simp
  moreover from this have "scopes_of pm (hd perms) \<noteq> []"
    using split_ok_iff [of pm perms] g scopes_of_not_Nil [of "hd perms" pm] by (simp add: list_all_iff)
  ultimately have "K \<noteq> {}" unfolding K_def by (metis UN_I empty_iff list.set_sel(1))
  then have all: "K - {SCOPE_ALL} = {} \<longleftrightarrow> K = {SCOPE_ALL}" by blast
  have hk: "keys_of h = (if K - {SCOPE_ALL} = {} then {SCOPE_DEFAULT} else K - {SCOPE_ALL})"
    unfolding keys all by simp
  note m = merge_default_props [of h, folded h(1)]
  have gk: "keys_of g = split_scopes pm perms"
    unfolding m(2) hk by (auto simp: split_scopes_def Let_def K_def [symmetric])
  have default: "SCOPE_DEFAULT \<in> keys_of h" if "x \<in> set perms" "SCOPE_DEFAULT \<in> set (scopes_of pm x)" for x
    using that unfolding hk K_def by auto
  have "set (group_get g s) = {x \<in> set perms. s \<in> set (scopes_of pm x) \<or> SCOPE_ALL \<in> set (scopes_of pm x) \<or>
      s = SCOPE_ROOT \<and> SCOPE_DEFAULT \<in> set (scopes_of pm x)}" if "s \<in> keys_of g" for s
    using that default unfolding m(2,3) get by (auto split: if_splits)
  then show ?thesis using gk m(1) [OF h(2)] by (simp add: split_contract_def)
qed

text \<open>
  C19 (functional): splitting succeeds exactly when every permission string parses. The groups of a nonempty
  list of permissions are then those of the contract above; an empty list has no group.
\<close>

theorem split_permissions_correct:
  "(is_ok (split_permissions_by_binding_scope pm perms) \<longleftrightarrow> list_all (\<lambda>x. is_ok (parse_v1 x)) perms) \<and>
   (split_permissions_by_binding_scope pm perms = Inr g \<longrightarrow>
      (if perms = [] then g = [] else split_contract pm perms g))"
  using split_ok_iff split_establishes_contract [of pm perms g]
  by (auto simp: split_permissions_by_binding_scope_def)

theorem split_permissions_correct_witness:
  "split_permissions_by_binding_scope
     [(\<lparr>pv_application = ''rbac'', pv_resource_type = ''*'', pv_verb = ''*''\<rparr>, SCOPE_TENANT)]
     [''rbac:role:read'', ''inventory:hosts:read''] =
       Inr [(SCOPE_TENANT, [''rbac:role:read'']), (SCOPE_DEFAULT, [''inventory:hosts:read''])] \<and>
   split_contract [(\<lparr>pv_application = ''rbac'', pv_resource_type = ''*'', pv_verb = ''*''\<rparr>, SCOPE_TENANT)]
     [''rbac:role:read'', ''inventory:hosts:read'']
     [(SCOPE_TENANT, [''rbac:role:read'']), (SCOPE_DEFAULT, [''inventory:hosts:read''])]"
proof -
  let ?pm = "[(\<lparr>pv_application = ''rbac'', pv_resource_type = ''*'', pv_verb = ''*''\<rparr>, SCOPE_TENANT)]"
  have "split_permissions_by_binding_scope ?pm [''rbac:role:read'', ''inventory:hosts:read''] =
       Inr [(SCOPE_TENANT, [''rbac:role:read'']), (SCOPE_DEFAULT, [''inventory:hosts:read''])]"
    by code_simp
  moreover from this have "split_contract ?pm [''rbac:role:read'', ''inventory:hosts:read'']
      [(SCOPE_TENANT, [''rbac:role:read'']), (SCOPE_DEFAULT, [''inventory:hosts:read''])]"
    using split_permissions_correct [of ?pm "[''rbac:role:read'', ''inventory:hosts:read'']"] by (simp split: if_splits)
  ultimately show ?thesis by blast
qed

lemma sort_key_unique:
  fixes f :: "'a \<Rightarrow> 'b :: linorder"
  assumes "inj f" and "distinct ks" and "distinct ys" and "set ks = set ys" and "sorted (map f ys)"
  shows "sort_key f ks = ys"
proof -
  have "map f (sort_key f ks) = map f ys"
    using assms by (intro sorted_distinct_set_unique) (auto simp: distinct_map intro: inj_on_subset)
  with \<open>inj f\<close> show ?thesis by (simp add: inj_map_eq_map)
qed

lemma contract_sorted_keys:
  assumes "split_contract pm perms g"
  shows "sort_key scope_value (map fst g) \<in> {[SCOPE_DEFAULT], [SCOPE_ROOT], [SCOPE_TENANT],
           [SCOPE_DEFAULT, SCOPE_TENANT], [SCOPE_ROOT, SCOPE_TENANT]}"
proof -
  let ?opts = "{[SCOPE_DEFAULT], [SCOPE_ROOT], [SCOPE_TENANT],
           [SCOPE_DEFAULT, SCOPE_TENANT], [SCOPE_ROOT, SCOPE_TENANT]}"
  have K: "keys_of g \<noteq> {}" "SCOPE_ALL \<notin> keys_of g"
    "\<not> (SCOPE_DEFAULT \<in> keys_of g \<and> SCOPE_ROOT \<in> keys_of g)" and d: "distinct (map fst g)"
    using assms split_scopes_shape [of pm perms] by (simp_all add: split_contract_def)
  have "keys_of g \<subseteq> {SCOPE_DEFAULT, SCOPE_ROOT, SCOPE_TENANT}"
  proof
    fix s assume "s \<in> keys_of g"
    with K(2) show "s \<in> {SCOPE_DEFAULT, SCOPE_ROOT, SCOPE_TENANT}" by (cases s) auto
  qed
  with K(1,3) have "\<exists>ys \<in> ?opts. keys_of g = set ys"
    by (cases "SCOPE_TENANT \<in> keys_of g"; cases "SCOPE_ROOT \<in> keys_of g"; cases "SCOPE_DEFAULT \<in> keys_of g") auto
  then obtain ys where ys: "ys \<in> ?opts" "keys_of g = set ys" by blast
  have "sort_key scope_value (map fst g) = ys"
    using d ys by (intro sort_key_unique) (auto simp: inj_def keys_of_def)
  with ys(1) show ?thesis by simp
qed

text \<open>
  The binding scopes of a list of parseable permissions are one of
  \<open>[DEFAULT]\<close>, \<open>[ROOT]\<close>, \<open>[TENANT]\<close>, \<open>[DEFAULT, TENANT]\<close> and \<open>[ROOT, TENANT]\<close>.
\<close>

theorem binding_scopes_shape:
  assumes "list_all (\<lambda>x. is_ok (parse_v1 x)) perms"
  shows "\<exists>ss. binding_scopes_for_permissions pm perms = Inr ss \<and>
     ss \<in> {[SCOPE_DEFAULT], [SCOPE_ROOT], [SCOPE_TENANT],
           [SCOPE_DEFAULT, SCOPE_TENANT], [SCOPE_ROOT, SCOPE_TENANT]}"
proof -
  from assms obtain g where g: "split_permissions_by_binding_scope pm perms = Inr g"
    using split_ok_iff [of pm perms] by (auto simp: is_ok_iff)
  show ?thesis
  proof (cases "perms = []")
    case True
    then show ?thesis by (simp add: binding_scopes_for_permissions_def split_permissions_by_binding_scope_def)
  next
    case False
    with g have c: "split_contract pm perms g" by (rule split_establishes_contract)
    moreover from c have "g \<noteq> []" using split_scopes_shape(1) [of pm perms] by (auto simp: split_contract_def keys_of_def)
    ultimately show ?thesis
      using g contract_sorted_keys [OF c] by (simp add: binding_scopes_for_permissions_def)
  qed
qed

theorem binding_scopes_shape_witness:
  "\<exists>ss. binding_scopes_for_permissions [] [''rbac:role:read''] = Inr ss \<and> ss \<noteq> []"
proof -
  have "list_all (\<lambda>x. is_ok (parse_v1 x)) [''rbac:role:read'']" by code_simp
  from binding_scopes_shape [OF this, of "[]"] show ?thesis by auto
qed
section \<open>The highest scope\<close>

lemma fold_max_ge: "s \<le> fold max ss (s :: 'a :: linorder)" "x \<in> set ss \<Longrightarrow> x \<le> fold max ss s"
  by (induction ss arbitrary: s)
    (auto intro: order_trans [OF max.cobounded2] order_trans [OF max.cobounded1])

lemma fold_max_in: "fold max ss (s :: 'a :: linorder) \<in> insert s (set ss)"
proof (induction ss arbitrary: s)
  case (Cons x ss)
  from Cons [of "max x s"] show ?case by (auto simp: max_def split: if_splits)
qed simp

lemma max_scope_in: "ss \<noteq> [] \<Longrightarrow> max_scope ss \<in> set ss"
  using fold_max_in [of "tl ss" "hd ss"] by (cases ss) (auto simp: max_scope_def)

lemma max_scope_ge: "s \<in> set ss \<Longrightarrow> s \<le> max_scope ss"
  by (cases ss) (auto simp: max_scope_def fold_max_ge)

lemma highest_scope_concrete:
  "highest_scope_for_permissions pm perms = Inr s \<Longrightarrow> s \<noteq> SCOPE_ALL"
  using max_scope_in by (force simp: highest_scope_for_permissions_def bind_r_Inr_iff max_scope_def split: list.splits)

section \<open>The cache of permission ids\<close>

definition ids_with_scope :: "permissions_map \<Rightarrow> permission_table \<Rightarrow> scope \<Rightarrow> int set" where
  "ids_with_scope pm rows s = {pid. \<exists>perm. (pid, perm) \<in> set rows \<and> scope_for_permission pm perm = Inr s}"

definition ids_explicit_default :: "permissions_map \<Rightarrow> permission_table \<Rightarrow> int set" where
  "ids_explicit_default pm rows = {pid. \<exists>perm. (pid, perm) \<in> set rows \<and>
     scope_for_permission pm perm = Inr SCOPE_DEFAULT \<and> is_explicitly_scoped pm perm = Inr True}"

definition bucket :: "(scope \<times> int list) list \<Rightarrow> scope \<Rightarrow> int list" where
  "bucket m s = (case map_of m s of None \<Rightarrow> [] | Some l \<Rightarrow> l)"

lemma cache_row_eq:
  "cache_row pm (m, ex) (pid, perm) =
     bind_r (scope_for_permission pm perm) (\<lambda>s.
     bind_r (if s = SCOPE_DEFAULT then is_explicitly_scoped pm perm else Inr False) (\<lambda>expl.
       Inr (AList.update s (set_add pid (bucket m s)) m, if expl then set_add pid ex else ex)))"
  by (simp add: cache_row_def bucket_def)

lemma bucket_update [simp]: "bucket (AList.update t l m) s = (if s = t then l else bucket m s)"
  by (simp add: bucket_def)

lemma build_from:
  "foldM_r (cache_row pm) (m0, ex0) rows = Inr (m, ex) \<Longrightarrow>
     set (bucket m s) = set (bucket m0 s) \<union> ids_with_scope pm rows s \<and>
     set ex = set ex0 \<union> ids_explicit_default pm rows"
proof (induction rows arbitrary: m0 ex0)
  case (Cons r rows)
  obtain pid perm where r: "r = (pid, perm)" by (cases r)
  from Cons.prems obtain t expl where t: "scope_for_permission pm perm = Inr t"
    and e: "(if t = SCOPE_DEFAULT then is_explicitly_scoped pm perm else Inr False) = Inr expl"
    and rest: "foldM_r (cache_row pm) (AList.update t (set_add pid (bucket m0 t)) m0,
        if expl then set_add pid ex0 else ex0) rows = Inr (m, ex)"
    by (auto simp: r cache_row_eq bind_r_Inr_iff)
  have "ids_with_scope pm (r # rows) s = (if s = t then {pid} else {}) \<union> ids_with_scope pm rows s"
    using t by (auto simp: ids_with_scope_def r)
  moreover have "ids_explicit_default pm (r # rows) = (if expl then {pid} else {}) \<union> ids_explicit_default pm rows"
    using t e by (auto simp: ids_explicit_default_def r split: if_splits)
  ultimately show ?case using Cons.IH [OF rest] by (auto split: if_splits)
qed (simp add: ids_with_scope_def ids_explicit_default_def)

lemma build_cache_props:
  assumes "build_cache pm rows = Inr (m, ex)"
  shows "set (bucket m s) = ids_with_scope pm rows s" and "set ex = ids_explicit_default pm rows"
proof -
  have "bucket (map (\<lambda>s. (s, [])) [SCOPE_DEFAULT, SCOPE_ROOT, SCOPE_TENANT, SCOPE_ALL]) s = []"
    by (cases s) (simp_all add: bucket_def)
  with build_from [OF assms [unfolded build_cache_def], of s]
  show "set (bucket m s) = ids_with_scope pm rows s" and "set ex = ids_explicit_default pm rows"
    by simp_all
qed

text \<open>A cache filled from a permission table.\<close>

definition filled_from :: "permissions_map \<Rightarrow> permission_table \<Rightarrow> scope_cache \<Rightarrow> bool" where
  "filled_from pm rows c \<longleftrightarrow> (case (ids_by_scope_cached c, explicit_default_cached c) of
     (Some m, Some ex) \<Rightarrow> build_cache pm rows = Inr (m, ex) | _ \<Rightarrow> False)"

lemma foldl_set_union: "set (foldl (\<lambda>acc s. set_union acc (f s)) acc ss) = set acc \<union> (\<Union>s \<in> set ss. set (f s))"
  by (induction ss arbitrary: acc) auto

text \<open>
  C26 (functional): the first read after \<open>invalidate\<close> fills the cache from the current table; from
  then on reads return exactly the ids whose permission has one of the requested scopes in the
  table the cache was filled from, whatever the table holds now, and never trip the assertion.
\<close>

theorem scope_cache_reads:
  "(ids_by_scope pm rows (invalidate c) = Inr (m, c') \<longrightarrow> filled_from pm rows c') \<and>
   (filled_from pm rows c' \<longrightarrow>
      (\<exists>ids. ids_for_scopes pm now c' scopes = Inr (ids, c') \<and>
             set ids = (\<Union>s \<in> set scopes. ids_with_scope pm rows s)) \<and>
      (\<exists>ids. explicit_default_ids pm now c' = Inr (ids, c') \<and> set ids = ids_explicit_default pm rows))"
proof (intro conjI impI)
  assume "ids_by_scope pm rows (invalidate c) = Inr (m, c')"
  then show "filled_from pm rows c'"
    by (auto simp: ids_by_scope_def invalidate_def filled_from_def bind_r_Inr_iff)
next
  assume "filled_from pm rows c'"
  then obtain m ex where c: "ids_by_scope_cached c' = Some m" "explicit_default_cached c' = Some ex"
    and b: "build_cache pm rows = Inr (m, ex)"
    by (auto simp: filled_from_def split: option.splits)
  show "\<exists>ids. explicit_default_ids pm now c' = Inr (ids, c') \<and> set ids = ids_explicit_default pm rows"
    using c build_cache_props(2) [OF b] by (simp add: explicit_default_ids_def ids_by_scope_def)
  show "\<exists>ids. ids_for_scopes pm now c' scopes = Inr (ids, c') \<and>
             set ids = (\<Union>s \<in> set scopes. ids_with_scope pm rows s)"
    using c by (auto simp: ids_for_scopes_def ids_by_scope_def foldl_set_union
        build_cache_props(1) [OF b, symmetric] bucket_def)
qed

theorem scope_cache_reads_witness:
  "\<exists>m c' ids. ids_by_scope [] [(7, ''rbac:role:read'')] (invalidate empty_scope_cache) = Inr (m, c') \<and>
     ids_for_scopes [] [] c' [SCOPE_DEFAULT] = Inr (ids, c') \<and>
     set ids = ids_with_scope [] [(7, ''rbac:role:read'')] SCOPE_DEFAULT"
proof -
  let ?rows = "[(7, ''rbac:role:read'')]"
  have "is_ok (ids_by_scope [] ?rows (invalidate empty_scope_cache))" by code_simp
  then obtain m c' where r: "ids_by_scope [] ?rows (invalidate empty_scope_cache) = Inr (m, c')"
    by (auto simp: is_ok_iff)
  with scope_cache_reads [of "[]" ?rows empty_scope_cache m c' "[]" "[SCOPE_DEFAULT]"]
  show ?thesis by simp
qed

end
