(* ===== verification/Tuple_Store.thy ===== *)
theory Tuple_Store
  imports Relation_Types
begin

text \<open>
  The in-memory tuple store: \<open>migration_tool/in_memory_tuples.py\<close>.

  A Python set of tuples is a list without duplicates; its order is the order in which the code
  iterates. A \<open>TupleSet\<close> is such a list. Its reference to the full store is live (the store
  mutates under it), so the one operation that follows it, \<open>traverse_subject\<close>, takes the store's
  current content as an argument. Predicates are functions; their \<open>repr\<close> is not modelled.
\<close>

section \<open>Predicates\<close>

type_synonym relation_predicate = "relation_tuple \<Rightarrow> bool"

definition all_of :: "relation_predicate list \<Rightarrow> relation_predicate" where
  "all_of predicates =
     (case predicates of [p] \<Rightarrow> p | _ \<Rightarrow> (\<lambda>rel. list_all (\<lambda>p. p rel) predicates))"

definition one_of :: "relation_predicate list \<Rightarrow> relation_predicate" where
  "one_of predicates =
     (case predicates of [p] \<Rightarrow> p | _ \<Rightarrow> (\<lambda>rel. list_ex (\<lambda>p. p rel) predicates))"

definition none_of :: "relation_predicate list \<Rightarrow> relation_predicate" where
  "none_of predicates = (\<lambda>rel. \<not> list_ex (\<lambda>p. p rel) predicates)"

definition resource_type_p :: "string \<Rightarrow> string \<Rightarrow> relation_predicate" where
  "resource_type_p namespace name = (\<lambda>rel.
     ot_namespace (or_type (rt_resource rel)) = namespace \<and> ot_name (or_type (rt_resource rel)) = name)"

definition resource_id_p :: "string \<Rightarrow> relation_predicate" where
  "resource_id_p i = (\<lambda>rel. or_id (rt_resource rel) = i)"

definition resource_p :: "string \<Rightarrow> string \<Rightarrow> string \<Rightarrow> relation_predicate" where
  "resource_p namespace name i = all_of [resource_type_p namespace name, resource_id_p i]"

definition relation_p :: "string \<Rightarrow> relation_predicate" where
  "relation_p r = (\<lambda>rel. rt_relation rel = r)"

definition subject_type_p ::
  "string \<Rightarrow> string \<Rightarrow> string option \<Rightarrow> bool \<Rightarrow> relation_predicate result" where
  "subject_type_p namespace name relation any_relation =
     (if any_relation \<and> relation \<noteq> None then Inl ValueError
      else Inr (\<lambda>rel. let st = rt_subject rel in
        ot_namespace (or_type (sr_subject st)) = namespace \<and>
        ot_name (or_type (sr_subject st)) = name \<and>
        (any_relation \<or> sr_relation st = relation)))"

definition subject_id_p :: "string \<Rightarrow> relation_predicate" where
  "subject_id_p i = (\<lambda>rel. or_id (sr_subject (rt_subject rel)) = i)"

definition subject_p ::
  "string \<Rightarrow> string \<Rightarrow> string \<Rightarrow> string option \<Rightarrow> relation_predicate result" where
  "subject_p namespace name i relation =
     bind_r (subject_type_p namespace name relation False) (\<lambda>st.
       Inr (all_of [st, subject_id_p i]))"

section \<open>Tuple sets\<close>

type_synonym tuple_set = "relation_tuple list"

definition only_tuple :: "tuple_set \<Rightarrow> relation_tuple result" where
  "only_tuple ts = (case ts of [t] \<Rightarrow> Inr t | _ \<Rightarrow> Inl ValueError)"

definition find_tuples :: "relation_predicate \<Rightarrow> tuple_set \<Rightarrow> tuple_set" where
  "find_tuples predicate ts = filter predicate ts"

definition count_tuples :: "relation_predicate \<Rightarrow> tuple_set \<Rightarrow> nat" where
  "count_tuples predicate ts = length (find_tuples predicate ts)"

definition group_add :: "'k \<Rightarrow> relation_tuple \<Rightarrow> ('k \<times> tuple_set) list \<Rightarrow> ('k \<times> tuple_set) list" where
  "group_add key rel grouped =
     AList.update key (set_add rel (case map_of grouped key of None \<Rightarrow> [] | Some g \<Rightarrow> g)) grouped"

definition find_tuples_grouped ::
  "relation_predicate \<Rightarrow> (relation_tuple \<Rightarrow> 'k) \<Rightarrow> tuple_set \<Rightarrow> ('k \<times> tuple_set) list" where
  "find_tuples_grouped predicate group_by ts =
     foldl (\<lambda>grouped rel. if predicate rel then group_add (group_by rel) rel grouped else grouped) [] ts"

text \<open>
  The two nested loops of \<open>find_group_with_tuples\<close>: \<open>inner_loop\<close> scans the remaining tuples for one
  predicate from index \<open>j\<close> and returns what remains, what has matched and whether any did;
  \<open>outer_loop\<close> runs over the predicates from index \<open>i\<close> and returns what remains, what has matched
  and \<open>success\<close>.
\<close>

function inner_loop ::
  "relation_predicate \<Rightarrow> bool \<Rightarrow> nat \<Rightarrow> tuple_set \<Rightarrow> tuple_set \<Rightarrow> bool
   \<Rightarrow> tuple_set \<times> tuple_set \<times> bool" where
  "inner_loop predicate match_once j remaining matching found =
     (if j < length remaining
      then if predicate (remaining ! j)
           then let matching' = set_add (remaining ! j) matching;
                    remaining' = take j remaining @ drop (Suc j) remaining
                in if match_once then (remaining', matching', True)
                   else inner_loop predicate match_once j remaining' matching' True
           else inner_loop predicate match_once (Suc j) remaining matching found
      else (remaining, matching, found))"
  by pat_completeness auto

termination
  by (relation "measure (\<lambda>(p, m, j, remaining, matching, found). length remaining - j)") auto

function outer_loop ::
  "bool \<Rightarrow> relation_predicate list \<Rightarrow> nat \<Rightarrow> tuple_set \<Rightarrow> tuple_set
   \<Rightarrow> tuple_set \<times> tuple_set \<times> bool" where
  "outer_loop match_once predicates i remaining matching =
     (if predicates \<noteq> [] \<and> i < length predicates
      then (case inner_loop (predicates ! i) match_once 0 remaining matching False of
              (remaining', matching', found) \<Rightarrow>
                if \<not> found then (remaining', matching', False)
                else if match_once
                then outer_loop match_once (take i predicates @ drop (Suc i) predicates) i remaining' matching'
                else outer_loop match_once predicates (Suc i) remaining' matching')
      else (remaining, matching, True))"
  by pat_completeness auto

termination
  by (relation "measure (\<lambda>(m, predicates, i, remaining, matching). length predicates - i)") auto

declare inner_loop.simps [simp del] outer_loop.simps [simp del]

definition group_tuples_by ::
  "(relation_tuple \<Rightarrow> 'k) \<Rightarrow> ('k \<Rightarrow> bool) \<Rightarrow> tuple_set \<Rightarrow> ('k \<times> tuple_set) list" where
  "group_tuples_by group_by group_filter ts =
     foldl (\<lambda>grouped rel. if group_filter (group_by rel) then group_add (group_by rel) rel grouped
                          else grouped) [] ts"

definition find_group_with_tuples ::
  "relation_predicate list \<Rightarrow> (relation_tuple \<Rightarrow> 'k) \<Rightarrow> ('k \<Rightarrow> bool) \<Rightarrow> bool \<Rightarrow> bool \<Rightarrow> tuple_set
   \<Rightarrow> ('k \<times> tuple_set) list \<times> ('k \<times> tuple_set) list" where
  "find_group_with_tuples predicates group_by group_filter require_full_match match_once ts =
     foldl (\<lambda>(matching_groups, unmatched_groups) (key, group_tuples).
       case outer_loop match_once predicates 0 group_tuples [] of
         (remaining_tuples, matching_tuples, success) \<Rightarrow>
           if require_full_match \<and> remaining_tuples \<noteq> [] \<or> \<not> success
           then (matching_groups, AList.update key group_tuples unmatched_groups)
           else (AList.update key matching_tuples matching_groups, unmatched_groups))
       ([], []) (group_tuples_by group_by group_filter ts)"

definition resource_key :: "relation_tuple \<Rightarrow> string \<times> string \<times> string" where
  "resource_key t =
     (ot_namespace (or_type (rt_resource t)), ot_name (or_type (rt_resource t)), or_id (rt_resource t))"

definition traverse_subject ::
  "tuple_set \<Rightarrow> relation_predicate list \<Rightarrow> bool \<Rightarrow> bool \<Rightarrow> tuple_set \<Rightarrow> tuple_set" where
  "traverse_subject full_set predicates require_full_match match_once ts =
     foldl (\<lambda>matched t.
       let sub = sr_subject (rt_subject t);
           traversed = find_tuples
             (resource_p (ot_namespace (or_type sub)) (ot_name (or_type sub)) (or_id sub)) full_set;
           matching = fst (find_group_with_tuples predicates resource_key (\<lambda>_. True)
             require_full_match match_once traversed)
       in foldl (\<lambda>matched (key, g). set_union matched g) matched matching)
     [] ts"

definition resource_is_subject_of :: "tuple_set \<Rightarrow> relation_predicate \<Rightarrow> relation_tuple \<Rightarrow> bool result" where
  "resource_is_subject_of ts tuple_matching rel =
     bind_r (subject_p (ot_namespace (or_type (rt_resource rel))) (ot_name (or_type (rt_resource rel)))
               (or_id (rt_resource rel)) None) (\<lambda>s.
       Inr (count_tuples (all_of [tuple_matching, s]) ts > 0))"

definition subject_is_resource_of ::
  "tuple_set \<Rightarrow> relation_predicate list \<Rightarrow> bool \<Rightarrow> relation_predicate" where
  "subject_is_resource_of ts predicates only_flag = (\<lambda>rel.
     let sub = sr_subject (rt_subject rel);
         r = resource_p (ot_namespace (or_type sub)) (ot_name (or_type sub)) (or_id sub)
     in list_all (\<lambda>p. count_tuples (all_of [p, r]) ts \<noteq> 0) predicates \<and>
        (only_flag \<longrightarrow> \<not> count_tuples (all_of [none_of predicates, r]) ts > 0))"

section \<open>The store\<close>

definition tuples_add :: "relation_tuple \<Rightarrow> tuple_set \<Rightarrow> tuple_set" where
  "tuples_add item store = set_add item store"

definition tuples_remove :: "relation_tuple \<Rightarrow> tuple_set \<Rightarrow> tuple_set" where
  "tuples_remove item store = set_discard item store"

fun check_batch :: "relation_tuple list \<Rightarrow> relation_tuple list \<Rightarrow> unit result" where
  "check_batch seen_in_batch [] = Inr ()"
| "check_batch seen_in_batch (item # items) =
     (if item \<in> set seen_in_batch then Inl ValueError
      else check_batch (item # seen_in_batch) items)"

definition tuples_write ::
  "relation_tuple list \<Rightarrow> relation_tuple list \<Rightarrow> tuple_set \<Rightarrow> tuple_set result" where
  "tuples_write add remove store =
     bind_r (check_batch [] add) (\<lambda>_.
       Inr (foldl (\<lambda>s item. tuples_add item s)
              (foldl (\<lambda>s item. tuples_remove item s) store remove) add))"

definition tuples_clear :: "tuple_set \<Rightarrow> tuple_set" where
  "tuples_clear store = []"

section \<open>The write contract\<close>

lemma check_batch_Inr_iff: "check_batch seen xs = Inr u \<longleftrightarrow> distinct xs \<and> set xs \<inter> set seen = {}"
  by (induction xs arbitrary: seen) auto

lemma check_batch_Inl: "check_batch seen xs = Inl e \<Longrightarrow> e = ValueError"
  by (induction xs arbitrary: seen) (auto split: if_splits)

lemma foldl_tuples_add: "foldl (\<lambda>s x. tuples_add x s) s xs = set_union s xs"
  by (simp add: tuples_add_def set_union_def)

lemma foldl_tuples_remove:
  "set (foldl (\<lambda>s x. tuples_remove x s) s xs) = set s - set xs"
  "distinct s \<Longrightarrow> distinct (foldl (\<lambda>s x. tuples_remove x s) s xs)"
  by (induction xs arbitrary: s) (auto simp: tuples_remove_def)

lemma tuples_write_cases:
  "tuples_write add remove s =
     (if distinct add then Inr (set_union (foldl (\<lambda>s x. tuples_remove x s) s remove) add)
      else Inl ValueError)"
  using check_batch_Inl [of "[]" add] check_batch_Inr_iff [of "[]" add "()"]
  by (cases "check_batch [] add") (auto simp: tuples_write_def foldl_tuples_add)

text \<open>
  C24 (functional): a write raises \<open>ValueError\<close> exactly when its batch of additions holds a tuple
  twice; otherwise the removals are applied before the additions, so the new content is
  \<open>(old - remove) \<union> add\<close>, and the store stays free of duplicates.
\<close>

theorem tuples_write_correct:
  "(distinct add \<longrightarrow> (\<exists>s'. tuples_write add remove s = Inr s' \<and> set s' = (set s - set remove) \<union> set add \<and>
      (distinct s \<longrightarrow> distinct s'))) \<and>
   (\<not> distinct add \<longrightarrow> tuples_write add remove s = Inl ValueError)"
  by (simp add: tuples_write_cases foldl_tuples_remove)

theorem tuples_write_correct_witness:
  "\<exists>s'. tuples_write [plain_tuple (''rbac'', ''role'') ''r'' (''rbac'', ''principal'') ''*'' ''p'' None] [] [] = Inr s' \<and>
     set s' = {plain_tuple (''rbac'', ''role'') ''r'' (''rbac'', ''principal'') ''*'' ''p'' None}"
  using tuples_write_correct
    [of "[plain_tuple (''rbac'', ''role'') ''r'' (''rbac'', ''principal'') ''*'' ''p'' None]" "[]" "[]"]
  by auto

section \<open>Matching the predicates of a group\<close>

lemma inner_loop_many:
  "inner_loop p False j rs ms found =
     (take j rs @ filter (\<lambda>t. \<not> p t) (drop j rs), set_union ms (filter p (drop j rs)),
      found \<or> list_ex p (drop j rs))"
proof (induction p False j rs ms found rule: inner_loop.induct)
  case (1 p j rs ms found)
  show ?case
  proof (cases "j < length rs")
    case False
    then show ?thesis by (subst inner_loop.simps) (simp add: set_union_def)
  next
    case True
    then have d: "drop j rs = rs ! j # drop (Suc j) rs" by (simp add: Cons_nth_drop_Suc)
    show ?thesis
    proof (cases "p (rs ! j)")
      case True
      with 1(1) \<open>j < length rs\<close> show ?thesis
        by (subst inner_loop.simps) (simp add: d Let_def set_union_def min_def)
    next
      case False
      with 1(2) \<open>j < length rs\<close> show ?thesis
        by (subst inner_loop.simps) (simp add: d take_Suc_conv_app_nth)
    qed
  qed
qed

lemma inner_loop_once:
  "inner_loop p True j rs ms False = (rs', ms', found) \<Longrightarrow>
     (if list_ex p (drop j rs)
      then \<exists>ys t zs. drop j rs = ys @ t # zs \<and> p t \<and> rs' = take j rs @ ys @ zs \<and>
             ms' = set_add t ms \<and> found
      else rs' = rs \<and> ms' = ms \<and> \<not> found)"
proof (induction p True j rs ms False rule: inner_loop.induct)
  case (1 p j rs ms)
  show ?case
  proof (cases "j < length rs")
    case False
    with 1(3) show ?thesis by (simp add: inner_loop.simps [of p True j])
  next
    case True
    then have d: "drop j rs = rs ! j # drop (Suc j) rs" by (simp add: Cons_nth_drop_Suc)
    show ?thesis
    proof (cases "p (rs ! j)")
      case True
      have "\<exists>ys t zs. drop j rs = ys @ t # zs \<and> p t \<and> rs' = take j rs @ ys @ zs \<and>
             ms' = set_add t ms \<and> found"
        by (rule exI [of _ "[]"], rule exI [of _ "rs ! j"], rule exI [of _ "drop (Suc j) rs"])
          (use 1(3) True \<open>j < length rs\<close> d in \<open>simp add: inner_loop.simps [of p True j] Let_def\<close>)
      with True d show ?thesis by simp
    next
      case False
      with 1(3) \<open>j < length rs\<close> have "inner_loop p True (Suc j) rs ms False = (rs', ms', found)"
        by (simp add: inner_loop.simps [of p True j])
      note IH = 1(2) [OF \<open>j < length rs\<close> False this]
      show ?thesis
      proof (cases "list_ex p (drop (Suc j) rs)")
        case True
        with IH obtain ys t zs where ih: "drop (Suc j) rs = ys @ t # zs" "p t"
          "rs' = take (Suc j) rs @ ys @ zs" "ms' = set_add t ms" "found" by auto
        have "\<exists>ys t zs. drop j rs = ys @ t # zs \<and> p t \<and> rs' = take j rs @ ys @ zs \<and>
             ms' = set_add t ms \<and> found"
          by (rule exI [of _ "rs ! j # ys"], rule exI [of _ t], rule exI [of _ zs])
            (use ih d \<open>j < length rs\<close> in \<open>simp add: take_Suc_conv_app_nth\<close>)
        with True d show ?thesis by simp
      next
        case False
        with IH d \<open>\<not> p (rs ! j)\<close> show ?thesis by simp
      qed
    qed
  qed
qed

text \<open>
  What one run over the predicates achieves when each is used once: a prefix of the predicates is
  assigned pairwise different tuples, and the run stops early only at a predicate that no tuple
  left over satisfies.
\<close>

definition assigned ::
  "relation_predicate list \<Rightarrow> tuple_set \<Rightarrow> tuple_set \<Rightarrow> tuple_set \<Rightarrow> tuple_set \<Rightarrow> bool \<Rightarrow> tuple_set \<Rightarrow> bool" where
  "assigned ps rs ms rs' ms' ok as \<longleftrightarrow>
     distinct as \<and> set as \<subseteq> set rs \<and> set rs' = set rs - set as \<and> set ms' = set ms \<union> set as \<and>
     length as \<le> length ps \<and> list_all2 (\<lambda>p t. p t) (take (length as) ps) as \<and>
     (ok \<longleftrightarrow> length as = length ps) \<and>
     (length as < length ps \<longrightarrow> (\<forall>t \<in> set rs'. \<not> (ps ! length as) t))"

lemma assigned_Cons:
  assumes "assigned ps rs1 (set_add t ms) rs' ms' ok as" and "p t" and "t \<in> set rs"
    and "set rs1 = set rs - {t}"
  shows "assigned (p # ps) rs ms rs' ms' ok (t # as)"
  using assms by (auto simp: assigned_def)

lemma outer_loop_once:
  "distinct rs \<Longrightarrow> outer_loop True ps 0 rs ms = (rs', ms', ok) \<Longrightarrow> \<exists>as. assigned ps rs ms rs' ms' ok as"
proof (induction ps arbitrary: rs ms)
  case Nil
  then have "assigned [] rs ms rs' ms' ok []"
    by (simp add: outer_loop.simps [of True "[]"] assigned_def)
  then show ?case by blast
next
  case (Cons p ps)
  obtain rs1 ms1 found where inner: "inner_loop p True 0 rs ms False = (rs1, ms1, found)"
    by (cases "inner_loop p True 0 rs ms False") auto
  note step = inner_loop_once [OF this]
  show ?case
  proof (cases "list_ex p rs")
    case True
    with step obtain ys t zs where s: "rs = ys @ t # zs" "p t" "rs1 = ys @ zs" "ms1 = set_add t ms" found
      by auto
    with Cons.prems(2) inner have "outer_loop True ps 0 rs1 (set_add t ms) = (rs', ms', ok)"
      by (simp add: outer_loop.simps [of True "p # ps"])
    moreover have "distinct rs1" using Cons.prems(1) s by auto
    ultimately obtain as where "assigned ps rs1 (set_add t ms) rs' ms' ok as"
      using Cons.IH by blast
    then have "assigned (p # ps) rs ms rs' ms' ok (t # as)"
      by (rule assigned_Cons) (use s Cons.prems(1) in auto)
    then show ?thesis by blast
  next
    case False
    with step Cons.prems(2) inner have "rs' = rs \<and> ms' = ms \<and> \<not> ok"
      by (simp add: outer_loop.simps [of True "p # ps"])
    with False have "assigned (p # ps) rs ms rs' ms' ok []"
      by (auto simp: assigned_def list_ex_iff)
    then show ?thesis by blast
  qed
qed

definition exclusive :: "relation_predicate list \<Rightarrow> tuple_set \<Rightarrow> bool" where
  "exclusive ps ts \<longleftrightarrow>
     (\<forall>i < length ps. \<forall>j < length ps. \<forall>t \<in> set ts. (ps ! i) t \<and> (ps ! j) t \<longrightarrow> i = j)"

lemma assigned_complete:
  assumes a: "assigned ps rs ms rs' ms' ok as" and "exclusive ps rs"
    and "\<forall>p \<in> set ps. \<exists>t \<in> set rs. p t"
  shows ok
proof (rule ccontr)
  assume "\<not> ok"
  with a have n: "length as < length ps" and none: "\<forall>t \<in> set rs'. \<not> (ps ! length as) t"
    by (auto simp: assigned_def)
  from n assms(3) obtain t where t: "t \<in> set rs" "(ps ! length as) t" by (meson nth_mem)
  with none a have "t \<in> set as" by (auto simp: assigned_def)
  then obtain k where k: "k < length as" "as ! k = t" by (auto simp: in_set_conv_nth)
  with a have "(ps ! k) t"
    by (auto simp: assigned_def list_all2_conv_all_nth)
  with t n k assms(2) have "k = length as"
    unfolding exclusive_def by (meson less_trans)
  with k show False by simp
qed

section \<open>Grouping\<close>

definition group_of :: "('k \<times> tuple_set) list \<Rightarrow> 'k \<Rightarrow> tuple_set" where
  "group_of g k = (case map_of g k of None \<Rightarrow> [] | Some ts \<Rightarrow> ts)"

lemma group_add_map_of:
  "map_of (group_add k t g) k' = (if k' = k then Some (set_add t (group_of g k)) else map_of g k')"
  by (simp add: group_add_def group_of_def)

lemma group_fold:
  fixes keep :: "relation_tuple \<Rightarrow> bool" and gb :: "relation_tuple \<Rightarrow> 'k"
  defines "run \<equiv> foldl (\<lambda>g t. if keep t then group_add (gb t) t g else g)"
  shows "set (group_of (run g ts) k) = set (group_of g k) \<union> {t \<in> set ts. keep t \<and> gb t = k}
    \<and> (distinct (group_of g k) \<longrightarrow> distinct (group_of (run g ts) k))
    \<and> dom (map_of (run g ts)) = dom (map_of g) \<union> gb ` {t \<in> set ts. keep t}
    \<and> (distinct (map fst g) \<longrightarrow> distinct (map fst (run g ts)))"
proof (induction ts arbitrary: g)
  case Nil
  then show ?case by (simp add: run_def)
next
  case (Cons t ts)
  define g1 where "g1 = (if keep t then group_add (gb t) t g else g)"
  have run: "run g (t # ts) = run g1 ts" by (simp add: run_def g1_def)
  have s: "set (group_of g1 k) = set (group_of g k) \<union> {u. u = t \<and> keep t \<and> gb t = k}"
    and d: "distinct (group_of g k) \<Longrightarrow> distinct (group_of g1 k)"
    by (auto simp: g1_def group_of_def group_add_def)
  have k: "dom (map_of g1) = dom (map_of g) \<union> gb ` {u. u = t \<and> keep t}"
    by (auto simp: g1_def group_add_map_of dom_def)
  have f: "distinct (map fst g) \<Longrightarrow> distinct (map fst g1)"
    by (simp add: g1_def group_add_def distinct_update)
  note IH = Cons.IH [of g1]
  show ?case unfolding run
  proof (intro conjI impI)
    show "set (group_of (run g1 ts) k) = set (group_of g k) \<union> {u \<in> set (t # ts). keep u \<and> gb u = k}"
      using IH s by auto
    show "dom (map_of (run g1 ts)) = dom (map_of g) \<union> gb ` {u \<in> set (t # ts). keep u}"
      using IH k by auto
  qed (use IH d f in blast)+
qed

lemma group_tuples_by_group:
  assumes "map_of (group_tuples_by gb gf ts) k = Some g"
  shows "set g = {t \<in> set ts. gb t = k}" and "distinct g" and "gf k"
proof -
  note f = group_fold [of "\<lambda>t. gf (gb t)" gb "[]" ts k, folded group_tuples_by_def]
  from assms have "k \<in> dom (map_of (group_tuples_by gb gf ts))" by auto
  with f show gf: "gf k" by auto
  from assms have "group_of (group_tuples_by gb gf ts) k = g" by (simp add: group_of_def)
  with f gf show "set g = {t \<in> set ts. gb t = k}" "distinct g" by (auto simp: group_of_def)
qed

lemma group_tuples_by_keys: "distinct (map fst (group_tuples_by gb gf ts))"
  using group_fold [of "\<lambda>t. gf (gb t)" gb "[]" ts, folded group_tuples_by_def] by simp

lemma group_tuples_by_dom:
  "dom (map_of (group_tuples_by gb gf ts)) = gb ` {t \<in> set ts. gf (gb t)}"
  using group_fold [of "\<lambda>t. gf (gb t)" gb "[]" ts, folded group_tuples_by_def] by simp

definition group_fails ::
  "relation_predicate list \<Rightarrow> bool \<Rightarrow> bool \<Rightarrow> tuple_set \<Rightarrow> bool" where
  "group_fails ps full once g = (case outer_loop once ps 0 g [] of (rs, ms, ok) \<Rightarrow> full \<and> rs \<noteq> [] \<or> \<not> ok)"

definition group_matched :: "relation_predicate list \<Rightarrow> bool \<Rightarrow> tuple_set \<Rightarrow> tuple_set" where
  "group_matched ps once g = fst (snd (outer_loop once ps 0 g []))"

lemma find_group_step:
  "(\<lambda>(mg, ug) (key, g). case outer_loop once ps 0 g [] of (rs, ms, ok) \<Rightarrow>
       if full \<and> rs \<noteq> [] \<or> \<not> ok then (mg, AList.update key g ug) else (AList.update key ms mg, ug)) =
   (\<lambda>(mg, ug) (key, g). if group_fails ps full once g then (mg, AList.update key g ug)
       else (AList.update key (group_matched ps once g) mg, ug))"
  by (auto simp: fun_eq_iff group_fails_def group_matched_def split: prod.splits)

lemma find_group_fold:
  fixes fails :: "tuple_set \<Rightarrow> bool" and result :: "tuple_set \<Rightarrow> tuple_set"
  defines "F \<equiv> \<lambda>(mg, ug) (key, g). if fails g then (mg, AList.update key g ug)
       else (AList.update key (result g) mg, ug)"
  assumes "distinct (map fst (gs :: ('k \<times> tuple_set) list))"
  shows "map_of (fst (foldl F (a, b) gs)) k =
           (case map_of gs k of Some g \<Rightarrow> if fails g then map_of a k else Some (result g) | None \<Rightarrow> map_of a k)
    \<and> map_of (snd (foldl F (a, b) gs)) k =
           (case map_of gs k of Some g \<Rightarrow> if fails g then Some g else map_of b k | None \<Rightarrow> map_of b k)"
  using assms(2)
proof (induction gs arbitrary: a b)
  case (Cons x gs)
  obtain key g where x: "x = (key, g)" by (cases x)
  define a' b' where "a' = (if fails g then a else AList.update key (result g) a)"
    and "b' = (if fails g then AList.update key g b else b)"
  have step: "foldl F (a, b) (x # gs) = foldl F (a', b') gs"
    by (simp add: F_def x a'_def b'_def)
  have "map_of gs key = None" using Cons.prems by (simp add: x map_of_eq_None_iff)
  then show ?case unfolding step using Cons.IH [of a' b'] Cons.prems
    by (cases "k = key") (simp_all add: x a'_def b'_def split: option.splits)
qed simp

lemma find_group_lookup:
  "map_of (fst (find_group_with_tuples ps gb gf full once ts)) k = Some m \<longleftrightarrow>
     (\<exists>g. map_of (group_tuples_by gb gf ts) k = Some g \<and> \<not> group_fails ps full once g \<and>
          m = group_matched ps once g)"
  unfolding find_group_with_tuples_def find_group_step
  using find_group_fold [where gs = "group_tuples_by gb gf ts" and fails = "group_fails ps full once"
      and result = "group_matched ps once" and a = "[]" and b = "[]" and k = k, OF group_tuples_by_keys]
  by (auto split: option.splits if_splits)

lemma group_run:
  "distinct g \<Longrightarrow> \<exists>rs ms ok as. outer_loop True ps 0 g [] = (rs, ms, ok) \<and> assigned ps g [] rs ms ok as"
  using outer_loop_once [of g ps "[]"] by (cases "outer_loop True ps 0 g []") auto

definition own_tuples :: "relation_predicate list \<Rightarrow> bool \<Rightarrow> relation_tuple set \<Rightarrow> tuple_set \<Rightarrow> bool" where
  "own_tuples ps full grp m \<longleftrightarrow>
     (\<exists>as. distinct as \<and> list_all2 (\<lambda>p t. p t) ps as \<and> set m = set as \<and> set as \<subseteq> grp \<and>
           (full \<longrightarrow> set as = grp))"

lemma find_group_once_sound:
  assumes "map_of (fst (find_group_with_tuples ps gb gf full True ts)) k = Some m"
  shows "gf k \<and> own_tuples ps full {t \<in> set ts. gb t = k} m"
proof -
  from assms obtain g where g: "map_of (group_tuples_by gb gf ts) k = Some g"
    and nf: "\<not> group_fails ps full True g" and m: "m = group_matched ps True g"
    by (auto simp: find_group_lookup)
  note gp = group_tuples_by_group [OF g]
  obtain rs ms ok as where o: "outer_loop True ps 0 g [] = (rs, ms, ok)"
    and a: "assigned ps g [] rs ms ok as" using group_run [OF gp(2)] by blast
  from o nf m have "ok" "full \<longrightarrow> rs = []" "m = ms"
    by (auto simp: group_fails_def group_matched_def)
  with a gp show ?thesis
    unfolding own_tuples_def by (intro conjI exI [of _ as]) (auto simp: assigned_def)
qed

lemma find_group_unmatched:
  "map_of (snd (find_group_with_tuples ps gb gf full once ts)) k = Some m \<longleftrightarrow>
     map_of (group_tuples_by gb gf ts) k = Some m \<and> group_fails ps full once m"
  unfolding find_group_with_tuples_def find_group_step
  using find_group_fold [where gs = "group_tuples_by gb gf ts" and fails = "group_fails ps full once"
      and result = "group_matched ps once" and a = "[]" and b = "[]" and k = k, OF group_tuples_by_keys]
  by (auto split: option.splits if_splits)

lemma group_fails_exclusive:
  assumes "distinct g" and "exclusive ps g"
  shows "group_fails ps full True g \<longleftrightarrow> \<not> ((\<forall>p \<in> set ps. \<exists>t \<in> set g. p t) \<and> (full \<longrightarrow> card (set g) = length ps))"
proof -
  obtain rs ms ok as where o: "outer_loop True ps 0 g [] = (rs, ms, ok)"
    and a: "assigned ps g [] rs ms ok as" using group_run [OF assms(1)] by blast
  have fails: "group_fails ps full True g \<longleftrightarrow> full \<and> rs \<noteq> [] \<or> \<not> ok" by (simp add: group_fails_def o)
  show ?thesis
  proof (cases ok)
    case True
    then have as: "list_all2 (\<lambda>p t. p t) ps as" "distinct as" "set as \<subseteq> set g" "set rs = set g - set as"
      using a by (auto simp: assigned_def)
    have len: "length ps = card (set as)" using as(1,2) by (simp add: distinct_card list_all2_lengthD)
    have "rs = [] \<longleftrightarrow> set as = set g" using as(3,4) by (metis Diff_eq_empty_iff set_empty subset_antisym order_refl)
    also have "\<dots> \<longleftrightarrow> card (set g) = length ps" using as(3) len by (metis List.finite_set card_subset_eq)
    finally have "rs = [] \<longleftrightarrow> card (set g) = length ps" .
    moreover have "\<forall>p \<in> set ps. \<exists>t \<in> set g. p t"
      using as(1,3) by (force simp: list_all2_conv_all_nth in_set_conv_nth)
    ultimately show ?thesis using True fails by simp
  next
    case False
    then show ?thesis using fails assigned_complete [OF a assms(2)] by blast
  qed
qed

text \<open>
  C23 (functional): with each predicate used once, a group that is reported as matched gives every
  predicate its own tuple of the group, the reported tuples are exactly those, and a required full
  match leaves no other tuple in the group. A group that passes the filter and is not matched is reported
  as unmatched, with all its tuples, and no other group is. If no tuple of a group satisfies two
  predicates, the group is matched if and only if every predicate has a tuple in it and, where a full
  match is required, it has no more tuples than there are predicates.
\<close>

theorem find_group_match_once:
  fixes k :: 'k
  defines "grp \<equiv> \<lambda>ts gb. {t \<in> set ts. gb t = (k :: 'k)}"
  shows "(map_of (fst (find_group_with_tuples ps gb gf full True ts)) k = Some m \<longrightarrow>
      gf k \<and> own_tuples ps full (grp ts gb) m) \<and>
   (map_of (fst (find_group_with_tuples ps gb gf full True ts)) k = None \<longleftrightarrow>
      \<not> (gf k \<and> grp ts gb \<noteq> {}) \<or>
      (\<exists>u. map_of (snd (find_group_with_tuples ps gb gf full True ts)) k = Some u \<and> set u = grp ts gb)) \<and>
   (exclusive ps (filter (\<lambda>t. gb t = k) ts) \<longrightarrow>
      ((\<exists>m. map_of (fst (find_group_with_tuples ps gb gf full True ts)) k = Some m) \<longleftrightarrow>
         gf k \<and> grp ts gb \<noteq> {} \<and> (\<forall>p \<in> set ps. \<exists>t \<in> grp ts gb. p t) \<and>
         (full \<longrightarrow> card (grp ts gb) = length ps)))"
proof (intro conjI impI)
  let ?groups = "map_of (group_tuples_by gb gf ts)"
  have "k \<in> dom ?groups \<longleftrightarrow> gf k \<and> grp ts gb \<noteq> {}" unfolding group_tuples_by_dom by (auto simp: grp_def)
  then have dom: "gf k \<and> grp ts gb \<noteq> {} \<longleftrightarrow> (\<exists>g. ?groups k = Some g)" by (simp add: domIff)
  have G: "set g = grp ts gb" "distinct g" if "?groups k = Some g" for g
    using group_tuples_by_group [OF that] by (simp_all add: grp_def)
  show "gf k" "own_tuples ps full (grp ts gb) m"
    if "map_of (fst (find_group_with_tuples ps gb gf full True ts)) k = Some m"
    using find_group_once_sound [OF that] by (simp_all add: grp_def)
  show "map_of (fst (find_group_with_tuples ps gb gf full True ts)) k = None \<longleftrightarrow>
      \<not> (gf k \<and> grp ts gb \<noteq> {}) \<or>
      (\<exists>u. map_of (snd (find_group_with_tuples ps gb gf full True ts)) k = Some u \<and> set u = grp ts gb)"
    unfolding dom not_Some_eq [symmetric] find_group_lookup find_group_unmatched
    using G(1) by (cases "?groups k") auto
  assume ex: "exclusive ps (filter (\<lambda>t. gb t = k) ts)"
  have "exclusive ps g" if "?groups k = Some g" for g
    using ex G(1) [OF that] by (auto simp: exclusive_def grp_def)
  then show "(\<exists>m. map_of (fst (find_group_with_tuples ps gb gf full True ts)) k = Some m) \<longleftrightarrow>
         gf k \<and> grp ts gb \<noteq> {} \<and> (\<forall>p \<in> set ps. \<exists>t \<in> grp ts gb. p t) \<and>
         (full \<longrightarrow> card (grp ts gb) = length ps)"
    unfolding conj_assoc [symmetric] dom find_group_lookup using G(1,2) group_fails_exclusive [of _ ps full] by auto
qed

theorem find_group_match_once_witness:
  "let t = plain_tuple (''rbac'', ''role'') ''r'' (''rbac'', ''principal'') ''*'' ''p'' None in
   \<exists>m. map_of (fst (find_group_with_tuples [relation_p ''p''] resource_key (\<lambda>_. True) True True [t]))
         (''rbac'', ''role'', ''r'') = Some m \<and>
       own_tuples [relation_p ''p''] True {t} m"
proof -
  let ?t = "plain_tuple (''rbac'', ''role'') ''r'' (''rbac'', ''principal'') ''*'' ''p'' None"
  have k: "resource_key ?t = (''rbac'', ''role'', ''r'')" and p: "relation_p ''p'' ?t"
    by (simp_all add: resource_key_def relation_p_def plain_tuple_def)
  note c = find_group_match_once [of "[relation_p ''p'']" resource_key "\<lambda>_. True" True "[?t]" "(''rbac'', ''role'', ''r'')"]
  have g: "{t \<in> set [?t]. resource_key t = (''rbac'', ''role'', ''r'')} = {?t}" using k by auto
  have "exclusive [relation_p ''p''] (filter (\<lambda>t. resource_key t = (''rbac'', ''role'', ''r'')) [?t])" by (simp add: exclusive_def)
  with c p obtain m where "map_of (fst (find_group_with_tuples [relation_p ''p''] resource_key
      (\<lambda>_. True) True True [?t])) (''rbac'', ''role'', ''r'') = Some m" unfolding g by auto
  then show ?thesis using c [of m] unfolding g by (auto simp: Let_def)
qed

end
