(* ===== verification/Replication.thy ===== *)
theory Replication
  imports Tuple_Store
begin

text \<open>
  Replication events and the replicators: \<open>management/inventory_replicator/\<close> with
  \<open>inventory_replicator.py\<close> (events, contexts, partition keys), \<open>outbox_replicator.py\<close>,
  \<open>inventory_api_replicator.py\<close>, \<open>noop_replicator.py\<close>, \<open>logging_replicator.py\<close>, the in-memory
  replicator of \<open>migration_tool/in_memory_tuples.py\<close>, and the notify coordination of
  \<open>internal/migration_coordination.py\<close>.

  The current time, the environment name and the tuple service behind the gRPC stub are arguments.
  Metrics and log messages are not modelled. The locale \<open>inventory_replicator\<close> is the interface
  \<open>InventoryReplicator\<close>, with the law its callers rely on.
\<close>

section \<open>Event types\<close>

datatype (plugins only: code size) replication_event_type =
    EV_CREATE_SYSTEM_ROLE
  | EV_UPDATE_SYSTEM_ROLE
  | EV_DELETE_SYSTEM_ROLE
  | EV_CREATE_CUSTOM_ROLE
  | EV_UPDATE_CUSTOM_ROLE
  | EV_DELETE_CUSTOM_ROLE
  | EV_ASSIGN_ROLE
  | EV_UNASSIGN_ROLE
  | EV_CREATE_GROUP
  | EV_UPDATE_GROUP
  | EV_DELETE_GROUP
  | EV_ADD_PRINCIPALS_TO_GROUP
  | EV_REMOVE_PRINCIPALS_FROM_GROUP
  | EV_BOOTSTRAP_TENANT
  | EV_BULK_BOOTSTRAP_TENANT
  | EV_EXTERNAL_USER_UPDATE
  | EV_EXTERNAL_USER_DISABLE
  | EV_BULK_EXTERNAL_USER_UPDATE
  | EV_MIGRATE_CUSTOM_ROLE
  | EV_MIGRATE_TENANT_GROUPS
  | EV_CUSTOMIZE_DEFAULT_GROUP
  | EV_MIGRATE_SYSTEM_ROLE_ASSIGNMENT
  | EV_APPROVE_CROSS_ACCOUNT_REQUEST
  | EV_DENY_CROSS_ACCOUNT_REQUEST
  | EV_EXPIRE_CROSS_ACCOUNT_REQUEST
  | EV_MIGRATE_CROSS_ACCOUNT_REQUEST
  | EV_DELETE_BINDING_MAPPINGS
  | EV_CREATE_UNGROUPED_HOSTS_WORKSPACE
  | EV_FIX_RESOURCE_DEFINITIONS
  | EV_MIGRATE_BINDING_SCOPE
  | EV_REMIGRATE_ROLE_BINDING
  | EV_DUPLICATE_BINDING_CLEANUP
  | EV_WORKSPACE_IMPORT
  | EV_CREATE_WORKSPACE
  | EV_UPDATE_WORKSPACE
  | EV_DELETE_WORKSPACE
  | EV_MOVE_WORKSPACE
  | EV_CLEANUP_ORPHAN_BINDINGS
  | EV_REMOVE_UNASSIGNED_BINDING_MAPPINGS
  | EV_BATCH_CREATE_ROLE_BINDING
  | EV_UPDATE_ROLE_BINDINGS_FOR_SUBJECT
  | EV_REMOVE_DELETED_WORKSPACE_BINDINGS
  | EV_UPDATE_ROOT_WORKSPACE_TENANTS
  | EV_REMOVE_ROOT_PARENT_TENANT_RELATIONSHIPS
  | EV_DR_CORRECTIVE_ADD
  | EV_DR_CORRECTIVE_REMOVE

fun event_type_value :: "replication_event_type \<Rightarrow> string" where
  "event_type_value EV_CREATE_SYSTEM_ROLE = ''create_system_role''"
| "event_type_value EV_UPDATE_SYSTEM_ROLE = ''update_system_role''"
| "event_type_value EV_DELETE_SYSTEM_ROLE = ''delete_system_role''"
| "event_type_value EV_CREATE_CUSTOM_ROLE = ''create_custom_role''"
| "event_type_value EV_UPDATE_CUSTOM_ROLE = ''update_custom_role''"
| "event_type_value EV_DELETE_CUSTOM_ROLE = ''delete_custom_role''"
| "event_type_value EV_ASSIGN_ROLE = ''assign_role''"
| "event_type_value EV_UNASSIGN_ROLE = ''unassign_role''"
| "event_type_value EV_CREATE_GROUP = ''create_group''"
| "event_type_value EV_UPDATE_GROUP = ''update_group''"
| "event_type_value EV_DELETE_GROUP = ''delete_group''"
| "event_type_value EV_ADD_PRINCIPALS_TO_GROUP = ''add_principals_to_group''"
| "event_type_value EV_REMOVE_PRINCIPALS_FROM_GROUP = ''remove_principals_from_group''"
| "event_type_value EV_BOOTSTRAP_TENANT = ''bootstrap_tenant''"
| "event_type_value EV_BULK_BOOTSTRAP_TENANT = ''bulk_bootstrap_tenant''"
| "event_type_value EV_EXTERNAL_USER_UPDATE = ''external_user_update''"
| "event_type_value EV_EXTERNAL_USER_DISABLE = ''external_user_disable''"
| "event_type_value EV_BULK_EXTERNAL_USER_UPDATE = ''bulk_external_user_update''"
| "event_type_value EV_MIGRATE_CUSTOM_ROLE = ''migrate_custom_role''"
| "event_type_value EV_MIGRATE_TENANT_GROUPS = ''migrate_tenant_groups''"
| "event_type_value EV_CUSTOMIZE_DEFAULT_GROUP = ''customize_default_group''"
| "event_type_value EV_MIGRATE_SYSTEM_ROLE_ASSIGNMENT = ''migrate_system_role_assignment''"
| "event_type_value EV_APPROVE_CROSS_ACCOUNT_REQUEST = ''approve_cross_account_request''"
| "event_type_value EV_DENY_CROSS_ACCOUNT_REQUEST = ''deny_cross_account_request''"
| "event_type_value EV_EXPIRE_CROSS_ACCOUNT_REQUEST = ''expire_cross_account_request''"
| "event_type_value EV_MIGRATE_CROSS_ACCOUNT_REQUEST = ''migrate_cross_account_request''"
| "event_type_value EV_DELETE_BINDING_MAPPINGS = ''delete_binding_mappings''"
| "event_type_value EV_CREATE_UNGROUPED_HOSTS_WORKSPACE = ''create_ungrouped_hosts_workspace''"
| "event_type_value EV_FIX_RESOURCE_DEFINITIONS = ''fix_resource_definitions''"
| "event_type_value EV_MIGRATE_BINDING_SCOPE = ''migrate_binding_scope''"
| "event_type_value EV_REMIGRATE_ROLE_BINDING = ''remigrate_role_binding''"
| "event_type_value EV_DUPLICATE_BINDING_CLEANUP = ''duplicate_binding_cleanup''"
| "event_type_value EV_WORKSPACE_IMPORT = ''workspace_import''"
| "event_type_value EV_CREATE_WORKSPACE = ''create_workspace''"
| "event_type_value EV_UPDATE_WORKSPACE = ''update_workspace''"
| "event_type_value EV_DELETE_WORKSPACE = ''delete_workspace''"
| "event_type_value EV_MOVE_WORKSPACE = ''move_workspace''"
| "event_type_value EV_CLEANUP_ORPHAN_BINDINGS = ''cleanup_orphan_bindings''"
| "event_type_value EV_REMOVE_UNASSIGNED_BINDING_MAPPINGS = ''remove_unassigned_binding_mappings''"
| "event_type_value EV_BATCH_CREATE_ROLE_BINDING = ''batch_create_role_binding''"
| "event_type_value EV_UPDATE_ROLE_BINDINGS_FOR_SUBJECT = ''update_role_bindings_for_subject''"
| "event_type_value EV_REMOVE_DELETED_WORKSPACE_BINDINGS = ''remove_deleted_workspace_bindings''"
| "event_type_value EV_UPDATE_ROOT_WORKSPACE_TENANTS = ''update_root_workspace_tenants''"
| "event_type_value EV_REMOVE_ROOT_PARENT_TENANT_RELATIONSHIPS = ''remove_root_parent_tenant_relationships''"
| "event_type_value EV_DR_CORRECTIVE_ADD = ''dr_corrective_add''"
| "event_type_value EV_DR_CORRECTIVE_REMOVE = ''dr_corrective_remove''"

section \<open>Coordination of migrations\<close>

record migration_notify_coordination_config =
  mn_channel :: string
  mn_log_label :: string
  mn_timeout_seconds :: int
  mn_include_org_id_in_context :: bool
  mn_require_notify_token :: bool

definition MIGRATION_NOTIFY_TIMEOUT_SECONDS :: int where
  "MIGRATION_NOTIFY_TIMEOUT_SECONDS = 600"

definition MIGRATION_NOTIFY_COORDINATIONS :: "(string \<times> migration_notify_coordination_config) list" where
  "MIGRATION_NOTIFY_COORDINATIONS =
     [(''remove_root_parent_tenant_relationships'',
       \<lparr>mn_channel = ''remove_legacy_root_workspace_parent_batch'',
        mn_log_label = ''remove_legacy_root_workspace_tenant_parent'',
        mn_timeout_seconds = MIGRATION_NOTIFY_TIMEOUT_SECONDS,
        mn_include_org_id_in_context = False, mn_require_notify_token = True\<rparr>),
      (''migrate_binding_scope'',
       \<lparr>mn_channel = ''migrate_binding_scope_batch'',
        mn_log_label = ''migrate_binding_scope'',
        mn_timeout_seconds = MIGRATION_NOTIFY_TIMEOUT_SECONDS,
        mn_include_org_id_in_context = True, mn_require_notify_token = False\<rparr>)]"

definition migration_notify_coordination :: "string \<Rightarrow> migration_notify_coordination_config option" where
  "migration_notify_coordination event_type = map_of MIGRATION_NOTIFY_COORDINATIONS event_type"

type_synonym py_dict = "(string \<times> pyval) list"

definition info_get :: "py_dict \<Rightarrow> string \<Rightarrow> pyval \<Rightarrow> pyval" where
  "info_get d k dflt = (case map_of d k of None \<Rightarrow> dflt | Some v \<Rightarrow> v)"

definition build_migration_notify_resource_context ::
  "int \<Rightarrow> string \<Rightarrow> py_dict \<Rightarrow> migration_notify_coordination_config \<Rightarrow> py_dict option" where
  "build_migration_notify_resource_context now event_type event_info coordination =
     (let token = info_get event_info ''notify_token'' PyNone
      in if \<not> py_truthy token then None
         else Some
           [(''org_id'', PyStr (if mn_include_org_id_in_context coordination
                                then py_str (info_get event_info ''org_id'' (PyStr [])) else [])),
            (''event_type'', PyStr event_type),
            (''created_at'', PyInt now),
            (''notify_token'', PyStr (py_str token))])"

text \<open>The notification \<open>send_notify\<close> is called with, if it is called.\<close>

definition notify_migration_batch_completion ::
  "string option \<Rightarrow> py_dict option \<Rightarrow> (string \<times> string) option" where
  "notify_migration_batch_completion event_type resource_context =
     (case (event_type, resource_context) of
        (Some ty, Some ctx) \<Rightarrow>
          if ty = [] \<or> ctx = [] then None
          else let notify_token = info_get ctx ''notify_token'' PyNone
               in if \<not> py_truthy notify_token then None
                  else (case migration_notify_coordination ty of
                          None \<Rightarrow> None
                        | Some coordination \<Rightarrow>
                            Some (mn_channel coordination, str_strip (py_str notify_token)))
      | _ \<Rightarrow> None)"

section \<open>Events\<close>

record replication_event =
  ev_type :: replication_event_type
  ev_info :: py_dict
  ev_partition_key :: string
  ev_add :: "relation_tuple list"
  ev_remove :: "relation_tuple list"

definition resource_context_to_json ::
  "string option \<Rightarrow> string option \<Rightarrow> string \<Rightarrow> string \<Rightarrow> int \<Rightarrow> py_dict" where
  "resource_context_to_json resource_type resource_id org_id event_type created_at =
     [(''org_id'', PyStr org_id), (''event_type'', PyStr event_type), (''created_at'', PyInt created_at)] @
     (case resource_type of None \<Rightarrow> [] | Some t \<Rightarrow> [(''resource_type'', PyStr t)]) @
     (case resource_id of None \<Rightarrow> [] | Some i \<Rightarrow> [(''resource_id'', PyStr i)])"

definition event_context :: "int \<Rightarrow> replication_event \<Rightarrow> py_dict option" where
  "event_context now e =
     (let ty = event_type_value (ev_type e);
          org_id = py_str (info_get (ev_info e) ''org_id'' (PyStr []));
          rest = (if ev_type e = EV_CREATE_WORKSPACE
                  then (case map_of (ev_info e) ''workspace_id'' of
                          None \<Rightarrow> None
                        | Some w \<Rightarrow> Some (resource_context_to_json (Some ''Workspace'') (Some (py_str w)) org_id ty now))
                  else Some (resource_context_to_json None None org_id ty now))
      in (case migration_notify_coordination ty of
            None \<Rightarrow> rest
          | Some coordination \<Rightarrow>
              (case build_migration_notify_resource_context now ty (ev_info e) coordination of
                 Some ctx \<Rightarrow> Some ctx
               | None \<Rightarrow> if mn_require_notify_token coordination then None else rest)))"

section \<open>The outbox\<close>

datatype aggregate_types = RELATIONS | WORKSPACE | WORKSPACE_BULK

fun aggregate_type_value :: "aggregate_types \<Rightarrow> string" where
  "aggregate_type_value RELATIONS = ''relations-replication-event''"
| "aggregate_type_value WORKSPACE = ''workspace''"
| "aggregate_type_value WORKSPACE_BULK = ''workspace-bulk''"

datatype workspace_event_stream = STREAM_STANDARD | STREAM_BULK

fun stream_aggregate_type :: "workspace_event_stream \<Rightarrow> aggregate_types" where
  "stream_aggregate_type STREAM_STANDARD = WORKSPACE"
| "stream_aggregate_type STREAM_BULK = WORKSPACE_BULK"

record workspace_event =
  we_org_id :: string
  we_account_number :: "string option"
  we_workspace :: "(string \<times> string) list"
  we_event_type :: replication_event_type
  we_partition_key :: string

record outbox =
  ob_aggregatetype :: string
  ob_aggregateid :: string
  ob_event_type :: string
  ob_payload :: py_dict

definition OPERATION_MAPPING :: "(replication_event_type \<times> string) list" where
  "OPERATION_MAPPING =
     [(EV_CREATE_WORKSPACE, ''create''), (EV_DELETE_WORKSPACE, ''delete''), (EV_UPDATE_WORKSPACE, ''update'')]"

fun duplicate_keys :: "string list \<Rightarrow> string list \<Rightarrow> relation_tuple list \<Rightarrow> string list" where
  "duplicate_keys seen duplicates [] = duplicates"
| "duplicate_keys seen duplicates (rel # rels) =
     (let key = stringify_spicedb_relationship rel
      in if key \<in> set seen then duplicate_keys seen (duplicates @ [key]) rels
         else duplicate_keys (key # seen) duplicates rels)"

definition check_for_duplicate_relationships :: "relation_tuple list \<Rightarrow> unit result" where
  "check_for_duplicate_relationships relationships =
     check_r (duplicate_keys [] [] relationships = []) ValueError"

definition build_replication_event :: "int \<Rightarrow> replication_event \<Rightarrow> py_dict result" where
  "build_replication_event now event =
     bind_r (check_for_duplicate_relationships (ev_add event)) (\<lambda>_.
       Inr ([(''relations_to_add'', PyList (map to_dict (ev_add event))),
             (''relations_to_remove'', PyList (map to_dict (ev_remove event)))] @
            (case event_context now event of
               None \<Rightarrow> []
             | Some ctx \<Rightarrow> if ctx = [] then [] else [(''resource_context'', PyDict ctx)])))"

text \<open>\<open>log\<close> is the \<open>OutboxLog\<close> given to the replicator; \<open>'l\<close> is its state.\<close>

definition save_replication_event ::
  "('l \<Rightarrow> outbox \<Rightarrow> 'l) \<Rightarrow> py_dict \<Rightarrow> replication_event_type \<Rightarrow> string \<Rightarrow> 'l \<Rightarrow> 'l" where
  "save_replication_event log payload event_type aggregateid l =
     (if \<not> py_truthy (info_get payload ''relations_to_add'' PyNone) \<and>
         \<not> py_truthy (info_get payload ''relations_to_remove'' PyNone)
      then l
      else log l \<lparr>ob_aggregatetype = aggregate_type_value RELATIONS, ob_aggregateid = aggregateid,
                  ob_event_type = event_type_value event_type, ob_payload = payload\<rparr>)"

definition outbox_replicate ::
  "('l \<Rightarrow> outbox \<Rightarrow> 'l) \<Rightarrow> int \<Rightarrow> 'l \<Rightarrow> replication_event \<Rightarrow> 'l result" where
  "outbox_replicate log now l event =
     bind_r (build_replication_event now event) (\<lambda>payload.
       Inr (save_replication_event log payload (ev_type event) (ev_partition_key event) l))"

definition outbox_replicate_workspace ::
  "('l \<Rightarrow> outbox \<Rightarrow> 'l) \<Rightarrow> 'l \<Rightarrow> workspace_event \<Rightarrow> workspace_event_stream \<Rightarrow> 'l result" where
  "outbox_replicate_workspace log l event event_stream =
     (case map_of OPERATION_MAPPING (we_event_type event) of
        None \<Rightarrow> Inl KeyError
      | Some operation \<Rightarrow>
          Inr (log l \<lparr>ob_aggregatetype = aggregate_type_value (stream_aggregate_type event_stream),
                      ob_aggregateid = we_partition_key event,
                      ob_event_type = event_type_value (we_event_type event),
                      ob_payload =
                        [(''org_id'', PyStr (we_org_id event)),
                         (''account_number'', py_opt_str (we_account_number event)),
                         (''workspace'', PyDict (map (\<lambda>(k, v). (k, PyStr v)) (we_workspace event))),
                         (''operation'', PyStr operation)]\<rparr>))"

text \<open>
  \<open>OutboxWAL\<close>: the row is inserted and deleted at once, so the table does not grow and the two
  changes are in the write-ahead log, which the connector reads.
\<close>

datatype wal_entry = WalInsert outbox | WalDelete outbox

record outbox_wal =
  wal_table :: "outbox list"
  wal_entries :: "wal_entry list"

definition outbox_save :: "outbox_wal \<Rightarrow> outbox \<Rightarrow> outbox_wal" where
  "outbox_save w row = \<lparr>wal_table = row # wal_table w, wal_entries = wal_entries w @ [WalInsert row]\<rparr>"

definition outbox_delete :: "outbox_wal \<Rightarrow> outbox \<Rightarrow> outbox_wal" where
  "outbox_delete w row = \<lparr>wal_table = remove1 row (wal_table w), wal_entries = wal_entries w @ [WalDelete row]\<rparr>"

definition outbox_wal_log :: "outbox_wal \<Rightarrow> outbox \<Rightarrow> outbox_wal" where
  "outbox_wal_log w row = outbox_delete (outbox_save w row) row"

text \<open>\<open>InMemoryLog\<close>.\<close>

definition in_memory_log :: "outbox list \<Rightarrow> outbox \<Rightarrow> outbox list" where
  "in_memory_log l row = l @ [row]"

definition log_first :: "outbox list \<Rightarrow> outbox result" where
  "log_first l = (if l = [] then Inl IndexError else Inr (hd l))"

definition log_latest :: "outbox list \<Rightarrow> outbox result" where
  "log_latest l = (if l = [] then Inl IndexError else Inr (last l))"

section \<open>The other replicators\<close>

definition in_memory_replicate :: "tuple_set \<Rightarrow> replication_event \<Rightarrow> tuple_set result" where
  "in_memory_replicate store event = tuples_write (ev_add event) (ev_remove event) store"

definition noop_replicate :: "'s \<Rightarrow> replication_event \<Rightarrow> 's result" where
  "noop_replicate s event = Inr s"

definition logging_replicate :: "string list \<Rightarrow> replication_event \<Rightarrow> string list result" where
  "logging_replicate lines event = Inr (lines @ map stringify_spicedb_relationship (ev_add event))"

text \<open>
  \<open>InventoryApiReplicator\<close>: \<open>'svc\<close> is the state of the tuple service, \<open>create_tuples\<close> and
  \<open>delete_tuples\<close> are its calls, which return the new state of the service with the error of the
  call or its consistency token. A failed call is logged and raised again.
\<close>

definition execute_grpc_call :: "'svc \<times> 'a result \<Rightarrow> 'svc \<times> 'a result" where
  "execute_grpc_call call = (case call of (svc, Inl e) \<Rightarrow> (svc, Inl e) | (svc, Inr response) \<Rightarrow> (svc, Inr response))"

lemma execute_grpc_call_id [simp]: "execute_grpc_call call = call"
  by (cases call; cases "snd call") (simp_all add: execute_grpc_call_def)

definition acquire_lock :: "('svc \<Rightarrow> string \<Rightarrow> 'svc \<times> string result) \<Rightarrow> 'svc \<Rightarrow> string \<Rightarrow> 'svc \<times> string result" where
  "acquire_lock acquire svc lock_id = execute_grpc_call (acquire svc lock_id)"

definition write_relationships ::
  "('svc \<Rightarrow> relation_tuple list \<Rightarrow> 'fc option \<Rightarrow> 'svc \<times> string result) \<Rightarrow> 'svc
   \<Rightarrow> relation_tuple list \<Rightarrow> 'fc option \<Rightarrow> 'svc \<times> string result" where
  "write_relationships create_tuples svc relationships fencing_check =
     execute_grpc_call (create_tuples svc relationships fencing_check)"

record relation_tuple_filter =
  tf_resource_namespace :: string
  tf_resource_type :: string
  tf_resource_id :: string
  tf_relation :: string
  tf_subject_namespace :: string
  tf_subject_type :: string
  tf_subject_id :: string
  tf_subject_relation :: "string option"

definition exact_filter :: "relation_tuple \<Rightarrow> relation_tuple_filter" where
  "exact_filter t =
     (let res = rt_resource t; sub = sr_subject (rt_subject t) in
      \<lparr>tf_resource_namespace = ot_namespace (or_type res), tf_resource_type = ot_name (or_type res),
       tf_resource_id = or_id res, tf_relation = rt_relation t,
       tf_subject_namespace = ot_namespace (or_type sub), tf_subject_type = ot_name (or_type sub),
       tf_subject_id = or_id sub,
       tf_subject_relation = Some (case sr_relation (rt_subject t) of None \<Rightarrow> [] | Some r \<Rightarrow> r)\<rparr>)"

text \<open>The token of the last call; \<open>None\<close> is that of the empty response.\<close>

fun delete_each ::
  "('svc \<Rightarrow> relation_tuple_filter \<Rightarrow> 'fc option \<Rightarrow> 'svc \<times> string result) \<Rightarrow> 'fc option
   \<Rightarrow> relation_tuple list \<Rightarrow> 'svc \<Rightarrow> string option \<Rightarrow> 'svc \<times> string option result" where
  "delete_each delete_tuples fencing_check [] svc token = (svc, Inr token)"
| "delete_each delete_tuples fencing_check (t # ts) svc token =
     bind_s (execute_grpc_call (delete_tuples svc (exact_filter t) fencing_check)) (\<lambda>svc' token'.
       delete_each delete_tuples fencing_check ts svc' (Some token'))"

definition delete_relationships ::
  "('svc \<Rightarrow> relation_tuple_filter \<Rightarrow> 'fc option \<Rightarrow> 'svc \<times> string result) \<Rightarrow> 'svc
   \<Rightarrow> relation_tuple list \<Rightarrow> 'fc option \<Rightarrow> 'svc \<times> string option result" where
  "delete_relationships delete_tuples svc relationships fencing_check =
     delete_each delete_tuples fencing_check relationships svc None"

definition inventory_api_replicate ::
  "('svc \<Rightarrow> relation_tuple list \<Rightarrow> 'fc option \<Rightarrow> 'svc \<times> string result) \<Rightarrow> 'svc
   \<Rightarrow> replication_event \<Rightarrow> 'svc \<times> unit result" where
  "inventory_api_replicate create_tuples svc event =
     bind_s (write_relationships create_tuples svc (ev_add event) None) (\<lambda>svc' _. (svc', Inr ()))"

record read_request =
  rr_filter :: relation_tuple_filter
  rr_pagination :: "(int option \<times> string option) option"

definition read_tuples_request ::
  "string \<Rightarrow> string \<Rightarrow> string \<Rightarrow> string \<Rightarrow> string \<Rightarrow> string option \<Rightarrow> string option \<Rightarrow> string option
   \<Rightarrow> int option \<Rightarrow> string option \<Rightarrow> read_request result" where
  "read_tuples_request resource_type resource_id relation subject_type subject_id subject_relation
       resource_namespace subject_namespace pagination_limit continuation_token =
     (if pagination_limit = None \<and> continuation_token \<noteq> None then Inl TypeError
      else if resource_type = [] \<or> subject_type = [] then Inl ValueError
      else Inr
        \<lparr>rr_filter =
           \<lparr>tf_resource_namespace = (case resource_namespace of Some n \<Rightarrow> n
                                      | None \<Rightarrow> if resource_type \<noteq> [] then ''rbac'' else []),
            tf_resource_type = resource_type, tf_resource_id = resource_id, tf_relation = relation,
            tf_subject_namespace = (case subject_namespace of Some n \<Rightarrow> n
                                     | None \<Rightarrow> if subject_type \<noteq> [] then ''rbac'' else []),
            tf_subject_type = subject_type, tf_subject_id = subject_id,
            tf_subject_relation = subject_relation\<rparr>,
         rr_pagination = (if pagination_limit \<noteq> None \<or> continuation_token \<noteq> None
                          then Some (pagination_limit, continuation_token) else None)\<rparr>)"

definition read_tuples ::
  "('svc \<Rightarrow> read_request \<Rightarrow> 'svc \<times> py_dict list result) \<Rightarrow> 'svc \<Rightarrow> read_request result \<Rightarrow> 'svc \<times> pyval list result" where
  "read_tuples call svc request =
     bind_s (svc, request) (\<lambda>svc req. bind_s (execute_grpc_call (call svc req)) (\<lambda>svc' responses.
       (svc', Inr (map PyDict responses))))"

section \<open>The interface\<close>

text \<open>
  \<open>InventoryReplicator\<close> as an object: its two methods on its state \<open>'s\<close>. The base class's
  \<open>replicate_workspace\<close> does nothing.
\<close>

record 's replicator =
  rp_replicate :: "'s \<Rightarrow> replication_event \<Rightarrow> 's result"
  rp_replicate_workspace :: "'s \<Rightarrow> workspace_event \<Rightarrow> workspace_event_stream \<Rightarrow> 's result"

definition base_replicate_workspace :: "'s \<Rightarrow> workspace_event \<Rightarrow> workspace_event_stream \<Rightarrow> 's result" where
  "base_replicate_workspace s event event_stream = Inr s"

definition in_memory_replicator :: "tuple_set replicator" where
  "in_memory_replicator =
     \<lparr>rp_replicate = in_memory_replicate, rp_replicate_workspace = base_replicate_workspace\<rparr>"

definition outbox_replicator :: "('l \<Rightarrow> outbox \<Rightarrow> 'l) \<Rightarrow> int \<Rightarrow> 'l replicator" where
  "outbox_replicator log now =
     \<lparr>rp_replicate = outbox_replicate log now, rp_replicate_workspace = outbox_replicate_workspace log\<rparr>"

definition raise_dual_write_exception :: "py_error \<Rightarrow> py_error" where
  "raise_dual_write_exception e = (case e of OperationalError True \<Rightarrow> e | _ \<Rightarrow> DualWriteException)"

text \<open>The \<open>try\<close> blocks of the handlers.\<close>

definition dual_write_try :: "'a result \<Rightarrow> 'a result" where
  "dual_write_try m = (case m of Inl e \<Rightarrow> Inl (raise_dual_write_exception e) | Inr x \<Rightarrow> Inr x)"

lemma dual_write_try_Inr_iff [simp]: "dual_write_try m = Inr x \<longleftrightarrow> m = Inr x"
  by (cases m) (simp_all add: dual_write_try_def)

lemma dual_write_try_Inr [simp]: "dual_write_try (Inr x) = Inr x"
  by simp

text \<open>Events whose tuples are valid and whose additions have pairwise different keys.\<close>

definition replicable :: "replication_event \<Rightarrow> bool" where
  "replicable e \<longleftrightarrow>
     distinct (map stringify_spicedb_relationship (ev_add e)) \<and>
     list_all valid_relation_tuple (ev_add e) \<and> list_all valid_relation_tuple (ev_remove e)"

text \<open>What an event does to the tuples of the access graph.\<close>

definition apply_event :: "relation_tuple set \<Rightarrow> replication_event \<Rightarrow> relation_tuple set" where
  "apply_event ts e = (ts - set (ev_remove e)) \<union> set (ev_add e)"

locale inventory_replicator =
  fixes replicate :: "'s \<Rightarrow> replication_event \<Rightarrow> 's result"
    and tuples :: "'s \<Rightarrow> relation_tuple set"
  assumes replicate_accepts: "replicable e \<Longrightarrow> \<exists>s'. replicate s e = Inr s'"
    and replicate_applies: "replicable e \<Longrightarrow> replicate s e = Inr s' \<Longrightarrow> tuples s' = apply_event (tuples s) e"
begin

lemma replay:
  "list_all replicable es \<Longrightarrow>
     \<exists>s'. foldM_r replicate s es = Inr s' \<and> tuples s' = foldl apply_event (tuples s) es"
proof (induction es arbitrary: s)
  case (Cons e es)
  then obtain s1 where s1: "replicate s e = Inr s1" using replicate_accepts by fastforce
  with Cons.prems have "tuples s1 = apply_event (tuples s) e" by (simp add: replicate_applies)
  with Cons.IH [of s1] Cons.prems s1 show ?case by simp
qed simp

lemma final_tuple:
  assumes "replicable e" and "replicate s e = Inr s'"
  shows "t \<in> set (ev_add e) \<Longrightarrow> t \<in> tuples s'"
    and "t \<in> set (ev_remove e) \<Longrightarrow> t \<notin> set (ev_add e) \<Longrightarrow> t \<notin> tuples s'"
  using replicate_applies [OF assms] by (auto simp: apply_event_def)

end

interpretation memory: inventory_replicator in_memory_replicate set
proof
  fix e :: replication_event and s s'
  assume "replicable e"
  then have "distinct (ev_add e)" by (auto simp: replicable_def distinct_map)
  then show "\<exists>s'. in_memory_replicate s e = Inr s'"
    and "in_memory_replicate s e = Inr s' \<Longrightarrow> set s' = apply_event (set s) e"
    by (auto simp: in_memory_replicate_def tuples_write_cases foldl_tuples_remove apply_event_def)
qed

text \<open>The tuples an outbox log stands for: the events in the order of the log.\<close>

definition payload_tuples :: "py_dict \<Rightarrow> string \<Rightarrow> relation_tuple list" where
  "payload_tuples payload field =
     (case info_get payload field PyNone of
        PyList ds \<Rightarrow> concat (map (\<lambda>d. case from_message_dict d of Inr t \<Rightarrow> [t] | Inl _ \<Rightarrow> []) ds)
      | _ \<Rightarrow> [])"

definition apply_row :: "relation_tuple set \<Rightarrow> outbox \<Rightarrow> relation_tuple set" where
  "apply_row ts row =
     (if ob_aggregatetype row = aggregate_type_value RELATIONS
      then (ts - set (payload_tuples (ob_payload row) ''relations_to_remove'')) \<union>
           set (payload_tuples (ob_payload row) ''relations_to_add'')
      else ts)"

definition log_tuples :: "outbox list \<Rightarrow> relation_tuple set" where
  "log_tuples l = foldl apply_row {} l"

lemma log_tuples_append [simp]: "log_tuples (l @ [row]) = apply_row (log_tuples l) row"
  by (simp add: log_tuples_def)

lemma duplicate_keys_Nil_iff:
  "duplicate_keys seen dups ts = [] \<longleftrightarrow>
     dups = [] \<and> distinct (map stringify_spicedb_relationship ts) \<and>
     set (map stringify_spicedb_relationship ts) \<inter> set seen = {}"
  by (induction ts arbitrary: seen dups) (auto simp: Let_def)

lemma decode_encoded:
  "list_all valid_relation_tuple ts \<Longrightarrow>
     concat (map (\<lambda>d. case from_message_dict d of Inr t \<Rightarrow> [t] | Inl _ \<Rightarrow> []) (map to_dict ts)) = ts"
  by (induction ts) (simp_all add: dict_round_trip)

lemma build_replication_event_Inr:
  "build_replication_event now e = Inr p \<Longrightarrow>
     info_get p ''relations_to_add'' PyNone = PyList (map to_dict (ev_add e)) \<and>
     info_get p ''relations_to_remove'' PyNone = PyList (map to_dict (ev_remove e))"
  by (auto simp: build_replication_event_def bind_r_Inr_iff info_get_def)

lemma build_replication_event_ok:
  "is_ok (build_replication_event now e) \<longleftrightarrow> distinct (map stringify_spicedb_relationship (ev_add e))"
  by (cases "distinct (map stringify_spicedb_relationship (ev_add e))")
    (simp_all add: build_replication_event_def check_for_duplicate_relationships_def duplicate_keys_Nil_iff)

lemma outbox_replicate_row:
  assumes "replicable e" and "outbox_replicate log now l e = Inr l'"
  shows "(ev_add e = [] \<and> ev_remove e = [] \<and> l' = l) \<or>
    (\<exists>row. l' = log l row \<and> apply_row ts row = apply_event ts e)"
proof -
  from assms(2) obtain p where p: "build_replication_event now e = Inr p"
    and l': "l' = save_replication_event log p (ev_type e) (ev_partition_key e) l"
    by (auto simp: outbox_replicate_def bind_r_Inr_iff)
  note f = build_replication_event_Inr [OF p]
  have "payload_tuples p ''relations_to_add'' = ev_add e"
    "payload_tuples p ''relations_to_remove'' = ev_remove e"
    using assms(1) f decode_encoded by (simp_all add: payload_tuples_def replicable_def)
  then show ?thesis
    using f l' by (auto simp: save_replication_event_def apply_row_def apply_event_def)
qed

lemma outbox_replicate_ok:
  "is_ok (outbox_replicate log now l e) \<longleftrightarrow> distinct (map stringify_spicedb_relationship (ev_add e))"
  unfolding build_replication_event_ok [of now e, symmetric]
  by (cases "build_replication_event now e") (simp_all add: outbox_replicate_def)

interpretation outbox_log: inventory_replicator "outbox_replicate in_memory_log now" log_tuples for now
proof
  fix e :: replication_event and s s'
  assume r: "replicable e"
  then show "\<exists>s'. outbox_replicate in_memory_log now s e = Inr s'"
    using outbox_replicate_ok [of in_memory_log now s e] by (simp add: replicable_def is_ok_iff)
  assume "outbox_replicate in_memory_log now s e = Inr s'"
  from outbox_replicate_row [OF r this, of "log_tuples s"]
  show "log_tuples s' = apply_event (log_tuples s) e"
    by (elim disjE exE conjE) (simp_all add: in_memory_log_def apply_event_def)
qed

text \<open>The write-ahead log, read by the connector: inserted rows in order.\<close>

definition wal_rows :: "outbox_wal \<Rightarrow> outbox list" where
  "wal_rows w = concat (map (\<lambda>e. case e of WalInsert row \<Rightarrow> [row] | WalDelete _ \<Rightarrow> []) (wal_entries w))"

lemma wal_rows_log [simp]: "wal_rows (outbox_wal_log w row) = wal_rows w @ [row]"
  by (simp add: wal_rows_def outbox_wal_log_def outbox_save_def outbox_delete_def)

lemma wal_table_log [simp]: "wal_table (outbox_wal_log w row) = wal_table w"
  by (simp add: outbox_wal_log_def outbox_save_def outbox_delete_def)

interpretation outbox_wal_rep:
  inventory_replicator "outbox_replicate outbox_wal_log now" "\<lambda>w. log_tuples (wal_rows w)" for now
proof
  fix e :: replication_event and s s'
  assume r: "replicable e"
  then show "\<exists>s'. outbox_replicate outbox_wal_log now s e = Inr s'"
    using outbox_replicate_ok [of outbox_wal_log now s e] by (simp add: replicable_def is_ok_iff)
  assume "outbox_replicate outbox_wal_log now s e = Inr s'"
  from outbox_replicate_row [OF r this, of "log_tuples (wal_rows s)"]
  show "log_tuples (wal_rows s') = apply_event (log_tuples (wal_rows s)) e"
    by (elim disjE exE conjE) (simp_all add: apply_event_def)
qed

text \<open>A replicator that takes workspace events and whose workspace events leave the tuples alone.\<close>

locale workspace_replicator =
  inventory_replicator "rp_replicate rp" tuples for rp :: "'s replicator" and tuples +
  assumes workspace_neutral: "rp_replicate_workspace rp s e stream = Inr s' \<Longrightarrow> tuples s' = tuples s"
    and workspace_accepts: "we_event_type e \<in> {EV_CREATE_WORKSPACE, EV_UPDATE_WORKSPACE, EV_DELETE_WORKSPACE} \<Longrightarrow>
      \<exists>s'. rp_replicate_workspace rp s e stream = Inr s'"
begin

lemma replicate_single:
  assumes "rp_replicate rp s \<lparr>ev_type = ty, ev_info = info, ev_partition_key = key, ev_add = add, ev_remove = rem\<rparr> = Inr s'"
    and "list_all valid_relation_tuple add" and "list_all valid_relation_tuple rem" and "length add \<le> 1"
  shows "tuples s' = (tuples s - set rem) \<union> set add"
proof -
  have "distinct (map stringify_spicedb_relationship add)"
    using assms(4) by (cases add) (auto simp: le_Suc_eq)
  with assms(2,3) replicate_applies [OF _ assms(1)] show ?thesis
    by (simp add: replicable_def apply_event_def)
qed

end

interpretation memory_ws: workspace_replicator in_memory_replicator set
  by unfold_locales
    (auto simp: in_memory_replicator_def base_replicate_workspace_def memory.replicate_accepts
      memory.replicate_applies)

lemma apply_row_workspace: "ob_aggregatetype row = aggregate_type_value (stream_aggregate_type stream) \<Longrightarrow> apply_row ts row = ts"
  by (cases stream) (simp_all add: apply_row_def)

interpretation outbox_wal_ws:
  workspace_replicator "outbox_replicator outbox_wal_log now" "\<lambda>w. log_tuples (wal_rows w)" for now
proof
  fix e :: workspace_event and s s' stream
  assume "rp_replicate_workspace (outbox_replicator outbox_wal_log now) s e stream = Inr s'"
  then obtain row where "s' = outbox_wal_log s row"
    "ob_aggregatetype row = aggregate_type_value (stream_aggregate_type stream)"
    by (auto simp: outbox_replicator_def outbox_replicate_workspace_def split: option.splits)
  then show "log_tuples (wal_rows s') = log_tuples (wal_rows s)" by (simp add: apply_row_workspace)
qed (auto simp: outbox_replicate_workspace_def OPERATION_MAPPING_def
    outbox_replicator_def outbox_wal_rep.replicate_accepts outbox_wal_rep.replicate_applies)

section \<open>Properties\<close>

text \<open>
  C13 (refinement): replicating any sequence of replicable events through the outbox succeeds, and
  replaying the rows the connector reads from the write-ahead log gives exactly the tuples that
  the in-memory replicator holds after the same events; the outbox table itself stays as it was.
\<close>

theorem outbox_refines_memory:
  assumes "list_all replicable es"
  shows "\<exists>w s. foldM_r (outbox_replicate outbox_wal_log now) \<lparr>wal_table = [], wal_entries = []\<rparr> es = Inr w \<and>
     foldM_r in_memory_replicate [] es = Inr s \<and>
     log_tuples (wal_rows w) = set s \<and> wal_table w = []"
proof -
  let ?w0 = "\<lparr>wal_table = [], wal_entries = []\<rparr>"
  obtain w where w: "foldM_r (outbox_replicate outbox_wal_log now) ?w0 es = Inr w"
    and tw: "log_tuples (wal_rows w) = foldl apply_event (log_tuples (wal_rows ?w0)) es"
    using outbox_wal_rep.replay [OF assms, of now ?w0] by blast
  obtain s where s: "foldM_r in_memory_replicate [] es = Inr s"
    and ts: "set s = foldl apply_event (set []) es"
    using memory.replay [OF assms, of "[]"] by blast
  have "log_tuples (wal_rows ?w0) = set []" by (simp add: wal_rows_def log_tuples_def)
  with tw ts have "log_tuples (wal_rows w) = set s" by simp
  moreover have "wal_table w = []"
    by (rule foldM_r_invariant [OF w])
      (auto simp: outbox_replicate_def save_replication_event_def bind_r_Inr_iff)
  ultimately show ?thesis using w s by blast
qed

theorem outbox_refines_memory_witness:
  "let t = plain_tuple (''rbac'', ''role'') ''r'' (''rbac'', ''principal'') ''*'' ''p'' None;
       e = \<lparr>ev_type = EV_CREATE_SYSTEM_ROLE, ev_info = [], ev_partition_key = ''stage'',
            ev_add = [t], ev_remove = []\<rparr>
   in \<exists>w s. foldM_r (outbox_replicate outbox_wal_log 0) \<lparr>wal_table = [], wal_entries = []\<rparr> [e] = Inr w \<and>
     foldM_r in_memory_replicate [] [e] = Inr s \<and> log_tuples (wal_rows w) = set s"
proof -
  let ?t = "plain_tuple (''rbac'', ''role'') ''r'' (''rbac'', ''principal'') ''*'' ''p'' None"
  let ?e = "\<lparr>ev_type = EV_CREATE_SYSTEM_ROLE, ev_info = [], ev_partition_key = ''stage'',
            ev_add = [?t], ev_remove = []\<rparr>"
  have "list_all replicable [?e]"
    by (simp add: replicable_def plain_tuple_def valid_defs type_regex_def id_regex_def type_char_def
        id_char_def is_alnum_def)
  from outbox_refines_memory [OF this, of 0] show ?thesis unfolding Let_def by blast
qed

text \<open>
  C27 (error): the outbox replicator refuses an event, with \<open>ValueError\<close> and nothing logged, exactly
  when two of its additions have the same key; every event it accepts the in-memory replicator
  accepts, but not conversely: two tuples that differ only in the relation of their subject have
  the same key.
\<close>

theorem outbox_duplicate_check:
  "(outbox_replicate log now l e = Inl ValueError \<longleftrightarrow>
      \<not> distinct (map stringify_spicedb_relationship (ev_add e))) \<and>
   (is_ok (outbox_replicate log now l e) \<longrightarrow> is_ok (in_memory_replicate s e)) \<and>
   (\<exists>e s. list_all valid_relation_tuple (ev_add e) \<and> is_ok (in_memory_replicate s e) \<and>
      \<not> is_ok (outbox_replicate log now l e))"
proof (intro conjI)
  show "outbox_replicate log now l e = Inl ValueError \<longleftrightarrow>
      \<not> distinct (map stringify_spicedb_relationship (ev_add e))"
    by (cases "distinct (map stringify_spicedb_relationship (ev_add e))")
      (simp_all add: outbox_replicate_def build_replication_event_def
        check_for_duplicate_relationships_def duplicate_keys_Nil_iff)
  show "is_ok (outbox_replicate log now l e) \<longrightarrow> is_ok (in_memory_replicate s e)"
    unfolding outbox_replicate_ok by (auto simp: in_memory_replicate_def tuples_write_cases distinct_map)
  let ?t = "\<lambda>r. plain_tuple (''rbac'', ''role_binding'') ''b'' (''rbac'', ''group'') ''g'' ''subject'' r"
  let ?e = "\<lparr>ev_type = EV_ASSIGN_ROLE, ev_info = [], ev_partition_key = ''stage'',
            ev_add = [?t None, ?t (Some ''member'')], ev_remove = []\<rparr>"
  have "list_all valid_relation_tuple (ev_add ?e) \<and> is_ok (in_memory_replicate [] ?e) \<and>
      \<not> is_ok (outbox_replicate log now l ?e)"
    unfolding outbox_replicate_ok
    by (simp add: in_memory_replicate_def tuples_write_cases valid_defs type_regex_def id_regex_def
        type_char_def id_char_def is_alnum_def stringify_spicedb_relationship_def plain_tuple_def)
  then show "\<exists>e s. list_all valid_relation_tuple (ev_add e) \<and> is_ok (in_memory_replicate s e) \<and>
      \<not> is_ok (outbox_replicate log now l e)" by blast
qed

theorem outbox_duplicate_check_witness:
  "is_ok (outbox_replicate in_memory_log 0 [] \<lparr>ev_type = EV_ASSIGN_ROLE, ev_info = [],
      ev_partition_key = ''stage'', ev_add = [], ev_remove = []\<rparr>) \<and>
   is_ok (in_memory_replicate [] \<lparr>ev_type = EV_ASSIGN_ROLE, ev_info = [],
      ev_partition_key = ''stage'', ev_add = [], ev_remove = []\<rparr>)"
proof -
  let ?e = "\<lparr>ev_type = EV_ASSIGN_ROLE, ev_info = [], ev_partition_key = ''stage'', ev_add = [], ev_remove = []\<rparr>"
  have "is_ok (outbox_replicate in_memory_log 0 [] ?e)" unfolding outbox_replicate_ok by simp
  with outbox_duplicate_check [of in_memory_log 0 "[]" ?e "[]"] show ?thesis by blast
qed

text \<open>
  A sequence of events through the direct replicator, and the tuples of a sequence of events that are there although
  the event that removed them was not followed, or accompanied, by one that adds them.
\<close>

primrec inventory_api_run ::
  "('svc \<Rightarrow> relation_tuple list \<Rightarrow> 'fc option \<Rightarrow> 'svc \<times> string result) \<Rightarrow> 'svc \<Rightarrow> replication_event list \<Rightarrow> 'svc \<times> unit result" where
  "inventory_api_run create svc [] = (svc, Inr ())" |
  "inventory_api_run create svc (e # es) =
     bind_s (inventory_api_replicate create svc e) (\<lambda>svc' _. inventory_api_run create svc' es)"

definition event_additions :: "replication_event list \<Rightarrow> relation_tuple set" where
  "event_additions es = (\<Union>e \<in> set es. set (ev_add e))"

definition stale_tuples :: "relation_tuple set \<Rightarrow> replication_event list \<Rightarrow> relation_tuple set" where
  "stale_tuples C es = {t. \<exists>xs e ys. es = xs @ e # ys \<and> t \<in> set (ev_remove e) \<and> t \<in> C \<union> event_additions xs \<and> t \<notin> event_additions (e # ys)}"

lemma stale_snoc:
  "stale_tuples C (es @ [e]) = (stale_tuples C es - set (ev_add e)) \<union> ((C \<union> event_additions es) \<inter> set (ev_remove e) - set (ev_add e))"
proof (intro set_eqI iffI)
  fix t assume "t \<in> stale_tuples C (es @ [e])"
  then obtain xs e' ys where t: "es @ [e] = xs @ e' # ys" "t \<in> set (ev_remove e')" "t \<in> C \<union> event_additions xs" "t \<notin> event_additions (e' # ys)"
    by (auto simp: stale_tuples_def)
  show "t \<in> (stale_tuples C es - set (ev_add e)) \<union> ((C \<union> event_additions es) \<inter> set (ev_remove e) - set (ev_add e))"
  proof (cases ys rule: rev_cases)
    case Nil
    then show ?thesis using t by (auto simp: event_additions_def)
  next
    case (snoc zs z)
    then have "es = xs @ e' # zs" "t \<notin> event_additions (e' # zs)" "t \<notin> set (ev_add e)" using t(1,4) by (auto simp: event_additions_def)
    then show ?thesis using t(2,3) unfolding stale_tuples_def by blast
  qed
next
  fix t assume "t \<in> (stale_tuples C es - set (ev_add e)) \<union> ((C \<union> event_additions es) \<inter> set (ev_remove e) - set (ev_add e))"
  then show "t \<in> stale_tuples C (es @ [e])"
  proof
    assume "t \<in> stale_tuples C es - set (ev_add e)"
    then obtain xs e' ys where t: "es = xs @ e' # ys" "t \<in> set (ev_remove e')" "t \<in> C \<union> event_additions xs" "t \<notin> event_additions (e' # ys)"
        "t \<notin> set (ev_add e)"
      by (auto simp: stale_tuples_def)
    then have "es @ [e] = xs @ e' # ys @ [e] \<and> t \<notin> event_additions (e' # ys @ [e])" by (auto simp: event_additions_def)
    then show ?thesis using t(2,3) unfolding stale_tuples_def by blast
  next
    assume t: "t \<in> (C \<union> event_additions es) \<inter> set (ev_remove e) - set (ev_add e)"
    then have "t \<notin> event_additions [e]" by (simp add: event_additions_def)
    then show ?thesis using t unfolding stale_tuples_def by blast
  qed
qed

lemma stale_exact: "foldl apply_event C es \<union> stale_tuples C es = C \<union> event_additions es \<and> foldl apply_event C es \<inter> stale_tuples C es = {}"
proof (induction es rule: rev_induct)
  case Nil
  then show ?case by (simp add: stale_tuples_def event_additions_def)
next
  case (snoc e es)
  have adds: "C \<union> event_additions (es @ [e]) = C \<union> event_additions es \<union> set (ev_add e)" by (auto simp: event_additions_def)
  have sets: "F - R \<union> A \<union> (S - A \<union> (B \<inter> R - A)) = B \<union> A \<and> (F - R \<union> A) \<inter> (S - A \<union> (B \<inter> R - A)) = {}"
    if "F \<union> S = B \<and> F \<inter> S = {}" for F S B R A :: "relation_tuple set" using that by auto
  have last: "foldl apply_event C (es @ [e]) = foldl apply_event C es - set (ev_remove e) \<union> set (ev_add e)"
    by (simp add: apply_event_def)
  show ?case unfolding adds last stale_snoc by (rule sets [OF snoc])
qed

lemma inventory_api_run_adds:
  assumes "\<And>svc ts fc svc' token. create svc ts fc = (svc', Inr token) \<Longrightarrow> content svc' = content svc \<union> set ts"
    and "inventory_api_run create svc es = (svc', Inr ())"
  shows "content svc' = content svc \<union> event_additions es"
  using assms(2)
proof (induction es arbitrary: svc)
  case (Cons e es)
  then obtain svc1 token where "create svc (ev_add e) None = (svc1, Inr token)" and "inventory_api_run create svc1 es = (svc', Inr ())"
    by (auto simp: inventory_api_replicate_def write_relationships_def bind_s_Inr_iff)
  from assms(1) [OF this(1)] Cons.IH [OF this(2)] show ?case by (auto simp: event_additions_def)
qed (simp add: event_additions_def)

text \<open>
  C28 (safety): after any sequence of events that the replicator calling the tuple service directly accepts, the
  service has exactly the tuples that the events determine and, beside them, the stale ones: those that were there
  when an event removed them and that neither this event nor a later one adds. The service's create call is taken to
  add the tuples it is given. So this replicator agrees with the others only while no removal has to take effect.
\<close>

theorem inventory_api_replicate_keeps_removed:
  assumes "\<And>svc ts fc svc' token. create svc ts fc = (svc', Inr token) \<Longrightarrow> content svc' = content svc \<union> set ts"
    and "inventory_api_run create svc es = (svc', Inr ())"
  shows "content svc' = foldl apply_event (content svc) es \<union> stale_tuples (content svc) es \<and>
    foldl apply_event (content svc) es \<inter> stale_tuples (content svc) es = {} \<and>
    (content svc' = foldl apply_event (content svc) es \<longleftrightarrow> stale_tuples (content svc) es = {})"
proof -
  note run = inventory_api_run_adds [OF assms]
  note exact = stale_exact [of "content svc" es]
  have "content svc' = foldl apply_event (content svc) es \<union> stale_tuples (content svc) es" using exact run by simp
  then show ?thesis using exact by auto
qed

text \<open>A tuple that one event adds and the next removes.\<close>

theorem inventory_api_replicate_keeps_removed_witness:
  "let t = plain_tuple (''rbac'', ''role'') ''r'' (''rbac'', ''principal'') ''*'' ''p'' None;
       create = (\<lambda>svc ts (fc :: unit option). (set_union svc ts, Inr ''token''));
       event = (\<lambda>add remove. \<lparr>ev_type = EV_DELETE_SYSTEM_ROLE, ev_info = [], ev_partition_key = ''stage'',
            ev_add = add, ev_remove = remove\<rparr>)
   in \<exists>svc'. inventory_api_run create [] [event [t] [], event [] [t]] = (svc', Inr ()) \<and> t \<in> set svc' \<and>
        t \<notin> foldl apply_event {} [event [t] [], event [] [t]]"
proof -
  let ?t = "plain_tuple (''rbac'', ''role'') ''r'' (''rbac'', ''principal'') ''*'' ''p'' None"
  let ?create = "\<lambda>svc ts (fc :: unit option). (set_union svc ts, Inr ''token'') :: tuple_set \<times> string result"
  let ?event = "\<lambda>add remove. \<lparr>ev_type = EV_DELETE_SYSTEM_ROLE, ev_info = [], ev_partition_key = ''stage'',
            ev_add = add, ev_remove = remove\<rparr>"
  let ?es = "[?event [?t] [], ?event [] [?t]]"
  have run: "inventory_api_run ?create [] ?es = ([?t], Inr ())"
    by (simp add: inventory_api_replicate_def write_relationships_def bind_s_def set_union_def)
  have "set [?t] = foldl apply_event (set []) ?es \<union> stale_tuples (set []) ?es \<and>
      foldl apply_event (set []) ?es \<inter> stale_tuples (set []) ?es = {}"
    using inventory_api_replicate_keeps_removed [of ?create set "[]" ?es "[?t]"] run by auto
  moreover have "?t \<notin> foldl apply_event {} ?es" by (simp add: apply_event_def)
  ultimately show ?thesis using run unfolding Let_def by auto
qed

end
