(* ===== verification/Domain_Model.thy ===== *)
theory Domain_Model
  imports Relation_Types
begin

text \<open>
  The rows that other components share: \<open>Tenant\<close> and \<open>User\<close> of \<open>api/models.py\<close>, \<open>Principal\<close> of
  \<open>management/principal/model.py\<close>, \<open>Group\<close> of \<open>management/group/model.py\<close> and the fields of
  \<open>Workspace\<close> of \<open>management/workspace/model.py\<close>.

  A model is a record of its columns; primary keys of tenants are integers, UUID columns are their
  text. Of the time stamps only those of workspaces are kept (as text). The settings \<open>PRINCIPAL_USER_DOMAIN\<close> (\<open>domain\<close>) and
  \<open>WORKSPACE_ORG_CREATION_LIMIT\<close> (\<open>default_limit\<close>) are arguments. The JSON column \<open>org_config\<close> is
  a dynamically typed value.
\<close>

section \<open>Tenants\<close>

record tenant =
  tn_pk :: int
  tn_ready :: bool
  tn_tenant_name :: string
  tn_account_id :: "string option"
  tn_org_id :: "string option"
  tn_relations_consistency_token :: "string option"
  tn_org_config :: pyval

definition PUBLIC_TENANT_NAME :: string where
  "PUBLIC_TENANT_NAME = ''public''"

definition ORG_CONFIG_WORKSPACE_CREATION_LIMIT :: string where
  "ORG_CONFIG_WORKSPACE_CREATION_LIMIT = ''workspace_creation_limit''"

definition ORG_CONFIG_ALLOWED_KEYS :: "string list" where
  "ORG_CONFIG_ALLOWED_KEYS = [ORG_CONFIG_WORKSPACE_CREATION_LIMIT]"

definition workspace_creation_limit :: "int \<Rightarrow> tenant \<Rightarrow> int" where
  "workspace_creation_limit default_limit t =
     (case tn_org_config t of
        PyDict d \<Rightarrow>
          (case map_of d ORG_CONFIG_WORKSPACE_CREATION_LIMIT of
             Some (PyInt raw) \<Rightarrow> (if raw < 1 then default_limit else raw)
           | _ \<Rightarrow> default_limit)
      | _ \<Rightarrow> default_limit)"

definition validate_workspace_creation_limit_value :: "pyval \<Rightarrow> unit result" where
  "validate_workspace_creation_limit_value value =
     (case value of PyInt i \<Rightarrow> (if i < 1 then Inl ValueError else Inr ()) | _ \<Rightarrow> Inl ValueError)"

definition tenant_clean :: "tenant \<Rightarrow> unit result" where
  "tenant_clean t =
     (case tn_org_config t of
        PyNone \<Rightarrow> Inr ()
      | PyDict d \<Rightarrow>
          (case map_of d ORG_CONFIG_WORKSPACE_CREATION_LIMIT of
             None \<Rightarrow> Inr ()
           | Some PyNone \<Rightarrow> Inr ()
           | Some value \<Rightarrow>
               (case validate_workspace_creation_limit_value value of
                  Inl _ \<Rightarrow> Inl ValidationError
                | Inr u \<Rightarrow> Inr u))
      | _ \<Rightarrow> Inl ValidationError)"

text \<open>
  \<open>save\<close> returns the row as written and the columns written; \<open>None\<close> stands for all of them.
\<close>

definition tenant_save ::
  "string list option \<Rightarrow> tenant \<Rightarrow> (tenant \<times> string list option) result" where
  "tenant_save update_fields t =
     (let blank = (tn_account_id t = Some []);
          t' = (if blank then t\<lparr>tn_account_id := None\<rparr> else t);
          fields = (case update_fields of
                      Some (f # fs) \<Rightarrow> Some (if blank then set_add ''account_id'' (f # fs) else f # fs)
                    | other \<Rightarrow> other)
      in bind_r (case fields of
                   Some fs \<Rightarrow> if ''org_config'' \<in> set fs then tenant_clean t' else Inr ()
                 | None \<Rightarrow> Inr ()) (\<lambda>_. Inr (t', fields)))"

definition merge_org_config ::
  "(string \<times> pyval) list option \<Rightarrow> pyval \<Rightarrow> (string \<times> pyval) list result" where
  "merge_org_config current patch =
     (case patch of
        PyDict p \<Rightarrow>
          if p = [] then Inl ValueError
          else if \<not> list_all (\<lambda>(k, _). k \<in> set ORG_CONFIG_ALLOWED_KEYS) p then Inl ValueError
          else Inr (foldl (\<lambda>merged (key, value).
                 if key = ORG_CONFIG_WORKSPACE_CREATION_LIMIT
                 then (if value = PyNone then AList.delete key merged else AList.update key value merged)
                 else merged) (case current of None \<Rightarrow> [] | Some c \<Rightarrow> c) p)
      | _ \<Rightarrow> Inl ValueError)"

definition resource_id_prefix :: "string \<Rightarrow> string" where
  "resource_id_prefix domain = domain @ ''/''"

definition org_id_to_tenant_resource_id :: "string \<Rightarrow> string \<Rightarrow> string" where
  "org_id_to_tenant_resource_id domain org_id = resource_id_prefix domain @ org_id"

definition tenant_resource_id :: "string \<Rightarrow> tenant \<Rightarrow> string option" where
  "tenant_resource_id domain t =
     (case tn_org_id t of None \<Rightarrow> None | Some org_id \<Rightarrow> Some (org_id_to_tenant_resource_id domain org_id))"

definition tenant_resource_id_to_org_id :: "string \<Rightarrow> pyval \<Rightarrow> string result" where
  "tenant_resource_id_to_org_id domain resource_id =
     (case resource_id of
        PyStr s \<Rightarrow>
          (let prefix = resource_id_prefix domain
           in if take (length prefix) s = prefix then Inr (drop (length prefix) s) else Inl ValueError)
      | _ \<Rightarrow> Inl TypeError)"

section \<open>Users and principals\<close>

record rbac_user =
  us_username :: "string option"
  us_account :: "string option"
  us_admin :: bool
  us_internal :: bool
  us_system :: bool
  us_is_active :: bool
  us_org_id :: "string option"
  us_user_id :: "string option"
  us_cross_access :: bool
  us_bearer_token :: string
  us_client_id :: string
  us_is_service_account :: bool

definition set_username :: "string option \<Rightarrow> rbac_user \<Rightarrow> rbac_user" where
  "set_username value u =
     u\<lparr>us_username := (case value of Some s \<Rightarrow> if s = [] then None else Some (str_lower s) | None \<Rightarrow> None)\<rparr>"

datatype principal_type = PRINCIPAL_USER | PRINCIPAL_SERVICE_ACCOUNT

record principal =
  pr_uuid :: string
  pr_username :: string
  pr_cross_account :: bool
  pr_type :: principal_type
  pr_service_account_id :: "string option"
  pr_user_id :: "string option"
  pr_tenant :: int

definition user_id_to_principal_resource_id :: "string \<Rightarrow> string \<Rightarrow> string" where
  "user_id_to_principal_resource_id domain user_id = domain @ ''/'' @ user_id"

definition principal_resource_id :: "string \<Rightarrow> principal \<Rightarrow> string option" where
  "principal_resource_id domain p =
     (case pr_user_id p of None \<Rightarrow> None | Some u \<Rightarrow> Some (user_id_to_principal_resource_id domain u))"

definition principal_save :: "principal \<Rightarrow> principal" where
  "principal_save p = p\<lparr>pr_username := str_lower (pr_username p)\<rparr>"

section \<open>Groups\<close>

record rbac_group =
  gr_uuid :: string
  gr_name :: string
  gr_description :: "string option"
  gr_principals :: "string list"
  gr_platform_default :: bool
  gr_system :: bool
  gr_admin_default :: bool
  gr_tenant :: int

text \<open>A \<open>Principal\<close> or a \<open>User\<close>.\<close>

datatype subject_source = FromPrincipal principal | FromUser rbac_user

definition relationship_to_principal_for_group ::
  "string \<Rightarrow> rbac_group \<Rightarrow> subject_source \<Rightarrow> relation_tuple option result" where
  "relationship_to_principal_for_group domain g who =
     (let resource_id =
        (case who of
           FromPrincipal p \<Rightarrow> principal_resource_id domain p
         | FromUser u \<Rightarrow> map_option (user_id_to_principal_resource_id domain) (us_user_id u))
      in (case resource_id of
            None \<Rightarrow> Inr None
          | Some i \<Rightarrow> bind_r (create_relationship (''rbac'', ''group'') (gr_uuid g)
                               (''rbac'', ''principal'') i ''member'' None) (\<lambda>t. Inr (Some t))))"

definition relationship_to_user_id_for_group :: "string \<Rightarrow> string \<Rightarrow> string \<Rightarrow> relation_tuple result" where
  "relationship_to_user_id_for_group domain group_uuid user_id =
     create_relationship (''rbac'', ''group'') group_uuid (''rbac'', ''principal'')
       (user_id_to_principal_resource_id domain user_id) ''member'' None"

section \<open>Workspaces\<close>

datatype workspace_type = WS_STANDARD | WS_DEFAULT | WS_ROOT | WS_UNGROUPED_HOSTS

fun workspace_type_value :: "workspace_type \<Rightarrow> string" where
  "workspace_type_value WS_STANDARD = ''standard''"
| "workspace_type_value WS_DEFAULT = ''default''"
| "workspace_type_value WS_ROOT = ''root''"
| "workspace_type_value WS_UNGROUPED_HOSTS = ''ungrouped-hosts''"

record workspace =
  ws_id :: string
  ws_name :: string
  ws_parent_id :: "string option"
  ws_description :: "string option"
  ws_type :: workspace_type
  ws_tenant :: int
  ws_created :: string
  ws_modified :: string

section \<open>Properties\<close>

text \<open>
  C34 (roundtrip): the resource id of a tenant determines its org id, and only ids with the
  configured prefix are accepted.
\<close>

theorem tenant_resource_id_round_trip:
  "tenant_resource_id_to_org_id domain (PyStr (org_id_to_tenant_resource_id domain org_id)) = Inr org_id \<and>
   (tenant_resource_id_to_org_id domain v = Inr org_id \<longleftrightarrow>
      v = PyStr (org_id_to_tenant_resource_id domain org_id))"
proof -
  have "take (length p) s = p \<and> drop (length p) s = o' \<longleftrightarrow> s = p @ o'" for p s o' :: string
    by (metis append_eq_conv_conj append_take_drop_id)
  then show ?thesis
    by (cases v) (auto simp: tenant_resource_id_to_org_id_def org_id_to_tenant_resource_id_def Let_def)
qed

lemma validate_limit_Inr: "validate_workspace_creation_limit_value v = Inr u \<longleftrightarrow> (\<exists>i. v = PyInt i \<and> i \<ge> 1)"
  by (auto simp: validate_workspace_creation_limit_value_def split: pyval.splits)

text \<open>
  After an accepted patch of the organisation's configuration passes
  validation, the effective creation limit is the patched value, or the configured default when
  the patch unsets it; the limit in force is never below one unless the default is.
\<close>

theorem merge_org_config_limit:
  assumes "merge_org_config current (PyDict [(ORG_CONFIG_WORKSPACE_CREATION_LIMIT, v)]) = Inr d"
    and "tenant_clean (t\<lparr>tn_org_config := PyDict d\<rparr>) = Inr u"
  shows "(v = PyNone \<or> (\<exists>i. v = PyInt i \<and> i \<ge> 1)) \<and>
    workspace_creation_limit dflt (t\<lparr>tn_org_config := PyDict d\<rparr>) =
       (case v of PyInt i \<Rightarrow> i | _ \<Rightarrow> dflt)"
proof -
  let ?k = ORG_CONFIG_WORKSPACE_CREATION_LIMIT
  have m: "map_of d ?k = (if v = PyNone then None else Some v)"
    using assms(1) by (auto simp: merge_org_config_def ORG_CONFIG_ALLOWED_KEYS_def split: if_splits)
  with assms(2) have "v \<noteq> PyNone \<Longrightarrow> validate_workspace_creation_limit_value v = Inr ()"
    by (cases v) (auto simp: tenant_clean_def split: sum.splits)
  then have "v = PyNone \<or> (\<exists>i. v = PyInt i \<and> i \<ge> 1)" by (auto simp: validate_limit_Inr)
  with m show ?thesis by (auto simp: workspace_creation_limit_def)
qed

theorem merge_org_config_limit_witness:
  "\<exists>d. merge_org_config None (PyDict [(ORG_CONFIG_WORKSPACE_CREATION_LIMIT, PyInt 7)]) = Inr d \<and>
     workspace_creation_limit 3000 \<lparr>tn_pk = 1, tn_ready = True, tn_tenant_name = ''t'', tn_account_id = None,
       tn_org_id = Some ''1'', tn_relations_consistency_token = None, tn_org_config = PyDict d\<rparr> = 7"
proof -
  let ?t = "\<lparr>tn_pk = 1, tn_ready = True, tn_tenant_name = ''t'', tn_account_id = None,
       tn_org_id = Some ''1'', tn_relations_consistency_token = None, tn_org_config = PyNone\<rparr>"
  let ?d = "[(ORG_CONFIG_WORKSPACE_CREATION_LIMIT, PyInt 7)]"
  have "merge_org_config None (PyDict ?d) = Inr ?d"
    by (simp add: merge_org_config_def ORG_CONFIG_ALLOWED_KEYS_def)
  moreover have "tenant_clean (?t\<lparr>tn_org_config := PyDict ?d\<rparr>) = Inr ()"
    by (simp add: tenant_clean_def validate_workspace_creation_limit_value_def)
  ultimately show ?thesis using merge_org_config_limit [of None "PyInt 7" ?d ?t "()" 3000] by auto
qed

section \<open>Tuples of group membership\<close>

lemma relationship_to_principal_same_user:
  "pr_user_id p = Some u \<Longrightarrow>
     relationship_to_principal_for_group domain g (FromPrincipal p) =
     bind_r (relationship_to_user_id_for_group domain (gr_uuid g) u) (\<lambda>t. Inr (Some t))"
  by (simp add: relationship_to_principal_for_group_def relationship_to_user_id_for_group_def
      principal_resource_id_def)

end
