(* ===== verification/Workspace_Tree.thy ===== *)
theory Workspace_Tree
  imports Domain_Model
begin

text \<open>
  Workspaces: \<open>management/workspace/model.py\<close> and the manager in \<open>management/managers.py\<close>.

  The table is a list of rows. The three recursive queries are loops over the table: \<open>UNION\<close>
  drops rows it has seen, so \<open>ancestors\<close> and \<open>descendants\<close> always end; \<open>UNION ALL\<close> does not, so
  \<open>get_max_descendant_depth\<close> may run forever on a cyclic table and is a partial function.
  \<open>full_clean\<close> collects the messages of the field checks, of \<open>clean\<close> and of the two declared
  constraints, as the framework does. The last part proves what the queries compute on a table
  whose parent links form a forest.
\<close>

section \<open>Queries\<close>

type_synonym ws_table = "workspace list"

definition find_workspace :: "string \<Rightarrow> ws_table \<Rightarrow> workspace option" where
  "find_workspace i tbl = find (\<lambda>w. ws_id w = i) tbl"

definition workspace_by_id :: "ws_table \<Rightarrow> string \<Rightarrow> workspace result" where
  "workspace_by_id tbl i = get_one (filter (\<lambda>w. ws_id w = i) tbl)"

definition workspace_by_id_tenant :: "ws_table \<Rightarrow> string \<Rightarrow> int \<Rightarrow> workspace result" where
  "workspace_by_id_tenant tbl i tenant = get_one (filter (\<lambda>w. ws_id w = i \<and> ws_tenant w = tenant) tbl)"

definition workspace_by_type :: "ws_table \<Rightarrow> workspace_type \<Rightarrow> int \<Rightarrow> workspace result" where
  "workspace_by_type tbl ty tenant = get_one (filter (\<lambda>w. ws_type w = ty \<and> ws_tenant w = tenant) tbl)"

definition parent_of :: "ws_table \<Rightarrow> string \<Rightarrow> string option" where
  "parent_of tbl i = (case find_workspace i tbl of None \<Rightarrow> None | Some w \<Rightarrow> ws_parent_id w)"

function ancestor_loop :: "ws_table \<Rightarrow> string list \<Rightarrow> string \<Rightarrow> string list" where
  "ancestor_loop tbl seen i =
     (case parent_of tbl i of
        None \<Rightarrow> seen
      | Some p \<Rightarrow>
          if p \<in> set seen \<or> p \<notin> ws_id ` set tbl then seen
          else ancestor_loop tbl (seen @ [p]) p)"
  by pat_completeness auto

termination
proof (relation "measure (\<lambda>(tbl, seen, i). card (ws_id ` set tbl - set seen))", goal_cases)
  case (2 tbl seen i p)
  then have "ws_id ` set tbl - set (seen @ [p]) \<subset> ws_id ` set tbl - set seen" by auto
  then show ?case by (simp add: psubset_card_mono)
qed simp

definition ancestors :: "ws_table \<Rightarrow> string \<Rightarrow> workspace list" where
  "ancestors tbl i =
     (if i \<in> ws_id ` set tbl
      then filter (\<lambda>w. ws_id w \<in> set (ancestor_loop tbl [i] i) \<and> ws_id w \<noteq> i) tbl
      else [])"

definition children_ids :: "ws_table \<Rightarrow> string list \<Rightarrow> string list" where
  "children_ids tbl parents =
     map ws_id (filter (\<lambda>w. case ws_parent_id w of None \<Rightarrow> False | Some p \<Rightarrow> p \<in> set parents) tbl)"

function descendant_loop :: "ws_table \<Rightarrow> string list \<Rightarrow> string list \<Rightarrow> string list" where
  "descendant_loop tbl seen frontier =
     (let new = filter (\<lambda>c. c \<notin> set seen) (children_ids tbl frontier)
      in if new = [] then seen else descendant_loop tbl (seen @ new) new)"
  by pat_completeness auto

termination
proof (relation "measure (\<lambda>(tbl, seen, frontier). card (ws_id ` set tbl - set seen))", goal_cases)
  case (2 tbl seen frontier new)
  then have "new \<noteq> []" by simp
  then have "hd new \<in> set new" by (rule hd_in_set)
  with 2 have "hd new \<in> ws_id ` set tbl" "hd new \<notin> set seen" by (auto simp: children_ids_def)
  with \<open>hd new \<in> set new\<close> have "ws_id ` set tbl - set (seen @ new) \<subset> ws_id ` set tbl - set seen" by auto
  then show ?case by (simp add: psubset_card_mono)
qed simp

declare ancestor_loop.simps [simp del] descendant_loop.simps [simp del]

definition descendants :: "ws_table \<Rightarrow> string \<Rightarrow> workspace list" where
  "descendants tbl i =
     (let first = children_ids tbl [i]
      in filter (\<lambda>w. ws_id w \<in> set (descendant_loop tbl first first)) tbl)"

partial_function (option) depth_loop :: "ws_table \<Rightarrow> string list \<Rightarrow> nat \<Rightarrow> nat option" where
  "depth_loop tbl frontier ws_depth =
     (if frontier = [] then Some ws_depth else depth_loop tbl (children_ids tbl frontier) (Suc ws_depth))"

definition get_max_descendant_depth :: "ws_table \<Rightarrow> string \<Rightarrow> nat option" where
  "get_max_descendant_depth tbl i = depth_loop tbl (children_ids tbl [i]) 0"

section \<open>Validation and saving\<close>

definition special_description :: "workspace_type \<Rightarrow> string option" where
  "special_description ty =
     (case ty of
        WS_ROOT \<Rightarrow> Some ''The top-level workspace containing all other workspaces''
      | WS_DEFAULT \<Rightarrow> Some ''The default workspace for your organization''
      | WS_UNGROUPED_HOSTS \<Rightarrow> Some ''System workspace for ungrouped hosts''
      | WS_STANDARD \<Rightarrow> None)"

definition workspace_clean :: "ws_table \<Rightarrow> workspace \<Rightarrow> workspace result" where
  "workspace_clean tbl w0 =
     (let w = (if ws_description w0 \<in> {None, Some []} \<and> special_description (ws_type w0) \<noteq> None
               then w0\<lparr>ws_description := special_description (ws_type w0)\<rparr> else w0)
      in if ws_type w = WS_ROOT
         then (if ws_parent_id w \<noteq> None then Inl SerializerValidationError else Inr w)
         else (case ws_parent_id w of
                 None \<Rightarrow>
                   if ws_type w = WS_STANDARD
                   then bind_r (workspace_by_type tbl WS_DEFAULT (ws_tenant w)) (\<lambda>d.
                          Inr (w\<lparr>ws_parent_id := Some (ws_id d)\<rparr>))
                   else Inl ValidationError
               | Some p \<Rightarrow>
                   bind_r (if ws_type w = WS_DEFAULT
                           then bind_r (workspace_by_id tbl p) (\<lambda>par. Inr (ws_type par \<noteq> WS_ROOT))
                           else Inr False) (\<lambda>bad_default_parent.
                     if bad_default_parent then Inl SerializerValidationError
                     else if ws_id w = p then Inl SerializerValidationError
                     else Inr w)))"

text \<open>An exception that is raised as it is, or a collected \<open>ValidationError\<close> with its messages.\<close>

datatype save_error = Raised py_error | Invalid "string list"

definition field_messages :: "ws_table \<Rightarrow> workspace \<Rightarrow> string list" where
  "field_messages tbl w =
     (if ws_name w = [] \<or> length (ws_name w) > 255 then [''name''] else []) @
     (case ws_description w of Some d \<Rightarrow> (if length d > 255 then [''description''] else []) | None \<Rightarrow> []) @
     (case ws_parent_id w of Some p \<Rightarrow> (if p \<in> ws_id ` set tbl then [] else [''parent'']) | None \<Rightarrow> [])"

definition built_in_conflict :: "ws_table \<Rightarrow> workspace \<Rightarrow> bool" where
  "built_in_conflict tbl w \<longleftrightarrow> ws_type w \<noteq> WS_STANDARD \<and>
     list_ex (\<lambda>v. ws_id v \<noteq> ws_id w \<and> ws_tenant v = ws_tenant w \<and> ws_type v = ws_type w) tbl"

definition name_conflict :: "ws_table \<Rightarrow> workspace \<Rightarrow> bool" where
  "name_conflict tbl w \<longleftrightarrow> ws_parent_id w \<noteq> None \<and>
     list_ex (\<lambda>v. ws_id v \<noteq> ws_id w \<and> ws_parent_id v = ws_parent_id w \<and>
                  str_upper (ws_name v) = str_upper (ws_name w)) tbl"

definition constraint_messages :: "ws_table \<Rightarrow> workspace \<Rightarrow> string list" where
  "constraint_messages tbl w =
     (if built_in_conflict tbl w then [''unique_default_root_workspace_per_tenant''] else []) @
     (if name_conflict tbl w then [''unique_workspace_name_per_parent''] else [])"

definition full_clean :: "bool \<Rightarrow> ws_table \<Rightarrow> workspace \<Rightarrow> save_error + workspace" where
  "full_clean adding tbl w =
     (let fields = field_messages tbl w @ (if adding \<and> ws_id w \<in> ws_id ` set tbl then [''id''] else [])
      in (case workspace_clean tbl w of
            Inl ValidationError \<Rightarrow> Inl (Invalid (fields @ [''workspace''] @ constraint_messages tbl w))
          | Inl e \<Rightarrow> Inl (Raised e)
          | Inr w' \<Rightarrow>
              (let messages = fields @ constraint_messages tbl w'
               in if messages \<noteq> [] then Inl (Invalid messages) else Inr w')))"

definition write_row :: "ws_table \<Rightarrow> workspace \<Rightarrow> ws_table" where
  "write_row tbl w = map (\<lambda>v. if ws_id v = ws_id w then w else v) tbl"

definition insert_workspace :: "ws_table \<Rightarrow> workspace \<Rightarrow> save_error + (ws_table \<times> workspace)" where
  "insert_workspace tbl w =
     (case full_clean True tbl w of Inl e \<Rightarrow> Inl e | Inr w' \<Rightarrow> Inr (tbl @ [w'], w'))"

definition save_workspace :: "string \<Rightarrow> ws_table \<Rightarrow> workspace \<Rightarrow> save_error + (ws_table \<times> workspace)" where
  "save_workspace now tbl w =
     (case full_clean False tbl w of
        Inl e \<Rightarrow> Inl e
      | Inr w' \<Rightarrow> let w'' = w'\<lparr>ws_modified := now\<rparr> in Inr (write_row tbl w'', w''))"

text \<open>\<open>save(update_fields=["parent"])\<close>: everything is validated, one column is written.\<close>

definition save_workspace_parent :: "ws_table \<Rightarrow> workspace \<Rightarrow> save_error + (ws_table \<times> workspace)" where
  "save_workspace_parent tbl w =
     (case full_clean False tbl w of
        Inl e \<Rightarrow> Inl e
      | Inr w' \<Rightarrow> Inr (map (\<lambda>v. if ws_id v = ws_id w' then v\<lparr>ws_parent_id := ws_parent_id w'\<rparr> else v) tbl, w'))"

section \<open>The manager\<close>

text \<open>
  The model cache is a map from organisation and type to a workspace; entries may be missing at any
  time. \<open>enabled\<close> is the setting \<open>ACCESS_CACHE_ENABLED\<close>.
\<close>

type_synonym ws_cache = "((string \<times> workspace_type) \<times> workspace) list"

definition get_cached_workspace :: "bool \<Rightarrow> ws_cache \<Rightarrow> string \<Rightarrow> workspace_type \<Rightarrow> workspace option" where
  "get_cached_workspace enabled cache org_id ty = (if enabled then map_of cache (org_id, ty) else None)"

definition cache_workspace :: "bool \<Rightarrow> ws_cache \<Rightarrow> string \<Rightarrow> workspace \<Rightarrow> ws_cache" where
  "cache_workspace enabled cache org_id w =
     (if enabled then AList.update (org_id, ws_type w) w cache else cache)"

definition delete_workspaces_for_tenant :: "ws_cache \<Rightarrow> string \<Rightarrow> ws_cache" where
  "delete_workspaces_for_tenant cache org_id = filter (\<lambda>((o', _), _). o' \<noteq> org_id) cache"

definition get_tenant_id :: "tenant option \<Rightarrow> int option \<Rightarrow> int result" where
  "get_tenant_id tn tenant_id =
     (case (case tn of Some t \<Rightarrow> Some (tn_pk t) | None \<Rightarrow> tenant_id) of
        None \<Rightarrow> Inl ValueError
      | Some i \<Rightarrow> if i = 0 then Inl ValueError else Inr i)"

definition resolve_org_id :: "tenant option \<Rightarrow> string option" where
  "resolve_org_id tn =
     (case tn of
        None \<Rightarrow> None
      | Some t \<Rightarrow> (case tn_org_id t of Some o' \<Rightarrow> if o' = [] then None else Some o' | None \<Rightarrow> None))"

definition get_cached_built_in_workspace ::
  "bool \<Rightarrow> ws_table \<Rightarrow> ws_cache \<Rightarrow> tenant option \<Rightarrow> int option \<Rightarrow> workspace_type
   \<Rightarrow> (workspace \<times> ws_cache) result" where
  "get_cached_built_in_workspace enabled tbl cache tn tenant_id ty =
     (case (case resolve_org_id tn of
              Some org_id \<Rightarrow> get_cached_workspace enabled cache org_id ty
            | None \<Rightarrow> None) of
        Some w \<Rightarrow> Inr (w, cache)
      | None \<Rightarrow>
          bind_r (get_tenant_id tn tenant_id) (\<lambda>i.
          bind_r (workspace_by_type tbl ty i) (\<lambda>w.
            Inr (w, case resolve_org_id tn of
                      Some org_id \<Rightarrow> cache_workspace enabled cache org_id w
                    | None \<Rightarrow> cache))))"

definition manager_root ::
  "bool \<Rightarrow> ws_table \<Rightarrow> ws_cache \<Rightarrow> tenant option \<Rightarrow> int option \<Rightarrow> (workspace \<times> ws_cache) result" where
  "manager_root enabled tbl cache tn tenant_id =
     get_cached_built_in_workspace enabled tbl cache tn tenant_id WS_ROOT"

definition manager_default ::
  "bool \<Rightarrow> ws_table \<Rightarrow> ws_cache \<Rightarrow> tenant option \<Rightarrow> int option \<Rightarrow> (workspace \<times> ws_cache) result" where
  "manager_default enabled tbl cache tn tenant_id =
     get_cached_built_in_workspace enabled tbl cache tn tenant_id WS_DEFAULT"

definition manager_built_in :: "ws_table \<Rightarrow> tenant option \<Rightarrow> int option \<Rightarrow> workspace list result" where
  "manager_built_in tbl tn tenant_id =
     bind_r (get_tenant_id tn tenant_id) (\<lambda>i.
       Inr (filter (\<lambda>w. ws_tenant w = i \<and> ws_type w \<in> {WS_ROOT, WS_DEFAULT}) tbl))"

definition manager_standard :: "ws_table \<Rightarrow> tenant option \<Rightarrow> int option \<Rightarrow> workspace list result" where
  "manager_standard tbl tn tenant_id =
     bind_r (get_tenant_id tn tenant_id) (\<lambda>i.
       Inr (filter (\<lambda>w. ws_tenant w = i \<and> ws_type w = WS_STANDARD) tbl))"

definition exists_for_tenant :: "ws_table \<Rightarrow> string \<Rightarrow> tenant option \<Rightarrow> int option \<Rightarrow> bool result" where
  "exists_for_tenant tbl workspace_id tn tenant_id =
     bind_r (get_tenant_id tn tenant_id) (\<lambda>i.
       Inr (list_ex (\<lambda>w. ws_id w = workspace_id \<and> ws_tenant w = i) tbl))"

definition descendant_ids_with_parents :: "ws_table \<Rightarrow> string list \<Rightarrow> int \<Rightarrow> string list" where
  "descendant_ids_with_parents tbl ids tenant =
     (let rows = filter (\<lambda>w. ws_tenant w = tenant) tbl;
          first = map ws_id (filter (\<lambda>w. ws_id w \<in> set ids) rows)
      in remdups (descendant_loop rows first first))"

section \<open>The parent links\<close>

definition ws_links :: "ws_table \<Rightarrow> (string \<times> string) set" where
  "ws_links tbl = {(ws_id w, p) |w p. w \<in> set tbl \<and> ws_parent_id w = Some p}"

definition wf_tree :: "ws_table \<Rightarrow> bool" where
  "wf_tree tbl \<longleftrightarrow>
     distinct (map ws_id tbl) \<and>
     (\<forall>w \<in> set tbl. \<forall>p. ws_parent_id w = Some p \<longrightarrow>
        (\<exists>v \<in> set tbl. ws_id v = p \<and> ws_tenant v = ws_tenant w)) \<and>
     acyclic (ws_links tbl)"

lemma find_workspace_Some:
  assumes "distinct (map ws_id tbl)"
  shows "find_workspace i tbl = Some w \<longleftrightarrow> w \<in> set tbl \<and> ws_id w = i"
proof
  assume "find_workspace i tbl = Some w"
  then show "w \<in> set tbl \<and> ws_id w = i"
    by (auto simp: find_workspace_def find_Some_iff)
next
  assume w: "w \<in> set tbl \<and> ws_id w = i"
  then obtain v where v: "find_workspace i tbl = Some v"
    by (cases "find_workspace i tbl") (auto simp: find_workspace_def find_None_iff)
  then have "v \<in> set tbl" "ws_id v = i" by (auto simp: find_workspace_def find_Some_iff)
  with w assms have "v = w" by (metis inj_on_contraD distinct_map)
  with v show "find_workspace i tbl = Some w" by simp
qed

lemma parent_of_links:
  assumes "distinct (map ws_id tbl)"
  shows "parent_of tbl i = Some p \<longleftrightarrow> (i, p) \<in> ws_links tbl"
proof -
  have "(i, p) \<in> ws_links tbl \<longleftrightarrow> (\<exists>w. find_workspace i tbl = Some w \<and> ws_parent_id w = Some p)"
    using find_workspace_Some [OF assms] by (auto simp: ws_links_def)
  then show ?thesis by (auto simp: parent_of_def split: option.splits)
qed

lemma links_single_valued:
  "distinct (map ws_id tbl) \<Longrightarrow> (i, p) \<in> ws_links tbl \<Longrightarrow> (i, q) \<in> ws_links tbl \<Longrightarrow> p = q"
  by (metis parent_of_links option.inject)

lemma links_ids:
  "wf_tree tbl \<Longrightarrow> (i, p) \<in> ws_links tbl \<Longrightarrow> i \<in> ws_id ` set tbl \<and> p \<in> ws_id ` set tbl"
  by (fastforce simp: wf_tree_def ws_links_def)

lemma links_finite: "finite (ws_links tbl)"
proof (rule finite_subset)
  show "ws_links tbl \<subseteq> ws_id ` set tbl \<times> (\<lambda>w. the (ws_parent_id w)) ` set tbl"
    by (auto simp: ws_links_def image_iff) (metis option.sel)
qed simp

lemma children_ids_set: "set (children_ids tbl ps) = {c. \<exists>p \<in> set ps. (c, p) \<in> ws_links tbl}"
  by (auto simp: children_ids_def ws_links_def split: option.splits)

text \<open>The strict ancestors of a workspace, and its depth below its root.\<close>

definition ws_above :: "ws_table \<Rightarrow> string \<Rightarrow> string set" where
  "ws_above tbl i = {p. (i, p) \<in> (ws_links tbl)\<^sup>+}"

definition ws_depth :: "ws_table \<Rightarrow> string \<Rightarrow> nat" where
  "ws_depth tbl i = card (ws_above tbl i)"

lemma above_None: "distinct (map ws_id tbl) \<Longrightarrow> parent_of tbl i = None \<Longrightarrow> ws_above tbl i = {}"
  using parent_of_links [of tbl i] by (auto simp: ws_above_def elim: converse_tranclE)

lemma above_Some:
  assumes "distinct (map ws_id tbl)" and "(i, p) \<in> ws_links tbl"
  shows "ws_above tbl i = insert p (ws_above tbl p)"
proof (rule set_eqI)
  fix x
  have "(i, x) \<in> (ws_links tbl)\<^sup>+ \<longleftrightarrow> x = p \<or> (p, x) \<in> (ws_links tbl)\<^sup>+"
    using assms links_single_valued [OF assms(1) assms(2)]
    by (metis converse_tranclE r_into_trancl' trancl_into_trancl2)
  then show "x \<in> ws_above tbl i \<longleftrightarrow> x \<in> insert p (ws_above tbl p)" by (simp add: ws_above_def)
qed

lemma finite_above: "finite (ws_above tbl i)"
proof (rule finite_subset)
  show "ws_above tbl i \<subseteq> snd ` (ws_links tbl)"
  proof
    fix p assume "p \<in> ws_above tbl i"
    then obtain y where "(y, p) \<in> ws_links tbl" unfolding ws_above_def by (blast dest: tranclD2)
    then show "p \<in> snd ` (ws_links tbl)" by force
  qed
qed (simp add: links_finite)

lemma above_irrefl: "wf_tree tbl \<Longrightarrow> i \<notin> ws_above tbl i"
  by (simp add: wf_tree_def acyclic_def ws_above_def)

lemma depth_Some: "wf_tree tbl \<Longrightarrow> (i, p) \<in> ws_links tbl \<Longrightarrow> ws_depth tbl i = Suc (ws_depth tbl p)"
  using above_Some [of tbl i p] above_irrefl [of tbl p] finite_above [of tbl p]
  by (simp add: ws_depth_def wf_tree_def)

section \<open>What the recursive queries compute\<close>

lemma ancestor_loop_set:
  assumes "wf_tree tbl" and "set seen \<inter> ws_above tbl i = {}"
  shows "set (ancestor_loop tbl seen i) = set seen \<union> ws_above tbl i"
  using assms
proof (induction tbl seen i rule: ancestor_loop.induct)
  case (1 tbl seen i)
  have d: "distinct (map ws_id tbl)" using 1(2) by (simp add: wf_tree_def)
  show ?case
  proof (cases "parent_of tbl i")
    case None
    then show ?thesis using above_None [OF d None] by (simp add: ancestor_loop.simps [of tbl seen i])
  next
    case (Some p)
    then have l: "(i, p) \<in> ws_links tbl" using parent_of_links [OF d] by simp
    note up = above_Some [OF d l]
    have "p \<notin> set seen" using 1(3) up by auto
    moreover have "p \<in> ws_id ` set tbl" using links_ids [OF 1(2) l] by simp
    moreover have "set (seen @ [p]) \<inter> ws_above tbl p = {}"
      using 1(3) up above_irrefl [OF 1(2)] by auto
    ultimately have "set (ancestor_loop tbl (seen @ [p]) p) = set (seen @ [p]) \<union> ws_above tbl p"
      using 1(1) [OF Some _ 1(2)] by blast
    then show ?thesis
      using Some \<open>p \<notin> set seen\<close> \<open>p \<in> ws_id ` set tbl\<close> up
      by (simp add: ancestor_loop.simps [of tbl seen i])
  qed
qed

lemma above_ids: "wf_tree tbl \<Longrightarrow> ws_above tbl i \<subseteq> ws_id ` set tbl"
  using links_ids [of tbl] by (auto simp: ws_above_def dest!: tranclD2)

lemma ancestors_ids:
  assumes "wf_tree tbl" and "i \<in> ws_id ` set tbl"
  shows "ws_id ` set (ancestors tbl i) = ws_above tbl i" and "length (ancestors tbl i) = ws_depth tbl i"
proof -
  have "set (ancestor_loop tbl [i] i) = insert i (ws_above tbl i)"
    using ancestor_loop_set [OF assms(1), of "[i]" i] above_irrefl [OF assms(1)] by simp
  then have *: "ancestors tbl i = filter (\<lambda>w. ws_id w \<in> ws_above tbl i) tbl"
    using assms(2) above_irrefl [OF assms(1), of i] by (auto simp: ancestors_def intro!: filter_cong)
  then show ids: "ws_id ` set (ancestors tbl i) = ws_above tbl i"
    using above_ids [OF assms(1), of i] by auto
  have "distinct (map ws_id (ancestors tbl i))"
    using assms(1) unfolding * wf_tree_def by (simp add: distinct_map_filter)
  then have "length (ancestors tbl i) = card (set (map ws_id (ancestors tbl i)))"
    by (metis distinct_card length_map)
  with ids show "length (ancestors tbl i) = ws_depth tbl i" by (simp add: ws_depth_def)
qed

lemma descendant_loop_props:
  assumes "set frontier \<subseteq> set seen"
    and "\<And>c p. (c, p) \<in> ws_links tbl \<Longrightarrow> p \<in> set seen - set frontier \<Longrightarrow> c \<in> set seen"
  shows "set seen \<subseteq> set (descendant_loop tbl seen frontier)
    \<and> (\<forall>c p. (c, p) \<in> ws_links tbl \<longrightarrow> p \<in> set (descendant_loop tbl seen frontier) \<longrightarrow>
         c \<in> set (descendant_loop tbl seen frontier))
    \<and> (\<forall>c \<in> set (descendant_loop tbl seen frontier). c \<in> set seen \<or> (\<exists>f \<in> set frontier. (c, f) \<in> (ws_links tbl)\<^sup>+))"
  using assms
proof (induction tbl seen frontier rule: descendant_loop.induct)
  case (1 tbl seen frontier)
  define new where "new = filter (\<lambda>c. c \<notin> set seen) (children_ids tbl frontier)"
  have step: "descendant_loop tbl seen frontier =
      (if new = [] then seen else descendant_loop tbl (seen @ new) new)"
    by (subst descendant_loop.simps) (simp add: new_def Let_def)
  have new_set: "set new = {c. c \<notin> set seen \<and> (\<exists>f \<in> set frontier. (c, f) \<in> ws_links tbl)}"
    by (auto simp: new_def children_ids_set)
  show ?case
  proof (cases "new = []")
    case True
    with new_set have fr: "c \<in> set seen" if "f \<in> set frontier" "(c, f) \<in> ws_links tbl" for c f
      using that by auto
    have "c \<in> set seen" if "(c, p) \<in> ws_links tbl" "p \<in> set seen" for c p
      using 1(3) [OF that(1)] fr that by blast
    then show ?thesis unfolding step using True by simp
  next
    case False
    have closed: "c \<in> set (seen @ new)" if "(c, p) \<in> ws_links tbl" "p \<in> set (seen @ new) - set new" for c p
    proof (cases "p \<in> set frontier")
      case True
      with that(1) new_set show ?thesis by auto
    next
      case False
      with that 1(3) [OF that(1)] show ?thesis by auto
    qed
    have below: "\<exists>f \<in> set frontier. (c, f) \<in> (ws_links tbl)\<^sup>+"
      if "n \<in> set new" "c = n \<or> (c, n) \<in> (ws_links tbl)\<^sup>+" for c n
    proof -
      from that(1) new_set obtain f where "f \<in> set frontier" "(n, f) \<in> ws_links tbl" by blast
      with that(2) show ?thesis by (blast intro: trancl_into_trancl)
    qed
    have IH: "set (seen @ new) \<subseteq> set (descendant_loop tbl (seen @ new) new)
      \<and> (\<forall>c p. (c, p) \<in> ws_links tbl \<longrightarrow> p \<in> set (descendant_loop tbl (seen @ new) new) \<longrightarrow>
         c \<in> set (descendant_loop tbl (seen @ new) new))
      \<and> (\<forall>c \<in> set (descendant_loop tbl (seen @ new) new). c \<in> set (seen @ new) \<or>
         (\<exists>f \<in> set new. (c, f) \<in> (ws_links tbl)\<^sup>+))"
    proof (rule 1(1) [OF new_def False])
      show "set new \<subseteq> set (seen @ new)" by simp
    qed (rule closed)
    have "c \<in> set seen \<or> (\<exists>f \<in> set frontier. (c, f) \<in> (ws_links tbl)\<^sup>+)"
      if "c \<in> set (descendant_loop tbl (seen @ new) new)" for c
      using IH that below [of _ c] by (metis Un_iff set_append)
    with IH False show ?thesis unfolding step by auto
  qed
qed

lemma descendants_ids:
  assumes "wf_tree tbl"
  shows "ws_id ` set (descendants tbl i) = {c. i \<in> ws_above tbl c}"
proof -
  let ?first = "children_ids tbl [i]"
  let ?R = "set (descendant_loop tbl ?first ?first)"
  have first: "set ?first = {c. (c, i) \<in> ws_links tbl}" by (simp add: children_ids_set)
  have p: "set ?first \<subseteq> ?R" "\<And>c p. (c, p) \<in> ws_links tbl \<Longrightarrow> p \<in> ?R \<Longrightarrow> c \<in> ?R"
    "\<And>c. c \<in> ?R \<Longrightarrow> c \<in> set ?first \<or> (\<exists>f \<in> set ?first. (c, f) \<in> (ws_links tbl)\<^sup>+)"
    using descendant_loop_props [of ?first ?first tbl] by auto
  have "?R = {c. (c, i) \<in> (ws_links tbl)\<^sup>+}"
  proof (intro set_eqI iffI)
    fix c assume "c \<in> ?R"
    with p(3) first show "c \<in> {c. (c, i) \<in> (ws_links tbl)\<^sup>+}" by (auto intro: trancl_into_trancl)
  next
    fix c assume "c \<in> {c. (c, i) \<in> (ws_links tbl)\<^sup>+}"
    then have "(c, i) \<in> (ws_links tbl)\<^sup>+" by simp
    then show "c \<in> ?R"
      by (induction rule: converse_trancl_induct) (use p(1,2) first in auto)
  qed
  moreover have "{c. (c, i) \<in> (ws_links tbl)\<^sup>+} \<subseteq> ws_id ` set tbl"
    using links_ids [OF assms] by (auto dest!: tranclD)
  ultimately show ?thesis by (auto simp: descendants_def ws_above_def Let_def)
qed

text \<open>Level \<open>n\<close> below a set of workspaces, and the depth query as the first empty level.\<close>

definition ws_level :: "ws_table \<Rightarrow> string list \<Rightarrow> nat \<Rightarrow> string list" where
  "ws_level tbl fr n = (children_ids tbl ^^ n) fr"

lemma level_simps: "ws_level tbl fr 0 = fr" "ws_level tbl fr (Suc n) = ws_level tbl (children_ids tbl fr) n"
  by (simp_all add: ws_level_def funpow_swap1)

lemma level_set: "set (ws_level tbl fr n) = {c. \<exists>p \<in> set fr. (c, p) \<in> ws_links tbl ^^ n}"
proof (induction n arbitrary: fr)
  case (Suc n)
  then show ?case
    by (auto simp: level_simps children_ids_set relpow_commute [of _ n, symmetric] relcomp_unfold)
qed (simp add: level_simps)

lemma depth_loop_level:
  "ws_level tbl fr n = [] \<Longrightarrow>
     \<exists>k \<le> n. depth_loop tbl fr d = Some (d + k) \<and> ws_level tbl fr k = [] \<and> (\<forall>j < k. ws_level tbl fr j \<noteq> [])"
proof (induction n arbitrary: fr d)
  case 0
  then show ?case by (subst depth_loop.simps) (simp add: level_simps)
next
  case (Suc n)
  show ?case
  proof (cases "fr = []")
    case True
    then show ?thesis by (subst depth_loop.simps) (auto simp: level_simps)
  next
    case False
    from Suc.prems have "ws_level tbl (children_ids tbl fr) n = []" by (simp add: level_simps)
    from Suc.IH [OF this, of "Suc d"] obtain k where k: "k \<le> n"
      "depth_loop tbl (children_ids tbl fr) (Suc d) = Some (Suc d + k)"
      "ws_level tbl (children_ids tbl fr) k = []" "\<forall>j < k. ws_level tbl (children_ids tbl fr) j \<noteq> []" by blast
    have "ws_level tbl fr j \<noteq> []" if "j < Suc k" for j
      using that k(4) False by (cases j) (simp_all add: level_simps)
    moreover have "depth_loop tbl fr d = Some (d + Suc k)"
      using False k(2) by (subst depth_loop.simps) simp
    ultimately show ?thesis using k(1,3) by (intro exI [of _ "Suc k"]) (simp add: level_simps)
  qed
qed

lemma depth_relpow:
  assumes "wf_tree tbl"
  shows "(c, i) \<in> ws_links tbl ^^ n \<Longrightarrow> ws_depth tbl c = n + ws_depth tbl i"
proof (induction n arbitrary: c)
  case (Suc n)
  then obtain b where "(c, b) \<in> ws_links tbl" "(b, i) \<in> ws_links tbl ^^ n" by (blast dest: relpow_Suc_D2)
  with Suc.IH [of b] depth_Some [OF assms, of c b] show ?case by simp
qed simp

lemma get_max_descendant_depth_total:
  assumes "wf_tree tbl"
  shows "\<exists>m. get_max_descendant_depth tbl i = Some m \<and>
     (\<forall>c n. (c, i) \<in> ws_links tbl ^^ n \<longrightarrow> n \<le> m) \<and> (\<exists>c. (c, i) \<in> ws_links tbl ^^ m)"
proof -
  let ?first = "children_ids tbl [i]"
  let ?N = "card (ws_id ` set tbl)"
  have bound: "n \<le> ?N" if "(c, i) \<in> ws_links tbl ^^ n" for c n
    using depth_relpow [OF assms that] card_mono [OF _ above_ids [OF assms, of c]] by (simp add: ws_depth_def)
  have lv: "set (ws_level tbl ?first n) = {c. (c, i) \<in> ws_links tbl ^^ Suc n}" for n
    using level_set [of tbl "[i]" "Suc n"] by (simp add: level_simps)
  have "set (ws_level tbl ?first ?N) = {}"
    unfolding lv using bound [of _ "Suc ?N"] not_less_eq_eq by blast
  then have "ws_level tbl ?first ?N = []" by simp
  then obtain k where k: "get_max_descendant_depth tbl i = Some k" "ws_level tbl ?first k = []"
    and before: "\<forall>j < k. ws_level tbl ?first j \<noteq> []"
    using depth_loop_level [of tbl ?first ?N 0] by (auto simp: get_max_descendant_depth_def)
  have "\<exists>c. (c, i) \<in> ws_links tbl ^^ k"
  proof (cases k)
    case (Suc j)
    with before have "set (ws_level tbl ?first j) \<noteq> {}" by simp
    with lv [of j] Suc show ?thesis by auto
  qed auto
  moreover have "n \<le> k" if "(c, i) \<in> ws_links tbl ^^ n" for c n
  proof (rule ccontr)
    assume "\<not> n \<le> k"
    then have "(n - Suc k) + Suc k = n" by simp
    with that have "(c, i) \<in> ws_links tbl ^^ (n - Suc k) O ws_links tbl ^^ Suc k"
      using relpow_add [of "n - Suc k" "Suc k" "ws_links tbl"] by metis
    then obtain b where "(b, i) \<in> ws_links tbl ^^ Suc k" by blast
    with lv [of k] k(2) show False by auto
  qed
  ultimately show ?thesis using k(1) by blast
qed

section \<open>Changing the links\<close>

lemma links_append:
  "ws_links (tbl @ [w]) = ws_links tbl \<union> {(ws_id w, p) |p. ws_parent_id w = Some p}"
  by (auto simp: ws_links_def)

lemma trancl_agree_off:
  assumes off: "\<And>a b. a \<noteq> x \<Longrightarrow> (a, b) \<in> r \<longleftrightarrow> (a, b) \<in> r'" and "y \<noteq> x" and "(y, x) \<notin> r\<^sup>+"
  shows "(y, z) \<in> r\<^sup>+ \<longleftrightarrow> (y, z) \<in> r'\<^sup>+"
proof
  assume "(y, z) \<in> r\<^sup>+"
  then show "(y, z) \<in> r'\<^sup>+"
  proof (induction rule: trancl_induct)
    case (base b)
    with off [of y] assms(2) show ?case by blast
  next
    case (step b c)
    then have "b \<noteq> x" using assms(3) by blast
    with off step show ?case by (meson trancl.trancl_into_trancl)
  qed
next
  assume "(y, z) \<in> r'\<^sup>+"
  then show "(y, z) \<in> r\<^sup>+"
  proof (induction rule: trancl_induct)
    case (base b)
    with off [of y] assms(2) show ?case by blast
  next
    case (step b c)
    then have "b \<noteq> x" using assms(3) by blast
    with off step show ?case by (meson trancl.trancl_into_trancl)
  qed
qed

lemma acyclic_rank: "(\<And>a b. (a, b) \<in> r \<Longrightarrow> f b < (f a :: nat)) \<Longrightarrow> acyclic r"
proof -
  assume dec: "\<And>a b. (a, b) \<in> r \<Longrightarrow> f b < f a"
  have "(a, b) \<in> r\<^sup>+ \<Longrightarrow> f b < f a" for a b
    by (induction rule: trancl_induct) (auto dest: dec)
  then show ?thesis by (force simp: acyclic_def)
qed

lemma wf_tree_insert:
  assumes wf: "wf_tree tbl" and new: "ws_id w \<notin> ws_id ` set tbl"
    and p: "ws_parent_id w = Some p" "v \<in> set tbl" "ws_id v = p" "ws_tenant v = ws_tenant w"
  shows "wf_tree (tbl @ [w])"
    and "i \<in> ws_id ` set tbl \<Longrightarrow> ws_depth (tbl @ [w]) i = ws_depth tbl i"
    and "ws_depth (tbl @ [w]) (ws_id w) = Suc (ws_depth tbl p)"
proof -
  let ?x = "ws_id w"
  have l: "ws_links (tbl @ [w]) = insert (?x, p) (ws_links tbl)" using p(1) by (auto simp: links_append)
  have off: "(a, b) \<in> ws_links tbl \<longleftrightarrow> (a, b) \<in> ws_links (tbl @ [w])" if "a \<noteq> ?x" for a b using that l by auto
  have out: "(a, ?x) \<notin> (ws_links tbl)\<^sup>+" for a
    using new links_ids [OF wf] by (auto dest: tranclD2)
  have ab: "ws_above (tbl @ [w]) i = ws_above tbl i" if "i \<noteq> ?x" for i
    using trancl_agree_off [OF off that out] by (simp add: ws_above_def)
  have d: "distinct (map ws_id (tbl @ [w]))" using wf new by (auto simp: wf_tree_def)
  have "p \<noteq> ?x" using new p(2,3) by (metis image_eqI)
  have "acyclic (ws_links (tbl @ [w]))"
    unfolding acyclic_def
  proof (intro allI notI)
    fix a assume a: "(a, a) \<in> (ws_links (tbl @ [w]))\<^sup>+"
    show False
    proof (cases "a = ?x")
      case False
      with a ab [of a] above_irrefl [OF wf, of a] show False by (auto simp: ws_above_def)
    next
      case True
      have "ws_above (tbl @ [w]) ?x = insert p (ws_above tbl p)"
        using above_Some [OF d, of ?x p] l ab [OF \<open>p \<noteq> ?x\<close>] by simp
      with a True \<open>p \<noteq> ?x\<close> out [of p] show False by (auto simp: ws_above_def)
    qed
  qed
  with d wf p show wf': "wf_tree (tbl @ [w])" by (auto simp: wf_tree_def)
  show "ws_depth (tbl @ [w]) i = ws_depth tbl i" if "i \<in> ws_id ` set tbl"
  proof -
    from that new have "i \<noteq> ?x" by blast
    then show ?thesis by (simp add: ws_depth_def ab)
  qed
  show "ws_depth (tbl @ [w]) ?x = Suc (ws_depth tbl p)"
    using depth_Some [OF wf', of ?x p] l ab [OF \<open>p \<noteq> ?x\<close>] by (simp add: ws_depth_def)
qed

definition reparent :: "ws_table \<Rightarrow> string \<Rightarrow> string \<Rightarrow> ws_table" where
  "reparent tbl x p = map (\<lambda>v. if ws_id v = x then v\<lparr>ws_parent_id := Some p\<rparr> else v) tbl"

lemma reparent_ids [simp]: "map ws_id (reparent tbl x p) = map ws_id tbl"
  by (simp add: reparent_def)

lemma links_iff: "(a, b) \<in> ws_links tbl \<longleftrightarrow> (\<exists>v \<in> set tbl. ws_id v = a \<and> ws_parent_id v = Some b)"
  by (auto simp: ws_links_def)

lemma reparent_links:
  "(a, b) \<in> ws_links (reparent tbl x p) \<longleftrightarrow>
     (if a = x then b = p \<and> x \<in> ws_id ` set tbl else (a, b) \<in> ws_links tbl)"
proof -
  have e: "(a, b) \<in> ws_links (reparent tbl x p) \<longleftrightarrow>
      (\<exists>v \<in> set tbl. ws_id v = a \<and> (if ws_id v = x then Some p else ws_parent_id v) = Some b)"
    unfolding links_iff reparent_def set_map bex_simps(7) by (rule bex_cong) simp_all
  show ?thesis unfolding e links_iff [of a b tbl] by (cases "a = x") (auto simp: image_iff)
qed

lemma reparent_rowE:
  assumes "u \<in> set (reparent tbl x p)"
  obtains v where "v \<in> set tbl" "ws_id u = ws_id v" "ws_tenant u = ws_tenant v"
    "ws_parent_id u = (if ws_id v = x then Some p else ws_parent_id v)"
proof -
  from assms obtain v where "v \<in> set tbl" "u = (if ws_id v = x then v\<lparr>ws_parent_id := Some p\<rparr> else v)"
    unfolding reparent_def set_map by blast
  then show thesis by (intro that [of v]) simp_all
qed

lemma reparent_rowI: "v \<in> set tbl \<Longrightarrow> \<exists>u \<in> set (reparent tbl x p). ws_id u = ws_id v \<and> ws_tenant u = ws_tenant v"
  unfolding reparent_def set_map bex_simps(7) by (rule bexI [of _ v]) simp_all

lemma wf_tree_reparent:
  assumes wf: "wf_tree tbl" and x: "w \<in> set tbl" "ws_id w = x"
    and p: "v \<in> set tbl" "ws_id v = p" "ws_tenant v = ws_tenant w" "p \<noteq> x" "x \<notin> ws_above tbl p"
  shows "wf_tree (reparent tbl x p)"
    and "ws_depth (reparent tbl x p) p = ws_depth tbl p"
    and "x \<noteq> i \<Longrightarrow> x \<notin> ws_above tbl i \<Longrightarrow> ws_depth (reparent tbl x p) i = ws_depth tbl i"
    and "(i, x) \<in> ws_links tbl ^^ n \<Longrightarrow> ws_depth (reparent tbl x p) i = n + Suc (ws_depth tbl p)"
proof -
  let ?t = "reparent tbl x p"
  have d: "distinct (map ws_id tbl)" using wf by (simp add: wf_tree_def)
  have l: "(a, b) \<in> ws_links ?t \<longleftrightarrow> (if a = x then b = p else (a, b) \<in> ws_links tbl)" for a b
    using x by (auto simp: reparent_links)
  have off: "(a, b) \<in> ws_links tbl \<longleftrightarrow> (a, b) \<in> ws_links ?t" if "a \<noteq> x" for a b using that l by auto
  define f where "f y = (if y = x \<or> x \<in> ws_above tbl y then Suc (Suc (ws_depth tbl p)) else 0) + ws_depth tbl y" for y
  have ac: "acyclic (ws_links ?t)"
  proof (rule acyclic_rank [of _ f])
    fix a b assume ab: "(a, b) \<in> ws_links ?t"
    show "f b < f a"
    proof (cases "a = x")
      case True
      with ab l have "b = p" by auto
      with True p(4,5) show ?thesis by (simp add: f_def)
    next
      case False
      with ab l have e: "(a, b) \<in> ws_links tbl" by auto
      with above_Some [OF d e] False have "(a = x \<or> x \<in> ws_above tbl a) = (b = x \<or> x \<in> ws_above tbl b)" by auto
      then show ?thesis unfolding f_def depth_Some [OF wf e] by simp
    qed
  qed
  have par: "\<forall>u \<in> set ?t. \<forall>q. ws_parent_id u = Some q \<longrightarrow>
      (\<exists>y \<in> set ?t. ws_id y = q \<and> ws_tenant y = ws_tenant u)"
  proof (intro ballI allI impI)
    fix u q assume u: "u \<in> set ?t" "ws_parent_id u = Some q"
    from u(1) obtain u0 where u0: "u0 \<in> set tbl" "ws_id u = ws_id u0" "ws_tenant u = ws_tenant u0"
      "ws_parent_id u = (if ws_id u0 = x then Some p else ws_parent_id u0)" by (rule reparent_rowE)
    have "\<exists>y \<in> set tbl. ws_id y = q \<and> ws_tenant y = ws_tenant u0"
    proof (cases "ws_id u0 = x")
      case True
      have "inj_on ws_id (set tbl)" using d by (simp add: distinct_map)
      with True x u0(1) have "u0 = w" by (auto dest: inj_onD)
      moreover have "q = p" using u(2) u0(4) True by simp
      ultimately show ?thesis using p(1-3) by blast
    next
      case False
      with u(2) u0(4) have "ws_parent_id u0 = Some q" by simp
      with wf u0(1) show ?thesis unfolding wf_tree_def by blast
    qed
    then obtain y where "y \<in> set tbl" "ws_id y = q" "ws_tenant y = ws_tenant u" unfolding u0(3) by blast
    with reparent_rowI [of y tbl x p] show "\<exists>y \<in> set ?t. ws_id y = q \<and> ws_tenant y = ws_tenant u" by simp
  qed
  show wf': "wf_tree ?t"
    unfolding wf_tree_def reparent_ids by (intro conjI d ac par)
  show same: "ws_depth ?t i = ws_depth tbl i" if "x \<noteq> i" "x \<notin> ws_above tbl i" for i
  proof -
    have "(i, z) \<in> (ws_links tbl)\<^sup>+ \<longleftrightarrow> (i, z) \<in> (ws_links ?t)\<^sup>+" for z
    proof (rule trancl_agree_off [of x])
      show "i \<noteq> x" "(i, x) \<notin> (ws_links tbl)\<^sup>+" using that by (auto simp: ws_above_def)
    qed (rule off)
    then show ?thesis by (simp add: ws_depth_def ws_above_def)
  qed
  show dp: "ws_depth ?t p = ws_depth tbl p" by (rule same [OF p(4) [symmetric] p(5)])
  have "(x, p) \<in> ws_links ?t" by (simp add: l)
  then have dx: "ws_depth ?t x = Suc (ws_depth tbl p)" using depth_Some [OF wf'] dp by metis
  have path: "(i, x) \<in> ws_links tbl ^^ n \<Longrightarrow> (i, x) \<in> ws_links ?t ^^ n" for i
  proof (induction n arbitrary: i)
    case (Suc n)
    then obtain b where b: "(i, b) \<in> ws_links tbl" "(b, x) \<in> ws_links tbl ^^ n" by (blast dest: relpow_Suc_D2)
    have "ws_depth tbl i = Suc n + ws_depth tbl x" using depth_relpow [OF wf Suc.prems] .
    then have "i \<noteq> x" by auto
    with off b(1) Suc.IH [OF b(2)] show ?case by (blast intro: relpow_Suc_I2)
  qed simp
  show "ws_depth ?t i = n + Suc (ws_depth tbl p)" if "(i, x) \<in> ws_links tbl ^^ n"
    using depth_relpow [OF wf' path [OF that]] dx by simp
qed

section \<open>Properties\<close>

text \<open>
  C22 (equivalence): on a table whose parent links form a forest, the recursive queries compute what
  they are meant to: \<open>ancestors\<close> the workspaces strictly above, \<open>descendants\<close> those strictly below,
  and \<open>get_max_descendant_depth\<close> ends with the height of the subtree.
\<close>

theorem workspace_queries_correct:
  assumes "wf_tree tbl" and "i \<in> ws_id ` set tbl"
  shows "ws_id ` set (ancestors tbl i) = {p. (i, p) \<in> (ws_links tbl)\<^sup>+} \<and>
    ws_id ` set (descendants tbl i) = {c. (c, i) \<in> (ws_links tbl)\<^sup>+} \<and>
    (\<exists>m. get_max_descendant_depth tbl i = Some m \<and> (\<exists>c. (c, i) \<in> ws_links tbl ^^ m) \<and>
         (\<forall>c n. (c, i) \<in> ws_links tbl ^^ n \<longrightarrow> n \<le> m))"
  using ancestors_ids(1) [OF assms] descendants_ids [OF assms(1), of i]
    get_max_descendant_depth_total [OF assms(1), of i]
  by (auto simp: ws_above_def)

theorem workspace_queries_correct_witness:
  "let root = \<lparr>ws_id = ''r'', ws_name = ''Root Workspace'', ws_parent_id = None, ws_description = None,
         ws_type = WS_ROOT, ws_tenant = 1, ws_created = ''0'', ws_modified = ''0''\<rparr>;
       dflt = \<lparr>ws_id = ''d'', ws_name = ''Default Workspace'', ws_parent_id = Some ''r'', ws_description = None,
         ws_type = WS_DEFAULT, ws_tenant = 1, ws_created = ''0'', ws_modified = ''0''\<rparr>
   in wf_tree [root, dflt] \<and> ws_id ` set (ancestors [root, dflt] ''d'') = {''r''}"
proof -
  let ?root = "\<lparr>ws_id = ''r'', ws_name = ''Root Workspace'', ws_parent_id = None, ws_description = None,
         ws_type = WS_ROOT, ws_tenant = 1, ws_created = ''0'', ws_modified = ''0''\<rparr> :: workspace"
  let ?dflt = "\<lparr>ws_id = ''d'', ws_name = ''Default Workspace'', ws_parent_id = Some ''r'', ws_description = None,
         ws_type = WS_DEFAULT, ws_tenant = 1, ws_created = ''0'', ws_modified = ''0''\<rparr> :: workspace"
  have l: "ws_links [?root, ?dflt] = {(''d'', ''r'')}"
    by (auto simp: set_eq_iff links_iff)
  have t: "{(''d'', ''r'')}\<^sup>+ = {(''d'', ''r'')}" by (auto elim: tranclE)
  have wf: "wf_tree [?root, ?dflt]"
    unfolding wf_tree_def l acyclic_def t by simp
  have "''d'' \<in> ws_id ` set [?root, ?dflt]" by simp
  from workspace_queries_correct [OF wf this] have "ws_id ` set (ancestors [?root, ?dflt] ''d'') = {''r''}"
    unfolding l t by simp
  with wf show ?thesis unfolding Let_def by blast
qed

end
