(* ===== verification/Workspace_Service.thy ===== *)
theory Workspace_Service
  imports Workspace_Tree Replication
begin

text \<open>
  Creating, updating and moving workspaces: \<open>WorkspaceService\<close> of \<open>management/workspace/service.py\<close>,
  the dual-write handler of \<open>management/workspace/inventory_api_dual_write_workspace_handler.py\<close> and
  the events of \<open>management/workspace/utils/event.py\<close>.

  The views run each operation in a transaction, so an exception leaves the state as it was. The
  state holds the tenants, the workspaces, the model cache and the state of the replicator. A
  result \<open>None\<close> of \<open>move\<close> stands for the depth query not ending. Waiting for the consumer's
  notification after the commit is not modelled, and deleting a workspace needs the role handlers.
\<close>

section \<open>State and settings\<close>

record ws_settings =
  st_replication_enabled :: bool
  st_env_name :: string
  st_depth_limit :: nat
  st_restrict_default_peers :: bool
  st_creation_limit :: int
  st_cache_enabled :: bool

record 's ws_state =
  wst_tenants :: "tenant list"
  wst_table :: ws_table
  wst_cache :: ws_cache
  wst_repl :: 's

text \<open>\<open>validated_data\<close>: absent fields are \<open>None\<close>.\<close>

record ws_input =
  in_name :: "string option"
  in_description :: "string option option"
  in_parent_id :: "string option option"

definition tenant_by_pk :: "tenant list \<Rightarrow> int \<Rightarrow> tenant result" where
  "tenant_by_pk tenants pk = get_one (filter (\<lambda>t. tn_pk t = pk) tenants)"

section \<open>Events and the dual-write handler\<close>

definition workspace_event_data :: "workspace \<Rightarrow> (string \<times> string) list" where
  "workspace_event_data w =
     [(''name'', ws_name w), (''id'', ws_id w), (''created'', ws_created w),
      (''modified'', ws_modified w), (''type'', workspace_type_value (ws_type w))]"

definition make_workspace_event ::
  "string \<Rightarrow> tenant \<Rightarrow> workspace \<Rightarrow> replication_event_type \<Rightarrow> workspace_event result" where
  "make_workspace_event env_name tn w event_type =
     (if event_type \<notin> {EV_CREATE_WORKSPACE, EV_UPDATE_WORKSPACE, EV_DELETE_WORKSPACE} then Inl ValueError
      else Inr \<lparr>we_org_id = py_str (py_opt_str (tn_org_id tn)), we_account_number = tn_account_id tn,
                we_workspace = workspace_event_data w, we_event_type = event_type,
                we_partition_key = env_name\<rparr>)"

definition workspace_relationship :: "workspace \<Rightarrow> string option \<Rightarrow> relation_tuple result" where
  "workspace_relationship w parent =
     (case parent of
        None \<Rightarrow> Inl AttributeError
      | Some p \<Rightarrow> create_relationship (''rbac'', ''workspace'') (ws_id w) (''rbac'', ''workspace'') p ''parent'' None)"

definition handler_replicate ::
  "ws_settings \<Rightarrow> 's replicator \<Rightarrow> tenant \<Rightarrow> workspace \<Rightarrow> replication_event_type
   \<Rightarrow> relation_tuple list \<Rightarrow> relation_tuple list \<Rightarrow> bool \<Rightarrow> bool \<Rightarrow> 's \<Rightarrow> 's result" where
  "handler_replicate st rp tn w event_type relations_to_remove relations_to_add skip_ws_events force_create s =
     (if \<not> st_replication_enabled st then Inr s
      else dual_write_try (
        bind_r (check_r (\<not> (force_create \<and> skip_ws_events)) ValueError) (\<lambda>_.
        bind_r (check_r (force_create \<longrightarrow> event_type = EV_UPDATE_WORKSPACE) ValueError) (\<lambda>_.
        bind_r (if relations_to_remove \<noteq> [] \<or> relations_to_add \<noteq> []
                then rp_replicate rp s
                  \<lparr>ev_type = event_type,
                   ev_info = [(''workspace_id'', PyStr (ws_id w)),
                              (''org_id'', PyStr (py_str (py_opt_str (tn_org_id tn))))],
                   ev_partition_key = st_env_name st,
                   ev_add = relations_to_add, ev_remove = relations_to_remove\<rparr>
                else Inr s) (\<lambda>s1.
          if skip_ws_events then Inr s1
          else bind_r (if force_create
                       then bind_r (make_workspace_event (st_env_name st) tn w EV_CREATE_WORKSPACE) (\<lambda>e.
                              rp_replicate_workspace rp s1 e STREAM_STANDARD)
                       else Inr s1) (\<lambda>s2.
               bind_r (make_workspace_event (st_env_name st) tn w event_type) (\<lambda>e.
                 rp_replicate_workspace rp s2 e STREAM_STANDARD)))))))"

definition replicate_new_workspace ::
  "ws_settings \<Rightarrow> 's replicator \<Rightarrow> tenant \<Rightarrow> workspace \<Rightarrow> replication_event_type \<Rightarrow> 's \<Rightarrow> 's result" where
  "replicate_new_workspace st rp tn w event_type s =
     (if \<not> st_replication_enabled st then Inr s
      else bind_r (workspace_relationship w (ws_parent_id w)) (\<lambda>t.
             handler_replicate st rp tn w event_type [] [t] False False s))"

definition replicate_updated_workspace ::
  "ws_settings \<Rightarrow> 's replicator \<Rightarrow> tenant \<Rightarrow> workspace \<Rightarrow> replication_event_type \<Rightarrow> string option
   \<Rightarrow> bool \<Rightarrow> bool \<Rightarrow> 's \<Rightarrow> 's result" where
  "replicate_updated_workspace st rp tn w event_type previous_parent skip_ws_events force_create s =
     (if \<not> st_replication_enabled st then Inr s
      else if ws_parent_id w = previous_parent
      then handler_replicate st rp tn w event_type [] [] skip_ws_events force_create s
      else bind_r (workspace_relationship w previous_parent) (\<lambda>t_old.
           bind_r (workspace_relationship w (ws_parent_id w)) (\<lambda>t_new.
             handler_replicate st rp tn w event_type [t_old] [t_new] skip_ws_events force_create s)))"

definition replicate_deleted_workspace ::
  "ws_settings \<Rightarrow> 's replicator \<Rightarrow> tenant \<Rightarrow> workspace \<Rightarrow> replication_event_type \<Rightarrow> 's \<Rightarrow> 's result" where
  "replicate_deleted_workspace st rp tn w event_type s =
     (if \<not> st_replication_enabled st then Inr s
      else bind_r (workspace_relationship w (ws_parent_id w)) (\<lambda>t.
             handler_replicate st rp tn w event_type [t] [] False False s))"

section \<open>Guards\<close>

definition handle_validation_error :: "bool \<Rightarrow> string list \<Rightarrow> py_error" where
  "handle_validation_error as_serializer_error messages =
     (if ''unique_workspace_name_per_parent'' \<in> set messages then WorkspaceAlreadyExistsError
      else if as_serializer_error then SerializerValidationError
      else ValidationError)"

definition handle_save :: "bool \<Rightarrow> save_error + 'a \<Rightarrow> 'a result" where
  "handle_save as_serializer_error r =
     (case r of
        Inl (Raised e) \<Rightarrow> Inl e
      | Inl (Invalid messages) \<Rightarrow> Inl (handle_validation_error as_serializer_error messages)
      | Inr x \<Rightarrow> Inr x)"

definition exceeds_depth_limit :: "ws_settings \<Rightarrow> ws_table \<Rightarrow> string \<Rightarrow> tenant \<Rightarrow> bool result" where
  "exceeds_depth_limit st tbl target_parent_id tn =
     bind_r (workspace_by_id_tenant tbl target_parent_id (tn_pk tn)) (\<lambda>p.
       Inr (length (ancestors tbl (ws_id p)) + 1 > st_depth_limit st))"

definition violates_peer_restrictions ::
  "ws_settings \<Rightarrow> ws_table \<Rightarrow> ws_cache \<Rightarrow> string \<Rightarrow> tenant \<Rightarrow> (bool \<times> ws_cache) result" where
  "violates_peer_restrictions st tbl cache target_parent_id tn =
     bind_r (manager_root (st_cache_enabled st) tbl cache (Some tn) None) (\<lambda>(root, cache').
       Inr (st_restrict_default_peers st \<and> ws_id root = target_parent_id, cache'))"

definition enforce_hierarchy_depth ::
  "ws_settings \<Rightarrow> ws_table \<Rightarrow> ws_cache \<Rightarrow> string \<Rightarrow> tenant \<Rightarrow> ws_cache result" where
  "enforce_hierarchy_depth st tbl cache target_parent_id tn =
     bind_r (exceeds_depth_limit st tbl target_parent_id tn) (\<lambda>exceeds.
       if exceeds then Inl SerializerValidationError
       else bind_r (violates_peer_restrictions st tbl cache target_parent_id tn) (\<lambda>(violates, cache').
         if violates then Inl InvalidWorkspaceTypeError else Inr cache'))"

definition check_total_workspace_count_exceeded :: "ws_settings \<Rightarrow> ws_table \<Rightarrow> tenant \<Rightarrow> bool" where
  "check_total_workspace_count_exceeded st tbl tn \<longleftrightarrow>
     int (length (filter (\<lambda>w. ws_tenant w = tn_pk tn \<and> ws_type w = WS_STANDARD) tbl))
       \<ge> workspace_creation_limit (st_creation_limit st) tn"

definition enforce_hierarchy_depth_for_descendants ::
  "ws_settings \<Rightarrow> ws_table \<Rightarrow> string \<Rightarrow> workspace \<Rightarrow> unit result option" where
  "enforce_hierarchy_depth_for_descendants st tbl new_parent_id inst =
     (case workspace_by_id tbl new_parent_id of
        Inl e \<Rightarrow> Some (Inl e)
      | Inr p \<Rightarrow>
          (case get_max_descendant_depth tbl (ws_id inst) of
             None \<Rightarrow> None
           | Some workspace_tree_depth \<Rightarrow>
               Some (check_r (length (ancestors tbl (ws_id p)) + 1 + workspace_tree_depth \<le> st_depth_limit st)
                       SerializerValidationError)))"

definition prevent_moving_non_standard_workspace :: "workspace \<Rightarrow> unit result" where
  "prevent_moving_non_standard_workspace inst =
     check_r (ws_type inst = WS_STANDARD) InvalidWorkspaceTypeError"

definition prevent_moving_workspace_under_own_descendant ::
  "ws_table \<Rightarrow> string \<Rightarrow> workspace \<Rightarrow> unit result" where
  "prevent_moving_workspace_under_own_descendant tbl new_parent_id inst =
     check_r (\<not> list_ex (\<lambda>w. ws_id w = new_parent_id) (descendants tbl (ws_id inst))) SerializerValidationError"

section \<open>Operations\<close>

definition new_workspace :: "string \<Rightarrow> string \<Rightarrow> ws_input \<Rightarrow> tenant \<Rightarrow> workspace" where
  "new_workspace now new_id validated_data tn =
     \<lparr>ws_id = new_id,
      ws_name = (case in_name validated_data of None \<Rightarrow> [] | Some n \<Rightarrow> n),
      ws_parent_id = (case in_parent_id validated_data of None \<Rightarrow> None | Some p \<Rightarrow> p),
      ws_description = (case in_description validated_data of None \<Rightarrow> None | Some d \<Rightarrow> d),
      ws_type = WS_STANDARD, ws_tenant = tn_pk tn, ws_created = now, ws_modified = now\<rparr>"

definition create_workspace ::
  "ws_settings \<Rightarrow> 's replicator \<Rightarrow> string \<Rightarrow> string \<Rightarrow> ws_input \<Rightarrow> tenant \<Rightarrow> 's ws_state
   \<Rightarrow> (workspace \<times> 's ws_state) result" where
  "create_workspace st rp now new_id validated_data request_tenant state =
     (let tbl = wst_table state in
      bind_r (case in_parent_id validated_data of
                Some (Some p) \<Rightarrow> Inr (p, wst_cache state)
              | _ \<Rightarrow> bind_r (manager_default (st_cache_enabled st) tbl (wst_cache state) (Some request_tenant) None)
                       (\<lambda>(d, cache). Inr (ws_id d, cache))) (\<lambda>(parent_id, cache1).
      bind_r (workspace_by_id tbl parent_id) (\<lambda>parent.
      bind_r (enforce_hierarchy_depth st tbl cache1 parent_id request_tenant) (\<lambda>cache2.
      bind_r (check_r (\<not> check_total_workspace_count_exceeded st tbl request_tenant)
                SerializerValidationError) (\<lambda>_.
      bind_r (tenant_by_pk (wst_tenants state) (ws_tenant parent)) (\<lambda>tn.
      bind_r (handle_save True (insert_workspace tbl (new_workspace now new_id validated_data tn)))
             (\<lambda>(tbl', w).
      bind_r (replicate_new_workspace st rp tn w EV_CREATE_WORKSPACE (wst_repl state)) (\<lambda>s'.
        Inr (w, state\<lparr>wst_table := tbl', wst_cache := cache2, wst_repl := s'\<rparr>)))))))))"

definition set_attributes :: "ws_input \<Rightarrow> workspace \<Rightarrow> workspace" where
  "set_attributes validated_data inst =
     inst\<lparr>ws_name := (case in_name validated_data of None \<Rightarrow> ws_name inst | Some n \<Rightarrow> n),
          ws_description := (case in_description validated_data of None \<Rightarrow> ws_description inst | Some d \<Rightarrow> d),
          ws_parent_id := (case in_parent_id validated_data of None \<Rightarrow> ws_parent_id inst | Some p \<Rightarrow> p)\<rparr>"

definition update_workspace ::
  "ws_settings \<Rightarrow> 's replicator \<Rightarrow> string \<Rightarrow> workspace \<Rightarrow> ws_input \<Rightarrow> 's ws_state
   \<Rightarrow> (workspace \<times> 's ws_state) result" where
  "update_workspace st rp now inst validated_data state =
     (if ws_type inst \<in> {WS_ROOT, WS_UNGROUPED_HOSTS} then Inl InvalidWorkspaceTypeError
      else bind_r (case in_parent_id validated_data of
                     Some p \<Rightarrow> check_r (ws_parent_id inst = p) SerializerValidationError
                   | None \<Rightarrow> Inr ()) (\<lambda>_.
           bind_r (handle_save True (save_workspace now (wst_table state) (set_attributes validated_data inst)))
                  (\<lambda>(tbl', w).
           bind_r (tenant_by_pk (wst_tenants state) (ws_tenant w)) (\<lambda>tn.
           bind_r (replicate_updated_workspace st rp tn w EV_UPDATE_WORKSPACE (ws_parent_id w) False
                     (ws_type inst = WS_DEFAULT) (wst_repl state)) (\<lambda>s'.
             Inr (w, state\<lparr>wst_table := tbl', wst_repl := s'\<rparr>))))))"

definition move_workspace ::
  "ws_settings \<Rightarrow> 's replicator \<Rightarrow> workspace \<Rightarrow> string \<Rightarrow> 's ws_state
   \<Rightarrow> (workspace \<times> 's ws_state) result option" where
  "move_workspace st rp inst target_workspace_id state =
     (let tbl = wst_table state in
      case bind_r (prevent_moving_non_standard_workspace inst) (\<lambda>_.
           bind_r (prevent_moving_workspace_under_own_descendant tbl target_workspace_id inst) (\<lambda>_.
           bind_r (tenant_by_pk (wst_tenants state) (ws_tenant inst)) (\<lambda>tn.
           bind_r (enforce_hierarchy_depth st tbl (wst_cache state) target_workspace_id tn) (\<lambda>cache.
             Inr (tn, cache))))) of
        Inl e \<Rightarrow> Some (Inl e)
      | Inr (tn, cache) \<Rightarrow>
          map_option (\<lambda>guard. bind_r guard (\<lambda>_.
            bind_r (workspace_by_id_tenant tbl target_workspace_id (ws_tenant inst)) (\<lambda>target.
            bind_r (handle_save False (save_workspace_parent tbl (inst\<lparr>ws_parent_id := Some (ws_id target)\<rparr>)))
                   (\<lambda>(tbl', w).
            bind_r (replicate_updated_workspace st rp tn w EV_MOVE_WORKSPACE (ws_parent_id inst) True False
                      (wst_repl state)) (\<lambda>s'.
              Inr (w, state\<lparr>wst_table := tbl', wst_cache := cache, wst_repl := s'\<rparr>))))))
          (enforce_hierarchy_depth_for_descendants st tbl target_workspace_id inst))"

section \<open>The hierarchy invariant\<close>

definition ws_inv :: "ws_settings \<Rightarrow> ws_table \<Rightarrow> bool" where
  "ws_inv st tbl \<longleftrightarrow> wf_tree tbl \<and>
     (\<forall>w \<in> set tbl. ws_depth tbl (ws_id w) \<le> st_depth_limit st) \<and>
     (\<forall>w \<in> set tbl. ws_parent_id w = None \<longleftrightarrow> ws_type w = WS_ROOT)"

text \<open>What the model cache may hold: for a known tenant, the workspace the table has.\<close>

definition cache_coherent :: "tenant list \<Rightarrow> ws_table \<Rightarrow> ws_cache \<Rightarrow> bool" where
  "cache_coherent tenants tbl cache \<longleftrightarrow>
     (\<forall>t \<in> set tenants. \<forall>org ty w. tn_org_id t = Some org \<longrightarrow> map_of cache (org, ty) = Some w \<longrightarrow>
        (\<exists>v. workspace_by_type tbl ty (tn_pk t) = Inr v \<and> ws_id v = ws_id w))"

lemma manager_built_in_id:
  assumes "cache_coherent tenants tbl cache" and "t \<in> set tenants"
    and "get_cached_built_in_workspace enabled tbl cache (Some t) None ty = Inr (w, cache')"
  shows "\<exists>v. workspace_by_type tbl ty (tn_pk t) = Inr v \<and> ws_id v = ws_id w"
proof (cases "\<exists>org. resolve_org_id (Some t) = Some org \<and> get_cached_workspace enabled cache org ty \<noteq> None")
  case True
  then obtain org w' where org: "resolve_org_id (Some t) = Some org" "get_cached_workspace enabled cache org ty = Some w'"
    by auto
  then have "w = w'" using assms(3) by (simp add: get_cached_built_in_workspace_def)
  moreover have "tn_org_id t = Some org" using org(1) by (simp add: resolve_org_id_def split: option.splits if_splits)
  moreover have "map_of cache (org, ty) = Some w'" using org(2) by (simp add: get_cached_workspace_def split: if_splits)
  ultimately show ?thesis using assms(1,2) unfolding cache_coherent_def by blast
next
  case False
  then have "(case resolve_org_id (Some t) of Some org \<Rightarrow> get_cached_workspace enabled cache org ty | None \<Rightarrow> None) = None"
    by (auto split: option.splits)
  with assms(3) show ?thesis
    by (auto simp: get_cached_built_in_workspace_def bind_r_Inr_iff get_tenant_id_def split: if_splits)
qed

lemma workspace_by_id_Inr:
  "workspace_by_id tbl i = Inr w \<Longrightarrow> w \<in> set tbl \<and> ws_id w = i"
  unfolding workspace_by_id_def by (drule get_one_filterD) simp

lemma workspace_by_id_tenant_Inr:
  "workspace_by_id_tenant tbl i tn = Inr w \<Longrightarrow> w \<in> set tbl \<and> ws_id w = i \<and> ws_tenant w = tn"
  unfolding workspace_by_id_tenant_def by (drule get_one_filterD) simp

lemma workspace_by_type_Inr:
  "workspace_by_type tbl ty tn = Inr w \<Longrightarrow> w \<in> set tbl \<and> ws_type w = ty \<and> ws_tenant w = tn"
  unfolding workspace_by_type_def by (drule get_one_filterD) simp

lemma tenant_by_pk_Inr: "tenant_by_pk tenants pk = Inr t \<Longrightarrow> t \<in> set tenants \<and> tn_pk t = pk"
  unfolding tenant_by_pk_def by (drule get_one_filterD) simp

lemma same_id_same_row:
  "wf_tree tbl \<Longrightarrow> v \<in> set tbl \<Longrightarrow> w \<in> set tbl \<Longrightarrow> ws_id v = ws_id w \<Longrightarrow> v = w"
  unfolding wf_tree_def distinct_map by (auto dest: inj_onD)

text \<open>What a successful validation guarantees.\<close>

lemma workspace_clean_Inr:
  assumes "workspace_clean tbl w = Inr w'"
  shows "ws_id w' = ws_id w" and "ws_tenant w' = ws_tenant w" and "ws_type w' = ws_type w"
    and "ws_name w' = ws_name w"
    and "ws_parent_id w' = None \<longleftrightarrow> ws_type w = WS_ROOT"
    and "ws_parent_id w' \<noteq> Some (ws_id w) \<or> ws_parent_id w = None"
    and "ws_parent_id w \<noteq> None \<Longrightarrow> ws_parent_id w' = ws_parent_id w"
    and "ws_parent_id w = None \<Longrightarrow> ws_type w = WS_STANDARD \<Longrightarrow>
           \<exists>d. workspace_by_type tbl WS_DEFAULT (ws_tenant w) = Inr d \<and> ws_parent_id w' = Some (ws_id d)"
  using assms
  by (auto simp: workspace_clean_def Let_def bind_r_Inr_iff split: if_splits option.splits)

lemma full_clean_Inr:
  assumes "full_clean adding tbl w = Inr w'"
  shows "workspace_clean tbl w = Inr w'" and "adding \<Longrightarrow> ws_id w \<notin> ws_id ` set tbl"
    and "\<not> name_conflict tbl w'" and "ws_parent_id w = Some p \<Longrightarrow> p \<in> ws_id ` set tbl"
  using assms
  by (auto simp: full_clean_def Let_def field_messages_def constraint_messages_def
      split: sum.splits if_splits py_error.splits)

lemma handle_save_Inr [simp]: "handle_save b r = Inr x \<longleftrightarrow> r = Inr x"
  by (auto simp: handle_save_def split: sum.splits save_error.splits)

lemma insert_workspace_Inr:
  "insert_workspace tbl w = Inr (tbl', w') \<longleftrightarrow> full_clean True tbl w = Inr w' \<and> tbl' = tbl @ [w']"
  by (auto simp: insert_workspace_def split: sum.splits)

lemma save_workspace_parent_Inr:
  "save_workspace_parent tbl w = Inr (tbl', w') \<longleftrightarrow> full_clean False tbl w = Inr w' \<and>
     tbl' = map (\<lambda>v. if ws_id v = ws_id w' then v\<lparr>ws_parent_id := ws_parent_id w'\<rparr> else v) tbl"
  by (auto simp: save_workspace_parent_def split: sum.splits)

text \<open>What a successful creation has done.\<close>

lemma create_workspace_success:
  assumes c: "create_workspace st rp now new_id vd rt state = Inr (w, state')"
    and inv: "ws_inv st (wst_table state)"
    and coh: "cache_coherent (wst_tenants state) (wst_table state) (wst_cache state)"
    and rt: "rt \<in> set (wst_tenants state)"
  obtains v tn where "v \<in> set (wst_table state)" "ws_parent_id w = Some (ws_id v)" "ws_tenant v = ws_tenant w"
    "ws_id w = new_id" "new_id \<notin> ws_id ` set (wst_table state)" "ws_type w = WS_STANDARD"
    "Suc (ws_depth (wst_table state) (ws_id v)) \<le> st_depth_limit st"
    "wst_table state' = wst_table state @ [w]" "wst_tenants state' = wst_tenants state"
    "replicate_new_workspace st rp tn w EV_CREATE_WORKSPACE (wst_repl state) = Inr (wst_repl state')"
proof -
  let ?tbl = "wst_table state"
  have wf: "wf_tree ?tbl" using inv by (simp add: ws_inv_def)
  from c obtain parent_id cache1 parent cache2 tn s' where
    pid: "(case in_parent_id vd of Some (Some p) \<Rightarrow> Inr (p, wst_cache state)
      | _ \<Rightarrow> bind_r (manager_default (st_cache_enabled st) ?tbl (wst_cache state) (Some rt) None)
               (\<lambda>(d, cache). Inr (ws_id d, cache))) = Inr (parent_id, cache1)"
    and parent: "workspace_by_id ?tbl parent_id = Inr parent"
    and enf: "enforce_hierarchy_depth st ?tbl cache1 parent_id rt = Inr cache2"
    and tn: "tenant_by_pk (wst_tenants state) (ws_tenant parent) = Inr tn"
    and fc: "full_clean True ?tbl (new_workspace now new_id vd tn) = Inr w"
    and rep: "replicate_new_workspace st rp tn w EV_CREATE_WORKSPACE (wst_repl state) = Inr s'"
    and st': "state' = state\<lparr>wst_table := ?tbl @ [w], wst_cache := cache2, wst_repl := s'\<rparr>"
    by (auto simp: create_workspace_def Let_def bind_r_Inr_iff insert_workspace_Inr)
  define w0 where "w0 = new_workspace now new_id vd tn"
  have w0: "ws_id w0 = new_id" "ws_type w0 = WS_STANDARD" "ws_tenant w0 = tn_pk tn"
      "ws_parent_id w0 = (case in_parent_id vd of None \<Rightarrow> None | Some p \<Rightarrow> p)"
    by (simp_all add: w0_def new_workspace_def)
  note fc = fc [folded w0_def]
  note p_row = workspace_by_id_Inr [OF parent] and tn_row = tenant_by_pk_Inr [OF tn]
  from enf obtain row where row: "workspace_by_id_tenant ?tbl parent_id (tn_pk rt) = Inr row"
    and lim: "\<not> length (ancestors ?tbl (ws_id row)) + 1 > st_depth_limit st"
    by (auto simp: enforce_hierarchy_depth_def exceeds_depth_limit_def bind_r_Inr_iff split: if_splits)
  note row' = workspace_by_id_tenant_Inr [OF row]
  have same: "row = parent" by (rule same_id_same_row [OF wf]) (use row' p_row in auto)
  have depth: "Suc (ws_depth ?tbl parent_id) \<le> st_depth_limit st"
    using lim row' ancestors_ids(2) [OF wf, of parent_id] by auto
  note cl = workspace_clean_Inr [OF full_clean_Inr(1) [OF fc]]
  have par: "ws_parent_id w = Some parent_id"
  proof (cases "ws_parent_id w0")
    case (Some p)
    with w0(4) have "in_parent_id vd = Some (Some p)" by (simp split: option.splits)
    with pid cl(7) Some show ?thesis by simp
  next
    case None
    with w0(2) cl(8) obtain d where d: "workspace_by_type ?tbl WS_DEFAULT (tn_pk tn) = Inr d"
      "ws_parent_id w = Some (ws_id d)" using w0(3) by auto
    from None w0(4) pid obtain d' cache where
      "manager_default (st_cache_enabled st) ?tbl (wst_cache state) (Some rt) None = Inr (d', cache)"
      "parent_id = ws_id d'" by (auto simp: bind_r_Inr_iff split: option.splits)
    with manager_built_in_id [OF coh rt] obtain v where
      "workspace_by_type ?tbl WS_DEFAULT (tn_pk rt) = Inr v" "ws_id v = parent_id"
      unfolding manager_default_def by metis
    moreover have "tn_pk rt = tn_pk tn" using row' same tn_row by simp
    ultimately show ?thesis using d by simp
  qed
  show thesis
    by (rule that [of parent tn])
      (use p_row par cl tn_row w0 full_clean_Inr(2) [OF fc] depth st' rep in auto)
qed

lemma create_preserves_inv:
  assumes "create_workspace st rp now new_id vd rt state = Inr (w, state')"
    and inv: "ws_inv st (wst_table state)"
    and "cache_coherent (wst_tenants state) (wst_table state) (wst_cache state)"
    and "rt \<in> set (wst_tenants state)"
  shows "ws_inv st (wst_table state')"
    and "ws_links (wst_table state') = insert (new_id, the (ws_parent_id w)) (ws_links (wst_table state))"
proof -
  from create_workspace_success [OF assms] obtain v tn where
    s: "v \<in> set (wst_table state)" "ws_parent_id w = Some (ws_id v)" "ws_tenant v = ws_tenant w"
    "ws_id w = new_id" "new_id \<notin> ws_id ` set (wst_table state)" "ws_type w = WS_STANDARD"
    "Suc (ws_depth (wst_table state) (ws_id v)) \<le> st_depth_limit st"
    "wst_table state' = wst_table state @ [w]" by metis
  have wf: "wf_tree (wst_table state)" using inv by (simp add: ws_inv_def)
  have new: "ws_id w \<notin> ws_id ` set (wst_table state)" using s by simp
  note ins = wf_tree_insert [OF wf new s(2) s(1) refl s(3)]
  show "ws_inv st (wst_table state')"
    using inv ins s unfolding ws_inv_def by auto
  show "ws_links (wst_table state') = insert (new_id, the (ws_parent_id w)) (ws_links (wst_table state))"
    using s by (auto simp: links_append)
qed

text \<open>The columns the invariant is about.\<close>

definition skeleton :: "ws_table \<Rightarrow> (string \<times> string option \<times> int \<times> workspace_type) list" where
  "skeleton tbl = map (\<lambda>w. (ws_id w, ws_parent_id w, ws_tenant w, ws_type w)) tbl"

lemma skeleton_links: "ws_links tbl = {(a, b). \<exists>t ty. (a, Some b, t, ty) \<in> set (skeleton tbl)}"
  by (fastforce simp: skeleton_def links_iff)

lemma skeleton_ids: "map ws_id tbl = map fst (skeleton tbl)"
  by (simp add: skeleton_def)

lemma skeleton_wf:
  "wf_tree tbl \<longleftrightarrow> distinct (map fst (skeleton tbl)) \<and>
     (\<forall>(i, p, t, ty) \<in> set (skeleton tbl). \<forall>q. p = Some q \<longrightarrow>
        (\<exists>(j, _, t', _) \<in> set (skeleton tbl). j = q \<and> t' = t)) \<and> acyclic (ws_links tbl)"
  unfolding wf_tree_def skeleton_ids [symmetric] by (simp add: skeleton_def)

lemma skeleton_inv:
  assumes "skeleton tbl' = skeleton tbl"
  shows "ws_links tbl' = ws_links tbl" and "ws_inv st tbl' \<longleftrightarrow> ws_inv st tbl"
proof -
  show l: "ws_links tbl' = ws_links tbl" using assms by (simp add: skeleton_links)
  have "wf_tree tbl' \<longleftrightarrow> wf_tree tbl" unfolding skeleton_wf assms l by simp
  moreover have "(\<forall>w \<in> set tbl'. P (ws_id w) (ws_parent_id w) (ws_type w)) \<longleftrightarrow>
      (\<forall>w \<in> set tbl. P (ws_id w) (ws_parent_id w) (ws_type w))" for P
  proof -
    have "(\<forall>(i, p, t, ty) \<in> set (skeleton tbl'). P i p ty) \<longleftrightarrow> (\<forall>(i, p, t, ty) \<in> set (skeleton tbl). P i p ty)"
      using assms by simp
    then show ?thesis by (simp add: skeleton_def)
  qed
  note all = this
  moreover have "ws_depth tbl' = ws_depth tbl" by (simp add: fun_eq_iff ws_depth_def ws_above_def l)
  ultimately show "ws_inv st tbl' \<longleftrightarrow> ws_inv st tbl"
    unfolding ws_inv_def
    using all [of "\<lambda>i p ty. ws_depth tbl i \<le> st_depth_limit st"] all [of "\<lambda>i p ty. p = None \<longleftrightarrow> ty = WS_ROOT"]
    by simp
qed

lemma skeleton_write_row:
  assumes "wf_tree tbl" and "inst \<in> set tbl" and "ws_id w = ws_id inst" and "ws_parent_id w = ws_parent_id inst"
    and "ws_tenant w = ws_tenant inst" and "ws_type w = ws_type inst"
  shows "skeleton (write_row tbl w) = skeleton tbl"
  unfolding skeleton_def write_row_def map_map
proof (rule map_cong [OF refl])
  fix v assume v: "v \<in> set tbl"
  show "((\<lambda>w. (ws_id w, ws_parent_id w, ws_tenant w, ws_type w)) \<circ> (\<lambda>v. if ws_id v = ws_id w then w else v)) v =
      (ws_id v, ws_parent_id v, ws_tenant v, ws_type v)"
  proof (cases "ws_id v = ws_id w")
    case True
    with same_id_same_row [OF assms(1) v assms(2)] assms(3) have "v = inst" by simp
    with True assms show ?thesis by simp
  qed simp
qed

lemma update_workspace_success:
  assumes u: "update_workspace st rp now inst vd state = Inr (w, state')"
    and inv: "ws_inv st (wst_table state)" and inst: "inst \<in> set (wst_table state)"
  shows "skeleton (wst_table state') = skeleton (wst_table state)"
    and "\<exists>tn. replicate_updated_workspace st rp tn w EV_UPDATE_WORKSPACE (ws_parent_id w) False
           (ws_type inst = WS_DEFAULT) (wst_repl state) = Inr (wst_repl state')"
proof -
  let ?w1 = "set_attributes vd inst"
  from u obtain w' tn s' where nr: "ws_type inst \<notin> {WS_ROOT, WS_UNGROUPED_HOSTS}"
    and same: "in_parent_id vd = None \<or> in_parent_id vd = Some (ws_parent_id inst)"
    and fc: "full_clean False (wst_table state) ?w1 = Inr w'"
    and w: "w = w'\<lparr>ws_modified := now\<rparr>"
    and rep: "replicate_updated_workspace st rp tn w EV_UPDATE_WORKSPACE (ws_parent_id w) False
           (ws_type inst = WS_DEFAULT) (wst_repl state) = Inr s'"
    and st': "state' = state\<lparr>wst_table := write_row (wst_table state) w, wst_repl := s'\<rparr>"
    by (auto simp: update_workspace_def bind_r_Inr_iff check_r_Inr_iff save_workspace_def Let_def
        split: if_splits option.splits sum.splits)
  have w1: "ws_id ?w1 = ws_id inst" "ws_tenant ?w1 = ws_tenant inst" "ws_type ?w1 = ws_type inst"
    "ws_parent_id ?w1 = ws_parent_id inst"
    using same by (auto simp: set_attributes_def)
  note cl = workspace_clean_Inr [OF full_clean_Inr(1) [OF fc]]
  have "ws_parent_id inst \<noteq> None" using inv inst nr by (auto simp: ws_inv_def)
  then have "ws_parent_id w = ws_parent_id inst" using w cl(7) w1(4) by simp
  then show "skeleton (wst_table state') = skeleton (wst_table state)"
    using skeleton_write_row [of "wst_table state" inst w] inv inst w cl(1-3) w1 st' by (simp add: ws_inv_def)
  show "\<exists>tn. replicate_updated_workspace st rp tn w EV_UPDATE_WORKSPACE (ws_parent_id w) False
           (ws_type inst = WS_DEFAULT) (wst_repl state) = Inr (wst_repl state')"
    using rep st' by auto
qed

lemma move_workspace_success:
  assumes m: "move_workspace st rp inst target state = Some (Inr (w, state'))"
    and inv: "ws_inv st (wst_table state)" and inst: "inst \<in> set (wst_table state)"
  obtains tn where "wst_table state' = reparent (wst_table state) (ws_id inst) target"
    "ws_id w = ws_id inst" "ws_parent_id w = Some target" "ws_parent_id inst \<noteq> None"
    "ws_inv st (wst_table state')"
    "replicate_updated_workspace st rp tn w EV_MOVE_WORKSPACE (ws_parent_id inst) True False
       (wst_repl state) = Inr (wst_repl state')"
proof -
  let ?tbl = "wst_table state" and ?x = "ws_id inst"
  have wf: "wf_tree ?tbl" using inv by (simp add: ws_inv_def)
  from m obtain tn cache d target_row w' s' p where
    std: "ws_type inst = WS_STANDARD"
    and nd: "\<not> list_ex (\<lambda>w. ws_id w = target) (descendants ?tbl ?x)"
    and p: "workspace_by_id ?tbl target = Inr p"
    and d: "get_max_descendant_depth ?tbl ?x = Some d"
    and lim: "length (ancestors ?tbl (ws_id p)) + 1 + d \<le> st_depth_limit st"
    and row: "workspace_by_id_tenant ?tbl target (ws_tenant inst) = Inr target_row"
    and fc: "full_clean False ?tbl (inst\<lparr>ws_parent_id := Some (ws_id target_row)\<rparr>) = Inr w"
    and rep: "replicate_updated_workspace st rp tn w EV_MOVE_WORKSPACE (ws_parent_id inst) True False
       (wst_repl state) = Inr s'"
    and st': "state' = state\<lparr>wst_table := map (\<lambda>v. if ws_id v = ws_id w then v\<lparr>ws_parent_id := ws_parent_id w\<rparr> else v) ?tbl,
        wst_cache := cache, wst_repl := s'\<rparr>"
    by (auto simp: move_workspace_def Let_def bind_r_Inr_iff check_r_Inr_iff save_workspace_parent_Inr
        enforce_hierarchy_depth_for_descendants_def prevent_moving_non_standard_workspace_def
        prevent_moving_workspace_under_own_descendant_def
        split: sum.splits option.splits prod.splits)
  note r = workspace_by_id_tenant_Inr [OF row] and pr = workspace_by_id_Inr [OF p]
  note cl = workspace_clean_Inr [OF full_clean_Inr(1) [OF fc]]
  have w: "ws_id w = ?x" "ws_parent_id w = Some target" using cl(1,7) r by simp_all
  have ne: "target \<noteq> ?x" using cl(6) w r by simp
  have tbl': "wst_table state' = reparent ?tbl ?x target" using st' w by (simp add: reparent_def)
  have na: "?x \<notin> ws_above ?tbl target"
  proof
    assume "?x \<in> ws_above ?tbl target"
    then have "target \<in> ws_id ` set (descendants ?tbl ?x)" using descendants_ids [OF wf, of ?x] by simp
    with nd show False by (auto simp: list_ex_iff)
  qed
  note rp' = wf_tree_reparent [OF wf inst refl, of target_row target]
  have wf': "wf_tree (reparent ?tbl ?x target)"
    by (rule rp'(1)) (use r ne na in auto)
  have depth: "ws_depth (reparent ?tbl ?x target) i \<le> st_depth_limit st" if i: "i \<in> ws_id ` set ?tbl" for i
  proof (cases "i = ?x \<or> ?x \<in> ws_above ?tbl i")
    case True
    then have "(i, ?x) \<in> (ws_links ?tbl)\<^sup>*" by (auto simp: ws_above_def)
    then obtain n where n: "(i, ?x) \<in> ws_links ?tbl ^^ n" using rtrancl_imp_relpow by blast
    have "n \<le> d" using get_max_descendant_depth_total [OF wf, of ?x] d n by auto
    moreover have "ws_depth (reparent ?tbl ?x target) i = n + Suc (ws_depth ?tbl target)"
      by (rule rp'(4)) (use r ne na n in auto)
    moreover have "length (ancestors ?tbl (ws_id p)) = ws_depth ?tbl target"
      using ancestors_ids(2) [OF wf, of target] pr by auto
    ultimately show ?thesis using lim by simp
  next
    case False
    have "ws_depth (reparent ?tbl ?x target) i = ws_depth ?tbl i"
      by (rule rp'(3)) (use r ne na False in auto)
    then show ?thesis using inv i by (auto simp: ws_inv_def)
  qed
  have notroot: "ws_parent_id inst \<noteq> None" using inv inst std by (auto simp: ws_inv_def)
  have types: "\<forall>v \<in> set (reparent ?tbl ?x target). ws_parent_id v = None \<longleftrightarrow> ws_type v = WS_ROOT"
  proof
    fix v assume "v \<in> set (reparent ?tbl ?x target)"
    then obtain u where u: "u \<in> set ?tbl" "v = (if ws_id u = ?x then u\<lparr>ws_parent_id := Some target\<rparr> else u)"
      unfolding reparent_def set_map by blast
    show "ws_parent_id v = None \<longleftrightarrow> ws_type v = WS_ROOT"
    proof (cases "ws_id u = ?x")
      case True
      then have "u = inst" using same_id_same_row [OF wf u(1) inst] by simp
      with u std show ?thesis by simp
    next
      case False
      with u inv show ?thesis by (simp add: ws_inv_def)
    qed
  qed
  have inv': "ws_inv st (wst_table state')"
    unfolding ws_inv_def tbl'
  proof (intro conjI ballI wf')
    fix v assume "v \<in> set (reparent ?tbl ?x target)"
    then have "ws_id v \<in> ws_id ` set ?tbl" by (metis reparent_rowE image_eqI)
    then show "ws_depth (reparent ?tbl ?x target) (ws_id v) \<le> st_depth_limit st" by (rule depth)
  qed (use types in blast)
  show thesis by (rule that [of tn]) (use tbl' w notroot inv' rep st' in auto)
qed

lemma move_workspace_returns:
  "wf_tree (wst_table state) \<Longrightarrow> \<exists>r. move_workspace st rp inst target state = Some r"
  using get_max_descendant_depth_total [of "wst_table state" "ws_id inst"]
  by (auto simp: move_workspace_def Let_def enforce_hierarchy_depth_for_descendants_def
      split: sum.splits option.splits)

section \<open>The tuples of the hierarchy\<close>

definition parent_tuple :: "string \<Rightarrow> string \<Rightarrow> relation_tuple" where
  "parent_tuple i p = plain_tuple (''rbac'', ''workspace'') i (''rbac'', ''workspace'') p ''parent'' None"

definition hierarchy_in_sync :: "ws_table \<Rightarrow> relation_tuple set \<Rightarrow> bool" where
  "hierarchy_in_sync tbl ts \<longleftrightarrow> {(i, p). parent_tuple i p \<in> ts} = ws_links tbl"

lemma parent_tuple_inject [simp]: "parent_tuple i p = parent_tuple j q \<longleftrightarrow> i = j \<and> p = q"
  by (simp add: parent_tuple_def)

lemma workspace_relationship_Inr:
  "workspace_relationship w parent = Inr t \<longleftrightarrow>
     (\<exists>p. parent = Some p \<and> t = parent_tuple (ws_id w) p \<and> valid_relation_tuple t)"
  by (auto simp: workspace_relationship_def parent_tuple_def create_relationship_Inr_iff split: option.splits)

context workspace_replicator
begin

lemma handler_replicate_tuples:
  assumes "handler_replicate st rp tn w ty rem add skip force s = Inr s'" and "st_replication_enabled st"
    and "list_all valid_relation_tuple add" and "list_all valid_relation_tuple rem" and "length add \<le> 1"
  shows "tuples s' = (tuples s - set rem) \<union> set add"
proof -
  from assms(1,2) obtain s1 s2 where
    s1: "(if rem \<noteq> [] \<or> add \<noteq> [] then rp_replicate rp s
            \<lparr>ev_type = ty, ev_info = [(''workspace_id'', PyStr (ws_id w)),
               (''org_id'', PyStr (py_str (py_opt_str (tn_org_id tn))))],
             ev_partition_key = st_env_name st, ev_add = add, ev_remove = rem\<rparr> else Inr s) = Inr s1"
    and rest: "skip \<and> s' = s1 \<or> (\<exists>e e'. \<not> skip \<and>
        (s2 = s1 \<or> rp_replicate_workspace rp s1 e STREAM_STANDARD = Inr s2) \<and>
        rp_replicate_workspace rp s2 e' STREAM_STANDARD = Inr s')"
    unfolding handler_replicate_def bind_r_Inr_iff dual_write_try_Inr_iff
    by (auto simp: bind_r_Inr_iff split: if_splits)
  have "tuples s1 = (tuples s - set rem) \<union> set add"
    using s1 replicate_single [OF _ assms(3-5)] by (auto split: if_splits)
  moreover have "tuples s' = tuples s1"
    using rest workspace_neutral by metis
  ultimately show ?thesis by simp
qed

lemma create_in_sync:
  assumes "create_workspace st rp now new_id vd rt state = Inr (w, state')" and "ws_inv st (wst_table state)"
    and "cache_coherent (wst_tenants state) (wst_table state) (wst_cache state)"
    and "rt \<in> set (wst_tenants state)" and en: "st_replication_enabled st"
    and sync: "hierarchy_in_sync (wst_table state) (tuples (wst_repl state))"
  shows "hierarchy_in_sync (wst_table state') (tuples (wst_repl state'))"
proof -
  obtain v :: workspace and tn where v: "ws_parent_id w = Some (ws_id v)" "ws_id w = new_id"
    and r: "replicate_new_workspace st rp tn w EV_CREATE_WORKSPACE (wst_repl state) = Inr (wst_repl state')"
    by (rule create_workspace_success [OF assms(1-4)]) blast
  let ?t = "parent_tuple new_id (ws_id v)"
  from r en v have "valid_relation_tuple ?t"
    and "handler_replicate st rp tn w EV_CREATE_WORKSPACE [] [?t] False False (wst_repl state) = Inr (wst_repl state')"
    by (auto simp: replicate_new_workspace_def bind_r_Inr_iff workspace_relationship_Inr)
  then have "tuples (wst_repl state') = tuples (wst_repl state) \<union> {?t}"
    using handler_replicate_tuples [OF _ en, of tn w EV_CREATE_WORKSPACE "[]" "[?t]"] by simp
  with sync create_preserves_inv(2) [OF assms(1-4)] v show ?thesis
    by (auto simp: hierarchy_in_sync_def)
qed

lemma update_in_sync:
  assumes "update_workspace st rp now inst vd state = Inr (w, state')" and "ws_inv st (wst_table state)"
    and "inst \<in> set (wst_table state)" and en: "st_replication_enabled st"
    and sync: "hierarchy_in_sync (wst_table state) (tuples (wst_repl state))"
  shows "hierarchy_in_sync (wst_table state') (tuples (wst_repl state'))"
proof -
  note u = update_workspace_success [OF assms(1-3)]
  from u(2) obtain tn where "handler_replicate st rp tn w EV_UPDATE_WORKSPACE [] [] False
      (ws_type inst = WS_DEFAULT) (wst_repl state) = Inr (wst_repl state')"
    using en by (auto simp: replicate_updated_workspace_def)
  then have "tuples (wst_repl state') = tuples (wst_repl state)"
    using handler_replicate_tuples [OF _ en] by fastforce
  with sync skeleton_inv(1) [OF u(1)] show ?thesis by (simp add: hierarchy_in_sync_def)
qed

lemma move_in_sync:
  assumes "move_workspace st rp inst target state = Some (Inr (w, state'))" and "ws_inv st (wst_table state)"
    and inst: "inst \<in> set (wst_table state)" and en: "st_replication_enabled st"
    and sync: "hierarchy_in_sync (wst_table state) (tuples (wst_repl state))"
  shows "hierarchy_in_sync (wst_table state') (tuples (wst_repl state'))"
proof -
  let ?x = "ws_id inst"
  from move_workspace_success [OF assms(1-3)] obtain tn old where
    m: "wst_table state' = reparent (wst_table state) ?x target" "ws_id w = ?x" "ws_parent_id w = Some target"
    "ws_parent_id inst = Some old"
    and r: "replicate_updated_workspace st rp tn w EV_MOVE_WORKSPACE (ws_parent_id inst) True False
       (wst_repl state) = Inr (wst_repl state')" by (metis not_None_eq)
  have wf: "wf_tree (wst_table state)" using assms(2) by (simp add: ws_inv_def)
  have old: "(?x, p) \<in> ws_links (wst_table state) \<longleftrightarrow> p = old" for p
    using m(4) inst same_id_same_row [OF wf _ inst] unfolding links_iff by (metis option.inject)
  have links: "(i, p) \<in> ws_links (wst_table state') \<longleftrightarrow>
      (if i = ?x then p = target else (i, p) \<in> ws_links (wst_table state))" for i p
    using inst by (auto simp: m(1) reparent_links)
  have new: "tuples (wst_repl state') =
      (tuples (wst_repl state) - {parent_tuple ?x old}) \<union> {parent_tuple ?x target}"
  proof (cases "old = target")
    case True
    with r en m have "handler_replicate st rp tn w EV_MOVE_WORKSPACE [] [] True False (wst_repl state) = Inr (wst_repl state')"
      by (simp add: replicate_updated_workspace_def)
    then have "tuples (wst_repl state') = tuples (wst_repl state)"
      using handler_replicate_tuples [OF _ en] by fastforce
    moreover have "parent_tuple ?x old \<in> tuples (wst_repl state)"
      using sync old unfolding hierarchy_in_sync_def by blast
    ultimately show ?thesis using True by auto
  next
    case False
    with r en m have "valid_relation_tuple (parent_tuple ?x old)" "valid_relation_tuple (parent_tuple ?x target)"
      and "handler_replicate st rp tn w EV_MOVE_WORKSPACE [parent_tuple ?x old] [parent_tuple ?x target] True False
             (wst_repl state) = Inr (wst_repl state')"
      by (auto simp: replicate_updated_workspace_def bind_r_Inr_iff workspace_relationship_Inr)
    then show ?thesis using handler_replicate_tuples [OF _ en] by fastforce
  qed
  have "parent_tuple i p \<in> tuples (wst_repl state) \<longleftrightarrow> (i, p) \<in> ws_links (wst_table state)" for i p
    using sync unfolding hierarchy_in_sync_def by blast
  then have "parent_tuple i p \<in> tuples (wst_repl state') \<longleftrightarrow> (i, p) \<in> ws_links (wst_table state')" for i p
    unfolding new links by (auto simp: old)
  then show ?thesis by (auto simp: hierarchy_in_sync_def)
qed

end

section \<open>Properties\<close>

text \<open>
  C12 (invariant): creating, updating and moving keep the hierarchy a forest within the tenant, with
  every workspace at most \<open>WORKSPACE_HIERARCHY_DEPTH_LIMIT\<close> levels below its root and only roots
  without a parent.
\<close>

theorem workspace_hierarchy_preserved:
  assumes "ws_inv st (wst_table state)"
  shows "(create_workspace st rp now new_id vd rt state = Inr (w, state') \<and> rt \<in> set (wst_tenants state) \<and>
      cache_coherent (wst_tenants state) (wst_table state) (wst_cache state) \<longrightarrow> ws_inv st (wst_table state')) \<and>
    (update_workspace st rp now inst vd state = Inr (w, state') \<and> inst \<in> set (wst_table state) \<longrightarrow>
      ws_inv st (wst_table state')) \<and>
    (move_workspace st rp inst target state = Some (Inr (w, state')) \<and> inst \<in> set (wst_table state) \<longrightarrow>
      ws_inv st (wst_table state'))"
proof (intro conjI impI; elim conjE)
  assume "create_workspace st rp now new_id vd rt state = Inr (w, state')" "rt \<in> set (wst_tenants state)"
    "cache_coherent (wst_tenants state) (wst_table state) (wst_cache state)"
  then show "ws_inv st (wst_table state')" using assms by (rule_tac create_preserves_inv(1))
next
  assume "update_workspace st rp now inst vd state = Inr (w, state')" "inst \<in> set (wst_table state)"
  then show "ws_inv st (wst_table state')"
    using update_workspace_success(1) assms skeleton_inv(2) by metis
next
  assume "move_workspace st rp inst target state = Some (Inr (w, state'))" "inst \<in> set (wst_table state)"
  then show "ws_inv st (wst_table state')" using move_workspace_success assms by metis
qed

text \<open>A tenant with its root and default workspace, for the witnesses.\<close>

definition sample_tenant :: tenant where
  "sample_tenant = \<lparr>tn_pk = 1, tn_ready = True, tn_tenant_name = ''t'', tn_account_id = None,
     tn_org_id = Some ''o1'', tn_relations_consistency_token = None, tn_org_config = PyDict []\<rparr>"

definition sample_root :: workspace where
  "sample_root = \<lparr>ws_id = ''r'', ws_name = ''Root Workspace'', ws_parent_id = None, ws_description = None,
     ws_type = WS_ROOT, ws_tenant = 1, ws_created = ''0'', ws_modified = ''0''\<rparr>"

definition sample_default :: workspace where
  "sample_default = \<lparr>ws_id = ''d'', ws_name = ''Default Workspace'', ws_parent_id = Some ''r'',
     ws_description = None, ws_type = WS_DEFAULT, ws_tenant = 1, ws_created = ''0'', ws_modified = ''0''\<rparr>"

definition sample_settings :: ws_settings where
  "sample_settings = \<lparr>st_replication_enabled = True, st_env_name = ''stage'', st_depth_limit = 5,
     st_restrict_default_peers = True, st_creation_limit = 3000, st_cache_enabled = True\<rparr>"

definition sample_input :: ws_input where
  "sample_input = \<lparr>in_name = Some ''team'', in_description = None, in_parent_id = None\<rparr>"

definition sample_state :: "'s \<Rightarrow> 's ws_state" where
  "sample_state s = \<lparr>wst_tenants = [sample_tenant], wst_table = [sample_root, sample_default],
     wst_cache = [], wst_repl = s\<rparr>"

lemma sample_links: "ws_links [sample_root, sample_default] = {(''d'', ''r'')}"
  by (auto simp: set_eq_iff links_iff sample_root_def sample_default_def)

lemma sample_inv: "ws_inv sample_settings (wst_table (sample_state s))"
proof -
  have t: "{(''d'', ''r'')}\<^sup>+ = {(''d'', ''r'')}" by (auto elim: tranclE)
  have "wf_tree [sample_root, sample_default]"
    unfolding wf_tree_def sample_links acyclic_def t by (simp add: sample_root_def sample_default_def)
  moreover have "ws_above [sample_root, sample_default] i = (if i = ''d'' then {''r''} else {})" for i
    unfolding ws_above_def sample_links t by auto
  ultimately show ?thesis
    by (simp add: ws_inv_def ws_depth_def sample_settings_def sample_root_def sample_default_def sample_state_def)
qed

lemmas sample_defs = sample_tenant_def sample_root_def sample_default_def sample_settings_def
  sample_input_def sample_state_def

lemma sample_insert:
  "insert_workspace [sample_root, sample_default] (new_workspace now ''n'' sample_input sample_tenant) =
     Inr ([sample_root, sample_default, (new_workspace now ''n'' sample_input sample_tenant)\<lparr>ws_parent_id := Some ''d''\<rparr>],
          (new_workspace now ''n'' sample_input sample_tenant)\<lparr>ws_parent_id := Some ''d''\<rparr>)"
  by (simp add: insert_workspace_def full_clean_def workspace_clean_def field_messages_def constraint_messages_def
      built_in_conflict_def name_conflict_def special_description_def workspace_by_type_def get_one_def
      new_workspace_def sample_defs str_upper_def to_upper_def Let_def)

lemma sample_guards:
  "manager_default True [sample_root, sample_default] [] (Some sample_tenant) None =
     Inr (sample_default, [((''o1'', WS_DEFAULT), sample_default)])"
  "enforce_hierarchy_depth sample_settings [sample_root, sample_default]
     [((''o1'', WS_DEFAULT), sample_default)] ''d'' sample_tenant =
     Inr [((''o1'', WS_DEFAULT), sample_default), ((''o1'', WS_ROOT), sample_root)]"
  "\<not> check_total_workspace_count_exceeded sample_settings [sample_root, sample_default] sample_tenant"
  by (simp_all add: manager_default_def manager_root_def get_cached_built_in_workspace_def resolve_org_id_def
      get_cached_workspace_def get_tenant_id_def workspace_by_type_def workspace_by_id_tenant_def get_one_def
      cache_workspace_def enforce_hierarchy_depth_def exceeds_depth_limit_def violates_peer_restrictions_def
      ancestors_def ancestor_loop.simps parent_of_def find_workspace_def
      check_total_workspace_count_exceeded_def workspace_creation_limit_def sample_defs)

lemma sample_create:
  assumes "replicate_new_workspace sample_settings rp sample_tenant
     ((new_workspace now ''n'' sample_input sample_tenant)\<lparr>ws_parent_id := Some ''d''\<rparr>) EV_CREATE_WORKSPACE s = Inr s'"
  shows "is_ok (create_workspace sample_settings rp now ''n'' sample_input sample_tenant (sample_state s))"
proof -
  have p: "workspace_by_id [sample_root, sample_default] ''d'' = Inr sample_default"
    "tenant_by_pk [sample_tenant] (ws_tenant sample_default) = Inr sample_tenant"
    "in_parent_id sample_input = None" "st_cache_enabled sample_settings" "ws_id sample_default = ''d''"
    by (simp_all add: workspace_by_id_def tenant_by_pk_def get_one_def sample_defs)
  show ?thesis
    using assms
    by (simp add: create_workspace_def sample_state_def Let_def sample_guards sample_insert p handle_save_def)
qed

lemma sample_relationship:
  "workspace_relationship ((new_workspace now ''n'' sample_input sample_tenant)\<lparr>ws_parent_id := Some ''d''\<rparr>) (Some ''d'') =
     Inr (parent_tuple ''n'' ''d'')"
  unfolding workspace_relationship_Inr
  by (simp add: parent_tuple_def plain_tuple_def valid_defs type_regex_def id_regex_def type_char_def
        id_char_def is_alnum_def new_workspace_def)

lemma sample_replicates:
  "\<exists>s'. replicate_new_workspace sample_settings in_memory_replicator sample_tenant
     ((new_workspace now ''n'' sample_input sample_tenant)\<lparr>ws_parent_id := Some ''d''\<rparr>) EV_CREATE_WORKSPACE s = Inr s'"
  "\<exists>l'. replicate_new_workspace sample_settings (outbox_replicator outbox_wal_log time) sample_tenant
     ((new_workspace now ''n'' sample_input sample_tenant)\<lparr>ws_parent_id := Some ''d''\<rparr>) EV_CREATE_WORKSPACE l = Inr l'"
proof -
  have en: "st_replication_enabled sample_settings" by (simp add: sample_settings_def)
  show "\<exists>s'. replicate_new_workspace sample_settings in_memory_replicator sample_tenant
     ((new_workspace now ''n'' sample_input sample_tenant)\<lparr>ws_parent_id := Some ''d''\<rparr>) EV_CREATE_WORKSPACE s = Inr s'"
    by (simp add: replicate_new_workspace_def handler_replicate_def en sample_relationship in_memory_replicator_def
        in_memory_replicate_def tuples_write_cases make_workspace_event_def base_replicate_workspace_def)
  show "\<exists>l'. replicate_new_workspace sample_settings (outbox_replicator outbox_wal_log time) sample_tenant
     ((new_workspace now ''n'' sample_input sample_tenant)\<lparr>ws_parent_id := Some ''d''\<rparr>) EV_CREATE_WORKSPACE l = Inr l'"
    by (simp add: replicate_new_workspace_def handler_replicate_def en sample_relationship outbox_replicator_def
        outbox_replicate_def build_replication_event_def check_for_duplicate_relationships_def
        make_workspace_event_def outbox_replicate_workspace_def OPERATION_MAPPING_def)
qed

lemma sample_coherent: "cache_coherent tenants tbl (wst_cache (sample_state s))"
  by (simp add: cache_coherent_def sample_state_def)

theorem workspace_hierarchy_preserved_witness:
  "\<exists>w state'. create_workspace sample_settings in_memory_replicator ''1'' ''n'' sample_input sample_tenant
       (sample_state []) = Inr (w, state') \<and> ws_inv sample_settings (wst_table state')"
proof -
  have "is_ok (create_workspace sample_settings in_memory_replicator ''1'' ''n'' sample_input sample_tenant
       (sample_state []))"
    using sample_replicates sample_create by metis
  then obtain w state' where c: "create_workspace sample_settings in_memory_replicator ''1'' ''n'' sample_input
       sample_tenant (sample_state []) = Inr (w, state')" by (auto simp: is_ok_iff)
  have t: "sample_tenant \<in> set (wst_tenants (sample_state []))" by (simp add: sample_state_def)
  have "ws_inv sample_settings (wst_table state')"
    by (rule mp [OF conjunct1 [OF workspace_hierarchy_preserved [OF sample_inv]]])
      (rule conjI [OF c conjI [OF t sample_coherent]])
  with c show ?thesis by (intro exI conjI)
qed

text \<open>
  C2 (refinement): when replication is on, every successful operation keeps the parent tuples that
  the outbox rows amount to equal to the parent links of the table.
\<close>

theorem workspace_dual_write_in_sync:
  fixes state :: "outbox_wal ws_state" and time :: int
  defines "rp \<equiv> outbox_replicator outbox_wal_log time"
  assumes "ws_inv st (wst_table state)" and "st_replication_enabled st"
    and "hierarchy_in_sync (wst_table state) (log_tuples (wal_rows (wst_repl state)))"
    and "(create_workspace st rp now new_id vd rt state = Inr (w, state') \<and> rt \<in> set (wst_tenants state) \<and>
        cache_coherent (wst_tenants state) (wst_table state) (wst_cache state)) \<or>
      inst \<in> set (wst_table state) \<and>
        (update_workspace st rp now inst vd state = Inr (w, state') \<or>
         move_workspace st rp inst target state = Some (Inr (w, state')))"
  shows "hierarchy_in_sync (wst_table state') (log_tuples (wal_rows (wst_repl state')))"
  using assms(5) unfolding rp_def
proof (elim disjE conjE)
  assume "create_workspace st (outbox_replicator outbox_wal_log time) now new_id vd rt state = Inr (w, state')"
    "rt \<in> set (wst_tenants state)" "cache_coherent (wst_tenants state) (wst_table state) (wst_cache state)"
  then show ?thesis using outbox_wal_ws.create_in_sync assms(2-4) by metis
next
  assume "inst \<in> set (wst_table state)"
    "update_workspace st (outbox_replicator outbox_wal_log time) now inst vd state = Inr (w, state')"
  then show ?thesis using outbox_wal_ws.update_in_sync assms(2-4) by metis
next
  assume "inst \<in> set (wst_table state)"
    "move_workspace st (outbox_replicator outbox_wal_log time) inst target state = Some (Inr (w, state'))"
  then show ?thesis using outbox_wal_ws.move_in_sync assms(2-4) by metis
qed

definition sample_wal :: outbox_wal where
  "sample_wal = \<lparr>wal_table = [], wal_entries = [WalInsert
     \<lparr>ob_aggregatetype = aggregate_type_value RELATIONS, ob_aggregateid = ''stage'', ob_event_type = ''bootstrap_tenant'',
      ob_payload = [(''relations_to_add'', PyList [to_dict (parent_tuple ''d'' ''r'')]),
                    (''relations_to_remove'', PyList [])]\<rparr>]\<rparr>"

lemma sample_sync: "hierarchy_in_sync (wst_table (sample_state sample_wal)) (log_tuples (wal_rows sample_wal))"
proof -
  have "valid_relation_tuple (parent_tuple ''d'' ''r'')"
    by (simp add: parent_tuple_def plain_tuple_def valid_defs type_regex_def id_regex_def type_char_def
        id_char_def is_alnum_def)
  then have "log_tuples (wal_rows sample_wal) = {parent_tuple ''d'' ''r''}"
    by (simp add: log_tuples_def wal_rows_def sample_wal_def apply_row_def payload_tuples_def info_get_def dict_round_trip)
  then show ?thesis by (auto simp: hierarchy_in_sync_def sample_state_def sample_links)
qed

theorem workspace_dual_write_in_sync_witness:
  "\<exists>w state'. create_workspace sample_settings (outbox_replicator outbox_wal_log 0) ''1'' ''n'' sample_input
       sample_tenant (sample_state sample_wal) = Inr (w, state') \<and>
     hierarchy_in_sync (wst_table state') (log_tuples (wal_rows (wst_repl state')))"
proof -
  let ?rp = "outbox_replicator outbox_wal_log 0" and ?s = "sample_state sample_wal"
  have "is_ok (create_workspace sample_settings ?rp ''1'' ''n'' sample_input sample_tenant ?s)"
    using sample_replicates sample_create by metis
  then obtain w state' where c: "create_workspace sample_settings ?rp ''1'' ''n'' sample_input
       sample_tenant ?s = Inr (w, state')" by (auto simp: is_ok_iff)
  have en: "st_replication_enabled sample_settings" by (simp add: sample_settings_def)
  have sync: "hierarchy_in_sync (wst_table ?s) (log_tuples (wal_rows (wst_repl ?s)))"
    using sample_sync by (simp add: sample_state_def)
  have t: "sample_tenant \<in> set (wst_tenants ?s)" by (simp add: sample_state_def)
  have "hierarchy_in_sync (wst_table state') (log_tuples (wal_rows (wst_repl state')))"
    by (rule workspace_dual_write_in_sync [OF sample_inv en sync])
      (rule disjI1 [OF conjI [OF c conjI [OF t sample_coherent]]])
  with c show ?thesis by (intro exI conjI)
qed

text \<open>
  C21 (termination): moving a workspace always returns; it is refused for a workspace that is not a
  standard one, and it never puts a workspace under itself or under one of its descendants.
\<close>

theorem move_workspace_safe:
  assumes "ws_inv st (wst_table state)" and "inst \<in> set (wst_table state)"
  shows "\<exists>r. move_workspace st rp inst target state = Some r \<and>
    (ws_type inst \<noteq> WS_STANDARD \<longrightarrow> r = Inl InvalidWorkspaceTypeError) \<and>
    (ws_type inst = WS_STANDARD \<and> (target, ws_id inst) \<in> (ws_links (wst_table state))\<^sup>+ \<longrightarrow>
       r = Inl SerializerValidationError) \<and>
    (target = ws_id inst \<longrightarrow> \<not> is_ok r)"
proof -
  let ?tbl = "wst_table state"
  have wf: "wf_tree ?tbl" using assms by (simp add: ws_inv_def)
  obtain r where r: "move_workspace st rp inst target state = Some r" using move_workspace_returns [OF wf] by blast
  have "r = Inl InvalidWorkspaceTypeError" if "ws_type inst \<noteq> WS_STANDARD"
    using r that by (simp add: move_workspace_def prevent_moving_non_standard_workspace_def Let_def)
  moreover have "r = Inl SerializerValidationError"
    if "ws_type inst = WS_STANDARD" "(target, ws_id inst) \<in> (ws_links ?tbl)\<^sup>+"
  proof -
    from that(2) have "target \<in> ws_id ` set (descendants ?tbl (ws_id inst))"
      using descendants_ids [OF wf, of "ws_id inst"] by (simp add: ws_above_def)
    then have "list_ex (\<lambda>w. ws_id w = target) (descendants ?tbl (ws_id inst))" by (auto simp: list_ex_iff)
    with r that(1) show ?thesis
      by (simp add: move_workspace_def prevent_moving_non_standard_workspace_def
          prevent_moving_workspace_under_own_descendant_def Let_def)
  qed
  moreover have "\<not> is_ok r" if "target = ws_id inst"
  proof
    assume "is_ok r"
    then obtain w state' where "r = Inr (w, state')" by (auto simp: is_ok_iff)
    with r have m: "move_workspace st rp inst target state = Some (Inr (w, state'))" by simp
    obtain "ws_inv st (wst_table state')" "wst_table state' = reparent ?tbl (ws_id inst) target"
      by (rule move_workspace_success [OF m assms])
    then have "(target, target) \<in> ws_links (wst_table state')" "wf_tree (wst_table state')"
      using that assms(2) by (auto simp: reparent_links ws_inv_def)
    then show False by (auto simp: wf_tree_def acyclic_def)
  qed
  ultimately show ?thesis using r by blast
qed

theorem move_workspace_safe_witness:
  "\<exists>r. move_workspace sample_settings in_memory_replicator sample_default ''d'' (sample_state []) = Some r \<and>
     r = Inl InvalidWorkspaceTypeError"
proof -
  have "sample_default \<in> set (wst_table (sample_state []))" by (simp add: sample_state_def)
  from move_workspace_safe [OF sample_inv this, of in_memory_replicator "''d''"] show ?thesis
    by (auto simp: sample_default_def)
qed

end
