(* ===== verification/Kafka_Retry.thy ===== *)
theory Kafka_Retry
  imports Rbac_Prelude Complex_Main
begin

text \<open>
  The retry policy and the offset book-keeping of \<open>core/kafka_consumer.py\<close>: \<open>RetryConfig\<close>,
  \<open>RetryHelper\<close>, \<open>CommitConfig\<close> and \<open>OffsetManager\<close>.

  Delays are rational numbers (the code's floats without rounding); \<open>rnd n\<close> is the random number
  drawn for attempt \<open>n\<close> and \<open>shutdown n d\<close> says whether the shutdown event is set during the wait
  of \<open>d\<close> seconds after attempt \<open>n\<close>. The retried function works on a state that a failed attempt
  may have changed. Retrying without a limit may go on for ever, so the loop is a partial function.

  \<open>OffsetManager.commit\<close> runs in the consumer's thread or in the thread of a rebalance callback and
  holds its mutex only while it copies and while it settles; it is split at these points, and
  \<open>offset_step\<close> interleaves the parts of concurrent commits with the stores of the message loop.
\<close>

section \<open>Retrying\<close>

record retry_config =
  operation_max_retries :: int
  backoff_factor :: int
  max_backoff_seconds :: int
  base_delay :: rat
  jitter_factor :: rat

definition default_retry_config :: retry_config where
  "default_retry_config =
     \<lparr>operation_max_retries = 10, backoff_factor = 5, max_backoff_seconds = 30,
      base_delay = 3 / 10, jitter_factor = 1 / 10\<rparr>"

definition calculate_delay :: "retry_config \<Rightarrow> rat \<Rightarrow> nat \<Rightarrow> rat" where
  "calculate_delay cfg rnd attempt =
     (let delay = of_int (backoff_factor cfg) * of_nat (attempt + 1) * base_delay cfg;
          delay = min delay (of_int (max_backoff_seconds cfg));
          jitter = delay * jitter_factor cfg * rnd
      in delay + jitter)"

definition exceeded_max_retries :: "retry_config \<Rightarrow> nat \<Rightarrow> bool" where
  "exceeded_max_retries cfg attempt \<longleftrightarrow> 0 \<le> operation_max_retries cfg \<and> operation_max_retries cfg \<le> int attempt"

definition classify_error :: "py_error \<Rightarrow> string" where
  "classify_error e =
     (if e \<in> {JSONDecodeError, UnicodeDecodeError} then ''json_error''
      else if e \<in> {ConnectionError, TimeoutError, OSError, InterruptedError} then ''network_error''
      else if e = ValueError then ''validation_error''
      else ''error'')"

text \<open>\<open>error_handler\<close> says which errors end the retries at once.\<close>

definition should_retry :: "(py_error \<Rightarrow> bool) option \<Rightarrow> py_error \<Rightarrow> bool" where
  "should_retry error_handler e = (case error_handler of None \<Rightarrow> True | Some h \<Rightarrow> \<not> h e)"

record retry_event =
  re_reason :: string
  re_attempt_number :: nat
  re_delay :: rat

partial_function (option) retry_run ::
  "retry_config \<Rightarrow> (py_error \<Rightarrow> bool) option \<Rightarrow> (nat \<Rightarrow> rat) \<Rightarrow> (nat \<Rightarrow> rat \<Rightarrow> bool) \<Rightarrow> ('s \<Rightarrow> 's \<times> 'a result)
   \<Rightarrow> nat \<Rightarrow> retry_event list \<Rightarrow> 's \<Rightarrow> ('s \<times> 'a result \<times> retry_event list) option" where
  "retry_run cfg error_handler rnd shutdown fn attempt waits s =
     (let (s', result) = fn s in
      if \<not> isl result then Some (s', result, waits)
      else let e = projl result in
        if \<not> should_retry error_handler e then Some (s', Inl e, waits)
        else if exceeded_max_retries cfg attempt then Some (s', Inl RuntimeError, waits)
        else let delay = calculate_delay cfg (rnd attempt) attempt;
                 waits' = waits @ [\<lparr>re_reason = classify_error e,
                                    re_attempt_number = min (attempt + 1) 10, re_delay = delay\<rparr>]
          in if shutdown attempt delay then Some (s', Inl InterruptedError, waits')
             else retry_run cfg error_handler rnd shutdown fn (attempt + 1) waits' s')"

section \<open>Offsets\<close>

record commit_config =
  commit_modulo :: int
  commit_on_rebalance :: bool
  commit_on_shutdown :: bool

definition default_commit_config :: commit_config where
  "default_commit_config = \<lparr>commit_modulo = 10, commit_on_rebalance = True, commit_on_shutdown = True\<rparr>"

type_synonym topic_partition = "string \<times> int"
type_synonym stored_offsets = "(topic_partition \<times> (int \<times> int option)) list"

record offset_and_metadata =
  om_offset :: int
  om_leader_epoch :: "int option"

text \<open>The calls of the Kafka client library on the state \<open>'b\<close> of the broker.\<close>

record 'b kafka_client =
  kc_assignment :: "'b \<Rightarrow> topic_partition list"
  kc_commit :: "'b \<Rightarrow> (topic_partition \<times> offset_and_metadata) list \<Rightarrow> 'b \<times> unit result"
  kc_committed :: "'b \<Rightarrow> topic_partition \<Rightarrow> 'b \<times> int option result"

definition offset_store :: "topic_partition \<Rightarrow> int \<Rightarrow> int option \<Rightarrow> stored_offsets \<Rightarrow> stored_offsets" where
  "offset_store tp off leader_epoch stored = AList.update tp (off, leader_epoch) stored"

definition should_commit :: "commit_config \<Rightarrow> int \<Rightarrow> bool" where
  "should_commit cfg off = (if commit_modulo cfg \<le> 0 then False else (off + 1) mod commit_modulo cfg = 0)"

definition offset_dict :: "stored_offsets \<Rightarrow> (topic_partition \<times> offset_and_metadata) list" where
  "offset_dict offsets =
     map (\<lambda>(tp, off, leader_epoch). (tp, \<lparr>om_offset = off + 1, om_leader_epoch = leader_epoch\<rparr>)) offsets"

text \<open>
  The part of \<open>commit\<close> that talks to the broker: the error of the call, the number of offsets
  committed, or nothing when no partition of the copy is assigned any more.
\<close>

definition commit_send :: "'b kafka_client \<Rightarrow> 'b \<Rightarrow> stored_offsets \<Rightarrow> 'b \<times> nat option result" where
  "commit_send client b offsets_to_commit =
     (let all_offsets = offset_dict offsets_to_commit;
          assigned = kc_assignment client b;
          kept = (if list_all (\<lambda>(tp, _). tp \<in> set assigned) all_offsets then all_offsets
                  else filter (\<lambda>(tp, _). tp \<in> set assigned) all_offsets)
      in if kept = [] then (b, Inr None)
         else bind_s (kc_commit client b kept) (\<lambda>b' _. (b', Inr (Some (length kept)))))"

definition restore_offsets :: "stored_offsets \<Rightarrow> stored_offsets \<Rightarrow> stored_offsets" where
  "restore_offsets offsets_to_commit stored =
     foldl (\<lambda>acc (tp, off, leader_epoch).
              case map_of acc tp of
                None \<Rightarrow> AList.update tp (off, leader_epoch) acc
              | Some (current, _) \<Rightarrow> if current \<le> off then AList.update tp (off, leader_epoch) acc else acc)
       stored offsets_to_commit"

definition commit_settle :: "stored_offsets \<Rightarrow> nat option result \<Rightarrow> stored_offsets \<Rightarrow> stored_offsets \<times> bool \<times> nat" where
  "commit_settle offsets_to_commit outcome stored =
     (case outcome of
        Inl _ \<Rightarrow> (restore_offsets offsets_to_commit stored, False, 0)
      | Inr None \<Rightarrow> (stored, False, 0)
      | Inr (Some n) \<Rightarrow> ([], True, n))"

definition offset_commit :: "'b kafka_client \<Rightarrow> 'b \<Rightarrow> stored_offsets \<Rightarrow> 'b \<times> stored_offsets \<times> bool \<times> nat" where
  "offset_commit client b stored =
     (if stored = [] then (b, stored, True, 0)
      else let (b', outcome) = commit_send client b stored
           in (b', commit_settle stored outcome stored))"

definition offset_clear :: "stored_offsets \<Rightarrow> stored_offsets" where
  "offset_clear stored = []"

text \<open>
  Concurrent commits: \<open>ow_copies\<close> are the copies taken but not sent, \<open>ow_sent\<close> those sent whose
  outcome is not settled; \<open>ow_processed\<close> records which messages have been processed.
\<close>

record 'b offset_world =
  ow_broker :: 'b
  ow_stored :: stored_offsets
  ow_copies :: "stored_offsets list"
  ow_sent :: "(stored_offsets \<times> nat option result) list"
  ow_processed :: "(topic_partition \<times> int) list"

inductive offset_step :: "'b kafka_client \<Rightarrow> 'b offset_world \<Rightarrow> 'b offset_world \<Rightarrow> bool" for client where
  processed_and_stored:
    "offset_step client w (w\<lparr>ow_processed := (tp, off) # ow_processed w,
       ow_stored := offset_store tp off leader_epoch (ow_stored w)\<rparr>)"
| copied: "ow_stored w \<noteq> [] \<Longrightarrow> offset_step client w (w\<lparr>ow_copies := ow_stored w # ow_copies w\<rparr>)"
| sent: "c \<in> set (ow_copies w) \<Longrightarrow> commit_send client (ow_broker w) c = (b', outcome) \<Longrightarrow>
     offset_step client w (w\<lparr>ow_broker := b', ow_copies := remove1 c (ow_copies w),
       ow_sent := (c, outcome) # ow_sent w\<rparr>)"
| settled: "(c, outcome) \<in> set (ow_sent w) \<Longrightarrow>
     offset_step client w (w\<lparr>ow_sent := remove1 (c, outcome) (ow_sent w),
       ow_stored := fst (commit_settle c outcome (ow_stored w))\<rparr>)"
| cleared: "offset_step client w (w\<lparr>ow_stored := offset_clear (ow_stored w)\<rparr>)"

inductive_cases offset_stepE: "offset_step client w w'"

section \<open>The retry loop by attempts\<close>

text \<open>The state before attempt \<open>n\<close>, its result, and what the loop makes of it (\<open>None\<close>: try again).\<close>

definition attempt_state :: "('s \<Rightarrow> 's \<times> 'a result) \<Rightarrow> 's \<Rightarrow> nat \<Rightarrow> 's" where
  "attempt_state fn s n = ((\<lambda>s. fst (fn s)) ^^ n) s"

definition attempt_result :: "('s \<Rightarrow> 's \<times> 'a result) \<Rightarrow> 's \<Rightarrow> nat \<Rightarrow> 'a result" where
  "attempt_result fn s n = snd (fn (attempt_state fn s n))"

definition verdict ::
  "retry_config \<Rightarrow> (py_error \<Rightarrow> bool) option \<Rightarrow> (nat \<Rightarrow> rat) \<Rightarrow> (nat \<Rightarrow> rat \<Rightarrow> bool) \<Rightarrow> nat \<Rightarrow> 'a result \<Rightarrow> 'a result option" where
  "verdict cfg h rnd shutdown n r =
     (case r of
        Inr x \<Rightarrow> Some (Inr x)
      | Inl e \<Rightarrow> if \<not> should_retry h e then Some (Inl e)
                 else if exceeded_max_retries cfg n then Some (Inl RuntimeError)
                 else if shutdown n (calculate_delay cfg (rnd n) n) then Some (Inl InterruptedError)
                 else None)"

definition wait_event :: "retry_config \<Rightarrow> (nat \<Rightarrow> rat) \<Rightarrow> ('s \<Rightarrow> 's \<times> 'a result) \<Rightarrow> 's \<Rightarrow> nat \<Rightarrow> nat \<Rightarrow> retry_event" where
  "wait_event cfg rnd fn s a i =
     \<lparr>re_reason = classify_error (projl (attempt_result fn s i)), re_attempt_number = min (a + i + 1) 10,
      re_delay = calculate_delay cfg (rnd (a + i)) (a + i)\<rparr>"

lemma attempt_state_simps [simp]:
  "attempt_state fn s 0 = s"
  "attempt_state fn (fst (fn s)) n = attempt_state fn s (Suc n)"
  by (simp_all add: attempt_state_def funpow_Suc_right del: funpow.simps(2)) 

lemma attempt_result_simps [simp]:
  "attempt_result fn s 0 = snd (fn s)"
  "attempt_result fn (fst (fn s)) n = attempt_result fn s (Suc n)"
  by (simp_all add: attempt_result_def)

lemma wait_event_shift [simp]:
  "wait_event cfg rnd fn (fst (fn s)) (Suc a) i = wait_event cfg rnd fn s a (Suc i)"
  by (simp add: wait_event_def)

lemma retry_run_unfold:
  "retry_run cfg h rnd shutdown fn a w s =
     (case verdict cfg h rnd shutdown a (snd (fn s)) of
        Some r \<Rightarrow> Some (fst (fn s), r,
                  if isl (snd (fn s)) \<and> should_retry h (projl (snd (fn s))) \<and> \<not> exceeded_max_retries cfg a
                  then w @ [wait_event cfg rnd fn s a 0] else w)
      | None \<Rightarrow> retry_run cfg h rnd shutdown fn (Suc a) (w @ [wait_event cfg rnd fn s a 0]) (fst (fn s)))"
  by (subst retry_run.simps)
    (auto simp: verdict_def Let_def wait_event_def split: prod.splits sum.splits)

lemma retry_run_returns:
  assumes "\<And>i. i < n \<Longrightarrow> verdict cfg h rnd shutdown (a + i) (attempt_result fn s i) = None"
    and "verdict cfg h rnd shutdown (a + n) (attempt_result fn s n) = Some r"
  shows "\<exists>m \<le> Suc n. (exceeded_max_retries cfg (a + n) \<longrightarrow> m = n) \<and>
    retry_run cfg h rnd shutdown fn a w s =
      Some (attempt_state fn s (Suc n), r, w @ map (wait_event cfg rnd fn s a) [0..<m])"
  using assms
proof (induction n arbitrary: a w s)
  case 0
  let ?m = "if isl (snd (fn s)) \<and> should_retry h (projl (snd (fn s))) \<and> \<not> exceeded_max_retries cfg a then 1 else 0 :: nat"
  show ?case
    using 0 by (intro exI [of _ ?m]) (simp add: retry_run_unfold [of cfg h rnd shutdown fn a w s]
        attempt_state_simps(2) [symmetric] del: attempt_state_simps(2))
next
  case (Suc n)
  from Suc.prems(1) [of 0] have none: "verdict cfg h rnd shutdown a (snd (fn s)) = None" by simp
  have pre: "verdict cfg h rnd shutdown (Suc a + i) (attempt_result fn (fst (fn s)) i) = None" if "i < n" for i
    using Suc.prems(1) [of "Suc i"] that by simp
  have fin: "verdict cfg h rnd shutdown (Suc a + n) (attempt_result fn (fst (fn s)) n) = Some r"
    using Suc.prems(2) by simp
  from Suc.IH [OF pre fin, of "w @ [wait_event cfg rnd fn s a 0]"] obtain m where m: "m \<le> Suc n"
    "exceeded_max_retries cfg (Suc a + n) \<longrightarrow> m = n"
    "retry_run cfg h rnd shutdown fn (Suc a) (w @ [wait_event cfg rnd fn s a 0]) (fst (fn s)) =
       Some (attempt_state fn (fst (fn s)) (Suc n), r, (w @ [wait_event cfg rnd fn s a 0]) @
         map (wait_event cfg rnd fn (fst (fn s)) (Suc a)) [0..<m])"
    by blast
  have "map (wait_event cfg rnd fn s a) [0..<Suc m] =
      wait_event cfg rnd fn s a 0 # map (wait_event cfg rnd fn (fst (fn s)) (Suc a)) [0..<m]"
    by (simp add: upt_rec [of 0] map_Suc_upt [symmetric] del: upt_Suc)
  with m none show ?case
    by (intro exI [of _ "Suc m"]) (simp add: retry_run_unfold [of cfg h rnd shutdown fn a w s])
qed

lemma retry_run_decided:
  assumes "retry_run cfg h rnd shutdown fn a w s = Some res"
  shows "\<exists>n. verdict cfg h rnd shutdown (a + n) (attempt_result fn s n) \<noteq> None"
proof (rule retry_run.raw_induct [of "\<lambda>cfg h rnd shutdown fn a w s res.
    \<exists>n. verdict cfg h rnd shutdown (a + n) (attempt_result fn s n) \<noteq> None", OF _ assms])
  fix run :: "retry_config \<Rightarrow> (py_error \<Rightarrow> bool) option \<Rightarrow> (nat \<Rightarrow> rat) \<Rightarrow> (nat \<Rightarrow> rat \<Rightarrow> bool)
      \<Rightarrow> ('a \<Rightarrow> 'a \<times> 'b result) \<Rightarrow> nat \<Rightarrow> retry_event list \<Rightarrow> 'a \<Rightarrow> ('a \<times> 'b result \<times> retry_event list) option"
    and cfg h rnd shutdown and fn :: "'a \<Rightarrow> 'a \<times> 'b result" and a w s res
  assume IH: "\<And>cfg h rnd shutdown fn a w s res. run cfg h rnd shutdown fn a w s = Some res \<Longrightarrow>
      \<exists>n. verdict cfg h rnd shutdown (a + n) (attempt_result fn s n) \<noteq> None"
    and eq: "(let (s', result) = fn s in
      if \<not> isl result then Some (s', result, w)
      else let e = projl result in
        if \<not> should_retry h e then Some (s', Inl e, w)
        else if exceeded_max_retries cfg a then Some (s', Inl RuntimeError, w)
        else let delay = calculate_delay cfg (rnd a) a;
                 waits' = w @ [\<lparr>re_reason = classify_error e,
                                re_attempt_number = min (a + 1) 10, re_delay = delay\<rparr>]
          in if shutdown a delay then Some (s', Inl InterruptedError, waits')
             else run cfg h rnd shutdown fn (a + 1) waits' s') = Some res"
  show "\<exists>n. verdict cfg h rnd shutdown (a + n) (attempt_result fn s n) \<noteq> None"
  proof (cases "verdict cfg h rnd shutdown a (snd (fn s)) = None")
    case True
    with eq have "\<exists>w'. run cfg h rnd shutdown fn (a + 1) w' (fst (fn s)) = Some res"
      by (auto simp: verdict_def Let_def split: prod.splits sum.splits if_splits)
    then obtain n where "verdict cfg h rnd shutdown (a + 1 + n) (attempt_result fn (fst (fn s)) n) \<noteq> None"
      using IH by blast
    then show ?thesis by (intro exI [of _ "Suc n"]) simp
  next
    case False
    then show ?thesis by (intro exI [of _ 0]) simp
  qed
qed

lemma verdict_limit: "0 \<le> operation_max_retries cfg \<Longrightarrow> verdict cfg h rnd shutdown (nat (operation_max_retries cfg)) r \<noteq> None"
  by (auto simp: verdict_def exceeded_max_retries_def split: sum.splits)

lemma verdict_NoneD: "verdict cfg h rnd shutdown n r = None \<Longrightarrow>
    \<exists>e. r = Inl e \<and> should_retry h e \<and> \<not> exceeded_max_retries cfg n \<and> \<not> shutdown n (calculate_delay cfg (rnd n) n)"
  by (auto simp: verdict_def split: sum.splits if_splits)

lemma first_verdict:
  assumes "verdict cfg h rnd shutdown n (attempt_result fn s n) \<noteq> None"
  obtains k r where "k \<le> n" "verdict cfg h rnd shutdown k (attempt_result fn s k) = Some r"
    "\<And>i. i < k \<Longrightarrow> verdict cfg h rnd shutdown i (attempt_result fn s i) = None"
proof -
  let ?P = "\<lambda>k. verdict cfg h rnd shutdown k (attempt_result fn s k) \<noteq> None"
  have "?P (LEAST k. ?P k)" "(LEAST k. ?P k) \<le> n" "\<And>i. i < (LEAST k. ?P k) \<Longrightarrow> \<not> ?P i"
    using assms by (auto intro: LeastI Least_le dest: not_less_Least)
  then show ?thesis using that by blast
qed

lemma calculate_delay_bounds:
  assumes "0 \<le> backoff_factor cfg" "0 \<le> base_delay cfg" "0 \<le> max_backoff_seconds cfg"
    "0 \<le> jitter_factor cfg" "0 \<le> r" "r \<le> 1"
  shows "0 \<le> calculate_delay cfg r n"
    and "calculate_delay cfg r n \<le> of_int (max_backoff_seconds cfg) * (1 + jitter_factor cfg)"
proof -
  define d where "d = min (of_int (backoff_factor cfg) * of_nat (n + 1) * base_delay cfg) (of_int (max_backoff_seconds cfg))"
  have d: "0 \<le> d" "d \<le> of_int (max_backoff_seconds cfg)" using assms(1-3) by (simp_all add: d_def)
  have eq: "calculate_delay cfg r n = d + d * (jitter_factor cfg * r)"
    by (simp add: calculate_delay_def d_def Let_def mult.assoc)
  have j: "0 \<le> jitter_factor cfg * r" "jitter_factor cfg * r \<le> jitter_factor cfg"
    using assms(4-6) mult_left_mono [of r 1 "jitter_factor cfg"] by simp_all
  show "0 \<le> calculate_delay cfg r n" using d j by (simp add: eq)
  have "d * (1 + jitter_factor cfg * r) \<le> of_int (max_backoff_seconds cfg) * (1 + jitter_factor cfg)"
    using d j assms(3) by (intro mult_mono) simp_all
  then show "calculate_delay cfg r n \<le> of_int (max_backoff_seconds cfg) * (1 + jitter_factor cfg)"
    by (simp add: eq distrib_left)
qed

lemma attempt_state_Suc: "attempt_state fn s (Suc n) = fst (fn (attempt_state fn s n))"
  by (simp add: attempt_state_def)

lemma attempt_state_invariant:
  "(\<And>s. P s \<Longrightarrow> P (fst (fn s))) \<Longrightarrow> P s \<Longrightarrow> P (attempt_state fn s n)"
  by (induction n) (simp_all add: attempt_state_Suc del: attempt_state_simps(2))

lemma verdict_success: "verdict cfg h rnd shutdown n r = Some (Inr x) \<longleftrightarrow> r = Inr x"
  by (auto simp: verdict_def split: sum.splits if_splits)

lemma retry_run_SomeD:
  assumes "retry_run cfg h rnd shutdown fn 0 [] s = Some (s', r, waits)"
  shows "\<exists>n. s' = attempt_state fn s (Suc n) \<and> verdict cfg h rnd shutdown n (attempt_result fn s n) = Some r"
proof -
  from retry_run_decided [OF assms] obtain n where "verdict cfg h rnd shutdown n (attempt_result fn s n) \<noteq> None" by auto
  from first_verdict [OF this] obtain k v where k: "verdict cfg h rnd shutdown k (attempt_result fn s k) = Some v"
    "\<And>i. i < k \<Longrightarrow> verdict cfg h rnd shutdown i (attempt_result fn s i) = None" by blast
  with retry_run_returns [of k cfg h rnd shutdown 0 fn s v "[]"] assms show ?thesis by auto
qed

lemma retry_run_first_success:
  assumes "fn s = (s', Inr x)"
  shows "retry_run cfg h rnd shutdown fn 0 [] s = Some (s', Inr x, [])"
  by (subst retry_run_unfold) (simp add: verdict_def assms)

section \<open>Properties of retrying\<close>

text \<open>
  C17 (termination): with a retry limit the loop always returns. It stops at the first attempt that
  succeeds, fails with an error the handler refuses to retry, or is the last one allowed, or after
  which the consumer shuts down; there are at most \<open>operation_max_retries\<close> waits, each at most
  \<open>max_backoff_seconds\<close> plus jitter.
\<close>

theorem retry_run_bounded:
  assumes "0 \<le> operation_max_retries cfg"
    and "0 \<le> backoff_factor cfg" "0 \<le> base_delay cfg" "0 \<le> max_backoff_seconds cfg" "0 \<le> jitter_factor cfg"
    and "\<And>n. 0 \<le> rnd n \<and> rnd n \<le> 1"
  shows "\<exists>n r waits. int n \<le> operation_max_retries cfg \<and>
     retry_run cfg h rnd shutdown fn 0 [] s = Some (attempt_state fn s (Suc n), r, waits) \<and>
     (\<forall>i < n. verdict cfg h rnd shutdown i (attempt_result fn s i) = None) \<and>
     verdict cfg h rnd shutdown n (attempt_result fn s n) = Some r \<and>
     int (length waits) \<le> operation_max_retries cfg \<and>
     (\<forall>w \<in> set waits. re_delay w \<le> of_int (max_backoff_seconds cfg) * (1 + jitter_factor cfg))"
proof -
  obtain n r where n: "n \<le> nat (operation_max_retries cfg)"
    and r: "verdict cfg h rnd shutdown n (attempt_result fn s n) = Some r"
    and before: "\<And>i. i < n \<Longrightarrow> verdict cfg h rnd shutdown i (attempt_result fn s i) = None"
    by (rule first_verdict [OF verdict_limit [OF assms(1)]]) blast
  from retry_run_returns [of n cfg h rnd shutdown 0 fn s r "[]"] before r
  obtain m where m: "m \<le> Suc n" "exceeded_max_retries cfg n \<longrightarrow> m = n"
    and run: "retry_run cfg h rnd shutdown fn 0 [] s =
      Some (attempt_state fn s (Suc n), r, map (wait_event cfg rnd fn s 0) [0..<m])"
    by auto
  have "int m \<le> operation_max_retries cfg"
    using m n assms(1) by (cases "exceeded_max_retries cfg n") (auto simp: exceeded_max_retries_def)
  moreover have "re_delay w \<le> of_int (max_backoff_seconds cfg) * (1 + jitter_factor cfg)"
    if w: "w \<in> set (map (wait_event cfg rnd fn s 0) [0..<m])" for w
    using w calculate_delay_bounds(2) [OF assms(2-5)] assms(6) by (auto simp: wait_event_def)
  ultimately show ?thesis using n assms(1) r before run by (intro exI [of _ n] exI [of _ r]) auto
qed

theorem retry_run_bounded_witness:
  "let fn = (\<lambda>k :: nat. (Suc k, if k < 2 then Inl ConnectionError else Inr ''done''))
   in \<exists>waits. retry_run default_retry_config None (\<lambda>_. 0) (\<lambda>_ _. False) fn 0 [] 0 = Some (3, Inr ''done'', waits) \<and>
      length waits \<le> 10"
proof -
  let ?fn = "\<lambda>k :: nat. (Suc k, if k < 2 then Inl ConnectionError else Inr ''done'' :: string result)"
  have st: "attempt_state ?fn 0 n = n" for n
    by (induction n) (simp_all add: attempt_state_def)
  have v: "verdict default_retry_config None (\<lambda>_. 0) (\<lambda>_ _. False) n (attempt_result ?fn 0 n) = None" if "n < 2" for n
    using that by (simp add: verdict_def attempt_result_def st should_retry_def exceeded_max_retries_def default_retry_config_def)
  have v2: "verdict default_retry_config None (\<lambda>_. 0) (\<lambda>_ _. False) n (attempt_result ?fn 0 n) = Some (Inr ''done'')" if "2 \<le> n" for n
    using that by (simp add: verdict_def attempt_result_def st)
  have pos: "0 \<le> operation_max_retries default_retry_config" "0 \<le> backoff_factor default_retry_config"
    "0 \<le> base_delay default_retry_config" "0 \<le> max_backoff_seconds default_retry_config"
    "0 \<le> jitter_factor default_retry_config" "(0 :: rat) \<le> 0 \<and> (0 :: rat) \<le> 1"
    by (simp_all add: default_retry_config_def)
  obtain n r waits where n: "int n \<le> operation_max_retries default_retry_config"
    "retry_run default_retry_config None (\<lambda>_. 0) (\<lambda>_ _. False) ?fn 0 [] 0 = Some (attempt_state ?fn 0 (Suc n), r, waits)"
    "\<forall>i < n. verdict default_retry_config None (\<lambda>_. 0) (\<lambda>_ _. False) i (attempt_result ?fn 0 i) = None"
    "verdict default_retry_config None (\<lambda>_. 0) (\<lambda>_ _. False) n (attempt_result ?fn 0 n) = Some r"
    "int (length waits) \<le> operation_max_retries default_retry_config"
    using retry_run_bounded [OF pos, of None "\<lambda>_ _. False" ?fn 0] by (elim exE conjE) (rule that)
  have "n = 2"
  proof (rule ccontr)
    assume "n \<noteq> 2"
    then consider "n < 2" | "2 < n" by linarith
    then show False
    proof cases
      case 1
      from v [OF this] n(4) show ?thesis by (rule option.distinct(1) [THEN notE, OF trans [OF sym]])
    next
      case 2
      with n(3) v2 [of 2] show ?thesis by fastforce
    qed
  qed
  have "Some r = Some (Inr ''done'')" unfolding n(4) [symmetric] by (rule v2) (simp add: \<open>n = 2\<close>)
  then have "retry_run default_retry_config None (\<lambda>_. 0) (\<lambda>_ _. False) ?fn 0 [] 0 = Some (3, Inr ''done'', waits)"
    unfolding n(2) st \<open>n = 2\<close> by simp
  moreover have "length waits \<le> 10" using n(5) by (simp add: default_retry_config_def)
  ultimately show ?thesis unfolding Let_def by blast
qed

definition tries_again ::
  "retry_config \<Rightarrow> (py_error \<Rightarrow> bool) option \<Rightarrow> (nat \<Rightarrow> rat) \<Rightarrow> (nat \<Rightarrow> rat \<Rightarrow> bool) \<Rightarrow> ('s \<Rightarrow> 's \<times> 'a result) \<Rightarrow> 's \<Rightarrow> nat \<Rightarrow> bool" where
  "tries_again cfg h rnd shutdown fn s n \<longleftrightarrow>
     (case attempt_result fn s n of
        Inr _ \<Rightarrow> False
      | Inl e \<Rightarrow> should_retry h e \<and> \<not> shutdown n (calculate_delay cfg (rnd n) n))"

lemma tries_again_verdict:
  "operation_max_retries cfg < 0 \<Longrightarrow>
     tries_again cfg h rnd shutdown fn s k \<longleftrightarrow> verdict cfg h rnd shutdown k (attempt_result fn s k) = None"
  by (auto simp: tries_again_def verdict_def exceeded_max_retries_def split: sum.splits)

lemma retry_run_None_iff:
  "retry_run cfg h rnd shutdown fn 0 [] s = None \<longleftrightarrow>
     (\<forall>n. verdict cfg h rnd shutdown n (attempt_result fn s n) = None)"
proof
  assume none: "retry_run cfg h rnd shutdown fn 0 [] s = None"
  show "\<forall>n. verdict cfg h rnd shutdown n (attempt_result fn s n) = None"
  proof (rule ccontr)
    assume "\<not> ?thesis"
    then obtain k where "verdict cfg h rnd shutdown k (attempt_result fn s k) \<noteq> None" by auto
    from first_verdict [OF this] obtain j r where
      "verdict cfg h rnd shutdown j (attempt_result fn s j) = Some r"
      "\<And>i. i < j \<Longrightarrow> verdict cfg h rnd shutdown i (attempt_result fn s i) = None" by blast
    with retry_run_returns [of j cfg h rnd shutdown 0 fn s r "[]"] none show False by auto
  qed
next
  assume "\<forall>n. verdict cfg h rnd shutdown n (attempt_result fn s n) = None"
  then show "retry_run cfg h rnd shutdown fn 0 [] s = None"
    using retry_run_decided [of cfg h rnd shutdown fn 0 "[]" s]
    by (cases "retry_run cfg h rnd shutdown fn 0 [] s") auto
qed

text \<open>
  C18 (liveness): with retries unlimited, the loop fails to return only if every attempt fails with
  an error to retry and no wait is interrupted; it returns the result of the first attempt that
  succeeds.
\<close>

theorem retry_run_unlimited:
  assumes "operation_max_retries cfg < 0"
  shows "(retry_run cfg h rnd shutdown fn 0 [] s = None \<longleftrightarrow> (\<forall>n. tries_again cfg h rnd shutdown fn s n)) \<and>
    (attempt_result fn s n = Inr x \<and> (\<forall>i < n. tries_again cfg h rnd shutdown fn s i) \<longrightarrow>
       (\<exists>waits. retry_run cfg h rnd shutdown fn 0 [] s = Some (attempt_state fn s (Suc n), Inr x, waits)))"
proof -
  have "\<exists>waits. retry_run cfg h rnd shutdown fn 0 [] s = Some (attempt_state fn s (Suc n), Inr x, waits)"
    if "attempt_result fn s n = Inr x" and again: "\<forall>i < n. tries_again cfg h rnd shutdown fn s i"
  proof -
    have "verdict cfg h rnd shutdown n (attempt_result fn s n) = Some (Inr x)"
      using that(1) by (simp add: verdict_def)
    with again retry_run_returns [of n cfg h rnd shutdown 0 fn s "Inr x" "[]"] show ?thesis
      by (auto simp: tries_again_verdict [OF assms])
  qed
  then show ?thesis by (simp add: tries_again_verdict [OF assms] retry_run_None_iff)
qed

theorem retry_run_unlimited_witness:
  "let cfg = default_retry_config\<lparr>operation_max_retries := -1\<rparr>;
       fn = (\<lambda>k :: nat. (Suc k, if k < 50 then Inl ConnectionError else Inr ''done''))
   in \<exists>waits. retry_run cfg None (\<lambda>_. 0) (\<lambda>_ _. False) fn 0 [] 0 = Some (51, Inr ''done'', waits)"
proof -
  let ?cfg = "default_retry_config\<lparr>operation_max_retries := -1\<rparr>"
  let ?fn = "\<lambda>k :: nat. (Suc k, if k < 50 then Inl ConnectionError else Inr ''done'' :: string result)"
  have st: "attempt_state ?fn 0 n = n" for n
    by (induction n) (simp_all add: attempt_state_def)
  have "attempt_result ?fn 0 50 = Inr ''done''"
    "\<forall>i < 50. tries_again ?cfg None (\<lambda>_. 0) (\<lambda>_ _. False) ?fn 0 i"
    by (simp_all add: attempt_result_def st tries_again_def should_retry_def)
  with retry_run_unlimited [of ?cfg None "\<lambda>_. 0" "\<lambda>_ _. False" ?fn 0 50 "''done''"]
  show ?thesis unfolding Let_def by (simp add: st)
qed

lemma retry_run_waits:
  assumes "0 \<le> operation_max_retries cfg"
  shows "\<exists>s' r m. retry_run cfg h rnd shutdown fn 0 [] s = Some (s', r, map (wait_event cfg rnd fn s 0) [0..<m]) \<and>
     int m \<le> operation_max_retries cfg"
proof -
  obtain n r where n: "n \<le> nat (operation_max_retries cfg)"
    and r: "verdict cfg h rnd shutdown n (attempt_result fn s n) = Some r"
    and before: "\<And>i. i < n \<Longrightarrow> verdict cfg h rnd shutdown i (attempt_result fn s i) = None"
    by (rule first_verdict [OF verdict_limit [OF assms]]) blast
  obtain m where m: "m \<le> Suc n" "exceeded_max_retries cfg n \<longrightarrow> m = n"
    and run: "retry_run cfg h rnd shutdown fn 0 [] s =
      Some (attempt_state fn s (Suc n), r, map (wait_event cfg rnd fn s 0) [0..<m])"
    using retry_run_returns [of n cfg h rnd shutdown 0 fn s r "[]"] before r by auto
  have "int m \<le> operation_max_retries cfg"
    using m n assms by (cases "exceeded_max_retries cfg n") (auto simp: exceeded_max_retries_def)
  with run show ?thesis by blast
qed

lemma default_delay:
  assumes "n < 10" and "0 \<le> r" and "r < 1"
  shows "3 / 2 * of_nat (n + 1) \<le> calculate_delay default_retry_config r n"
    and "calculate_delay default_retry_config r n < 33 / 20 * of_nat (n + 1)"
proof -
  define d :: rat where "d = 3 / 2 * of_nat (n + 1)"
  have "of_nat (n + 1) \<le> (10 :: rat)" using assms(1) of_nat_le_iff [of "n + 1" 10, where ?'a = rat] by simp
  then have "d \<le> 15" and pos: "0 < d" by (simp_all add: d_def)
  then have eq: "calculate_delay default_retry_config r n = d + d * r / 10"
    by (simp add: calculate_delay_def default_retry_config_def Let_def d_def min_def field_simps)
  have dr: "0 \<le> d * r" "d * r < d" using assms(2,3) pos by simp_all
  show "3 / 2 * of_nat (n + 1) \<le> calculate_delay default_retry_config r n"
    using dr(1) unfolding eq d_def [symmetric] by linarith
  have "33 / 20 * of_nat (n + 1) = d * 11 / 10" by (simp add: d_def)
  then show "calculate_delay default_retry_config r n < 33 / 20 * of_nat (n + 1)" using dr(2) unfolding eq by linarith
qed

text \<open>
  C37 (bounds): how long the loop waits with the default configuration, whatever is retried and whatever
  the random jitter is. The loop returns, there are at most ten waits, and the wait after attempt
  \<open>i + 1\<close> is between \<open>1.5 (i + 1)\<close> and \<open>1.65 (i + 1)\<close> seconds: the back-off is linear, and since the last
  wait is shorter than 16.5 seconds the cap of 30 seconds is never reached. All waits together take at most
  90.75 seconds.
\<close>

theorem default_back_off:
  assumes "\<forall>n. 0 \<le> rnd n \<and> rnd n < 1"
  shows "\<exists>s' r waits. retry_run default_retry_config h rnd shutdown fn 0 [] s = Some (s', r, waits) \<and>
     length waits \<le> 10 \<and>
     (\<forall>i < length waits. 3 / 2 * of_nat (i + 1) \<le> re_delay (waits ! i) \<and>
        re_delay (waits ! i) < 33 / 20 * of_nat (i + 1)) \<and>
     (\<forall>w \<in> set waits. re_delay w < 33 / 2) \<and>
     sum_list (map re_delay waits) \<le> 363 / 4"
proof -
  obtain s' r m where run: "retry_run default_retry_config h rnd shutdown fn 0 [] s =
      Some (s', r, map (wait_event default_retry_config rnd fn s 0) [0..<m])" and m: "m \<le> 10"
    using retry_run_waits [of default_retry_config h rnd shutdown fn s] by (auto simp: default_retry_config_def)
  let ?delay = "\<lambda>i. calculate_delay default_retry_config (rnd i) i"
  have delay: "3 / 2 * of_nat (i + 1) \<le> ?delay i" "?delay i < 33 / 20 * of_nat (i + 1)" if "i < m" for i
    using default_delay [of i "rnd i"] assms that m by simp_all
  have last: "?delay i < 33 / 2" if "i < m" for i
  proof -
    have "of_nat (i + 1) \<le> (10 :: rat)" using that m of_nat_le_iff [of "i + 1" 10, where ?'a = rat] by simp
    then have "33 / 20 * of_nat (i + 1) \<le> (33 / 2 :: rat)" by simp
    with delay(2) [OF that] show ?thesis by (rule less_le_trans)
  qed
  have "sum_list (map ?delay [0..<m]) = (\<Sum>i<m. ?delay i)"
    by (simp add: sum_list_distinct_conv_sum_set atLeast0LessThan)
  also have "\<dots> \<le> (\<Sum>i<m. 33 / 20 * of_nat (i + 1))" using delay(2) by (intro sum_mono) (simp add: less_imp_le)
  also have "\<dots> \<le> (\<Sum>i<10. 33 / 20 * of_nat (i + 1))" using m by (intro sum_mono2) auto
  also have "\<dots> = 363 / 4" by (simp add: lessThan_nat_numeral lessThan_Suc eval_nat_numeral)
  finally have "sum_list (map ?delay [0..<m]) \<le> 363 / 4" .
  then show ?thesis
    using m delay last
    by (intro exI [of _ s'] exI [of _ r] exI [of _ "map (wait_event default_retry_config rnd fn s 0) [0..<m]"])
      (simp add: run wait_event_def o_def)
qed

theorem default_back_off_witness:
  "let fn = (\<lambda>k :: nat. (Suc k, Inl ConnectionError :: string result))
   in \<exists>s' r waits. retry_run default_retry_config None (\<lambda>_. 1 / 2) (\<lambda>_ _. False) fn 0 [] 0 = Some (s', r, waits) \<and>
      sum_list (map re_delay waits) \<le> 363 / 4"
  unfolding Let_def
  using default_back_off [of "\<lambda>_. 1 / 2" None "\<lambda>_ _. False" "\<lambda>k :: nat. (Suc k, Inl ConnectionError :: string result)" 0]
  by (auto simp del: sum_list.Cons)

section \<open>Properties of the offsets\<close>

text \<open>
  What the code relies on of the broker: a commit changes the position of no partition it was not
  asked to change, a changed position is the one asked for, and a commit that succeeds changes all
  of them. A commit that fails may have changed some.
\<close>

definition broker_commits :: "'b kafka_client \<Rightarrow> ('b \<Rightarrow> topic_partition \<Rightarrow> int option) \<Rightarrow> bool" where
  "broker_commits client committed \<longleftrightarrow>
     (\<forall>b offsets b' r tp. kc_commit client b offsets = (b', r) \<longrightarrow>
        (committed b' tp = committed b tp \<or> (\<exists>om. (tp, om) \<in> set offsets \<and> committed b' tp = Some (om_offset om))) \<and>
        (r = Inr () \<longrightarrow> tp \<in> fst ` set offsets \<longrightarrow> (\<exists>om. (tp, om) \<in> set offsets \<and> committed b' tp = Some (om_offset om))))"

lemma commit_send_calls:
  assumes "commit_send client b c = (b', r)"
  shows "b' = b \<or> (\<exists>kept r'. set kept \<subseteq> set (offset_dict c) \<and> kc_commit client b kept = (b', r'))"
proof -
  define kept where "kept = (if list_all (\<lambda>(tp, _). tp \<in> set (kc_assignment client b)) (offset_dict c) then offset_dict c
      else filter (\<lambda>(tp, _). tp \<in> set (kc_assignment client b)) (offset_dict c))"
  have "set kept \<subseteq> set (offset_dict c)" by (auto simp: kept_def)
  moreover have "b' = b \<or> (\<exists>r'. kc_commit client b kept = (b', r'))"
    using assms unfolding commit_send_def kept_def [symmetric] Let_def
    by (auto simp: bind_s_cases split: if_splits)
  ultimately show ?thesis by blast
qed

lemma commit_send_committed:
  assumes "broker_commits client committed" and "commit_send client b c = (b', r)"
  shows "committed b' tp = committed b tp \<or> (\<exists>off e. (tp, off, e) \<in> set c \<and> committed b' tp = Some (off + 1))"
  using commit_send_calls [OF assms(2)]
proof (elim disjE exE conjE)
  fix kept r' assume sub: "set kept \<subseteq> set (offset_dict c)" and k: "kc_commit client b kept = (b', r')"
  from assms(1) k have "committed b' tp = committed b tp \<or> (\<exists>om. (tp, om) \<in> set kept \<and> committed b' tp = Some (om_offset om))"
    unfolding broker_commits_def by blast
  moreover have "\<exists>off e. (tp, off, e) \<in> set c \<and> om_offset om = off + 1" if "(tp, om) \<in> set kept" for om
  proof -
    from that sub have "(tp, om) \<in> set (offset_dict c)" by blast
    then show ?thesis by (auto simp: offset_dict_def)
  qed
  ultimately show ?thesis by metis
qed simp

lemma set_AList_update: "x \<in> set (AList.update k v d) \<Longrightarrow> x = (k, v) \<or> x \<in> set d"
  by (induction d) (auto split: if_splits)

lemma restore_offsets_subset: "set (restore_offsets c stored) \<subseteq> set c \<union> set stored"
  unfolding restore_offsets_def
proof (induction c arbitrary: stored)
  case (Cons x c)
  obtain tp off e where x: "x = (tp, off, e)" by (cases x) auto
  have "set (case map_of stored tp of None \<Rightarrow> AList.update tp (off, e) stored
      | Some (current, _) \<Rightarrow> if current \<le> off then AList.update tp (off, e) stored else stored) \<subseteq> insert x (set stored)"
    using set_AList_update [of _ tp "(off, e)" stored] x by (auto split: option.splits if_splits)
  with Cons.IH show ?case unfolding foldl_Cons x by fastforce
qed simp

lemma commit_settle_subset: "set (fst (commit_settle c outcome stored)) \<subseteq> set c \<union> set stored"
  using restore_offsets_subset [of c stored] by (auto simp: commit_settle_def split: sum.splits option.splits)

text \<open>Every offset that is stored, copied or sent is that of a processed message.\<close>

definition all_processed :: "(topic_partition \<times> int) list \<Rightarrow> stored_offsets \<Rightarrow> bool" where
  "all_processed done c = list_all (\<lambda>(tp, off, _). (tp, off) \<in> set done) c"

definition offsets_processed :: "'b offset_world \<Rightarrow> bool" where
  "offsets_processed w \<longleftrightarrow>
     all_processed (ow_processed w) (ow_stored w) \<and>
     list_all (all_processed (ow_processed w)) (ow_copies w) \<and>
     list_all (\<lambda>(c, _). all_processed (ow_processed w) c) (ow_sent w)"

lemma all_processed_Cons: "all_processed done c \<Longrightarrow> all_processed (x # done) c"
  by (auto simp: all_processed_def list_all_iff)

lemma all_processed_subset: "set c' \<subseteq> set c \<union> set d \<Longrightarrow> all_processed done c \<Longrightarrow> all_processed done d \<Longrightarrow> all_processed done c'"
  by (auto simp: all_processed_def list_all_iff)

lemma all_processed_store: "all_processed done stored \<Longrightarrow> all_processed ((tp, off) # done) (offset_store tp off e stored)"
  by (rule all_processed_subset [of _ "[(tp, off, e)]" stored])
    (auto simp: offset_store_def all_processed_def list_all_iff dest: set_AList_update)

lemma list_all_remove1: "list_all P xs \<Longrightarrow> list_all P (remove1 x xs)"
  by (auto simp: list_all_iff dest: notin_set_remove1)

lemma offset_step_processed:
  assumes "offset_step client w w'" and "offsets_processed w"
  shows "offsets_processed w'"
  using assms
proof (cases rule: offset_step.cases)
  case (processed_and_stored tp off e)
  have "list_all (all_processed ((tp, off) # ow_processed w)) (ow_copies w)"
    "list_all (\<lambda>(c, _). all_processed ((tp, off) # ow_processed w) c) (ow_sent w)"
    using assms(2) by (auto simp: offsets_processed_def list_all_iff all_processed_Cons)
  with processed_and_stored assms(2) show ?thesis by (simp add: offsets_processed_def all_processed_store)
next
  case (copied)
  with assms(2) show ?thesis by (simp add: offsets_processed_def)
next
  case (sent c b' outcome)
  moreover have "all_processed (ow_processed w) c"
    using sent(2) assms(2) by (auto simp: offsets_processed_def list_all_iff)
  ultimately show ?thesis using assms(2) by (simp add: offsets_processed_def list_all_remove1)
next
  case (settled c outcome)
  have "all_processed (ow_processed w) c"
    using settled(2) assms(2) by (auto simp: offsets_processed_def list_all_iff)
  then have "all_processed (ow_processed w) (fst (commit_settle c outcome (ow_stored w)))"
    using all_processed_subset [OF commit_settle_subset] assms(2) by (simp add: offsets_processed_def)
  with settled assms(2) show ?thesis by (simp add: offsets_processed_def list_all_remove1)
next
  case cleared
  with assms(2) show ?thesis by (simp add: offsets_processed_def offset_clear_def all_processed_def)
qed

lemma offset_step_committed:
  assumes "broker_commits client committed" and "offset_step client w w'" and "offsets_processed w"
  shows "committed (ow_broker w') tp = committed (ow_broker w) tp \<or>
    (\<exists>off. (tp, off) \<in> set (ow_processed w') \<and> committed (ow_broker w') tp = Some (off + 1))"
  using assms(2)
proof (cases rule: offset_step.cases)
  case (sent c b' outcome)
  have "(tp, off) \<in> set (ow_processed w)" if "(tp, off, e) \<in> set c" for off e
    using that sent(2) assms(3) by (auto simp: offsets_processed_def all_processed_def list_all_iff)
  with commit_send_committed [OF assms(1) sent(3), of tp] sent(1) show ?thesis by auto
qed simp_all

lemma offset_step_keeps_processed: "offset_step client w w' \<Longrightarrow> set (ow_processed w) \<subseteq> set (ow_processed w')"
  by (auto elim: offset_step.cases)

text \<open>
  C16 (safety): however the commits of the message loop and of the rebalance callbacks interleave and
  fail, the committed position of a partition is the initial one or just after a message that has
  been processed, so no message is skipped on restart because a later one was stored.
\<close>

theorem offsets_never_ahead:
  assumes "broker_commits client committed"
    and "(offset_step client)\<^sup>*\<^sup>* w w'" and "offsets_processed w"
  shows "committed (ow_broker w') tp = committed (ow_broker w) tp \<or>
    (\<exists>off. (tp, off) \<in> set (ow_processed w') \<and> committed (ow_broker w') tp = Some (off + 1))"
proof -
  from assms(2) have "offsets_processed w' \<and> (committed (ow_broker w') tp = committed (ow_broker w) tp \<or>
    (\<exists>off. (tp, off) \<in> set (ow_processed w') \<and> committed (ow_broker w') tp = Some (off + 1)))"
  proof induction
    case base
    then show ?case using assms(3) by simp
  next
    case (step w1 w2)
    then show ?case
      using offset_step_processed [OF step(2)] offset_step_committed [OF assms(1) step(2), of tp]
        offset_step_keeps_processed [OF step(2)] by (metis subsetD)
  qed
  then show ?thesis by blast
qed

text \<open>A broker that keeps the positions in a dictionary and never fails.\<close>

definition sample_client :: "(topic_partition \<times> int) list kafka_client" where
  "sample_client =
     \<lparr>kc_assignment = (\<lambda>b. [(''outbox'', 0)]),
      kc_commit = (\<lambda>b offsets. (map (\<lambda>(tp, om). (tp, om_offset om)) offsets @ b, Inr ())),
      kc_committed = (\<lambda>b tp. (b, Inr (map_of b tp)))\<rparr>"

lemma sample_client_commits: "broker_commits sample_client map_of"
  unfolding broker_commits_def sample_client_def
proof (simp, intro allI)
  fix b :: "(topic_partition \<times> int) list" and offsets :: "(topic_partition \<times> offset_and_metadata) list" and s i
  have "map_of (map (\<lambda>(tp, om). (tp, om_offset om)) offsets) tp = map_option om_offset (map_of offsets tp)" for tp
    by (induction offsets) auto
  then show "(((map_of b ++ map_of (map (\<lambda>(tp, om). (tp, om_offset om)) offsets)) (s, i) = map_of b (s, i) \<or>
      (\<exists>om. ((s, i), om) \<in> set offsets \<and>
        (map_of b ++ map_of (map (\<lambda>(tp, om). (tp, om_offset om)) offsets)) (s, i) = Some (om_offset om)))) \<and>
     ((s, i) \<in> fst ` set offsets \<longrightarrow>
      (\<exists>om. ((s, i), om) \<in> set offsets \<and>
        (map_of b ++ map_of (map (\<lambda>(tp, om). (tp, om_offset om)) offsets)) (s, i) = Some (om_offset om)))"
    using map_of_SomeD [of offsets "(s, i)"] map_of_eq_None_iff [of offsets "(s, i)"]
    by (cases "map_of offsets (s, i)") (auto simp: map_add_def)
qed

definition sample_world :: "(topic_partition \<times> int) list \<Rightarrow> stored_offsets \<Rightarrow> stored_offsets list
    \<Rightarrow> (stored_offsets \<times> nat option result) list \<Rightarrow> (topic_partition \<times> int) list \<Rightarrow> (topic_partition \<times> int) list offset_world" where
  "sample_world b stored copies sent done =
     \<lparr>ow_broker = b, ow_stored = stored, ow_copies = copies, ow_sent = sent, ow_processed = done\<rparr>"

lemma sample_steps:
  defines "tp \<equiv> (''outbox'', 0 :: int)"
  shows "(offset_step sample_client)\<^sup>*\<^sup>* (sample_world [] [] [] [] [])
    (sample_world [(tp, 10)] [] [] [] [(tp, 10), (tp, 9)])"
proof -
  have 1: "offset_step sample_client (sample_world [] [] [] [] []) (sample_world [] [(tp, 9, None)] [] [] [(tp, 9)])"
    using offset_step.processed_and_stored [of sample_client "sample_world [] [] [] [] []" tp 9 None]
    by (simp add: sample_world_def offset_store_def)
  have 2: "offset_step sample_client (sample_world [] [(tp, 9, None)] [] [] [(tp, 9)])
      (sample_world [] [(tp, 9, None)] [[(tp, 9, None)]] [] [(tp, 9)])"
    using offset_step.copied [of "sample_world [] [(tp, 9, None)] [] [] [(tp, 9)]" sample_client]
    by (simp add: sample_world_def)
  have 3: "offset_step sample_client (sample_world [] [(tp, 9, None)] [[(tp, 9, None)]] [] [(tp, 9)])
      (sample_world [] [(tp, 10, None)] [[(tp, 9, None)]] [] [(tp, 10), (tp, 9)])"
    using offset_step.processed_and_stored [of sample_client "sample_world [] [(tp, 9, None)] [[(tp, 9, None)]] [] [(tp, 9)]" tp 10 None]
    by (simp add: sample_world_def offset_store_def)
  have 4: "offset_step sample_client (sample_world [] [(tp, 10, None)] [[(tp, 9, None)]] [] [(tp, 10), (tp, 9)])
      (sample_world [(tp, 10)] [(tp, 10, None)] [] [([(tp, 9, None)], Inr (Some 1))] [(tp, 10), (tp, 9)])"
    using offset_step.sent [of "[(tp, 9, None)]" "sample_world [] [(tp, 10, None)] [[(tp, 9, None)]] [] [(tp, 10), (tp, 9)]" sample_client]
    by (simp add: sample_world_def commit_send_def offset_dict_def sample_client_def tp_def)
  have 5: "offset_step sample_client (sample_world [(tp, 10)] [(tp, 10, None)] [] [([(tp, 9, None)], Inr (Some 1))] [(tp, 10), (tp, 9)])
      (sample_world [(tp, 10)] [] [] [] [(tp, 10), (tp, 9)])"
    using offset_step.settled [of "[(tp, 9, None)]" "Inr (Some 1)" "sample_world [(tp, 10)] [(tp, 10, None)] [] [([(tp, 9, None)], Inr (Some 1))] [(tp, 10), (tp, 9)]" sample_client]
    by (simp add: sample_world_def commit_settle_def)
  from 1 2 3 4 5 show ?thesis by (meson converse_rtranclp_into_rtranclp rtranclp.rtrancl_refl)
qed

theorem offsets_never_ahead_witness:
  "let tp = (''outbox'', 0)
   in (offset_step sample_client)\<^sup>*\<^sup>* (sample_world [] [] [] [] []) (sample_world [(tp, 10)] [] [] [] [(tp, 10), (tp, 9)]) \<and>
      map_of (ow_broker (sample_world [(tp, 10)] [] [] [] [(tp, 10), (tp, 9)])) tp = Some 10 \<and>
      (\<exists>off. (tp, off) \<in> set [(tp, 10), (tp, 9)] \<and> (10 :: int) = off + 1)"
proof -
  let ?tp = "(''outbox'', 0 :: int)"
  have "offsets_processed (sample_world [] [] [] [] [])"
    by (simp add: offsets_processed_def sample_world_def all_processed_def)
  from offsets_never_ahead [OF sample_client_commits sample_steps this, of ?tp] sample_steps
  show ?thesis unfolding Let_def by (simp add: sample_world_def)
qed

lemma restore_keeps_newer:
  assumes "\<forall>off' e'. (tp, off', e') \<in> set c \<longrightarrow> off' < off" and "map_of stored tp = Some (off, e)"
  shows "map_of (restore_offsets c stored) tp = Some (off, e)"
  using assms unfolding restore_offsets_def
proof (induction c arbitrary: stored)
  case (Cons x c)
  obtain tp' off' e' where x: "x = (tp', off', e')" by (cases x) auto
  let ?acc = "case map_of stored tp' of None \<Rightarrow> AList.update tp' (off', e') stored
      | Some (current, _) \<Rightarrow> if current \<le> off' then AList.update tp' (off', e') stored else stored"
  have "tp' = tp \<Longrightarrow> off' < off" using Cons.prems(1) by (auto simp: x)
  then have "map_of ?acc tp = Some (off, e)"
    using Cons.prems(2) by (cases "tp' = tp") (auto simp: update_conv' split: option.splits)
  moreover have "\<forall>off' e'. (tp, off', e') \<in> set c \<longrightarrow> off' < off" using Cons.prems(1) by simp
  ultimately show ?case using Cons.IH [of ?acc] by (simp add: x)
qed simp

text \<open>
  C36 (functional): what happens to an offset that is stored while a commit of older offsets is on its way,
  for every client and in every state. The message can be processed and stored after the commit took its copy and
  before its outcome is settled. Unless the commit succeeds, the newer offset stays stored. If it succeeds, the
  newer offset is forgotten: nothing is stored any more, so that a further commit has nothing to do, although
  the committed position is not past the message.
\<close>

theorem commit_forgets_concurrent_store:
  assumes client: "broker_commits client committed"
    and copy: "c \<in> set (ow_copies w)" and sent: "commit_send client (ow_broker w) c = (b', outcome)"
    and newer: "\<forall>off' e'. (tp, off', e') \<in> set c \<longrightarrow> off' < off"
    and before: "committed (ow_broker w) tp \<noteq> Some (off + 1)"
  shows "\<exists>w'. (offset_step client)\<^sup>*\<^sup>* w w' \<and> ow_processed w' = (tp, off) # ow_processed w \<and> ow_broker w' = b' \<and>
     committed b' tp \<noteq> Some (off + 1) \<and>
     (case outcome of
        Inr (Some n) \<Rightarrow> ow_stored w' = [] \<and> offset_commit client b' (ow_stored w') = (b', [], True, 0)
      | _ \<Rightarrow> map_of (ow_stored w') tp = Some (off, e))"
proof -
  let ?w1 = "w\<lparr>ow_processed := (tp, off) # ow_processed w, ow_stored := offset_store tp off e (ow_stored w)\<rparr>"
  let ?w2 = "?w1\<lparr>ow_broker := b', ow_copies := remove1 c (ow_copies ?w1), ow_sent := (c, outcome) # ow_sent ?w1\<rparr>"
  let ?w3 = "?w2\<lparr>ow_sent := remove1 (c, outcome) (ow_sent ?w2), ow_stored := fst (commit_settle c outcome (ow_stored ?w2))\<rparr>"
  have "offset_step client w ?w1" by (rule offset_step.processed_and_stored)
  moreover have "offset_step client ?w1 ?w2" using copy sent by (intro offset_step.sent) simp_all
  moreover have "offset_step client ?w2 ?w3" by (rule offset_step.settled) simp
  ultimately have steps: "(offset_step client)\<^sup>*\<^sup>* w ?w3" by (meson converse_rtranclp_into_rtranclp rtranclp.rtrancl_refl)
  have "committed b' tp \<noteq> Some (off + 1)"
    using commit_send_committed [OF client sent, of tp] before newer by fastforce
  moreover have "map_of (restore_offsets c (offset_store tp off e (ow_stored w))) tp = Some (off, e)"
    using newer by (intro restore_keeps_newer) (simp_all add: offset_store_def)
  ultimately show ?thesis
    using steps by (intro exI [of _ ?w3])
      (auto simp: commit_settle_def offset_commit_def offset_store_def split: sum.splits option.splits)
qed

theorem commit_forgets_concurrent_store_witness:
  "let tp = (''outbox'', 0); w = sample_world [] [(tp, 9, None)] [[(tp, 9, None)]] [] [(tp, 9)]
   in \<exists>w'. (offset_step sample_client)\<^sup>*\<^sup>* w w' \<and> (tp, 10) \<in> set (ow_processed w') \<and> ow_stored w' = [] \<and>
      map_of (ow_broker w') tp = Some 10"
proof -
  let ?tp = "(''outbox'', 0 :: int)"
  let ?w = "sample_world [] [(?tp, 9, None)] [[(?tp, 9, None)]] [] [(?tp, 9)]"
  have sent: "commit_send sample_client (ow_broker ?w) [(?tp, 9, None)] = ([(?tp, 10)], Inr (Some 1))"
    by (simp add: sample_world_def commit_send_def offset_dict_def sample_client_def)
  show ?thesis
    using commit_forgets_concurrent_store [OF sample_client_commits _ sent, of ?tp 10 None]
    unfolding Let_def by (auto simp: sample_world_def)
qed

end
