(* ===== verification/Kafka_Consumer.thy ===== *)
theory Kafka_Consumer
  imports Replication Domain_Model Kafka_Retry
begin

text \<open>
  The consumer of \<open>core/kafka_consumer.py\<close>, which applies the outbox rows that the connector
  publishes to the tuple service.

  \<open>consumer_env\<close> holds what the consumer is given: its configuration, the libraries it calls
  (decoding of bytes, \<open>json.loads\<close>, the protobuf \<open>ParseDict\<close>, the Kafka client, the calls of the
  tuple service), and the faults of the database. \<open>consumer\<close> is the state of an \<open>RBACKafkaConsumer\<close>
  together with the state of the service (\<open>'svc\<close>), of the broker (\<open>'b\<close>) and of the tables it
  touches. Log messages and metrics are not modelled; a wait only decides whether the consumer
  is shut down meanwhile. The messages of the message loop are the list the client yields.
\<close>

section \<open>State\<close>

record relation_fencing_check =
  fc_lock_id :: string
  fc_lock_token :: string

record kafka_message =
  km_topic :: string
  km_partition :: int
  km_offset :: int
  km_leader_epoch :: "int option"
  km_value :: "string option"

record ('svc, 'b) consumer_env =
  ce_kafka_enabled :: bool
  ce_topic :: string
  ce_group_id :: string
  ce_retry :: retry_config
  ce_commit :: commit_config
  ce_lock_max_retries :: int
  ce_channel :: string
  ce_decode :: "string \<Rightarrow> string result"
  ce_loads :: "string \<Rightarrow> pyval result"
  ce_parse_dict :: "pyval \<Rightarrow> relation_tuple result"
  ce_kafka :: "'b kafka_client"
  ce_create :: "'svc \<Rightarrow> relation_tuple list \<Rightarrow> relation_fencing_check option \<Rightarrow> 'svc \<times> string result"
  ce_delete :: "'svc \<Rightarrow> relation_tuple_filter \<Rightarrow> relation_fencing_check option \<Rightarrow> 'svc \<times> string result"
  ce_acquire :: "'svc \<Rightarrow> string \<Rightarrow> 'svc \<times> string result"
  ce_db_fault :: "string \<Rightarrow> py_error option"
  ce_notify_fault :: "string \<Rightarrow> string \<Rightarrow> py_error option"
  ce_random :: "int \<Rightarrow> nat \<Rightarrow> rat"
  ce_shutdown :: "int \<Rightarrow> nat \<Rightarrow> rat \<Rightarrow> bool"

record ('svc, 'b) consumer =
  co_is_healthy :: bool
  co_is_consuming :: bool
  co_is_paused_for_retry :: bool
  co_shutdown_in_progress :: bool
  co_liveness_file :: bool
  co_readiness_file :: bool
  co_lock_id :: "string option"
  co_lock_token :: "string option"
  co_lock_acquisition_failed :: bool
  co_stored :: stored_offsets
  co_svc :: 'svc
  co_broker :: 'b
  co_tenants :: "tenant list"
  co_notifications :: "(string \<times> string) list"

text \<open>A new consumer object, on the given service, broker and tables.\<close>

definition new_consumer :: "'svc \<Rightarrow> 'b \<Rightarrow> tenant list \<Rightarrow> (string \<times> string) list \<Rightarrow> ('svc, 'b) consumer" where
  "new_consumer svc b tenants notifications =
     \<lparr>co_is_healthy = False, co_is_consuming = False, co_is_paused_for_retry = False,
      co_shutdown_in_progress = False, co_liveness_file = False, co_readiness_file = False,
      co_lock_id = None, co_lock_token = None, co_lock_acquisition_failed = False, co_stored = [],
      co_svc = svc, co_broker = b, co_tenants = tenants, co_notifications = notifications\<rparr>"

section \<open>Messages\<close>

record debezium_message =
  dm_aggregatetype :: pyval
  dm_aggregateid :: pyval
  dm_event_type :: pyval
  dm_payload :: pyval

definition from_kafka_message :: "py_dict \<Rightarrow> debezium_message" where
  "from_kafka_message m =
     \<lparr>dm_aggregatetype = info_get m ''aggregatetype'' (PyStr []),
      dm_aggregateid = info_get m ''aggregateid'' (PyStr []),
      dm_event_type = info_get m ''type'' (PyStr []),
      dm_payload = info_get m ''payload'' (PyDict [])\<rparr>"

record replication_message =
  rm_relations_to_add :: pyval
  rm_relations_to_remove :: pyval

definition from_payload :: "py_dict \<Rightarrow> replication_message" where
  "from_payload payload =
     \<lparr>rm_relations_to_add = info_get payload ''relations_to_add'' (PyList []),
      rm_relations_to_remove = info_get payload ''relations_to_remove'' (PyList [])\<rparr>"

definition REQUIRED_PARSED_MESSAGE_FIELDS :: "string list" where
  "REQUIRED_PARSED_MESSAGE_FIELDS = [''aggregatetype'', ''aggregateid'', ''type'', ''payload'']"

definition validate_parsed_message :: "pyval \<Rightarrow> bool" where
  "validate_parsed_message v =
     (case v of
        PyDict m \<Rightarrow> list_all (\<lambda>f. map_of m f \<noteq> None) REQUIRED_PARSED_MESSAGE_FIELDS \<and>
          (case info_get m ''payload'' PyNone of PyDict _ \<Rightarrow> True | _ \<Rightarrow> False)
      | _ \<Rightarrow> False)"

definition is_list :: "pyval \<Rightarrow> bool" where
  "is_list v = (case v of PyList _ \<Rightarrow> True | _ \<Rightarrow> False)"

definition list_items :: "pyval \<Rightarrow> pyval list" where
  "list_items v = (case v of PyList vs \<Rightarrow> vs | _ \<Rightarrow> [])"

definition valid_relation :: "pyval \<Rightarrow> bool" where
  "valid_relation v =
     (case v of PyDict r \<Rightarrow> map_of r ''resource'' \<noteq> None \<and> map_of r ''subject'' \<noteq> None | _ \<Rightarrow> False)"

definition validate_replication_message :: "pyval \<Rightarrow> bool" where
  "validate_replication_message v =
     (case v of
        PyDict payload \<Rightarrow>
          (let has_add = map_of payload ''relations_to_add'' \<noteq> None;
               has_remove = map_of payload ''relations_to_remove'' \<noteq> None;
               to_add = info_get payload ''relations_to_add'' (PyList []);
               to_remove = info_get payload ''relations_to_remove'' (PyList [])
           in if \<not> has_add \<and> \<not> has_remove then False
              else if has_add \<and> \<not> is_list to_add then False
              else if has_remove \<and> \<not> is_list to_remove then False
              else if \<not> py_truthy to_add \<and> \<not> py_truthy to_remove then False
              else list_all valid_relation (list_items to_add @ list_items to_remove))
      | _ \<Rightarrow> False)"

text \<open>
  A value that is not a dictionary fails in the operation that assumes it is one, which is not a
  validation error.
\<close>

definition parse_debezium_message :: "(string \<Rightarrow> pyval result) \<Rightarrow> pyval \<Rightarrow> py_dict result" where
  "parse_debezium_message loads message_value =
     bind_r (py_in ''schema'' message_value) (\<lambda>has_schema.
     bind_r (if has_schema then py_in ''payload'' message_value else Inr False) (\<lambda>has_both.
     if \<not> has_both then bind_r (py_keys message_value) (\<lambda>_. Inl MessageValidationError)
     else
       bind_r (py_get message_value ''payload'' PyNone) (\<lambda>payload_str.
       bind_r (case payload_str of
                 PyStr s \<Rightarrow> loads s
               | PyDict d \<Rightarrow> Inr (PyDict d)
               | _ \<Rightarrow> Inl MessageValidationError) (\<lambda>payload_data.
       bind_r (py_in ''relations_to_add'' payload_data) (\<lambda>has_add.
       bind_r (if has_add then Inr True else py_in ''relations_to_remove'' payload_data) (\<lambda>known.
       if known then
         bind_r (py_get payload_data ''aggregatetype'' (PyStr [])) (\<lambda>ty.
         bind_r (py_get payload_data ''aggregateid'' (PyStr [])) (\<lambda>i.
         bind_r (py_get payload_data ''type'' (PyStr [])) (\<lambda>et.
           Inr [(''aggregatetype'', ty), (''aggregateid'', i), (''type'', et), (''payload'', payload_data)])))
       else bind_r (py_keys payload_data) (\<lambda>_. Inl MessageValidationError)))))))"

section \<open>Processing a message\<close>

definition with_svc :: "('svc, 'b) consumer \<Rightarrow> 'svc \<times> 'a result \<Rightarrow> ('svc, 'b) consumer \<times> 'a result" where
  "with_svc st call = (st\<lparr>co_svc := fst call\<rparr>, snd call)"

definition send_pg_notify_best_effort ::
  "('svc, 'b) consumer_env \<Rightarrow> string \<Rightarrow> string \<Rightarrow> ('svc, 'b) consumer \<Rightarrow> ('svc, 'b) consumer" where
  "send_pg_notify_best_effort env channel payload st =
     (case ce_notify_fault env channel payload of
        None \<Rightarrow> st\<lparr>co_notifications := co_notifications st @ [(channel, payload)]\<rparr>
      | Some _ \<Rightarrow> st)"

definition save_consistency_token_best_effort ::
  "('svc, 'b) consumer_env \<Rightarrow> string \<Rightarrow> string \<Rightarrow> ('svc, 'b) consumer \<Rightarrow> ('svc, 'b) consumer" where
  "save_consistency_token_best_effort env org_id token st =
     (case ce_db_fault env org_id of
        None \<Rightarrow> st\<lparr>co_tenants := map (\<lambda>t. if tn_org_id t = Some org_id
                                         then t\<lparr>tn_relations_consistency_token := Some token\<rparr> else t) (co_tenants st)\<rparr>
      | Some _ \<Rightarrow> st)"

definition context_field :: "pyval \<Rightarrow> string \<Rightarrow> pyval" where
  "context_field resource_context k =
     (case resource_context of PyDict c \<Rightarrow> info_get c k PyNone | _ \<Rightarrow> PyNone)"

definition hashable :: "pyval \<Rightarrow> bool" where
  "hashable v = (case v of PyList _ \<Rightarrow> False | PyDict _ \<Rightarrow> False | _ \<Rightarrow> True)"

definition normalized_org_id :: "pyval \<Rightarrow> pyval" where
  "normalized_org_id org_id = (case org_id of PyStr s \<Rightarrow> PyStr (str_strip s) | v \<Rightarrow> v)"

definition is_global_system_role_event :: "pyval \<Rightarrow> pyval \<Rightarrow> bool" where
  "is_global_system_role_event event_type org_id \<longleftrightarrow>
     event_type \<in> set (map PyStr [''create_system_role'', ''update_system_role'', ''delete_system_role'']) \<and>
     normalized_org_id org_id \<in> set [PyNone, PyStr [], PyStr ''None'']"

text \<open>What follows the two calls of the service: the token is saved and waiting processes are notified.\<close>

definition save_token ::
  "('svc, 'b) consumer_env \<Rightarrow> pyval \<Rightarrow> string \<Rightarrow> ('svc, 'b) consumer \<Rightarrow> ('svc, 'b) consumer" where
  "save_token env resource_context token st =
     (let org_id = context_field resource_context ''org_id'';
          event_type = context_field resource_context ''event_type'';
          org = normalized_org_id org_id
      in if token \<noteq> [] \<and> py_truthy org \<and> \<not> is_global_system_role_event event_type org_id
         then save_consistency_token_best_effort env (py_str org) token st else st)"

definition notify_created_workspace ::
  "('svc, 'b) consumer_env \<Rightarrow> pyval \<Rightarrow> ('svc, 'b) consumer \<Rightarrow> ('svc, 'b) consumer" where
  "notify_created_workspace env resource_context st =
     (case context_field resource_context ''resource_id'' of
        PyStr i \<Rightarrow> if context_field resource_context ''event_type'' = PyStr ''create_workspace'' \<and> i \<noteq> []
                   then send_pg_notify_best_effort env (ce_channel env) i st else st
      | _ \<Rightarrow> st)"

definition notify_migration ::
  "('svc, 'b) consumer_env \<Rightarrow> pyval \<Rightarrow> ('svc, 'b) consumer \<Rightarrow> ('svc, 'b) consumer" where
  "notify_migration env resource_context st =
     (let event_type = context_field resource_context ''event_type''
      in case notify_migration_batch_completion
                (if py_truthy event_type then Some (py_str event_type) else None)
                (case resource_context of PyDict c \<Rightarrow> Some c | _ \<Rightarrow> None) of
           Some (channel, payload) \<Rightarrow> send_pg_notify_best_effort env channel payload st
         | None \<Rightarrow> st)"

definition record_processed ::
  "('svc, 'b) consumer_env \<Rightarrow> pyval \<Rightarrow> string \<Rightarrow> ('svc, 'b) consumer \<Rightarrow> ('svc, 'b) consumer \<times> bool result" where
  "record_processed env resource_context token st =
     (if \<not> hashable (context_field resource_context ''event_type'') then (st, Inl TypeError)
      else (notify_migration env resource_context
              (notify_created_workspace env resource_context
                 (save_token env resource_context token st)), Inr True))"

definition fencing_check :: "('svc, 'b) consumer \<Rightarrow> relation_fencing_check result" where
  "fencing_check st =
     (case (co_lock_id st, co_lock_token st) of
        (Some i, Some t) \<Rightarrow> if i \<noteq> [] \<and> t \<noteq> [] then Inr \<lparr>fc_lock_id = i, fc_lock_token = t\<rparr> else Inl RuntimeError
      | _ \<Rightarrow> Inl RuntimeError)"

definition apply_relations ::
  "('svc, 'b) consumer_env \<Rightarrow> py_dict \<Rightarrow> ('svc, 'b) consumer \<Rightarrow> ('svc, 'b) consumer \<times> bool result" where
  "apply_relations env payload st =
     (let msg = from_payload payload in
      bind_s (st, mapM_r (ce_parse_dict env) (list_items (rm_relations_to_add msg))) (\<lambda>st to_add.
      bind_s (st, mapM_r (ce_parse_dict env) (list_items (rm_relations_to_remove msg))) (\<lambda>st to_remove.
      bind_s (st, fencing_check st) (\<lambda>st fc.
      bind_s (with_svc st (delete_relationships (ce_delete env) (co_svc st) to_remove (Some fc))) (\<lambda>st delete_token.
      bind_s (with_svc st (write_relationships (ce_create env) (co_svc st) to_add (Some fc))) (\<lambda>st add_token.
        let token = (if add_token \<noteq> [] then add_token else case delete_token of None \<Rightarrow> [] | Some t \<Rightarrow> t)
        in record_processed env (info_get payload ''resource_context'' PyNone) token st))))))"

definition process_relations_message ::
  "('svc, 'b) consumer_env \<Rightarrow> debezium_message \<Rightarrow> ('svc, 'b) consumer \<Rightarrow> ('svc, 'b) consumer \<times> bool result" where
  "process_relations_message env msg st =
     (if \<not> validate_replication_message (dm_payload msg) then (st, Inl MessageValidationError)
      else case apply_relations env (case dm_payload msg of PyDict p \<Rightarrow> p | _ \<Rightarrow> []) st of
             (st', Inl (RpcError True)) \<Rightarrow> (st', Inl RuntimeError)
           | outcome \<Rightarrow> outcome)"

definition process_debezium_message ::
  "('svc, 'b) consumer_env \<Rightarrow> py_dict \<Rightarrow> ('svc, 'b) consumer \<Rightarrow> ('svc, 'b) consumer \<times> bool result" where
  "process_debezium_message env message_value st = process_relations_message env (from_kafka_message message_value) st"

definition process_single ::
  "('svc, 'b) consumer_env \<Rightarrow> pyval \<Rightarrow> ('svc, 'b) consumer \<Rightarrow> ('svc, 'b) consumer \<times> bool result" where
  "process_single env message_value st =
     bind_s (st, parse_debezium_message (ce_loads env) message_value) (\<lambda>st parsed.
       process_debezium_message env parsed st)"

definition should_skip_retry :: "(py_error \<Rightarrow> bool) option \<Rightarrow> py_error \<Rightarrow> bool" where
  "should_skip_retry error_handler e =
     (if e \<in> {MessageValidationError, ParseError} then True
      else case error_handler of None \<Rightarrow> False | Some h \<Rightarrow> h e)"

definition process_wrapper ::
  "('svc, 'b) consumer_env \<Rightarrow> pyval \<Rightarrow> ('svc, 'b) consumer \<Rightarrow> ('svc, 'b) consumer \<times> bool result" where
  "process_wrapper env message_value st =
     bind_s (process_single env message_value st) (\<lambda>st success.
       if \<not> success then (st, Inl RuntimeError) else (st, Inr True))"

definition process_message_with_retry ::
  "('svc, 'b) consumer_env \<Rightarrow> pyval \<Rightarrow> int \<Rightarrow> (py_error \<Rightarrow> bool) option \<Rightarrow> ('svc, 'b) consumer
   \<Rightarrow> (('svc, 'b) consumer \<times> bool result) option" where
  "process_message_with_retry env message_value message_offset error_handler st =
     map_option
       (\<lambda>(st', result, _).
          case result of
            Inr _ \<Rightarrow> (st', Inr True)
          | Inl InterruptedError \<Rightarrow> (st', Inr False)
          | Inl RuntimeError \<Rightarrow> (st'\<lparr>co_is_paused_for_retry := True\<rparr>, Inl RuntimeError)
          | Inl e \<Rightarrow> (st', Inl e))
       (retry_run (ce_retry env) (Some (should_skip_retry error_handler)) (ce_random env message_offset)
          (ce_shutdown env message_offset) (process_wrapper env message_value) 0 [] st)"

section \<open>Locks and health\<close>

definition truthy_token :: "string option \<Rightarrow> bool" where
  "truthy_token t = (case t of None \<Rightarrow> False | Some s \<Rightarrow> s \<noteq> [])"

definition lock_name :: "('svc, 'b) consumer_env \<Rightarrow> topic_partition \<Rightarrow> string" where
  "lock_name env tp = ce_group_id env @ ''/'' @ int_str (snd tp)"

fun acquire_attempts ::
  "('svc, 'b) consumer_env \<Rightarrow> string \<Rightarrow> nat \<Rightarrow> ('svc, 'b) consumer \<Rightarrow> ('svc, 'b) consumer \<times> string result" where
  "acquire_attempts env lock_id 0 st = (st, Inl RuntimeError)"
| "acquire_attempts env lock_id (Suc n) st =
     (case with_svc st (acquire_lock (ce_acquire env) (co_svc st) lock_id) of
        (st', Inr token) \<Rightarrow> (st', Inr token)
      | (st', Inl (RpcError _)) \<Rightarrow> if n = 0 then (st', Inl RuntimeError) else acquire_attempts env lock_id n st'
      | (st', Inl e) \<Rightarrow> (st', Inl e))"

definition acquire_lock_with_retry ::
  "('svc, 'b) consumer_env \<Rightarrow> string \<Rightarrow> ('svc, 'b) consumer \<Rightarrow> ('svc, 'b) consumer \<times> string result" where
  "acquire_lock_with_retry env lock_id st = acquire_attempts env lock_id (nat (ce_lock_max_retries env)) st"

definition update_health_status :: "bool \<Rightarrow> ('svc, 'b) consumer \<Rightarrow> ('svc, 'b) consumer" where
  "update_health_status healthy st =
     (if healthy then st\<lparr>co_is_healthy := True, co_liveness_file := True, co_readiness_file := True\<rparr>
      else st\<lparr>co_is_healthy := False, co_readiness_file := False\<rparr>)"

text \<open>\<open>reachable\<close>: the client can list the partitions of the topic; \<open>initialised\<close>: there is a client.\<close>

definition health_check_loop_iteration :: "bool \<Rightarrow> bool \<Rightarrow> ('svc, 'b) consumer \<Rightarrow> ('svc, 'b) consumer" where
  "health_check_loop_iteration initialised reachable st =
     (if co_is_consuming st \<and> initialised then
        if reachable then update_health_status True st
        else st\<lparr>co_liveness_file := True, co_readiness_file := False\<rparr>
      else if co_is_consuming st then update_health_status False st
      else st)"

definition commit_stored ::
  "('svc, 'b) consumer_env \<Rightarrow> ('svc, 'b) consumer \<Rightarrow> ('svc, 'b) consumer \<times> bool \<times> nat" where
  "commit_stored env st =
     (let (b', stored', outcome) = offset_commit (ce_kafka env) (co_broker st) (co_stored st)
      in (st\<lparr>co_broker := b', co_stored := stored'\<rparr>, outcome))"

definition on_partitions_revoked ::
  "('svc, 'b) consumer_env \<Rightarrow> ('svc, 'b) consumer \<Rightarrow> ('svc, 'b) consumer" where
  "on_partitions_revoked env st =
     (if \<not> commit_on_rebalance (ce_commit env) then st
      else if co_shutdown_in_progress st then st
      else let st = fst (commit_stored env st)
           in if truthy_token (co_lock_token st) then st\<lparr>co_lock_token := None, co_lock_id := None\<rparr> else st)"

definition on_partitions_assigned ::
  "('svc, 'b) consumer_env \<Rightarrow> topic_partition list \<Rightarrow> ('svc, 'b) consumer \<Rightarrow> ('svc, 'b) consumer" where
  "on_partitions_assigned env partitions st =
     (case partitions of
        [] \<Rightarrow> st
      | tp # _ \<Rightarrow>
          let group_id = (if ce_group_id env = [] then ''unknown'' else ce_group_id env);
              lock_id = group_id @ ''/'' @ int_str (snd tp)
          in (case acquire_lock_with_retry env lock_id st of
                (st', Inr token) \<Rightarrow>
                  st'\<lparr>co_lock_id := Some lock_id, co_lock_token := Some token, co_lock_acquisition_failed := False\<rparr>
              | (st', Inl _) \<Rightarrow>
                  (update_health_status False (st'\<lparr>co_lock_token := None, co_lock_id := None\<rparr>))
                    \<lparr>co_lock_acquisition_failed := True\<rparr>))"

definition ensure_lock_token_on_assignment ::
  "('svc, 'b) consumer_env \<Rightarrow> ('svc, 'b) consumer \<Rightarrow> ('svc, 'b) consumer \<times> bool result" where
  "ensure_lock_token_on_assignment env st =
     (case kc_assignment (ce_kafka env) (co_broker st) of
        [] \<Rightarrow> (st, Inr False)
      | tp # _ \<Rightarrow>
          let expected = lock_name env tp
          in if truthy_token (co_lock_token st) \<and> co_lock_id st = Some expected then (st, Inr True)
             else
               let st = (if truthy_token (co_lock_token st) then st\<lparr>co_lock_token := None, co_lock_id := None\<rparr> else st)
               in (case acquire_lock_with_retry env expected st of
                     (st', Inr token) \<Rightarrow>
                       (st'\<lparr>co_lock_id := Some expected, co_lock_token := Some token,
                            co_lock_acquisition_failed := False\<rparr>, Inr True)
                   | (st', Inl _) \<Rightarrow> (st', Inl RuntimeError)))"

section \<open>The message loop\<close>

type_synonym committed_offsets = "(topic_partition \<times> int) list"

definition message_partition :: "kafka_message \<Rightarrow> topic_partition" where
  "message_partition m = (km_topic m, km_partition m)"

definition initialize_partition_offset_tracking ::
  "('svc, 'b) consumer_env \<Rightarrow> topic_partition \<Rightarrow> committed_offsets \<Rightarrow> ('svc, 'b) consumer
   \<Rightarrow> ('svc, 'b) consumer \<times> committed_offsets" where
  "initialize_partition_offset_tracking env tp last_committed st =
     (let (b', r) = kc_committed (ce_kafka env) (co_broker st) tp
      in (st\<lparr>co_broker := b'\<rparr>,
          AList.update tp (case r of Inr (Some c) \<Rightarrow> c | _ \<Rightarrow> -1) last_committed))"

definition handle_tombstone_message ::
  "('svc, 'b) consumer_env \<Rightarrow> kafka_message \<Rightarrow> ('svc, 'b) consumer \<Rightarrow> ('svc, 'b) consumer" where
  "handle_tombstone_message env m st =
     (let st = st\<lparr>co_stored := offset_store (message_partition m) (km_offset m) (km_leader_epoch m) (co_stored st)\<rparr>
      in if should_commit (ce_commit env) (km_offset m) then fst (commit_stored env st) else st)"

definition parse_message_value :: "('svc, 'b) consumer_env \<Rightarrow> string \<Rightarrow> pyval result" where
  "parse_message_value env value = bind_r (ce_decode env value) (ce_loads env)"

definition process_and_commit_message ::
  "('svc, 'b) consumer_env \<Rightarrow> kafka_message \<Rightarrow> pyval \<Rightarrow> committed_offsets \<Rightarrow> ('svc, 'b) consumer
   \<Rightarrow> (('svc, 'b) consumer \<times> (committed_offsets \<times> bool) result) option" where
  "process_and_commit_message env m message_value last_committed st =
     (case process_message_with_retry env message_value (km_offset m) None st of
        None \<Rightarrow> None
      | Some (st, Inl e) \<Rightarrow> Some (st, Inl e)
      | Some (st, Inr False) \<Rightarrow> Some (st, Inr (last_committed, False))
      | Some (st, Inr True) \<Rightarrow>
          let tp = message_partition m;
              st = st\<lparr>co_stored := offset_store tp (km_offset m) (km_leader_epoch m) (co_stored st)\<rparr>
          in if should_commit (ce_commit env) (km_offset m)
             then let (st, success, _) = commit_stored env st
                  in Some (st, Inr (if success then AList.update tp (km_offset m + 1) last_committed else last_committed, True))
             else Some (st, Inr (last_committed, True)))"

text \<open>The body of the loop's \<open>try\<close> statement.\<close>

definition handle_message ::
  "('svc, 'b) consumer_env \<Rightarrow> kafka_message \<Rightarrow> committed_offsets \<Rightarrow> ('svc, 'b) consumer
   \<Rightarrow> (('svc, 'b) consumer \<times> (committed_offsets \<times> bool) result) option" where
  "handle_message env m last_committed st =
     (let tp = message_partition m;
          (st, last_committed) =
            (if map_of last_committed tp = None
             then initialize_partition_offset_tracking env tp last_committed st else (st, last_committed))
      in case km_value m of
           None \<Rightarrow> Some (handle_tombstone_message env m st, Inr (last_committed, True))
         | Some value \<Rightarrow>
             (case parse_message_value env value of
                Inl e \<Rightarrow> Some (st, Inl e)
              | Inr message_value \<Rightarrow> process_and_commit_message env m message_value last_committed st))"

fun run_message_loop ::
  "('svc, 'b) consumer_env \<Rightarrow> kafka_message list \<Rightarrow> committed_offsets \<Rightarrow> ('svc, 'b) consumer
   \<Rightarrow> (('svc, 'b) consumer \<times> unit result) option" where
  "run_message_loop env [] last_committed st = Some (st, Inr ())"
| "run_message_loop env (m # ms) last_committed st =
     (if co_lock_acquisition_failed st then Some (st, Inl RuntimeError)
      else case (if last_committed = [] then ensure_lock_token_on_assignment env st else (st, Inr True)) of
             (st, Inl e) \<Rightarrow> Some (st, Inl e)
           | (st, Inr False) \<Rightarrow> Some (st, Inl RuntimeError)
           | (st, Inr True) \<Rightarrow>
               (case handle_message env m last_committed st of
                  None \<Rightarrow> None
                | Some (st, Inl e) \<Rightarrow> Some (st, Inl e)
                | Some (st, Inr (last_committed, True)) \<Rightarrow> run_message_loop env ms last_committed st
                | Some (st, Inr (_, False)) \<Rightarrow> Some (st, Inr ())))"

definition initialize_consumer_setup ::
  "('svc, 'b) consumer_env \<Rightarrow> ('svc, 'b) consumer \<Rightarrow> ('svc, 'b) consumer \<times> unit result" where
  "initialize_consumer_setup env st =
     (if \<not> ce_kafka_enabled env then (st, Inl RuntimeError)
      else if ce_topic env = [] then (st, Inl RuntimeError)
      else (update_health_status True (st\<lparr>co_stored := [], co_is_consuming := True\<rparr>), Inr ()))"

definition commit_at_end :: "('svc, 'b) consumer_env \<Rightarrow> ('svc, 'b) consumer \<Rightarrow> ('svc, 'b) consumer" where
  "commit_at_end env st =
     (if commit_on_shutdown (ce_commit env) \<and> \<not> co_is_paused_for_retry st then fst (commit_stored env st) else st)"

text \<open>\<open>messages\<close> are the messages that the client yields while the consumer runs.\<close>

definition start_consuming ::
  "('svc, 'b) consumer_env \<Rightarrow> kafka_message list \<Rightarrow> ('svc, 'b) consumer \<Rightarrow> (('svc, 'b) consumer \<times> unit result) option" where
  "start_consuming env messages st =
     (case initialize_consumer_setup env st of
        (st, Inl e) \<Rightarrow>
          Some ((update_health_status False st)\<lparr>co_shutdown_in_progress := True, co_is_consuming := False\<rparr>, Inl e)
      | (st, Inr _) \<Rightarrow>
          map_option
            (\<lambda>(st, r).
               let st = (case r of Inl _ \<Rightarrow> update_health_status False st | Inr _ \<Rightarrow> st);
                   st = st\<lparr>co_shutdown_in_progress := True, co_is_consuming := False\<rparr>
               in (commit_at_end env st, r))
            (run_message_loop env messages [] st))"

definition stop_consuming :: "('svc, 'b) consumer_env \<Rightarrow> ('svc, 'b) consumer \<Rightarrow> ('svc, 'b) consumer" where
  "stop_consuming env st =
     update_health_status False
       (commit_at_end env (st\<lparr>co_shutdown_in_progress := True, co_is_consuming := False\<rparr>))"

end
