(* ===== verification/Delivery.thy ===== *)
theory Delivery
  imports Kafka_Consumer
begin

text \<open>
  The consumer's contract and the end-to-end guarantee: whatever fails, is retried, redelivered or
  restarted, the tuple service ends with the tuples of the events that were put in the outbox.

  \<open>delivery\<close> is the interface between the consumer and what it calls. Its laws are the documented
  behaviour of the tuple service (a create call upserts, a delete call removes the tuple its filter
  describes, a call that fails may have done part of its work, acquiring a lock changes no tuple),
  of the Kafka broker (\<open>broker_commits\<close>, reading a position changes none) and of the protobuf
  parser (it reads back the dictionary form of a tuple).
\<close>

section \<open>The interface\<close>

locale delivery =
  fixes env :: "('svc, 'b) consumer_env"
    and content :: "'svc \<Rightarrow> relation_tuple set"
    and committed :: "'b \<Rightarrow> topic_partition \<Rightarrow> int option"
  assumes create_tuples: "list_all valid_relation_tuple ts \<Longrightarrow> ce_create env svc ts fc = (svc', r) \<Longrightarrow>
      content svc \<subseteq> content svc' \<and> content svc' \<subseteq> content svc \<union> set ts \<and>
      (is_ok r \<longrightarrow> content svc' = content svc \<union> set ts)"
    and delete_tuple: "valid_relation_tuple t \<Longrightarrow> ce_delete env svc (exact_filter t) fc = (svc', r) \<Longrightarrow>
      content svc - {t} \<subseteq> content svc' \<and> content svc' \<subseteq> content svc \<and>
      (is_ok r \<longrightarrow> content svc' = content svc - {t})"
    and acquire_neutral: "ce_acquire env svc lock_id = (svc', r) \<Longrightarrow> content svc' = content svc"
    and commits: "broker_commits (ce_kafka env) committed"
    and reading_neutral: "kc_committed (ce_kafka env) b tp = (b', c) \<Longrightarrow> committed b' = committed b"
    and parse_dict: "valid_relation_tuple t \<Longrightarrow> ce_parse_dict env (to_dict t) = Inr t"

text \<open>
  What a step may change while it processes a row with additions \<open>add\<close> and removals \<open>rem\<close>: the
  service, and in it only tuples of the row, the tenants and the notifications.
\<close>

definition changes_only ::
  "('svc \<Rightarrow> relation_tuple set) \<Rightarrow> relation_tuple set \<Rightarrow> ('svc, 'b) consumer \<Rightarrow> ('svc, 'b) consumer \<Rightarrow> bool" where
  "changes_only content T st st' \<longleftrightarrow>
     st' = st\<lparr>co_svc := co_svc st', co_tenants := co_tenants st', co_notifications := co_notifications st'\<rparr> \<and>
     content (co_svc st') - T = content (co_svc st) - T"

lemma changes_only_refl [simp]: "changes_only content T st st"
  by (simp add: changes_only_def)

lemma changes_only_trans:
  assumes "changes_only content T st st1" and "changes_only content T st1 st2"
  shows "changes_only content T st st2"
proof -
  have "st2 = st1\<lparr>co_svc := co_svc st2, co_tenants := co_tenants st2, co_notifications := co_notifications st2\<rparr>"
    using assms(2) by (simp only: changes_only_def)
  also have "\<dots> = st\<lparr>co_svc := co_svc st2, co_tenants := co_tenants st2, co_notifications := co_notifications st2\<rparr>"
    using assms(1) by (cases st; cases st1) (simp add: changes_only_def)
  finally show ?thesis using assms by (simp add: changes_only_def)
qed

lemma changes_only_frame:
  assumes "changes_only content T st st'"
  shows "co_stored st' = co_stored st" "co_broker st' = co_broker st" "co_lock_id st' = co_lock_id st"
    "co_lock_token st' = co_lock_token st" "co_lock_acquisition_failed st' = co_lock_acquisition_failed st"
  using assms by (cases st; cases st'; simp add: changes_only_def)+

lemma changes_only_svc: "content svc - T = content (co_svc st) - T \<Longrightarrow> changes_only content T st (st\<lparr>co_svc := svc\<rparr>)"
  by (simp add: changes_only_def)

lemma best_effort_changes:
  "changes_only content T st (save_consistency_token_best_effort env x y st)"
  "changes_only content T st (send_pg_notify_best_effort env x y st)"
  by (auto simp: save_consistency_token_best_effort_def send_pg_notify_best_effort_def changes_only_def
      split: option.splits)

lemma best_effort_svc [simp]:
  "co_svc (save_consistency_token_best_effort env x y st) = co_svc st"
  "co_svc (send_pg_notify_best_effort env x y st) = co_svc st"
  by (simp_all add: save_consistency_token_best_effort_def send_pg_notify_best_effort_def split: option.splits)

lemma recording_changes:
  "changes_only content T st (save_token env ctx token st)"
  "changes_only content T st (notify_created_workspace env ctx st)"
  "changes_only content T st (notify_migration env ctx st)"
  by (auto simp: save_token_def notify_created_workspace_def notify_migration_def Let_def best_effort_changes
      split: pyval.splits option.splits)

lemma recording_svc [simp]:
  "co_svc (save_token env ctx token st) = co_svc st"
  "co_svc (notify_created_workspace env ctx st) = co_svc st"
  "co_svc (notify_migration env ctx st) = co_svc st"
  by (auto simp: save_token_def notify_created_workspace_def notify_migration_def Let_def
      split: pyval.splits option.splits)

lemma record_processed_changes:
  assumes "record_processed env ctx token st = (st', r)"
  shows "changes_only content T st st'" "co_svc st' = co_svc st" "r \<noteq> Inr False"
    "hashable (context_field ctx ''event_type'') \<Longrightarrow> r = Inr True"
proof -
  have "changes_only content T st (notify_migration env ctx (notify_created_workspace env ctx (save_token env ctx token st)))"
    by (rule changes_only_trans [OF recording_changes(1)], rule changes_only_trans [OF recording_changes(2)])
      (rule recording_changes(3))
  with assms show "changes_only content T st st'" "co_svc st' = co_svc st" "r \<noteq> Inr False"
    "hashable (context_field ctx ''event_type'') \<Longrightarrow> r = Inr True"
    by (auto simp: record_processed_def split: if_splits)
qed

text \<open>The payload of a row for the additions \<open>add\<close> and the removals \<open>rem\<close>.\<close>

definition relations_payload :: "py_dict \<Rightarrow> relation_tuple list \<Rightarrow> relation_tuple list \<Rightarrow> bool" where
  "relations_payload p add rem \<longleftrightarrow>
     map_of p ''relations_to_add'' = Some (PyList (map to_dict add)) \<and>
     map_of p ''relations_to_remove'' = Some (PyList (map to_dict rem)) \<and>
     list_all valid_relation_tuple add \<and> list_all valid_relation_tuple rem \<and>
     (add \<noteq> [] \<or> rem \<noteq> []) \<and>
     hashable (context_field (info_get p ''resource_context'' PyNone) ''event_type'')"

text \<open>
  A message value that wraps a payload as the connector does: a dictionary with a schema and the
  payload, as a dictionary or as its JSON text.
\<close>

definition wraps_payload :: "('svc, 'b) consumer_env \<Rightarrow> pyval \<Rightarrow> py_dict \<Rightarrow> bool" where
  "wraps_payload env v p =
     (case v of
        PyDict d \<Rightarrow> map_of d ''schema'' \<noteq> None \<and>
          (case map_of d ''payload'' of
             Some (PyDict q) \<Rightarrow> q = p
           | Some (PyStr text) \<Rightarrow> ce_loads env text = Inr (PyDict p)
           | _ \<Rightarrow> False)
      | _ \<Rightarrow> False)"

lemma parse_wrapped:
  assumes "wraps_payload env v p" and "relations_payload p add rem"
  shows "\<exists>m. parse_debezium_message (ce_loads env) v = Inr m \<and> info_get m ''payload'' (PyDict []) = PyDict p"
proof -
  from assms(1) obtain d x where v: "v = PyDict d" and schema: "map_of d ''schema'' \<noteq> None"
    and x: "map_of d ''payload'' = Some x" "case x of PyDict q \<Rightarrow> q = p
      | PyStr text \<Rightarrow> ce_loads env text = Inr (PyDict p) | _ \<Rightarrow> False"
    by (cases v) (auto simp: wraps_payload_def split: option.split_asm)
  have pl: "map_of d ''payload'' = Some (PyDict p) \<or>
             (\<exists>text. map_of d ''payload'' = Some (PyStr text) \<and> ce_loads env text = Inr (PyDict p))"
    using x by (cases x) auto
  have "map_of p ''relations_to_add'' \<noteq> None" using assms(2) by (simp add: relations_payload_def)
  with schema pl show ?thesis
    unfolding v by (auto simp: parse_debezium_message_def info_get_def)
qed

lemma relations_payload_valid:
  assumes "relations_payload p add rem" shows "validate_replication_message (PyDict p)"
proof -
  have "list_all valid_relation (map to_dict ts)" for ts
    by (simp add: list_all_iff valid_relation_def to_dict_def)
  with assms show ?thesis
    by (auto simp: relations_payload_def validate_replication_message_def info_get_def is_list_def list_items_def)
qed

lemma process_single_wrapped:
  assumes "wraps_payload env v p" and "relations_payload p add rem"
  shows "process_single env v st =
    (case apply_relations env p st of (st', Inl (RpcError True)) \<Rightarrow> (st', Inl RuntimeError) | outcome \<Rightarrow> outcome)"
proof -
  from parse_wrapped [OF assms] obtain m where
    m: "parse_debezium_message (ce_loads env) v = Inr m" "info_get m ''payload'' (PyDict []) = PyDict p" by blast
  with relations_payload_valid [OF assms(2)] show ?thesis
    by (simp add: process_single_def process_debezium_message_def process_relations_message_def
        from_kafka_message_def)
qed

context delivery
begin

lemma delete_each_content:
  "list_all valid_relation_tuple ts \<Longrightarrow> delete_each (ce_delete env) fc ts svc tok = (svc', r) \<Longrightarrow>
     content svc - set ts \<subseteq> content svc' \<and> content svc' \<subseteq> content svc \<and>
     (is_ok r \<longrightarrow> content svc' = content svc - set ts)"
proof (induction ts arbitrary: svc tok)
  case (Cons t ts)
  obtain s1 r1 where call: "ce_delete env svc (exact_filter t) fc = (s1, r1)" by fastforce
  with Cons.prems(1) have law: "content svc - {t} \<subseteq> content s1 \<and> content s1 \<subseteq> content svc \<and>
      (is_ok r1 \<longrightarrow> content s1 = content svc - {t})"
    by (intro delete_tuple) simp_all
  show ?case
  proof (cases r1)
    case (Inl e)
    with Cons.prems(2) call law show ?thesis by auto
  next
    case (Inr tok')
    with Cons.prems(2) call have "delete_each (ce_delete env) fc ts s1 (Some tok') = (svc', r)" by simp
    from Cons.IH [OF _ this] Cons.prems(1) law Inr show ?thesis by auto
  qed
qed auto

lemma delete_relationships_content:
  "list_all valid_relation_tuple ts \<Longrightarrow> delete_relationships (ce_delete env) svc ts fc = (svc', r) \<Longrightarrow>
     content svc - set ts \<subseteq> content svc' \<and> content svc' \<subseteq> content svc \<and>
     (is_ok r \<longrightarrow> content svc' = content svc - set ts)"
  unfolding delete_relationships_def by (rule delete_each_content)

lemma parse_dicts: "list_all valid_relation_tuple ts \<Longrightarrow> mapM_r (ce_parse_dict env) (map to_dict ts) = Inr ts"
  by (induction ts) (simp_all add: parse_dict)

lemma apply_relations_row:
  assumes row: "relations_payload p add rem" and run: "apply_relations env p st = (st', r)"
  shows "changes_only content (set add \<union> set rem) st st' \<and>
    (\<forall>b. r = Inr b \<longrightarrow> b \<and> content (co_svc st') = (content (co_svc st) - set rem) \<union> set add)"
proof -
  note valid = row [unfolded relations_payload_def, THEN conjunct2, THEN conjunct2, THEN conjunct1]
    row [unfolded relations_payload_def, THEN conjunct2, THEN conjunct2, THEN conjunct2, THEN conjunct1]
  let ?ctx = "info_get p ''resource_context'' PyNone"
  let ?T = "set add \<union> set rem"
  have run': "bind_s (st, fencing_check st) (\<lambda>st fc.
      bind_s (with_svc st (delete_relationships (ce_delete env) (co_svc st) rem (Some fc))) (\<lambda>st delete_token.
      bind_s (with_svc st (write_relationships (ce_create env) (co_svc st) add (Some fc))) (\<lambda>st add_token.
        record_processed env ?ctx (if add_token \<noteq> [] then add_token else case delete_token of None \<Rightarrow> [] | Some t \<Rightarrow> t) st))) = (st', r)"
    using run row valid
    by (simp add: apply_relations_def from_payload_def relations_payload_def info_get_def list_items_def parse_dicts Let_def)
  show ?thesis
  proof (cases "fencing_check st")
    case (Inl e)
    with run' show ?thesis by auto
  next
    case (Inr fc)
    obtain s1 r1 where d: "delete_relationships (ce_delete env) (co_svc st) rem (Some fc) = (s1, r1)" by fastforce
    note dl = delete_relationships_content [OF valid(2) d]
    show ?thesis
    proof (cases r1)
      case 1: (Inl e)
      with run' Inr d have "st' = st\<lparr>co_svc := s1\<rparr>" "r = Inl e" by (simp_all add: with_svc_def)
      with dl show ?thesis by (auto intro!: changes_only_svc)
    next
      case 1: (Inr dtok)
      obtain s2 r2 where c: "ce_create env s1 add (Some fc) = (s2, r2)" by fastforce
      note cl = create_tuples [OF valid(1) c]
      have only: "changes_only content ?T st (st\<lparr>co_svc := s2\<rparr>)" using dl cl by (auto intro!: changes_only_svc)
      show ?thesis
      proof (cases r2)
        case 2: (Inl e)
        with run' Inr d 1 c have "st' = st\<lparr>co_svc := s2\<rparr>" "r = Inl e"
          by (simp_all add: with_svc_def write_relationships_def)
        with only show ?thesis by simp
      next
        case 2: (Inr atok)
        with run' Inr d 1 c have rec: "record_processed env ?ctx
            (if atok \<noteq> [] then atok else case dtok of None \<Rightarrow> [] | Some t \<Rightarrow> t) (st\<lparr>co_svc := s2\<rparr>) = (st', r)"
          by (simp add: with_svc_def write_relationships_def)
        note rp = record_processed_changes [OF rec]
        have "content (co_svc st') = (content (co_svc st) - set rem) \<union> set add"
          using rp(2) dl cl 1 2 by auto
        with rp(3) changes_only_trans [OF only rp(1)] show ?thesis by auto
      qed
    qed
  qed
qed

lemma process_wrapper_row:
  assumes v: "wraps_payload env v p" and row: "relations_payload p add rem"
    and run: "process_wrapper env v st = (st', r)"
  shows "changes_only content (set add \<union> set rem) st st' \<and>
    (\<forall>b. r = Inr b \<longrightarrow> b \<and> content (co_svc st') = (content (co_svc st) - set rem) \<union> set add)"
proof -
  obtain s1 r1 where a: "apply_relations env p st = (s1, r1)" by fastforce
  note law = apply_relations_row [OF row a]
  from run have "st' = s1 \<and> (\<forall>b. r = Inr b \<longrightarrow> r1 = Inr b)"
    using a law by (auto simp: process_wrapper_def process_single_wrapped [OF v row] bind_s_def
        split: sum.splits py_error.splits bool.splits if_splits)
  with law show ?thesis by blast
qed

lemma retried_row:
  assumes v: "wraps_payload env v p" and row: "relations_payload p add rem"
    and run: "process_message_with_retry env v off handler st = Some (st', r)"
  shows "\<exists>st1 paused. st' = st1\<lparr>co_is_paused_for_retry := paused\<rparr> \<and>
    changes_only content (set add \<union> set rem) st st1 \<and>
    (r = Inr True \<longrightarrow> content (co_svc st1) = (content (co_svc st) - set rem) \<union> set add)"
proof -
  let ?fn = "process_wrapper env v"
  from run obtain st1 r1 waits where
    retry: "retry_run (ce_retry env) (Some (should_skip_retry handler)) (ce_random env off) (ce_shutdown env off) ?fn 0 [] st =
      Some (st1, r1, waits)"
    and out: "(st', r) = (case r1 of Inr _ \<Rightarrow> (st1, Inr True) | Inl InterruptedError \<Rightarrow> (st1, Inr False)
      | Inl RuntimeError \<Rightarrow> (st1\<lparr>co_is_paused_for_retry := True\<rparr>, Inl RuntimeError) | Inl e \<Rightarrow> (st1, Inl e))"
    by (auto simp: process_message_with_retry_def)
  obtain n where n: "st1 = fst (?fn (attempt_state ?fn st n))"
    and verd: "verdict (ce_retry env) (Some (should_skip_retry handler)) (ce_random env off) (ce_shutdown env off) n
      (attempt_result ?fn st n) = Some r1"
    using retry_run_SomeD [OF retry] by (auto simp: attempt_state_Suc simp del: attempt_state_simps)
  have step: "changes_only content (set add \<union> set rem) s (fst (?fn s))" for s
    using process_wrapper_row [OF v row, of s "fst (?fn s)" "snd (?fn s)"] by simp
  have before: "changes_only content (set add \<union> set rem) st (attempt_state ?fn st n)"
    by (rule attempt_state_invariant) (auto intro: changes_only_trans step)
  then have only: "changes_only content (set add \<union> set rem) st st1"
    unfolding n by (rule changes_only_trans [OF _ step])
  have "content (co_svc st1) = (content (co_svc st) - set rem) \<union> set add" if "r = Inr True"
  proof -
    from that out obtain b where "r1 = Inr b" by (auto split: sum.splits py_error.splits)
    with verd have "snd (?fn (attempt_state ?fn st n)) = Inr b" by (simp add: verdict_success attempt_result_def)
    then have "content (co_svc st1) = (content (co_svc (attempt_state ?fn st n)) - set rem) \<union> set add"
      using process_wrapper_row [OF v row, of "attempt_state ?fn st n" st1 "Inr b"] n by (metis prod.collapse)
    with before show ?thesis by (auto simp: changes_only_def)
  qed
  moreover have "\<exists>paused. st' = st1\<lparr>co_is_paused_for_retry := paused\<rparr>"
    using out by (cases st1) (auto split: sum.splits py_error.splits)
  ultimately show ?thesis using only by blast
qed

end

section \<open>Positions in the log\<close>

text \<open>
  \<open>ds\<close> lists the additions and removals of the rows. At position \<open>p\<close> the service is settled when
  it agrees with the first \<open>p\<close> rows on every tuple that no later row mentions; the later rows
  determine the other tuples anyway, so rows that are delivered again do no harm.
\<close>

type_synonym delta = "relation_tuple list \<times> relation_tuple list"

definition apply_delta :: "relation_tuple set \<Rightarrow> delta \<Rightarrow> relation_tuple set" where
  "apply_delta S d = (S - set (snd d)) \<union> set (fst d)"

definition mentioned :: "delta list \<Rightarrow> relation_tuple set" where
  "mentioned ds = (\<Union>d \<in> set ds. set (fst d) \<union> set (snd d))"

definition settled_at :: "delta list \<Rightarrow> nat \<Rightarrow> relation_tuple set \<Rightarrow> relation_tuple set \<Rightarrow> bool" where
  "settled_at ds p S C \<longleftrightarrow>
     C - mentioned (drop p ds) = foldl apply_delta S (take p ds) - mentioned (drop p ds)"

lemma mentioned_simps [simp]:
  "mentioned [] = {}"
  "mentioned (d # ds) = set (fst d) \<union> set (snd d) \<union> mentioned ds"
  "mentioned (xs @ ys) = mentioned xs \<union> mentioned ys"
  by (auto simp: mentioned_def)

lemma apply_delta_unmentioned: "foldl apply_delta S ds - mentioned ds = S - mentioned ds"
proof (induction ds arbitrary: S)
  case (Cons d ds)
  have "foldl apply_delta S (d # ds) - mentioned (d # ds) =
      (foldl apply_delta (apply_delta S d) ds - mentioned ds) - (set (fst d) \<union> set (snd d))"
    by auto
  also have "\<dots> = S - mentioned (d # ds)" unfolding Cons.IH by (auto simp: apply_delta_def)
  finally show ?case .
qed simp

lemma settled_step:
  assumes "p < length ds" and "settled_at ds p S C"
  shows "settled_at ds (Suc p) S (apply_delta C (ds ! p))"
proof -
  have d: "drop p ds = ds ! p # drop (Suc p) ds" and t: "take (Suc p) ds = take p ds @ [ds ! p]"
    using assms(1) by (simp_all add: Cons_nth_drop_Suc take_Suc_conv_app_nth)
  show ?thesis using assms(2) unfolding settled_at_def d t by (auto simp: apply_delta_def)
qed

lemma settled_disturbed:
  assumes "p < length ds" and "settled_at ds p S C"
    and "C' - (set (fst (ds ! p)) \<union> set (snd (ds ! p))) = C - (set (fst (ds ! p)) \<union> set (snd (ds ! p)))"
  shows "settled_at ds p S C'"
proof -
  have d: "drop p ds = ds ! p # drop (Suc p) ds" using assms(1) by (simp add: Cons_nth_drop_Suc)
  show ?thesis using assms(2,3) unfolding settled_at_def d by auto
qed

lemma settled_back:
  assumes "k \<le> p" and "settled_at ds p S C"
  shows "settled_at ds k S C"
proof -
  define mid where "mid = take (p - k) (drop k ds)"
  have "mid @ drop (p - k) (drop k ds) = drop k ds" unfolding mid_def by (rule append_take_drop_id)
  then have d: "drop k ds = mid @ drop p ds" using assms(1) by simp
  have t: "take p ds = take k ds @ mid" using assms(1) by (simp add: mid_def take_add [symmetric])
  show ?thesis
    using assms(2) apply_delta_unmentioned [of "foldl apply_delta S (take k ds)" mid]
    unfolding settled_at_def d t by auto
qed

lemma settled_all: "settled_at ds (length ds) S C \<longleftrightarrow> C = foldl apply_delta S ds"
  by (simp add: settled_at_def)

text \<open>A message that carries a row, and the log of a partition.\<close>

definition carries :: "('svc, 'b) consumer_env \<Rightarrow> kafka_message \<Rightarrow> delta \<Rightarrow> bool" where
  "carries env m d \<longleftrightarrow>
     (\<exists>bytes text v p. km_value m = Some bytes \<and> ce_decode env bytes = Inr text \<and> ce_loads env text = Inr v \<and>
        wraps_payload env v p \<and> relations_payload p (fst d) (snd d))"

definition partition_log :: "('svc, 'b) consumer_env \<Rightarrow> topic_partition \<Rightarrow> kafka_message list \<Rightarrow> delta list \<Rightarrow> bool" where
  "partition_log env tp msgs ds \<longleftrightarrow>
     list_all2 (carries env) msgs ds \<and> sorted_wrt (<) (map km_offset msgs) \<and>
     list_all (\<lambda>m. message_partition m = tp) msgs"

text \<open>A consumer that starts at the committed position \<open>c\<close> gets every message from index \<open>p\<close> on.\<close>

definition covered :: "kafka_message list \<Rightarrow> nat \<Rightarrow> int \<Rightarrow> bool" where
  "covered msgs p c \<longleftrightarrow> (\<forall>i < length msgs. km_offset (msgs ! i) < c \<longrightarrow> i < p)"

definition consumer_inv ::
  "('svc \<Rightarrow> relation_tuple set) \<Rightarrow> ('b \<Rightarrow> topic_partition \<Rightarrow> int option) \<Rightarrow> topic_partition \<Rightarrow> kafka_message list
   \<Rightarrow> delta list \<Rightarrow> relation_tuple set \<Rightarrow> nat \<Rightarrow> ('svc, 'b) consumer \<Rightarrow> bool" where
  "consumer_inv content committed tp msgs ds S p st \<longleftrightarrow>
     p \<le> length msgs \<and> settled_at ds p S (content (co_svc st)) \<and>
     (\<forall>c. committed (co_broker st) tp = Some c \<longrightarrow> covered msgs p c) \<and>
     (\<forall>off e. (tp, off, e) \<in> set (co_stored st) \<longrightarrow> covered msgs p (off + 1))"

lemma covered_Suc: "covered msgs p c \<Longrightarrow> covered msgs (Suc p) c"
  unfolding covered_def using less_SucI by blast

lemma covered_next:
  assumes "sorted_wrt (<) (map km_offset msgs)" and "p < length msgs"
  shows "covered msgs (Suc p) (km_offset (msgs ! p) + 1)"
proof -
  have "i \<le> p" if "i < length msgs" "km_offset (msgs ! i) \<le> km_offset (msgs ! p)" for i
    using that assms sorted_wrt_nth_less [of "(<)" "map km_offset msgs" p i] by (cases "i \<le> p") auto
  then show ?thesis by (auto simp: covered_def less_Suc_eq_le)
qed

lemma commit_stored_fields:
  "commit_stored env st = (st', ok, n) \<Longrightarrow> co_svc st' = co_svc st \<and> co_lock_id st' = co_lock_id st \<and>
     co_lock_token st' = co_lock_token st \<and> co_lock_acquisition_failed st' = co_lock_acquisition_failed st"
  by (auto simp: commit_stored_def split: prod.splits)

context delivery
begin

lemma commit_stored_inv:
  assumes "consumer_inv content committed tp msgs ds S p st"
  shows "consumer_inv content committed tp msgs ds S p (fst (commit_stored env st))"
proof (cases "co_stored st = []")
  case True
  then show ?thesis using assms by (simp add: commit_stored_def offset_commit_def consumer_inv_def)
next
  case False
  obtain b' outcome where send: "commit_send (ce_kafka env) (co_broker st) (co_stored st) = (b', outcome)" by fastforce
  have eq: "fst (commit_stored env st) = st\<lparr>co_broker := b', co_stored := fst (commit_settle (co_stored st) outcome (co_stored st))\<rparr>"
    using False send by (simp add: commit_stored_def offset_commit_def split: prod.splits)
  have "set (fst (commit_settle (co_stored st) outcome (co_stored st))) \<subseteq> set (co_stored st)"
    using commit_settle_subset [of "co_stored st" outcome "co_stored st"] by simp
  then show ?thesis
    using assms commit_send_committed [OF commits send, of tp] unfolding eq consumer_inv_def
    by (auto dest: subsetD)
qed

lemma track_inv:
  assumes "consumer_inv content committed tp msgs ds S p st"
    and "initialize_partition_offset_tracking env tp' lc st = (st', lc')"
  shows "consumer_inv content committed tp msgs ds S p st' \<and> lc' \<noteq> [] \<and>
    co_svc st' = co_svc st \<and> co_lock_id st' = co_lock_id st \<and> co_lock_token st' = co_lock_token st \<and>
    co_lock_acquisition_failed st' = co_lock_acquisition_failed st"
proof -
  obtain b' r where c: "kc_committed (ce_kafka env) (co_broker st) tp' = (b', r)" by fastforce
  with assms(2) have "st' = st\<lparr>co_broker := b'\<rparr>" and lc': "map_of lc' tp' \<noteq> None"
    by (auto simp: initialize_partition_offset_tracking_def)
  moreover have "lc' \<noteq> []" using lc' by auto
  ultimately show ?thesis using assms(1) reading_neutral [OF c] by (simp add: consumer_inv_def)
qed

lemma store_inv:
  assumes "consumer_inv content committed tp msgs ds S (Suc p) st"
    and "sorted_wrt (<) (map km_offset msgs)" "p < length msgs"
  shows "consumer_inv content committed tp msgs ds S (Suc p)
    (st\<lparr>co_stored := offset_store tp (km_offset (msgs ! p)) e (co_stored st)\<rparr>)"
proof -
  have "covered msgs (Suc p) (off + 1)"
    if "(tp, off, e') \<in> set (offset_store tp (km_offset (msgs ! p)) e (co_stored st))" for off e'
    using set_AList_update [OF that [unfolded offset_store_def]] assms(1) covered_next [OF assms(2,3)]
    by (auto simp: consumer_inv_def)
  with assms(1) show ?thesis by (auto simp: consumer_inv_def)
qed

lemma processed_inv:
  assumes inv: "consumer_inv content committed tp msgs ds S p st"
    and p: "p < length ds" and d: "ds ! p = (add, rem)"
    and v: "wraps_payload env v q" and row: "relations_payload q add rem"
    and run: "process_message_with_retry env v off handler st = Some (st', r)"
  shows "consumer_inv content committed tp msgs ds S p st' \<and>
    (r = Inr True \<longrightarrow> p < length msgs \<longrightarrow> consumer_inv content committed tp msgs ds S (Suc p) st')"
proof -
  obtain st1 paused where st': "st' = st1\<lparr>co_is_paused_for_retry := paused\<rparr>"
    and only: "changes_only content (set add \<union> set rem) st st1"
    and full: "r = Inr True \<longrightarrow> content (co_svc st1) = (content (co_svc st) - set rem) \<union> set add"
    using retried_row [OF v row run] by blast
  note frame = changes_only_frame [OF only]
  have s: "settled_at ds p S (content (co_svc st))" using inv by (simp add: consumer_inv_def)
  have "settled_at ds p S (content (co_svc st1))"
    by (rule settled_disturbed [OF p s]) (use only d in \<open>simp add: changes_only_def\<close>)
  moreover have "settled_at ds (Suc p) S (content (co_svc st1))" if "r = Inr True"
    using settled_step [OF p s] full that d by (simp add: apply_delta_def)
  ultimately show ?thesis
    using inv frame(1,2) covered_Suc unfolding st' consumer_inv_def by simp
qed

lemma handle_message_inv:
  assumes l: "partition_log env tp msgs ds" and p: "p < length msgs"
    and inv: "consumer_inv content committed tp msgs ds S p st"
    and run: "handle_message env (msgs ! p) lc st = Some (st', r)"
  shows "(case r of Inr (lc', True) \<Rightarrow> lc' \<noteq> [] \<and> consumer_inv content committed tp msgs ds S (Suc p) st'
    | _ \<Rightarrow> consumer_inv content committed tp msgs ds S p st')"
proof -
  have p': "p < length ds" and tp: "message_partition (msgs ! p) = tp"
    and sorted: "sorted_wrt (<) (map km_offset msgs)" and "carries env (msgs ! p) (ds ! p)"
    using l p by (auto simp: partition_log_def list_all2_conv_all_nth list_all_length)
  then obtain bytes str v q add rem where m: "km_value (msgs ! p) = Some bytes" "ce_decode env bytes = Inr str"
    "ce_loads env str = Inr v" "wraps_payload env v q" "relations_payload q add rem" "ds ! p = (add, rem)"
    by (cases "ds ! p") (auto simp: carries_def)
  obtain st0 lc0 where t: "(if map_of lc tp = None then initialize_partition_offset_tracking env tp lc st else (st, lc)) = (st0, lc0)"
    by fastforce
  have inv0: "consumer_inv content committed tp msgs ds S p st0" and lc0: "lc0 \<noteq> []"
    using t track_inv [OF inv] inv by (auto split: if_splits)
  have run0: "process_and_commit_message env (msgs ! p) v lc0 st0 = Some (st', r)"
    using run t m(1-3) by (simp add: handle_message_def tp parse_message_value_def)
  show ?thesis
  proof (cases "process_message_with_retry env v (km_offset (msgs ! p)) None st0")
    case None
    with run0 show ?thesis by (simp add: process_and_commit_message_def)
  next
    case (Some out)
    obtain st1 r1 where out: "out = (st1, r1)" by (cases out)
    note inv1 = processed_inv [OF inv0 p' m(6,4,5) Some [unfolded out]]
    consider e where "r1 = Inl e" | "r1 = Inr False" | "r1 = Inr True" by (cases r1) (metis (full_types))+
    then show ?thesis
    proof cases
      case 3
      let ?st = "st1\<lparr>co_stored := offset_store tp (km_offset (msgs ! p)) (km_leader_epoch (msgs ! p)) (co_stored st1)\<rparr>"
      have "consumer_inv content committed tp msgs ds S (Suc p) ?st"
        by (rule store_inv [OF _ sorted p]) (use inv1 3 p in simp)
      from this commit_stored_inv [OF this] show ?thesis
        using run0 Some out 3 lc0 by (cases "commit_stored env ?st")
          (auto simp: process_and_commit_message_def tp Let_def split: if_splits)
    qed (use run0 Some out inv1 in \<open>auto simp: process_and_commit_message_def\<close>)
  qed
qed

lemma acquire_neutral_state:
  "acquire_attempts env lock_id n st = (st', r) \<Longrightarrow> \<exists>svc. st' = st\<lparr>co_svc := svc\<rparr> \<and> content svc = content (co_svc st)"
proof (induction n arbitrary: st)
  case 0
  then show ?case by (intro exI [of _ "co_svc st"]) simp
next
  case (Suc n)
  obtain svc r1 where a: "ce_acquire env (co_svc st) lock_id = (svc, r1)" by fastforce
  note same = acquire_neutral [OF a]
  have "st' = st\<lparr>co_svc := svc\<rparr> \<or> acquire_attempts env lock_id n (st\<lparr>co_svc := svc\<rparr>) = (st', r)"
    using Suc.prems a
    by (auto simp: with_svc_def acquire_lock_def split: sum.splits py_error.splits if_splits)
  then show ?case
  proof
    assume "st' = st\<lparr>co_svc := svc\<rparr>"
    with same show ?thesis by blast
  next
    assume "acquire_attempts env lock_id n (st\<lparr>co_svc := svc\<rparr>) = (st', r)"
    from Suc.IH [OF this] same show ?thesis by auto
  qed
qed

lemma consumer_inv_cong:
  assumes "content (co_svc st') = content (co_svc st)" and "co_broker st' = co_broker st"
    and sub: "set (co_stored st') \<subseteq> set (co_stored st)"
    and inv: "consumer_inv content committed tp msgs ds S p st"
  shows "consumer_inv content committed tp msgs ds S p st'"
proof -
  have "covered msgs p (off + 1)" if "(tp, off, e) \<in> set (co_stored st')" for off e
    using subsetD [OF sub that] inv by (simp add: consumer_inv_def) blast
  with assms(1,2) inv show ?thesis by (simp add: consumer_inv_def)
qed

lemma ensure_lock_neutral:
  assumes "ensure_lock_token_on_assignment env st = (st', r)"
  shows "content (co_svc st') = content (co_svc st) \<and> co_broker st' = co_broker st \<and> co_stored st' = co_stored st"
proof (cases "kc_assignment (ce_kafka env) (co_broker st)")
  case Nil
  with assms show ?thesis by (simp add: ensure_lock_token_on_assignment_def)
next
  case (Cons tp tps)
  define st0 where "st0 = (if truthy_token (co_lock_token st) then st\<lparr>co_lock_token := None, co_lock_id := None\<rparr> else st)"
  obtain st1 r1 where a: "acquire_lock_with_retry env (lock_name env tp) st0 = (st1, r1)" by fastforce
  obtain svc where st1: "st1 = st0\<lparr>co_svc := svc\<rparr>" "content svc = content (co_svc st0)"
    using acquire_neutral_state a unfolding acquire_lock_with_retry_def by blast
  have st0: "co_svc st0 = co_svc st" "co_broker st0 = co_broker st" "co_stored st0 = co_stored st"
    by (simp_all add: st0_def)
  show ?thesis
  proof (cases "truthy_token (co_lock_token st) \<and> co_lock_id st = Some (lock_name env tp)")
    case True
    with assms Cons show ?thesis by (simp add: ensure_lock_token_on_assignment_def Let_def)
  next
    case False
    with assms Cons have "(st', r) = (case (st1, r1) of
        (s, Inr token) \<Rightarrow> (s\<lparr>co_lock_id := Some (lock_name env tp), co_lock_token := Some token,
            co_lock_acquisition_failed := False\<rparr>, Inr True)
      | (s, Inl _) \<Rightarrow> (s, Inl RuntimeError))"
      unfolding a [symmetric] st0_def by (simp add: ensure_lock_token_on_assignment_def Let_def)
    with st1 st0 show ?thesis by (cases r1) simp_all
  qed
qed

lemma ensure_lock_inv:
  assumes "ensure_lock_token_on_assignment env st = (st', r)"
    and "consumer_inv content committed tp msgs ds S p st"
  shows "consumer_inv content committed tp msgs ds S p st'"
  using ensure_lock_neutral [OF assms(1)] assms(2) by (auto intro: consumer_inv_cong)

lemma run_message_loop_inv:
  assumes "partition_log env tp msgs ds"
  shows "consumer_inv content committed tp msgs ds S p st \<Longrightarrow>
    run_message_loop env (take n (drop p msgs)) lc st = Some (st', r) \<Longrightarrow>
    \<exists>q \<ge> p. consumer_inv content committed tp msgs ds S q st'"
proof (induction n arbitrary: p lc st)
  case 0
  then show ?case by auto
next
  case (Suc n)
  show ?case
  proof (cases "p < length msgs")
    case False
    with Suc.prems show ?thesis by auto
  next
    case True
    then have m: "take (Suc n) (drop p msgs) = msgs ! p # take n (drop (Suc p) msgs)"
      by (simp add: Cons_nth_drop_Suc [symmetric])
    obtain st1 r1 where e: "(if lc = [] then ensure_lock_token_on_assignment env st else (st, Inr True)) = (st1, r1)"
      by fastforce
    have inv1: "consumer_inv content committed tp msgs ds S p st1"
      using e Suc.prems(1) ensure_lock_inv by (auto split: if_splits)
    show ?thesis
    proof (cases "handle_message env (msgs ! p) lc st1")
      case None
      with Suc.prems inv1 e show ?thesis unfolding m by (auto split: if_splits sum.splits bool.splits)
    next
      case (Some out)
      obtain st2 r2 where out: "out = (st2, r2)" by (cases out)
      note inv2 = handle_message_inv [OF assms True inv1 Some [unfolded out]]
      from Suc.prems(2) e Some out consider "st' = st" | "st' = st1"
        | "st' = st2" "case r2 of Inr (lc', True) \<Rightarrow> False | _ \<Rightarrow> True"
        | lc' where "r2 = Inr (lc', True)" "run_message_loop env (take n (drop (Suc p) msgs)) lc' st2 = Some (st', r)"
        unfolding m by (auto split: if_splits sum.splits bool.splits prod.splits)
      then show ?thesis
      proof cases
        case 3
        with inv2 have "consumer_inv content committed tp msgs ds S p st'"
          by (auto split: sum.splits bool.splits prod.splits)
        then show ?thesis by blast
      next
        case 4
        with inv2 have "\<exists>q \<ge> Suc p. consumer_inv content committed tp msgs ds S q st'"
          by (intro Suc.IH) auto
        then show ?thesis using Suc_leD by blast
      qed (use Suc.prems(1) inv1 in auto)
    qed
  qed
qed

lemma setup_inv:
  assumes "initialize_consumer_setup env st = (st', r)"
    and "consumer_inv content committed tp msgs ds S p st"
  shows "consumer_inv content committed tp msgs ds S p st'"
  using assms by (auto simp: initialize_consumer_setup_def update_health_status_def consumer_inv_def split: if_splits)

lemma commit_at_end_inv:
  "consumer_inv content committed tp msgs ds S p st \<Longrightarrow> consumer_inv content committed tp msgs ds S p (commit_at_end env st)"
  by (simp add: commit_at_end_def commit_stored_inv)

lemma start_consuming_inv:
  assumes "partition_log env tp msgs ds" and inv: "consumer_inv content committed tp msgs ds S p st"
    and run: "start_consuming env (take n (drop p msgs)) st = Some (st', r)"
  shows "\<exists>q \<ge> p. consumer_inv content committed tp msgs ds S q st'"
proof -
  have flags: "consumer_inv content committed tp msgs ds S q
      ((case r of Inl _ \<Rightarrow> update_health_status False s | Inr _ \<Rightarrow> s)\<lparr>co_shutdown_in_progress := True, co_is_consuming := False\<rparr>)"
    if "consumer_inv content committed tp msgs ds S q s" for q s and r :: "unit result"
    using that by (cases r) (simp_all add: consumer_inv_def update_health_status_def)
  obtain st0 r0 where su: "initialize_consumer_setup env st = (st0, r0)" by fastforce
  note inv0 = setup_inv [OF su inv]
  show ?thesis
  proof (cases r0)
    case (Inl e)
    with run su have "st' = (update_health_status False st0)\<lparr>co_shutdown_in_progress := True, co_is_consuming := False\<rparr>"
      by (simp add: start_consuming_def)
    then have "consumer_inv content committed tp msgs ds S p st'"
      by (intro consumer_inv_cong [OF _ _ _ inv0]) (simp_all add: update_health_status_def)
    then show ?thesis by blast
  next
    case (Inr u)
    with run su obtain st1 where loop: "run_message_loop env (take n (drop p msgs)) [] st0 = Some (st1, r)"
      and st': "st' = commit_at_end env ((case r of Inl _ \<Rightarrow> update_health_status False st1 | Inr _ \<Rightarrow> st1)
          \<lparr>co_shutdown_in_progress := True, co_is_consuming := False\<rparr>)"
      by (auto simp: start_consuming_def Let_def)
    from run_message_loop_inv [OF assms(1) inv0 loop] show ?thesis
      unfolding st' using commit_at_end_inv [OF flags] by blast
  qed
qed

end

section \<open>Sessions\<close>

text \<open>
  A restarted consumer keeps nothing but what is in the service, the broker and the database; it
  gets the messages from the committed position on, or all of them when none is committed
  (\<open>auto_offset_reset\<close> is \<open>earliest\<close>).
\<close>

definition restarted :: "('svc, 'b) consumer \<Rightarrow> ('svc, 'b) consumer" where
  "restarted st = new_consumer (co_svc st) (co_broker st) (co_tenants st) (co_notifications st)"

definition restart_position :: "kafka_message list \<Rightarrow> int option \<Rightarrow> nat" where
  "restart_position msgs c = (case c of None \<Rightarrow> 0 | Some c \<Rightarrow> length (takeWhile (\<lambda>m. km_offset m < c) msgs))"

text \<open>
  Sessions one after the other, each with an environment satisfying \<open>E\<close>: a session ends after any
  number of messages through \<open>start_consuming\<close>, or is killed between two messages without its
  final commit.
\<close>

inductive sessions ::
  "(('svc, 'b) consumer_env \<Rightarrow> bool) \<Rightarrow> ('b \<Rightarrow> topic_partition \<Rightarrow> int option) \<Rightarrow> topic_partition \<Rightarrow> kafka_message list
   \<Rightarrow> ('svc, 'b) consumer \<Rightarrow> ('svc, 'b) consumer \<Rightarrow> bool"
  for E committed tp msgs st0 where
  start: "sessions E committed tp msgs st0 st0"
| ended: "sessions E committed tp msgs st0 st \<Longrightarrow> E env \<Longrightarrow>
    start_consuming env (take n (drop (restart_position msgs (committed (co_broker st) tp)) msgs)) (restarted st) = Some (st', r) \<Longrightarrow>
    sessions E committed tp msgs st0 st'"
| killed: "sessions E committed tp msgs st0 st \<Longrightarrow> E env \<Longrightarrow>
    initialize_consumer_setup env (restarted st) = (st1, Inr ()) \<Longrightarrow>
    run_message_loop env (take n (drop (restart_position msgs (committed (co_broker st) tp)) msgs)) [] st1 = Some (st', r) \<Longrightarrow>
    sessions E committed tp msgs st0 st'"

lemma restart_inv:
  assumes inv: "consumer_inv content committed tp msgs ds S p st" and sorted: "sorted_wrt (<) (map km_offset msgs)"
  shows "consumer_inv content committed tp msgs ds S (restart_position msgs (committed (co_broker st) tp)) (restarted st)"
proof -
  let ?k = "restart_position msgs (committed (co_broker st) tp)"
  have "?k \<le> p"
  proof (cases "committed (co_broker st) tp")
    case (Some c)
    then have c: "covered msgs p c" using inv by (simp add: consumer_inv_def)
    let ?w = "takeWhile (\<lambda>m. km_offset m < c) msgs"
    have "length ?w \<le> p"
    proof (cases ?w rule: rev_cases)
      case (snoc ys y)
      let ?i = "length ?w - 1"
      have i: "?i < length ?w" using snoc by simp
      then have "km_offset (msgs ! ?i) < c"
        using set_takeWhileD [OF nth_mem [OF i]] takeWhile_nth [OF i] by simp
      moreover have "?i < length msgs" using i length_takeWhile_le [of "\<lambda>m. km_offset m < c" msgs] by linarith
      ultimately have "?i < p" using c by (simp add: covered_def)
      then show ?thesis by simp
    qed simp
    then show ?thesis by (simp add: Some restart_position_def)
  qed (simp add: restart_position_def)
  moreover have "covered msgs ?k c" if "committed (co_broker st) tp = Some c" for c
  proof -
    let ?n = "length (takeWhile (\<lambda>m. km_offset m < c) msgs)"
    have "i < ?n" if i: "i < length msgs" "km_offset (msgs ! i) < c" for i
    proof (rule ccontr)
      assume "\<not> i < ?n"
      then have n: "?n \<le> i" "?n < length msgs" using i(1) by simp_all
      have "\<not> km_offset (msgs ! ?n) < c" using nth_length_takeWhile [OF n(2)] by simp
      moreover have "km_offset (msgs ! ?n) \<le> km_offset (msgs ! i)"
        using sorted_wrt_nth_less [OF sorted, of ?n i] n i(1) by (cases "?n = i") auto
      ultimately show False using i(2) by linarith
    qed
    then show ?thesis by (simp add: that restart_position_def covered_def)
  qed
  ultimately show ?thesis
    using inv settled_back [of ?k p ds S] by (auto simp: consumer_inv_def restarted_def new_consumer_def)
qed

section \<open>Progress\<close>

text \<open>
  A service that is available hands out a lock, and as long as a lock is good the calls that
  present it succeed. The consumer is configured to run and has its partition.
\<close>

definition holds_lock :: "('svc \<Rightarrow> relation_fencing_check \<Rightarrow> bool) \<Rightarrow> relation_fencing_check \<Rightarrow> ('svc, 'b) consumer \<Rightarrow> bool" where
  "holds_lock good fc st \<longleftrightarrow> fencing_check st = Inr fc \<and> good (co_svc st) fc \<and> \<not> co_lock_acquisition_failed st"

lemma holds_cong:
  "co_svc st' = co_svc st \<Longrightarrow> co_lock_id st' = co_lock_id st \<Longrightarrow> co_lock_token st' = co_lock_token st \<Longrightarrow>
     co_lock_acquisition_failed st' = co_lock_acquisition_failed st \<Longrightarrow> holds_lock good fc st \<Longrightarrow> holds_lock good fc st'"
  by (simp add: holds_lock_def fencing_check_def)

locale available_delivery = delivery env content committed
  for env :: "('svc, 'b) consumer_env" and content committed +
  fixes available :: "'svc \<Rightarrow> bool" and good :: "'svc \<Rightarrow> relation_fencing_check \<Rightarrow> bool"
  assumes good_create: "good svc fc \<Longrightarrow> \<exists>svc' tok. ce_create env svc ts (Some fc) = (svc', Inr tok) \<and> good svc' fc"
    and good_delete: "good svc fc \<Longrightarrow> \<exists>svc' tok. ce_delete env svc f (Some fc) = (svc', Inr tok) \<and> good svc' fc"
    and available_acquire: "available svc \<Longrightarrow>
      \<exists>svc' tok. ce_acquire env svc l = (svc', Inr tok) \<and> tok \<noteq> [] \<and> good svc' \<lparr>fc_lock_id = l, fc_lock_token = tok\<rparr>"
    and enabled: "ce_kafka_enabled env" "ce_topic env \<noteq> []" "0 < ce_lock_max_retries env"
    and assignment: "kc_assignment (ce_kafka env) b \<noteq> []"
begin

lemma delete_each_good:
  "good svc fc \<Longrightarrow> \<exists>svc' tok'. delete_each (ce_delete env) (Some fc) ts svc tok = (svc', Inr tok') \<and> good svc' fc"
proof (induction ts arbitrary: svc tok)
  case (Cons t ts)
  obtain s1 tok1 where "ce_delete env svc (exact_filter t) (Some fc) = (s1, Inr tok1)" "good s1 fc"
    using good_delete [OF Cons.prems] by blast
  with Cons.IH [of s1 "Some tok1"] show ?case by simp
qed simp

lemma apply_relations_good:
  assumes row: "relations_payload p add rem" and fc: "holds_lock good fc st"
  shows "\<exists>st'. apply_relations env p st = (st', Inr True) \<and> holds_lock good fc st'"
proof -
  have valid: "list_all valid_relation_tuple add" "list_all valid_relation_tuple rem"
    and h: "hashable (context_field (info_get p ''resource_context'' PyNone) ''event_type'')"
    using row by (simp_all add: relations_payload_def)
  have f: "fencing_check st = Inr fc" and g: "good (co_svc st) fc" using fc by (simp_all add: holds_lock_def)
  obtain s1 dtok where d: "delete_relationships (ce_delete env) (co_svc st) rem (Some fc) = (s1, Inr dtok)" "good s1 fc"
    using delete_each_good [OF g] unfolding delete_relationships_def by blast
  obtain s2 atok where c: "ce_create env s1 add (Some fc) = (s2, Inr atok)" "good s2 fc"
    using good_create [OF d(2)] by blast
  obtain st' r where r: "record_processed env (info_get p ''resource_context'' PyNone)
      (if atok \<noteq> [] then atok else case dtok of None \<Rightarrow> [] | Some t \<Rightarrow> t) (st\<lparr>co_svc := s2\<rparr>) = (st', r)" by fastforce
  note rp = record_processed_changes [OF r]
  have "apply_relations env p st = (st', Inr True)"
    using row valid f d(1) c(1) r rp(4) [OF h]
    by (simp add: apply_relations_def from_payload_def relations_payload_def info_get_def list_items_def parse_dicts
        with_svc_def write_relationships_def)
  moreover have "holds_lock good fc st'"
    using changes_only_frame [OF rp(1)] rp(2) c(2) fc by (simp add: holds_lock_def fencing_check_def)
  ultimately show ?thesis by blast
qed

lemma retry_good:
  assumes v: "wraps_payload env v p" and row: "relations_payload p add rem" and fc: "holds_lock good fc st"
  shows "\<exists>st'. process_message_with_retry env v off handler st = Some (st', Inr True) \<and> holds_lock good fc st'"
proof -
  obtain st' where "apply_relations env p st = (st', Inr True)" and h: "holds_lock good fc st'"
    using apply_relations_good [OF row fc] by blast
  then have "process_wrapper env v st = (st', Inr True)"
    by (simp add: process_wrapper_def process_single_wrapped [OF v row])
  from retry_run_first_success [of "process_wrapper env v" st st' True, OF this] h show ?thesis by (simp add: process_message_with_retry_def)
qed

lemma handle_message_good:
  assumes m: "carries env m d" and fc: "holds_lock good fc st"
  shows "\<exists>st' lc'. handle_message env m lc st = Some (st', Inr (lc', True)) \<and> holds_lock good fc st'"
proof -
  obtain bytes str v p where m: "km_value m = Some bytes" "ce_decode env bytes = Inr str"
    "ce_loads env str = Inr v" "wraps_payload env v p" "relations_payload p (fst d) (snd d)"
    using m by (auto simp: carries_def)
  let ?tp = "message_partition m"
  obtain st0 lc0 where t: "(if map_of lc ?tp = None then initialize_partition_offset_tracking env ?tp lc st else (st, lc)) = (st0, lc0)"
    by fastforce
  have "holds_lock good fc st0"
    using t fc by (auto simp: initialize_partition_offset_tracking_def split: if_splits prod.splits
        intro: holds_cong)
  from retry_good [OF m(4,5) this] obtain st1 where
    st1: "process_message_with_retry env v (km_offset m) None st0 = Some (st1, Inr True)" "holds_lock good fc st1" by blast
  let ?st = "st1\<lparr>co_stored := offset_store ?tp (km_offset m) (km_leader_epoch m) (co_stored st1)\<rparr>"
  obtain st2 ok n where c: "commit_stored env ?st = (st2, ok, n)" by (cases "commit_stored env ?st") auto
  have h: "holds_lock good fc ?st" "holds_lock good fc st2"
    using st1(2) commit_stored_fields [OF c] by (auto intro: holds_cong)
  show ?thesis
    using t m(1-3) st1(1) c h
    by (simp add: handle_message_def parse_message_value_def process_and_commit_message_def Let_def)
qed

lemma run_message_loop_good:
  assumes "partition_log env tp msgs ds"
  shows "consumer_inv content committed tp msgs ds S p st \<Longrightarrow> holds_lock good fc st \<Longrightarrow> lc \<noteq> [] \<Longrightarrow>
    \<exists>st'. run_message_loop env (drop p msgs) lc st = Some (st', Inr ()) \<and>
      consumer_inv content committed tp msgs ds S (length msgs) st'"
proof (induction "length msgs - p" arbitrary: p st lc)
  case 0
  then have "p = length msgs" by (simp add: consumer_inv_def)
  with 0 show ?case by auto
next
  case (Suc k)
  then have p: "p < length msgs" by simp
  then have m: "drop p msgs = msgs ! p # drop (Suc p) msgs" by (simp add: Cons_nth_drop_Suc)
  have "carries env (msgs ! p) (ds ! p)"
    using assms p by (auto simp: partition_log_def list_all2_conv_all_nth)
  from handle_message_good [OF this Suc.prems(2)] obtain st1 lc1 where
    h: "handle_message env (msgs ! p) lc st = Some (st1, Inr (lc1, True))" "holds_lock good fc st1" by blast
  have inv1: "lc1 \<noteq> []" "consumer_inv content committed tp msgs ds S (Suc p) st1"
    using handle_message_inv [OF assms p Suc.prems(1) h(1)] by simp_all
  have "k = length msgs - Suc p" using Suc.hyps(2) by simp
  from Suc.hyps(1) [OF this inv1(2) h(2) inv1(1)] show ?case
    using Suc.prems(2,3) h(1) unfolding m by (simp add: holds_lock_def)
qed

lemma ensure_lock_good:
  assumes "available (co_svc st)" and "co_lock_token st = None"
  shows "\<exists>st' fc. ensure_lock_token_on_assignment env st = (st', Inr True) \<and> holds_lock good fc st'"
proof -
  obtain tp tps where as: "kc_assignment (ce_kafka env) (co_broker st) = tp # tps"
    using assignment [of "co_broker st"] by (cases "kc_assignment (ce_kafka env) (co_broker st)") auto
  let ?l = "lock_name env tp"
  obtain n where n: "nat (ce_lock_max_retries env) = Suc n" using enabled(3) by (cases "nat (ce_lock_max_retries env)") auto
  obtain svc tok where a: "ce_acquire env (co_svc st) ?l = (svc, Inr tok)" "tok \<noteq> []"
    "good svc \<lparr>fc_lock_id = ?l, fc_lock_token = tok\<rparr>" using available_acquire [OF assms(1)] by blast
  let ?st = "st\<lparr>co_svc := svc, co_lock_id := Some ?l, co_lock_token := Some tok, co_lock_acquisition_failed := False\<rparr>"
  have "ensure_lock_token_on_assignment env st = (?st, Inr True)"
    using as assms(2) n a(1)
    by (simp add: ensure_lock_token_on_assignment_def truthy_token_def acquire_lock_with_retry_def with_svc_def acquire_lock_def)
  moreover have "holds_lock good \<lparr>fc_lock_id = ?l, fc_lock_token = tok\<rparr> ?st"
    using a(2,3) by (simp add: holds_lock_def fencing_check_def lock_name_def)
  ultimately show ?thesis by blast
qed

lemma loop_from_start_good:
  assumes l: "partition_log env tp msgs ds" and inv: "consumer_inv content committed tp msgs ds S p st"
    and st: "available (co_svc st)" "co_lock_token st = None" "\<not> co_lock_acquisition_failed st"
  shows "\<exists>st'. run_message_loop env (drop p msgs) [] st = Some (st', Inr ()) \<and>
    consumer_inv content committed tp msgs ds S (length msgs) st'"
proof (cases "p < length msgs")
  case False
  then have "p = length msgs" using inv by (simp add: consumer_inv_def)
  with inv show ?thesis by simp
next
  case True
  then have m: "drop p msgs = msgs ! p # drop (Suc p) msgs" by (simp add: Cons_nth_drop_Suc)
  obtain st1 fc where e: "ensure_lock_token_on_assignment env st = (st1, Inr True)" "holds_lock good fc st1"
    using ensure_lock_good [OF st(1,2)] by blast
  have inv1: "consumer_inv content committed tp msgs ds S p st1" by (rule ensure_lock_inv [OF e(1) inv])
  have "carries env (msgs ! p) (ds ! p)"
    using l True by (auto simp: partition_log_def list_all2_conv_all_nth)
  from handle_message_good [OF this e(2)] obtain st2 lc where
    h: "handle_message env (msgs ! p) [] st1 = Some (st2, Inr (lc, True))" "holds_lock good fc st2" by blast
  have inv2: "lc \<noteq> []" "consumer_inv content committed tp msgs ds S (Suc p) st2"
    using handle_message_inv [OF l True inv1 h(1)] by simp_all
  from run_message_loop_good [OF l inv2(2) h(2) inv2(1)] show ?thesis
    using st(3) e(1) h(1) unfolding m by simp
qed

lemma start_consuming_good:
  assumes l: "partition_log env tp msgs ds" and inv: "consumer_inv content committed tp msgs ds S p st"
    and st: "available (co_svc st)" "co_lock_token st = None" "\<not> co_lock_acquisition_failed st"
  shows "\<exists>st'. start_consuming env (drop p msgs) st = Some (st', Inr ()) \<and>
    consumer_inv content committed tp msgs ds S (length msgs) st'"
proof -
  let ?st = "update_health_status True (st\<lparr>co_stored := [], co_is_consuming := True\<rparr>)"
  have su: "initialize_consumer_setup env st = (?st, Inr ())"
    using enabled by (simp add: initialize_consumer_setup_def)
  have f: "available (co_svc ?st)" "co_lock_token ?st = None" "\<not> co_lock_acquisition_failed ?st"
    using st by (simp_all add: update_health_status_def)
  from loop_from_start_good [OF l setup_inv [OF su inv] f] obtain st1 where
    run: "run_message_loop env (drop p msgs) [] ?st = Some (st1, Inr ())"
    and inv1: "consumer_inv content committed tp msgs ds S (length msgs) st1" by blast
  let ?st1 = "st1\<lparr>co_shutdown_in_progress := True, co_is_consuming := False\<rparr>"
  have "consumer_inv content committed tp msgs ds S (length msgs) ?st1"
    by (rule consumer_inv_cong [OF _ _ _ inv1]) simp_all
  from commit_at_end_inv [OF this] run show ?thesis by (simp add: start_consuming_def su)
qed

end

section \<open>From the outbox to the service\<close>

text \<open>The message that the connector publishes for a row.\<close>

definition publishes :: "('svc, 'b) consumer_env \<Rightarrow> kafka_message \<Rightarrow> outbox \<Rightarrow> bool" where
  "publishes env m row =
     (case km_value m of
        None \<Rightarrow> False
      | Some bytes \<Rightarrow>
          (case bind_r (ce_decode env bytes) (ce_loads env) of
             Inl _ \<Rightarrow> False
           | Inr v \<Rightarrow> wraps_payload env v (ob_payload row)))"

lemma publishes_carries:
  "publishes env m row \<Longrightarrow> relations_payload (ob_payload row) (fst d) (snd d) \<Longrightarrow> carries env m d"
  by (auto simp: publishes_def carries_def bind_r_def split: option.splits sum.splits)

lemma event_context_hashable:
  "event_context now e = Some ctx \<Longrightarrow> hashable (context_field (PyDict ctx) ''event_type'')"
  by (auto simp: event_context_def Let_def build_migration_notify_resource_context_def resource_context_to_json_def
      context_field_def info_get_def hashable_def split: option.splits if_splits)

lemma build_payload:
  assumes "replicable e" and "build_replication_event now e = Inr p" and "ev_add e \<noteq> [] \<or> ev_remove e \<noteq> []"
  shows "relations_payload p (ev_add e) (ev_remove e)"
proof -
  let ?rest = "case event_context now e of None \<Rightarrow> [] | Some ctx \<Rightarrow> if ctx = [] then [] else [(''resource_context'', PyDict ctx)]"
  have p: "p = [(''relations_to_add'', PyList (map to_dict (ev_add e))),
      (''relations_to_remove'', PyList (map to_dict (ev_remove e)))] @ ?rest"
    using assms(2) by (auto simp: build_replication_event_def bind_r_Inr_iff)
  have "hashable (context_field (info_get p ''resource_context'' PyNone) ''event_type'')"
    using event_context_hashable [of now e]
    by (cases "event_context now e") (auto simp: p info_get_def context_field_def hashable_def)
  with assms(1,3) show ?thesis by (simp add: relations_payload_def replicable_def p)
qed

lemma outbox_rows:
  assumes "list_all replicable es" and "foldM_r (outbox_replicate outbox_wal_log now) w es = Inr w'"
  shows "\<exists>rows ds. wal_rows w' = wal_rows w @ rows \<and>
    list_all2 (\<lambda>row d. relations_payload (ob_payload row) (fst d) (snd d)) rows ds \<and>
    (\<forall>S. foldl apply_delta S ds = foldl apply_event S es)"
  using assms
proof (induction es arbitrary: w)
  case Nil
  then show ?case by (intro exI [of _ "[]"]) simp
next
  case (Cons e es)
  from Cons.prems obtain w1 where w1: "outbox_replicate outbox_wal_log now w e = Inr w1" and r: "replicable e"
    and rest1: "foldM_r (outbox_replicate outbox_wal_log now) w1 es = Inr w'"
    by (auto simp: bind_r_Inr_iff)
  from w1 obtain p where p: "build_replication_event now e = Inr p"
    and eq: "w1 = save_replication_event outbox_wal_log p (ev_type e) (ev_partition_key e) w"
    by (auto simp: outbox_replicate_def bind_r_Inr_iff)
  note rest = rest1 [unfolded eq]
  let ?w = "save_replication_event outbox_wal_log p (ev_type e) (ev_partition_key e) w"
  have es: "list_all replicable es" using Cons.prems(1) by simp
  obtain rows ds where IH: "wal_rows w' = wal_rows ?w @ rows"
    "list_all2 (\<lambda>row d. relations_payload (ob_payload row) (fst d) (snd d)) rows ds"
    "\<forall>S. foldl apply_delta S ds = foldl apply_event S es"
    using Cons.IH [OF es rest] by blast
  note f = build_replication_event_Inr [OF p]
  show ?case
  proof (cases "ev_add e = [] \<and> ev_remove e = []")
    case True
    then have "?w = w" "apply_event S e = S" for S using f by (simp_all add: save_replication_event_def apply_event_def)
    with IH show ?thesis by auto
  next
    case False
    let ?row = "\<lparr>ob_aggregatetype = aggregate_type_value RELATIONS, ob_aggregateid = ev_partition_key e,
        ob_event_type = event_type_value (ev_type e), ob_payload = p\<rparr>"
    have "?w = outbox_wal_log w ?row" using False f by (auto simp: save_replication_event_def)
    moreover have "relations_payload p (ev_add e) (ev_remove e)" using False by (intro build_payload [OF r p]) simp
    moreover have "apply_delta S (ev_add e, ev_remove e) = apply_event S e" for S
      by (simp add: apply_delta_def apply_event_def)
    ultimately show ?thesis
      using IH by (intro exI [of _ "?row # rows"] exI [of _ "(ev_add e, ev_remove e) # ds"]) simp
  qed
qed

lemma sessions_inv:
  assumes run: "sessions E committed tp msgs st0 st"
    and E: "\<And>env. E env \<Longrightarrow> delivery env content committed \<and> partition_log env tp msgs ds"
    and st0: "content (co_svc st0) = S" "committed (co_broker st0) tp = None" "co_stored st0 = []"
  shows "\<exists>p. consumer_inv content committed tp msgs ds S p st"
  using run
proof induction
  case start
  have "consumer_inv content committed tp msgs ds S 0 st0" using st0 by (simp add: consumer_inv_def settled_at_def)
  then show ?case by blast
next
  case (ended st env n st' r)
  then obtain p where inv: "consumer_inv content committed tp msgs ds S p st" by blast
  note e = E [OF ended.hyps(2)]
  have "sorted_wrt (<) (map km_offset msgs)" using e by (simp add: partition_log_def)
  from delivery.start_consuming_inv [OF e [THEN conjunct1] e [THEN conjunct2] restart_inv [OF inv this] ended.hyps(3)]
  show ?case by blast
next
  case (killed st env st1 n st' r)
  then obtain p where inv: "consumer_inv content committed tp msgs ds S p st" by blast
  note e = E [OF killed.hyps(2)]
  have "sorted_wrt (<) (map km_offset msgs)" using e by (simp add: partition_log_def)
  note inv1 = delivery.setup_inv [OF e [THEN conjunct1] killed.hyps(3) restart_inv [OF inv this]]
  from delivery.run_message_loop_inv [OF e [THEN conjunct1] e [THEN conjunct2] inv1 killed.hyps(4)]
  show ?case by blast
qed

section \<open>A service in memory\<close>

text \<open>
  The contract holds of a service that keeps the tuples in the in-memory store, hands out a fresh
  token per lock and refuses calls with a token that is not the latest, together with the broker
  that keeps positions in a dictionary and the repository's own parser of tuple dictionaries.
\<close>

record memory_service =
  ms_tuples :: tuple_set
  ms_locks :: "(string \<times> string) list"
  ms_issued :: nat

definition ms_good :: "memory_service \<Rightarrow> relation_fencing_check \<Rightarrow> bool" where
  "ms_good svc fc \<longleftrightarrow> map_of (ms_locks svc) (fc_lock_id fc) = Some (fc_lock_token fc)"

definition ms_fenced :: "memory_service \<Rightarrow> relation_fencing_check option \<Rightarrow> tuple_set \<Rightarrow> memory_service \<times> string result" where
  "ms_fenced svc fc ts =
     (if (case fc of None \<Rightarrow> True | Some c \<Rightarrow> ms_good svc c)
      then (svc\<lparr>ms_tuples := ts\<rparr>, Inr ''token'') else (svc, Inl (RpcError True)))"

definition ms_acquire :: "memory_service \<Rightarrow> string \<Rightarrow> memory_service \<times> string result" where
  "ms_acquire svc lock_id =
     (let token = ''lock-'' @ nat_str (ms_issued svc)
      in (svc\<lparr>ms_locks := AList.update lock_id token (ms_locks svc), ms_issued := ms_issued svc + 1\<rparr>, Inr token))"

definition ms_content :: "memory_service \<Rightarrow> relation_tuple set" where
  "ms_content svc = {t \<in> set (ms_tuples svc). valid_relation_tuple t}"

definition memory_env :: "(string \<Rightarrow> pyval result) \<Rightarrow> (memory_service, (topic_partition \<times> int) list) consumer_env" where
  "memory_env loads =
     \<lparr>ce_kafka_enabled = True, ce_topic = ''outbox'', ce_group_id = ''rbac'', ce_retry = default_retry_config,
      ce_commit = default_commit_config, ce_lock_max_retries = 5, ce_channel = ''ryw'',
      ce_decode = Inr, ce_loads = loads, ce_parse_dict = from_message_dict, ce_kafka = sample_client,
      ce_create = (\<lambda>svc ts fc. ms_fenced svc fc (foldl (\<lambda>s t. tuples_add t s) (ms_tuples svc) ts)),
      ce_delete = (\<lambda>svc f fc. ms_fenced svc fc (filter (\<lambda>t. exact_filter t \<noteq> f) (ms_tuples svc))),
      ce_acquire = ms_acquire, ce_db_fault = (\<lambda>_. None), ce_notify_fault = (\<lambda>_ _. None),
      ce_random = (\<lambda>_ _. 0), ce_shutdown = (\<lambda>_ _ _. False)\<rparr>"

lemma exact_filter_inject:
  "valid_relation_tuple t \<Longrightarrow> valid_relation_tuple u \<Longrightarrow> exact_filter t = exact_filter u \<longleftrightarrow> t = u"
  by (auto simp: exact_filter_def Let_def valid_defs split: option.splits
      intro!: relation_tuple.equality subject_reference.equality object_reference.equality object_type.equality)

lemma set_foldl_tuples_add: "set (foldl (\<lambda>s t. tuples_add t s) s ts) = set s \<union> set ts"
  by (induction ts arbitrary: s) (auto simp: tuples_add_def)

interpretation memory_delivery: available_delivery "memory_env loads" ms_content map_of "\<lambda>_. True" ms_good for loads
proof
  fix svc svc' ts fc r
  assume "list_all valid_relation_tuple ts" "ce_create (memory_env loads) svc ts fc = (svc', r)"
  then show "ms_content svc \<subseteq> ms_content svc' \<and> ms_content svc' \<subseteq> ms_content svc \<union> set ts \<and>
      (is_ok r \<longrightarrow> ms_content svc' = ms_content svc \<union> set ts)"
    by (auto simp: memory_env_def ms_fenced_def ms_content_def set_foldl_tuples_add list_all_iff split: if_splits)
next
  fix svc svc' t fc r
  assume "valid_relation_tuple t" "ce_delete (memory_env loads) svc (exact_filter t) fc = (svc', r)"
  then show "ms_content svc - {t} \<subseteq> ms_content svc' \<and> ms_content svc' \<subseteq> ms_content svc \<and>
      (is_ok r \<longrightarrow> ms_content svc' = ms_content svc - {t})"
    by (auto simp: memory_env_def ms_fenced_def ms_content_def exact_filter_inject split: if_splits)
next
  show "broker_commits (ce_kafka (memory_env loads)) map_of"
    by (simp add: memory_env_def sample_client_commits)
qed (auto simp: memory_env_def ms_fenced_def ms_acquire_def ms_content_def ms_good_def
    sample_client_def dict_round_trip Let_def)

section \<open>Properties\<close>

text \<open>
  C1 (liveness): take the rows that any events put in the outbox, published in order on one
  partition, and any history of consumer sessions over it, with failing calls, retries, redelivery,
  shutdowns and restarts. If a session then starts while the tuple service is available, it ends
  normally, and the service holds exactly the tuples that the in-memory replicator holds after the
  same events.
\<close>

theorem consumer_converges:
  assumes events: "list_all replicable es"
    and outbox: "foldM_r (outbox_replicate outbox_wal_log now) \<lparr>wal_table = [], wal_entries = []\<rparr> es = Inr w"
    and memory: "foldM_r in_memory_replicate [] es = Inr store"
    and msgs: "sorted_wrt (<) (map km_offset msgs)" "list_all (\<lambda>m. message_partition m = tp) msgs"
    and E: "\<And>env. E env \<Longrightarrow> delivery env content committed \<and> list_all2 (publishes env) msgs (wal_rows w)"
    and st0: "content (co_svc st0) = {}" "committed (co_broker st0) tp = None" "co_stored st0 = []"
    and past: "sessions E committed tp msgs st0 st"
    and final: "E env" "available_delivery env content committed available good" "available (co_svc st)"
  shows "\<exists>st'. start_consuming env (drop (restart_position msgs (committed (co_broker st) tp)) msgs) (restarted st) =
      Some (st', Inr ()) \<and> content (co_svc st') = set store"
proof -
  obtain ds where rows: "list_all2 (\<lambda>row d. relations_payload (ob_payload row) (fst d) (snd d)) (wal_rows w) ds"
    and ds: "foldl apply_delta {} ds = foldl apply_event {} es"
    using outbox_rows [OF events outbox] by (auto simp: wal_rows_def)
  have log: "partition_log env tp msgs ds" if "E env" for env
  proof -
    have "list_all2 (publishes env) msgs (wal_rows w)" using E [OF that] by simp
    then have "list_all2 (carries env) msgs ds" using rows by (rule list_all2_trans [rotated]) (rule publishes_carries)
    with msgs show ?thesis by (simp add: partition_log_def)
  qed
  have laws: "delivery env content committed \<and> partition_log env tp msgs ds" if "E env" for env
    using E [OF that] log [OF that] by simp
  obtain p where inv: "consumer_inv content committed tp msgs ds {} p st"
    using sessions_inv [OF past laws st0] by blast
  have "length msgs = length ds" using log [OF final(1)] by (auto simp: partition_log_def list_all2_lengthD)
  moreover have "available (co_svc (restarted st))" "co_lock_token (restarted st) = None"
    "\<not> co_lock_acquisition_failed (restarted st)"
    using final(3) by (simp_all add: restarted_def new_consumer_def)
  ultimately obtain st' where
    run: "start_consuming env (drop (restart_position msgs (committed (co_broker st) tp)) msgs) (restarted st) = Some (st', Inr ())"
    and inv': "consumer_inv content committed tp msgs ds {} (length ds) st'"
    using available_delivery.start_consuming_good [OF final(2) log [OF final(1)] restart_inv [OF inv msgs(1)]] by metis
  have "content (co_svc st') = foldl apply_delta {} ds" using inv' by (simp add: consumer_inv_def settled_all)
  also have "\<dots> = set store" using memory.replay [OF events, of "[]"] memory ds by auto
  finally show ?thesis using run by blast
qed

text \<open>A run with one event and one message.\<close>

definition sample_tuple :: relation_tuple where
  "sample_tuple = plain_tuple (''rbac'', ''role_binding'') ''b1'' (''rbac'', ''group'') ''g1'' ''subject'' (Some ''member'')"

definition sample_event :: replication_event where
  "sample_event = \<lparr>ev_type = EV_ASSIGN_ROLE, ev_info = [], ev_partition_key = ''stage'',
     ev_add = [sample_tuple], ev_remove = []\<rparr>"

definition sample_row :: outbox where
  "sample_row =
     \<lparr>ob_aggregatetype = aggregate_type_value RELATIONS, ob_aggregateid = ''stage'', ob_event_type = ''assign_role'',
      ob_payload = [(''relations_to_add'', PyList [to_dict sample_tuple]), (''relations_to_remove'', PyList []),
        (''resource_context'', PyDict [(''org_id'', PyStr []), (''event_type'', PyStr ''assign_role''), (''created_at'', PyInt 0)])]\<rparr>"

definition sample_message :: kafka_message where
  "sample_message = \<lparr>km_topic = ''outbox'', km_partition = 0, km_offset = 7, km_leader_epoch = None, km_value = Some ''row''\<rparr>"

definition sample_loads :: "string \<Rightarrow> pyval result" where
  "sample_loads s =
     (if s = ''row'' then Inr (PyDict [(''schema'', PyDict []), (''payload'', PyDict (ob_payload sample_row))])
      else Inl JSONDecodeError)"

definition sample_consumer :: "(memory_service, (topic_partition \<times> int) list) consumer" where
  "sample_consumer = new_consumer \<lparr>ms_tuples = [], ms_locks = [], ms_issued = 0\<rparr> [] [] []"

lemma sample_tuple_valid: "valid_relation_tuple sample_tuple"
  by (simp add: sample_tuple_def plain_tuple_def valid_defs type_regex_def id_regex_def type_char_def id_char_def is_alnum_def)

lemma sample_outbox:
  "foldM_r (outbox_replicate outbox_wal_log 0) \<lparr>wal_table = [], wal_entries = []\<rparr> [sample_event] =
     Inr (outbox_wal_log \<lparr>wal_table = [], wal_entries = []\<rparr> sample_row)"
  by (simp add: outbox_replicate_def build_replication_event_def check_for_duplicate_relationships_def sample_event_def
      event_context_def migration_notify_coordination_def MIGRATION_NOTIFY_COORDINATIONS_def resource_context_to_json_def
      info_get_def save_replication_event_def sample_row_def py_str_def)

lemma sample_publishes: "publishes (memory_env sample_loads) sample_message sample_row"
  by (simp add: publishes_def sample_message_def memory_env_def sample_loads_def wraps_payload_def)

lemma sample_state:
  "ms_content (co_svc sample_consumer) = {}" "map_of (co_broker sample_consumer) (''outbox'', 0) = None"
  "co_stored sample_consumer = []" "restarted sample_consumer = sample_consumer"
  by (simp_all add: sample_consumer_def new_consumer_def ms_content_def restarted_def)

theorem consumer_converges_witness:
  "\<exists>st'. start_consuming (memory_env sample_loads) [sample_message] sample_consumer = Some (st', Inr ()) \<and>
     ms_content (co_svc st') = {sample_tuple}"
proof -
  let ?env = "memory_env sample_loads"
  have rep: "list_all replicable [sample_event]"
    by (simp add: replicable_def sample_event_def sample_tuple_valid)
  have mem: "foldM_r in_memory_replicate [] [sample_event] = Inr [sample_tuple]"
    by (simp add: in_memory_replicate_def tuples_write_cases sample_event_def set_union_def)
  have laws: "delivery env ms_content map_of \<and>
      list_all2 (publishes env) [sample_message] (wal_rows (outbox_wal_log \<lparr>wal_table = [], wal_entries = []\<rparr> sample_row))"
    if "env = ?env" for env
  proof -
    have "wal_rows \<lparr>wal_table = [], wal_entries = []\<rparr> = []" by (simp add: wal_rows_def)
    then show ?thesis unfolding that using memory_delivery.delivery_axioms sample_publishes by simp
  qed
  have ms: "sorted_wrt (<) (map km_offset [sample_message])"
    "list_all (\<lambda>m. message_partition m = (''outbox'', 0)) [sample_message]"
    by (simp_all add: sample_message_def message_partition_def)
  have pos: "drop (restart_position [sample_message] (map_of (co_broker sample_consumer) (''outbox'', 0))) [sample_message] = [sample_message]"
    by (simp add: sample_state restart_position_def)
  show ?thesis
    using consumer_converges [where E = "\<lambda>env. env = ?env", OF rep sample_outbox mem ms laws sample_state(1-3) sessions.start refl
        memory_delivery.available_delivery_axioms TrueI]
    unfolding pos sample_state(4) by simp
qed

text \<open>
  C14 (invariant): at every point of every history there is a position in the log such that the
  committed offset makes no later message skipped and the service agrees with the rows before
  it on all tuples that no later row mentions: delivery is at least once, and redelivery is harmless.
\<close>

theorem at_least_once:
  assumes run: "sessions E committed tp msgs st0 st"
    and laws: "\<And>env. E env \<Longrightarrow> delivery env content committed \<and> partition_log env tp msgs ds"
    and st0: "content (co_svc st0) = S" "committed (co_broker st0) tp = None" "co_stored st0 = []"
  shows "\<exists>p \<le> length msgs.
    (\<forall>c i. committed (co_broker st) tp = Some c \<longrightarrow> i < length msgs \<longrightarrow> km_offset (msgs ! i) < c \<longrightarrow> i < p) \<and>
    content (co_svc st) - mentioned (drop p ds) = foldl apply_delta S (take p ds) - mentioned (drop p ds)"
  using sessions_inv [OF run laws st0] by (auto simp: consumer_inv_def settled_at_def covered_def)

theorem at_least_once_witness:
  "\<exists>p \<le> length [sample_message].
     ms_content (co_svc sample_consumer) - mentioned (drop p [([sample_tuple], [])]) =
     foldl apply_delta {} (take p [([sample_tuple], [])]) - mentioned (drop p [([sample_tuple], [])])"
proof -
  let ?env = "memory_env sample_loads"
  have "relations_payload (ob_payload sample_row) [sample_tuple] []"
    by (simp add: relations_payload_def sample_row_def sample_tuple_valid info_get_def context_field_def hashable_def)
  with sample_publishes have "carries ?env sample_message ([sample_tuple], [])" using publishes_carries by fastforce
  then have laws: "delivery env ms_content map_of \<and> partition_log env (''outbox'', 0) [sample_message] [([sample_tuple], [])]"
    if "env = ?env" for env
    unfolding that using memory_delivery.delivery_axioms
    by (simp add: partition_log_def message_partition_def sample_message_def)
  show ?thesis
    using at_least_once [where E = "\<lambda>env. env = ?env", OF sessions.start laws sample_state(1-3)] by blast
qed

text \<open>
  C15 (safety): a consumer without a lock, or whose lock has been given to another consumer, changes
  nothing: every message it tries to process fails, no tuple changes, no token is saved and
  nobody is notified.
\<close>

theorem stale_consumer_harmless:
  assumes refused: "\<And>svc ts fc. \<not> good svc fc \<Longrightarrow> ce_create env svc ts (Some fc) = (svc, Inl (RpcError True))"
      "\<And>svc f fc. \<not> good svc fc \<Longrightarrow> ce_delete env svc f (Some fc) = (svc, Inl (RpcError True))"
    and stale: "\<And>fc. fencing_check st = Inr fc \<Longrightarrow> \<not> good (co_svc st) fc"
  shows "\<exists>e. process_single env v st = (st, Inl e)"
proof -
  have apply': "\<exists>e. apply_relations env p st = (st, Inl e)" for p
  proof (cases "fencing_check st")
    case (Inl e)
    then show ?thesis
      by (cases "mapM_r (ce_parse_dict env) (list_items (rm_relations_to_add (from_payload p)))";
          cases "mapM_r (ce_parse_dict env) (list_items (rm_relations_to_remove (from_payload p)))")
        (simp_all add: apply_relations_def Let_def)
  next
    case (Inr fc)
    note bad = refused(1) [OF stale [OF Inr]] refused(2) [OF stale [OF Inr]]
    have "delete_relationships (ce_delete env) (co_svc st) rem (Some fc) =
        (co_svc st, if rem = [] then Inr None else Inl (RpcError True))" for rem
      by (cases rem) (simp_all add: delete_relationships_def bad)
    then show ?thesis
      by (cases "mapM_r (ce_parse_dict env) (list_items (rm_relations_to_add (from_payload p)))";
          cases "mapM_r (ce_parse_dict env) (list_items (rm_relations_to_remove (from_payload p)))")
        (simp_all add: apply_relations_def Let_def with_svc_def write_relationships_def Inr bad)
  qed
  have "\<exists>e. process_relations_message env m st = (st, Inl e)" for m
  proof -
    obtain e where "apply_relations env (case dm_payload m of PyDict p \<Rightarrow> p | _ \<Rightarrow> []) st = (st, Inl e)" using apply' by blast
    then show ?thesis by (auto simp: process_relations_message_def split: py_error.splits bool.splits)
  qed
  then show ?thesis
    by (cases "parse_debezium_message (ce_loads env) v")
      (auto simp: process_single_def process_debezium_message_def)
qed

theorem stale_consumer_harmless_witness:
  "\<exists>e. process_single (memory_env sample_loads)
        (PyDict [(''schema'', PyDict []), (''payload'', PyDict (ob_payload sample_row))])
        (sample_consumer\<lparr>co_lock_id := Some ''rbac/0'', co_lock_token := Some ''lock-3''\<rparr>) =
      (sample_consumer\<lparr>co_lock_id := Some ''rbac/0'', co_lock_token := Some ''lock-3''\<rparr>, Inl e)"
  by (rule stale_consumer_harmless [where good = ms_good])
    (simp_all add: memory_env_def ms_fenced_def ms_good_def sample_consumer_def new_consumer_def)

text \<open>
  C35 (error): a message that arrives while the consumer has no lock token does not stop it at once:
  the error is not among those that skip the retries, so the message is tried again until the retry
  limit, with a wait before each attempt, and only then does the consumer stop.
\<close>

theorem missing_token_is_retried:
  assumes v: "wraps_payload env v p" and row: "relations_payload p add rem"
    and parse: "\<And>t. valid_relation_tuple t \<Longrightarrow> ce_parse_dict env (to_dict t) = Inr t"
    and no_token: "co_lock_token st = None"
    and limit: "0 \<le> operation_max_retries (ce_retry env)" and running: "\<And>n d. \<not> ce_shutdown env off n d"
  shows "\<exists>waits. retry_run (ce_retry env) (Some (should_skip_retry None)) (ce_random env off) (ce_shutdown env off)
      (process_wrapper env v) 0 [] st = Some (st, Inl RuntimeError, waits) \<and>
    int (length waits) = operation_max_retries (ce_retry env)"
proof -
  let ?fn = "process_wrapper env v"
  have dicts: "mapM_r (ce_parse_dict env) (map to_dict ts) = Inr ts" if "list_all valid_relation_tuple ts" for ts
    using that by (induction ts) (simp_all add: parse)
  have "apply_relations env p st = (st, Inl RuntimeError)"
    using row no_token by (auto simp: apply_relations_def from_payload_def relations_payload_def info_get_def
        list_items_def dicts fencing_check_def Let_def split: option.splits)
  then have fn: "?fn st = (st, Inl RuntimeError)"
    by (simp add: process_wrapper_def process_single_wrapped [OF v row])
  then have stay: "attempt_state ?fn st n = st" for n by (induction n) (simp_all add: attempt_state_def)
  let ?verdict = "verdict (ce_retry env) (Some (should_skip_retry None)) (ce_random env off) (ce_shutdown env off)"
  let ?n = "nat (operation_max_retries (ce_retry env))"
  have "attempt_result ?fn st n = Inl RuntimeError" for n by (simp add: attempt_result_def stay fn)
  then have "\<And>i. i < ?n \<Longrightarrow> ?verdict (0 + i) (attempt_result ?fn st i) = None"
    "?verdict (0 + ?n) (attempt_result ?fn st ?n) = Some (Inl RuntimeError)" "exceeded_max_retries (ce_retry env) (0 + ?n)"
    using limit running by (auto simp: verdict_def should_retry_def should_skip_retry_def exceeded_max_retries_def)
  from retry_run_returns [OF this(1,2), of "[]"] this(3) limit show ?thesis by (auto simp: stay)
qed

theorem missing_token_is_retried_witness:
  "\<exists>waits. retry_run default_retry_config (Some (should_skip_retry None)) (\<lambda>_. 0) (\<lambda>_ _. False)
      (process_wrapper (memory_env sample_loads)
        (PyDict [(''schema'', PyDict []), (''payload'', PyDict (ob_payload sample_row))])) 0 [] sample_consumer =
      Some (sample_consumer, Inl RuntimeError, waits) \<and> length waits = 10"
proof -
  let ?env = "memory_env sample_loads"
  let ?v = "PyDict [(''schema'', PyDict []), (''payload'', PyDict (ob_payload sample_row))]"
  have v: "wraps_payload ?env ?v (ob_payload sample_row)" by (simp add: wraps_payload_def)
  have row: "relations_payload (ob_payload sample_row) [sample_tuple] []"
    by (simp add: relations_payload_def sample_row_def sample_tuple_valid info_get_def context_field_def hashable_def)
  have env: "ce_retry ?env = default_retry_config" "ce_random ?env 0 = (\<lambda>_. 0)" "ce_shutdown ?env 0 = (\<lambda>_ _. False)"
    by (simp_all add: memory_env_def)
  have "co_lock_token sample_consumer = None" "0 \<le> operation_max_retries (ce_retry ?env)" "\<And>n d. \<not> ce_shutdown ?env 0 n d"
    by (simp_all add: sample_consumer_def new_consumer_def env default_retry_config_def)
  from missing_token_is_retried [OF v row memory_delivery.parse_dict this] show ?thesis
    unfolding env by (simp add: default_retry_config_def)
qed

end
