(* ===== verification/V2_Values.thy ===== *)
theory V2_Values
  imports Scope_Service Workspace_Tree
begin

text \<open>
  The V2 values of \<open>migration_tool/models.py\<close>: bound resources, roles and role bindings with their
  relation tuples; the resources of the scopes of a tenant (the second half of
  \<open>management/permission/scope_service.py\<close>); the tuples and the deduplication of
  \<open>management/role/relations.py\<close>.

  A frozenset is a list without repetitions. \<open>domain\<close> is \<open>PRINCIPAL_USER_DOMAIN\<close>.
\<close>

section \<open>Permissions\<close>

record v1_resource_def =
  rd_resource_type :: string
  rd_op :: string
  rd_resource_id :: string

record v1_permission =
  vp_app :: string
  vp_resource :: string
  vp_perm :: string
  vp_resource_defs :: "v1_resource_def list"

definition split_v2_perm :: "string \<Rightarrow> (string \<times> string \<times> string) result" where
  "split_v2_perm perm =
     (if perm = ''read'' then Inr (''inventory'', ''groups'', ''read'')
      else if perm = ''write'' then Inr (''inventory'', ''groups'', ''write'')
      else case (str_find CHR ''_'' perm, str_rfind CHR ''_'' perm) of
             (Some i, Some j) \<Rightarrow>
               if i = j then Inl ValueError
               else Inr (take i perm, take (j - (i + 1)) (drop (i + 1) perm), drop (j + 1) perm)
           | _ \<Rightarrow> Inl ValueError)"

definition v1_permission_matches :: "v1_permission \<Rightarrow> string \<Rightarrow> bool result" where
  "v1_permission_matches p v2perm =
     bind_r (split_v2_perm v2perm) (\<lambda>(app, resource, perm).
       if vp_app p \<noteq> ''*'' \<and> cleanNameForV2SchemaCompatibility (vp_app p) \<noteq> app then Inr False
       else if vp_resource p \<noteq> ''*'' \<and> cleanNameForV2SchemaCompatibility (vp_resource p) \<noteq> resource then Inr False
       else if vp_perm p \<noteq> ''*'' \<and> cleanNameForV2SchemaCompatibility (vp_perm p) \<noteq> perm then Inr False
       else Inr True)"

section \<open>Bound resources\<close>

record v2_bound_resource =
  br_type :: "string \<times> string"
  br_id :: string

definition mk_bound_resource :: "string \<times> string \<Rightarrow> pyval \<Rightarrow> v2_bound_resource result" where
  "mk_bound_resource resource_type resource_id =
     (case bind_r (mk_object_type (PyStr (fst resource_type)) (PyStr (snd resource_type))) (\<lambda>ty.
             mk_object_reference ty resource_id) of
        Inl _ \<Rightarrow> Inl PyException
      | Inr ref \<Rightarrow> Inr \<lparr>br_type = resource_type, br_id = or_id ref\<rparr>)"

definition for_workspace_id :: "string \<Rightarrow> v2_bound_resource result" where
  "for_workspace_id workspace_id = mk_bound_resource (''rbac'', ''workspace'') (PyStr workspace_id)"

datatype bound_model = TenantModel tenant | WorkspaceModel workspace

definition try_for_model :: "string \<Rightarrow> bound_model \<Rightarrow> v2_bound_resource option result" where
  "try_for_model domain model =
     (case model of
        WorkspaceModel w \<Rightarrow> bind_r (for_workspace_id (ws_id w)) (\<lambda>r. Inr (Some r))
      | TenantModel t \<Rightarrow>
          (case tenant_resource_id domain t of
             None \<Rightarrow> Inr None
           | Some i \<Rightarrow> bind_r (mk_bound_resource (''rbac'', ''tenant'') (PyStr i)) (\<lambda>r. Inr (Some r))))"

definition for_model :: "string \<Rightarrow> bound_model \<Rightarrow> v2_bound_resource result" where
  "for_model domain model =
     bind_r (try_for_model domain model) (\<lambda>resource.
       case resource of None \<Rightarrow> Inl ValueError | Some r \<Rightarrow> Inr r)"

section \<open>Roles and role bindings\<close>

record v2_role =
  vr_id :: string
  vr_is_system :: bool
  vr_permissions :: "string list"

definition for_system_role :: "string \<Rightarrow> v2_role" where
  "for_system_role i = \<lparr>vr_id = i, vr_is_system = True, vr_permissions = []\<rparr>"

text \<open>The role as it is kept in a dictionary: that of a system role has no permissions.\<close>

definition role_as_dict :: "v2_role \<Rightarrow> v2_role" where
  "role_as_dict r = r\<lparr>vr_permissions := (if vr_is_system r then [] else vr_permissions r)\<rparr>"

record v2_role_binding =
  vb_id :: string
  vb_role :: v2_role
  vb_resource :: v2_bound_resource
  vb_groups :: "string list"
  vb_users :: "(string \<times> string) list"

definition role_binding_group_subject_tuple :: "string \<Rightarrow> string \<Rightarrow> relation_tuple result" where
  "role_binding_group_subject_tuple role_binding_id group_uuid =
     create_relationship (''rbac'', ''role_binding'') role_binding_id (''rbac'', ''group'') group_uuid
       ''subject'' (Some ''member'')"

definition role_binding_user_subject_tuple :: "string \<Rightarrow> string \<Rightarrow> string \<Rightarrow> relation_tuple result" where
  "role_binding_user_subject_tuple domain role_binding_id user_id =
     create_relationship (''rbac'', ''role_binding'') role_binding_id
       (''rbac'', ''principal'') (user_id_to_principal_resource_id domain user_id) ''subject'' None"

definition role_permission_tuple :: "string \<Rightarrow> string \<Rightarrow> relation_tuple result" where
  "role_permission_tuple role_id permission =
     create_relationship (''rbac'', ''role'') role_id (''rbac'', ''principal'') ''*'' permission None"

definition role_binding_role_tuple :: "string \<Rightarrow> string \<Rightarrow> relation_tuple result" where
  "role_binding_role_tuple binding_id role_id =
     create_relationship (''rbac'', ''role_binding'') binding_id (''rbac'', ''role'') role_id ''role'' None"

definition resource_binding_tuple :: "v2_bound_resource \<Rightarrow> string \<Rightarrow> relation_tuple result" where
  "resource_binding_tuple resource binding_id =
     create_relationship (br_type resource) (br_id resource) (''rbac'', ''role_binding'') binding_id ''binding'' None"

definition binding_as_tuples :: "string \<Rightarrow> v2_role_binding \<Rightarrow> relation_tuple list result" where
  "binding_as_tuples domain b =
     bind_r (role_binding_role_tuple (vb_id b) (vr_id (vb_role b))) (\<lambda>role_tuple.
     bind_r (mapM_r (role_permission_tuple (vr_id (vb_role b))) (vr_permissions (vb_role b))) (\<lambda>permissions.
     bind_r (mapM_r (role_binding_group_subject_tuple (vb_id b)) (remdups (vb_groups b))) (\<lambda>groups.
     bind_r (mapM_r (role_binding_user_subject_tuple domain (vb_id b)) (remdups (map snd (vb_users b)))) (\<lambda>users.
     bind_r (resource_binding_tuple (vb_resource b) (vb_id b)) (\<lambda>resource_tuple.
       Inr (role_tuple # permissions @ groups @ users @ [resource_tuple]))))))"

section \<open>Relations between roles\<close>

definition is_role_permission :: "relation_tuple \<Rightarrow> bool" where
  "is_role_permission rel \<longleftrightarrow>
     or_type (rt_resource rel) = \<lparr>ot_namespace = ''rbac'', ot_name = ''role''\<rparr> \<and>
     or_type (sr_subject (rt_subject rel)) = \<lparr>ot_namespace = ''rbac'', ot_name = ''principal''\<rparr> \<and>
     or_id (sr_subject (rt_subject rel)) = ''*''"

fun dedup_role_permissions :: "string list \<Rightarrow> relation_tuple list \<Rightarrow> relation_tuple list" where
  "dedup_role_permissions seen [] = []"
| "dedup_role_permissions seen (rel # rels) =
     (let key = stringify_spicedb_relationship rel
      in if key \<in> set seen \<and> is_role_permission rel then dedup_role_permissions seen rels
         else rel # dedup_role_permissions (key # seen) rels)"

definition deduplicate_role_permission_relationships :: "relation_tuple list \<Rightarrow> relation_tuple list" where
  "deduplicate_role_permission_relationships rels = dedup_role_permissions [] rels"

definition role_child_relationship :: "string \<Rightarrow> string \<Rightarrow> relation_tuple result" where
  "role_child_relationship parent_uuid child_uuid =
     create_relationship (''rbac'', ''role'') parent_uuid (''rbac'', ''role'') child_uuid ''child'' None"

definition role_owner_relationship :: "string \<Rightarrow> string \<Rightarrow> relation_tuple result" where
  "role_owner_relationship role_uuid tenant_resource =
     create_relationship (''rbac'', ''role'') role_uuid (''rbac'', ''tenant'') tenant_resource ''owner'' None"

section \<open>Resources of scopes\<close>

record tenant_scope_resources =
  ts_tenant :: v2_bound_resource
  ts_root_workspace :: v2_bound_resource
  ts_default_workspace :: v2_bound_resource

definition resources_for_models :: "string \<Rightarrow> tenant \<Rightarrow> workspace \<Rightarrow> workspace \<Rightarrow> tenant_scope_resources result" where
  "resources_for_models domain t root dflt =
     bind_r (for_model domain (TenantModel t)) (\<lambda>tr.
     bind_r (for_model domain (WorkspaceModel root)) (\<lambda>rr.
     bind_r (for_model domain (WorkspaceModel dflt)) (\<lambda>dr.
       Inr \<lparr>ts_tenant = tr, ts_root_workspace = rr, ts_default_workspace = dr\<rparr>)))"

definition resources_for_tenant ::
  "string \<Rightarrow> bool \<Rightarrow> ws_table \<Rightarrow> ws_cache \<Rightarrow> tenant \<Rightarrow> (tenant_scope_resources \<times> ws_cache) result" where
  "resources_for_tenant domain caching tbl cache t =
     bind_r (manager_root caching tbl cache (Some t) None) (\<lambda>(root, cache1).
     bind_r (manager_default caching tbl cache1 (Some t) None) (\<lambda>(dflt, cache2).
     bind_r (resources_for_models domain t root dflt) (\<lambda>r. Inr (r, cache2))))"

definition resource_for :: "tenant_scope_resources \<Rightarrow> scope \<Rightarrow> v2_bound_resource result" where
  "resource_for r s =
     (case s of
        SCOPE_TENANT \<Rightarrow> Inr (ts_tenant r)
      | SCOPE_ROOT \<Rightarrow> Inr (ts_root_workspace r)
      | SCOPE_DEFAULT \<Rightarrow> Inr (ts_default_workspace r)
      | SCOPE_ALL \<Rightarrow> Inl ValueError)"

text \<open>The cache for several tenants: the built-in workspaces per tenant.\<close>

type_synonym scope_resources_cache = "(int \<times> (workspace_type \<times> workspace) list) list"

definition cache_for_tenants :: "ws_table \<Rightarrow> int list \<Rightarrow> scope_resources_cache result" where
  "cache_for_tenants tbl tenants =
     foldM_r (\<lambda>grouped w.
        let tenant_dict = (case map_of grouped (ws_tenant w) of None \<Rightarrow> [] | Some d \<Rightarrow> d)
        in bind_r (check_r (map_of tenant_dict (ws_type w) = None) AssertionError) (\<lambda>_.
             Inr (AList.update (ws_tenant w) (AList.update (ws_type w) w tenant_dict) grouped)))
       [] (filter (\<lambda>w. ws_tenant w \<in> set tenants \<and> ws_type w \<in> {WS_DEFAULT, WS_ROOT}) tbl)"

definition cached_resources_for :: "string \<Rightarrow> scope_resources_cache \<Rightarrow> tenant \<Rightarrow> tenant_scope_resources result" where
  "cached_resources_for domain grouped t =
     (case map_of grouped (tn_pk t) of
        None \<Rightarrow> Inl KeyError
      | Some d \<Rightarrow>
          (case (map_of d WS_ROOT, map_of d WS_DEFAULT) of
             (Some root, Some dflt) \<Rightarrow> resources_for_models domain t root dflt
           | _ \<Rightarrow> Inl KeyError))"

definition bound_model_for_scope :: "scope \<Rightarrow> tenant \<Rightarrow> workspace \<Rightarrow> workspace \<Rightarrow> bound_model result" where
  "bound_model_for_scope s t root dflt =
     bind_r (check_r (ws_tenant root = tn_pk t) AssertionError) (\<lambda>_.
     bind_r (check_r (ws_tenant dflt = tn_pk t) AssertionError) (\<lambda>_.
       case s of
         SCOPE_TENANT \<Rightarrow> Inr (TenantModel t)
       | SCOPE_ROOT \<Rightarrow> Inr (WorkspaceModel root)
       | SCOPE_DEFAULT \<Rightarrow> Inr (WorkspaceModel dflt)
       | SCOPE_ALL \<Rightarrow> Inl ValueError))"

definition v2_bound_resource_for_permission ::
  "string \<Rightarrow> permissions_map \<Rightarrow> string list \<Rightarrow> string \<Rightarrow> string \<Rightarrow> string \<Rightarrow> v2_bound_resource result" where
  "v2_bound_resource_for_permission domain pm permissions tenant_org_id root_workspace_id default_workspace_id =
     bind_r (highest_scope_for_permissions pm permissions) (\<lambda>s.
       case s of
         SCOPE_TENANT \<Rightarrow> mk_bound_resource (''rbac'', ''tenant'') (PyStr (org_id_to_tenant_resource_id domain tenant_org_id))
       | SCOPE_ROOT \<Rightarrow> mk_bound_resource (''rbac'', ''workspace'') (PyStr root_workspace_id)
       | SCOPE_DEFAULT \<Rightarrow> mk_bound_resource (''rbac'', ''workspace'') (PyStr default_workspace_id)
       | SCOPE_ALL \<Rightarrow> Inl AssertionError)"

definition SCOPE_RESOURCE_TYPE :: "(scope \<times> string) list" where
  "SCOPE_RESOURCE_TYPE = [(SCOPE_TENANT, ''tenant''), (SCOPE_ROOT, ''workspace''), (SCOPE_DEFAULT, ''workspace'')]"

definition scopes_for_resource_type :: "string \<Rightarrow> scope list" where
  "scopes_for_resource_type resource_type = map fst (filter (\<lambda>(_, rt). rt = resource_type) SCOPE_RESOURCE_TYPE)"

definition scope_for_resource :: "ws_table \<Rightarrow> string \<Rightarrow> string \<Rightarrow> tenant \<Rightarrow> scope option result" where
  "scope_for_resource tbl resource_type resource_id t =
     (if resource_type = ''tenant'' then Inr (Some SCOPE_TENANT)
      else if resource_type = ''workspace''
      then (case workspace_by_id_tenant tbl resource_id (tn_pk t) of
              Inl DoesNotExist \<Rightarrow> Inr None
            | Inl e \<Rightarrow> Inl e
            | Inr w \<Rightarrow> Inr (Some (if ws_type w = WS_ROOT then SCOPE_ROOT else SCOPE_DEFAULT)))
      else Inr None)"

definition resolve_workspace_scope :: "ws_table \<Rightarrow> string \<Rightarrow> tenant \<Rightarrow> (scope \<times> bool) option result" where
  "resolve_workspace_scope tbl resource_id t =
     (case workspace_by_id_tenant tbl resource_id (tn_pk t) of
        Inl DoesNotExist \<Rightarrow> Inr None
      | Inl e \<Rightarrow> Inl e
      | Inr w \<Rightarrow> Inr (Some (if ws_type w = WS_ROOT then (SCOPE_ROOT, False)
                             else (SCOPE_DEFAULT, ws_type w = WS_STANDARD))))"

section \<open>The tuples of a binding\<close>

text \<open>The tuples the constructors build, without their validation.\<close>

definition group_tuple :: "string \<Rightarrow> string \<Rightarrow> relation_tuple" where
  "group_tuple b g = plain_tuple (''rbac'', ''role_binding'') b (''rbac'', ''group'') g ''subject'' (Some ''member'')"

definition user_tuple :: "string \<Rightarrow> string \<Rightarrow> string \<Rightarrow> relation_tuple" where
  "user_tuple domain b u =
     plain_tuple (''rbac'', ''role_binding'') b (''rbac'', ''principal'') (user_id_to_principal_resource_id domain u)
       ''subject'' None"

definition permission_tuple :: "string \<Rightarrow> string \<Rightarrow> relation_tuple" where
  "permission_tuple r p = plain_tuple (''rbac'', ''role'') r (''rbac'', ''principal'') ''*'' p None"

definition role_tuple :: "string \<Rightarrow> string \<Rightarrow> relation_tuple" where
  "role_tuple b r = plain_tuple (''rbac'', ''role_binding'') b (''rbac'', ''role'') r ''role'' None"

definition bound_tuple :: "v2_bound_resource \<Rightarrow> string \<Rightarrow> relation_tuple" where
  "bound_tuple res b = plain_tuple (br_type res) (br_id res) (''rbac'', ''role_binding'') b ''binding'' None"

definition owner_tuple :: "string \<Rightarrow> string \<Rightarrow> relation_tuple" where
  "owner_tuple r t = plain_tuple (''rbac'', ''role'') r (''rbac'', ''tenant'') t ''owner'' None"

definition child_tuple :: "string \<Rightarrow> string \<Rightarrow> relation_tuple" where
  "child_tuple p c = plain_tuple (''rbac'', ''role'') p (''rbac'', ''role'') c ''child'' None"

definition binding_tuples :: "string \<Rightarrow> v2_role_binding \<Rightarrow> relation_tuple list" where
  "binding_tuples domain b =
     role_tuple (vb_id b) (vr_id (vb_role b))
     # map (permission_tuple (vr_id (vb_role b))) (vr_permissions (vb_role b))
     @ map (group_tuple (vb_id b)) (remdups (vb_groups b))
     @ map (user_tuple domain (vb_id b)) (remdups (map snd (vb_users b)))
     @ [bound_tuple (vb_resource b) (vb_id b)]"

lemmas tuple_kinds = group_tuple_def user_tuple_def permission_tuple_def role_tuple_def bound_tuple_def
  owner_tuple_def child_tuple_def

lemmas regex_eval = type_regex_def id_regex_def type_char_def id_char_def is_alnum_def

lemmas tuple_eval = tuple_kinds plain_tuple_def valid_defs regex_eval

lemma user_id_resource_inject [simp]:
  "user_id_to_principal_resource_id d u = user_id_to_principal_resource_id d u' \<longleftrightarrow> u = u'"
  by (simp add: user_id_to_principal_resource_id_def)

lemma tuple_kinds_inject [simp]:
  "group_tuple b g = group_tuple b' g' \<longleftrightarrow> b = b' \<and> g = g'"
  "user_tuple d b u = user_tuple d b' u' \<longleftrightarrow> b = b' \<and> u = u'"
  "permission_tuple r p = permission_tuple r' p' \<longleftrightarrow> r = r' \<and> p = p'"
  "role_tuple b r = role_tuple b' r' \<longleftrightarrow> b = b' \<and> r = r'"
  "owner_tuple r t = owner_tuple r' t' \<longleftrightarrow> r = r' \<and> t = t'"
  "child_tuple r t = child_tuple r' t' \<longleftrightarrow> r = r' \<and> t = t'"
  "bound_tuple s b = bound_tuple s' b' \<longleftrightarrow> s = s' \<and> b = b'"
  by (auto simp: tuple_kinds)

lemma tuple_kinds_distinct [simp]:
  "group_tuple b g \<noteq> user_tuple d b' u" "user_tuple d b' u \<noteq> group_tuple b g"
  "group_tuple b g \<noteq> permission_tuple r p" "permission_tuple r p \<noteq> group_tuple b g"
  "group_tuple b g \<noteq> role_tuple b' r" "role_tuple b' r \<noteq> group_tuple b g"
  "group_tuple b g \<noteq> owner_tuple r t" "owner_tuple r t \<noteq> group_tuple b g"
  "group_tuple b g \<noteq> bound_tuple s b'" "bound_tuple s b' \<noteq> group_tuple b g"
  "user_tuple d b u \<noteq> permission_tuple r p" "permission_tuple r p \<noteq> user_tuple d b u"
  "user_tuple d b u \<noteq> role_tuple b' r" "role_tuple b' r \<noteq> user_tuple d b u"
  "user_tuple d b u \<noteq> owner_tuple r t" "owner_tuple r t \<noteq> user_tuple d b u"
  "user_tuple d b u \<noteq> bound_tuple s b'" "bound_tuple s b' \<noteq> user_tuple d b u"
  "permission_tuple r p \<noteq> role_tuple b r'" "role_tuple b r' \<noteq> permission_tuple r p"
  "permission_tuple r p \<noteq> owner_tuple r' t" "owner_tuple r' t \<noteq> permission_tuple r p"
  "permission_tuple r p \<noteq> bound_tuple s b" "bound_tuple s b \<noteq> permission_tuple r p"
  "role_tuple b r \<noteq> owner_tuple r' t" "owner_tuple r' t \<noteq> role_tuple b r"
  "role_tuple b r \<noteq> bound_tuple s b'" "bound_tuple s b' \<noteq> role_tuple b r"
  "owner_tuple r t \<noteq> bound_tuple s b" "bound_tuple s b \<noteq> owner_tuple r t"
  by (simp_all add: tuple_kinds)

lemma tuple_constructors_Inr [result_simps]:
  "role_binding_group_subject_tuple b g = Inr t \<longleftrightarrow> t = group_tuple b g \<and> valid_relation_tuple t"
  "role_binding_user_subject_tuple domain b u = Inr t \<longleftrightarrow> t = user_tuple domain b u \<and> valid_relation_tuple t"
  "role_permission_tuple r p = Inr t \<longleftrightarrow> t = permission_tuple r p \<and> valid_relation_tuple t"
  "role_binding_role_tuple b r = Inr t \<longleftrightarrow> t = role_tuple b r \<and> valid_relation_tuple t"
  "resource_binding_tuple res b = Inr t \<longleftrightarrow> t = bound_tuple res b \<and> valid_relation_tuple t"
  "role_owner_relationship r tr = Inr t \<longleftrightarrow> t = owner_tuple r tr \<and> valid_relation_tuple t"
  "role_child_relationship p c = Inr t \<longleftrightarrow> t = child_tuple p c \<and> valid_relation_tuple t"
  by (simp_all add: role_binding_group_subject_tuple_def role_binding_user_subject_tuple_def
      role_permission_tuple_def role_binding_role_tuple_def resource_binding_tuple_def
      role_owner_relationship_def role_child_relationship_def tuple_kinds create_relationship_Inr_iff)

lemma mapM_r_tuples:
  assumes "\<And>x t. f x = Inr t \<longleftrightarrow> t = g x \<and> valid_relation_tuple t"
  shows "mapM_r f xs = Inr ts \<longleftrightarrow> ts = map g xs \<and> list_all valid_relation_tuple ts"
proof (induction xs arbitrary: ts)
  case (Cons x xs)
  then show ?case using assms [of x] by (auto simp: bind_r_Inr_iff)
qed auto

lemmas mapM_tuple_constructors_Inr [result_simps] =
  mapM_r_tuples [of "role_binding_group_subject_tuple b" for b, OF tuple_constructors_Inr(1)]
  mapM_r_tuples [of "role_binding_user_subject_tuple d b" for d b, OF tuple_constructors_Inr(2)]
  mapM_r_tuples [of "role_permission_tuple r" for r, OF tuple_constructors_Inr(3)]

lemma binding_as_tuples_Inr_iff [result_simps]:
  "binding_as_tuples domain b = Inr ts \<longleftrightarrow>
     ts = binding_tuples domain b \<and> list_all valid_relation_tuple ts"
  unfolding binding_as_tuples_def binding_tuples_def bind_r_Inr_iff
    tuple_constructors_Inr mapM_tuple_constructors_Inr
  by (safe; simp)

lemma set_binding_tuples:
  "set (binding_tuples domain b) =
     {role_tuple (vb_id b) (vr_id (vb_role b)), bound_tuple (vb_resource b) (vb_id b)}
     \<union> permission_tuple (vr_id (vb_role b)) ` set (vr_permissions (vb_role b))
     \<union> group_tuple (vb_id b) ` set (vb_groups b)
     \<union> user_tuple domain (vb_id b) ` snd ` set (vb_users b)"
  by (auto simp: binding_tuples_def)

lemma distinct_binding_tuples:
  "distinct (vr_permissions (vb_role b)) \<Longrightarrow> distinct (binding_tuples domain b)"
  by (auto simp: binding_tuples_def distinct_map inj_on_def)

lemma mk_bound_resource_Inr_iff [result_simps]:
  "mk_bound_resource ty i = Inr r \<longleftrightarrow>
     i = PyStr (br_id r) \<and> br_type r = ty \<and> fst ty \<noteq> [] \<and> type_regex (snd ty) \<and> id_regex (br_id r)"
  by (cases r; cases ty)
    (auto simp: mk_bound_resource_def mk_object_type_def mk_object_reference_def result_simps
      validate_pattern_def check_r_def split: sum.splits if_splits)

section \<open>Deduplication\<close>

lemma dedup_role_permissions_keys:
  "stringify_spicedb_relationship ` set (dedup_role_permissions seen rels) \<union> set seen =
     stringify_spicedb_relationship ` set rels \<union> set seen"
proof (induction rels arbitrary: seen)
  case (Cons rel rels)
  show ?case
    using Cons [of seen] Cons [of "stringify_spicedb_relationship rel # seen"]
    by (auto simp: Let_def)
qed simp

lemma dedup_role_permissions_subset: "set (dedup_role_permissions seen rels) \<subseteq> set rels"
  by (induction rels arbitrary: seen) (auto simp: Let_def)

section \<open>Keys\<close>

text \<open>
  On the tuples of the access graph, all of the namespace of RBAC and with the relation \<open>member\<close> for a
  group as subject, the key of the duplicate checks is exact.
\<close>

definition graph_tuple :: "relation_tuple \<Rightarrow> bool" where
  "graph_tuple t \<longleftrightarrow>
     valid_relation_tuple t \<and> ot_namespace (or_type (rt_resource t)) = ''rbac'' \<and>
     ot_namespace (or_type (sr_subject (rt_subject t))) = ''rbac'' \<and>
     sr_relation (rt_subject t) =
       (if ot_name (or_type (sr_subject (rt_subject t))) = ''group'' then Some ''member'' else None)"

lemma graph_key_exact:
  assumes "graph_tuple t" and "graph_tuple u"
    and "stringify_spicedb_relationship t = stringify_spicedb_relationship u"
  shows "t = u"
proof -
  have "same_up_to_namespace t u" using assms key_eq_iff by (simp add: graph_tuple_def)
  then show ?thesis using assms(1,2) by (auto simp: same_up_to_namespace_def graph_tuple_def intro!: relation_tuple.equality
        object_reference.equality object_type.equality subject_reference.equality)
qed

lemma graph_tuple_keys:
  "list_all graph_tuple ts \<Longrightarrow> distinct (map stringify_spicedb_relationship ts) \<longleftrightarrow> distinct ts"
  using graph_key_exact by (auto simp: distinct_map list_all_iff inj_on_def)

lemma graph_tuple_valid: "list_all graph_tuple ts \<Longrightarrow> list_all valid_relation_tuple ts"
  by (auto simp: list_all_iff graph_tuple_def)

definition role_graph_tuple :: "relation_tuple \<Rightarrow> bool" where
  "role_graph_tuple t \<longleftrightarrow>
     valid_relation_tuple t \<and>
     ((\<exists>b g. t = group_tuple b g) \<or> (\<exists>d b u. t = user_tuple d b u) \<or> (\<exists>r p. t = permission_tuple r p) \<or>
      (\<exists>b r. t = role_tuple b r) \<or> (\<exists>r i. t = owner_tuple r i) \<or> (\<exists>p c. t = child_tuple p c) \<or>
      (\<exists>res b. t = bound_tuple res b \<and> fst (br_type res) = ''rbac''))"

lemma role_graph_tuple_graph: "role_graph_tuple t \<Longrightarrow> graph_tuple t"
  unfolding role_graph_tuple_def
  by (elim conjE disjE exE; simp add: graph_tuple_def tuple_kinds plain_tuple_def)

lemma key_exact:
  assumes "role_graph_tuple t" and "role_graph_tuple u"
    and "stringify_spicedb_relationship t = stringify_spicedb_relationship u"
  shows "t = u"
  using assms by (blast intro: graph_key_exact role_graph_tuple_graph)

lemma inj_on_key: "\<forall>t \<in> T. role_graph_tuple t \<Longrightarrow> inj_on stringify_spicedb_relationship T"
  using key_exact by (blast intro: inj_onI)

lemma set_dedup_role_permissions:
  assumes "\<forall>t \<in> set rels. role_graph_tuple t"
  shows "set (deduplicate_role_permission_relationships rels) = set rels"
proof -
  let ?d = "deduplicate_role_permission_relationships rels"
  have "stringify_spicedb_relationship ` set ?d = stringify_spicedb_relationship ` set rels"
    using dedup_role_permissions_keys [of "[]" rels] by (simp add: deduplicate_role_permission_relationships_def)
  moreover have "set ?d \<subseteq> set rels"
    using dedup_role_permissions_subset by (simp add: deduplicate_role_permission_relationships_def)
  ultimately show ?thesis using inj_on_image_eq_iff [OF inj_on_key [OF assms]] by blast
qed

lemma distinct_dedup_step:
  assumes "\<forall>t \<in> set ss \<union> set rels. role_graph_tuple t"
    and "distinct (filter (\<lambda>t. \<not> is_role_permission t) rels)"
    and "\<forall>t \<in> set rels. \<not> is_role_permission t \<longrightarrow> t \<notin> set ss"
    and "set seen = stringify_spicedb_relationship ` set ss"
  shows "distinct (dedup_role_permissions seen rels) \<and> set (dedup_role_permissions seen rels) \<inter> set ss = {}"
  using assms
proof (induction rels arbitrary: seen ss)
  case (Cons t rels)
  have key: "stringify_spicedb_relationship t \<in> set seen \<longleftrightarrow> t \<in> set ss"
    using Cons.prems(1,4) key_exact by (auto simp: image_iff)
  show ?case
  proof (cases "t \<in> set ss")
    case True
    then have "is_role_permission t" using Cons.prems(3) by auto
    then show ?thesis using Cons.IH [of ss seen] Cons.prems key True by (simp add: Let_def)
  next
    case False
    have "set (stringify_spicedb_relationship t # seen) = stringify_spicedb_relationship ` set (t # ss)"
      using Cons.prems(4) by simp
    moreover have "\<forall>u \<in> set rels. \<not> is_role_permission u \<longrightarrow> u \<notin> set (t # ss)"
      using Cons.prems(2,3) by auto
    ultimately have "distinct (dedup_role_permissions (stringify_spicedb_relationship t # seen) rels) \<and>
        set (dedup_role_permissions (stringify_spicedb_relationship t # seen) rels) \<inter> set (t # ss) = {}"
      using Cons.prems(1,2) by (intro Cons.IH) (auto split: if_splits)
    then show ?thesis using key False by (auto simp: Let_def)
  qed
qed simp

lemma distinct_dedup_role_permissions:
  assumes "\<forall>t \<in> set rels. role_graph_tuple t" and "distinct (filter (\<lambda>t. \<not> is_role_permission t) rels)"
  shows "distinct (deduplicate_role_permission_relationships rels)"
  using distinct_dedup_step [of "[]" rels "[]"] assms by (simp add: deduplicate_role_permission_relationships_def)

lemma is_role_permission_kinds [simp]:
  "is_role_permission (permission_tuple r p)"
  "\<not> is_role_permission (group_tuple b g)"
  "\<not> is_role_permission (user_tuple d b u)"
  "\<not> is_role_permission (role_tuple b r)"
  "\<not> is_role_permission (bound_tuple res b)"
  "\<not> is_role_permission (owner_tuple r i)"
  by (simp_all add: is_role_permission_def tuple_kinds plain_tuple_def)

lemma bindings_graph_tuples:
  assumes "list_all valid_relation_tuple (concat (map (binding_tuples domain) bs))"
    and "\<forall>b \<in> set bs. fst (br_type (vb_resource b)) = ''rbac''"
  shows "\<forall>t \<in> set (concat (map (binding_tuples domain) bs)). role_graph_tuple t"
proof -
  have "role_graph_tuple t" if "t \<in> set (binding_tuples domain b)" "valid_relation_tuple t"
      "fst (br_type (vb_resource b)) = ''rbac''" for b t
    using that unfolding role_graph_tuple_def set_binding_tuples by blast
  with assms show ?thesis by (auto simp: list_all_iff)
qed

lemma distinct_bindings_tuples:
  assumes "distinct (map vb_id bs)"
  shows "distinct (filter (\<lambda>t. \<not> is_role_permission t) (concat (map (binding_tuples domain) bs)))"
  using assms
proof (induction bs)
  case (Cons b bs)
  have "distinct (filter (\<lambda>t. \<not> is_role_permission t) (binding_tuples domain b))"
    by (auto simp: binding_tuples_def distinct_map inj_on_def filter_map o_def)
  moreover have "{t \<in> set (binding_tuples domain b). \<not> is_role_permission t} \<inter>
      {t \<in> set (concat (map (binding_tuples domain) bs)). \<not> is_role_permission t} = {}"
    using Cons.prems by (auto simp: set_binding_tuples)
  ultimately show ?case using Cons by simp
qed simp

end
