(* ===== verification/Tenant_Mapping.thy ===== *)
theory Tenant_Mapping
  imports Scope_Service Domain_Model
begin

text \<open>
  The mapping of a tenant to V2 (\<open>management/tenant_mapping/model.py\<close>): the uuids of its default
  groups and default role bindings, and the two dates that say whether the tenant opted in to V2 and
  whether it has written through V2 (\<open>management/tenant_mapping/v2_activation.py\<close>).

  A uuid is its canonical string. A table of mappings stands for the rows the transaction sees; the
  locks the code takes make its checks and its writes one step.
\<close>

section \<open>The row\<close>

datatype default_access_type = ACCESS_USER | ACCESS_ADMIN

record tenant_mapping =
  tm_pk :: int
  tm_tenant :: int
  tm_v2_opted_in_at :: "string option"
  tm_v2_write_activated_at :: "string option"
  tm_default_group_uuid :: string
  tm_default_admin_group_uuid :: string
  tm_default_role_binding_uuid :: string
  tm_default_admin_role_binding_uuid :: string
  tm_root_scope_default_role_binding_uuid :: string
  tm_root_scope_default_admin_role_binding_uuid :: string
  tm_tenant_scope_default_role_binding_uuid :: string
  tm_tenant_scope_default_admin_role_binding_uuid :: string

type_synonym mapping_table = "tenant_mapping list"

definition group_uuid_for :: "tenant_mapping \<Rightarrow> default_access_type \<Rightarrow> string" where
  "group_uuid_for m access_type =
     (case access_type of
        ACCESS_USER \<Rightarrow> tm_default_group_uuid m
      | ACCESS_ADMIN \<Rightarrow> tm_default_admin_group_uuid m)"

definition role_binding_uuid_fns ::
  "(default_access_type \<times> (scope \<times> (tenant_mapping \<Rightarrow> string)) list) list" where
  "role_binding_uuid_fns =
     [(ACCESS_USER,
        [(SCOPE_DEFAULT, tm_default_role_binding_uuid),
         (SCOPE_ROOT, tm_root_scope_default_role_binding_uuid),
         (SCOPE_TENANT, tm_tenant_scope_default_role_binding_uuid)]),
      (ACCESS_ADMIN,
        [(SCOPE_DEFAULT, tm_default_admin_role_binding_uuid),
         (SCOPE_ROOT, tm_root_scope_default_admin_role_binding_uuid),
         (SCOPE_TENANT, tm_tenant_scope_default_admin_role_binding_uuid)])]"

definition default_role_binding_uuid_for ::
  "tenant_mapping \<Rightarrow> default_access_type \<Rightarrow> scope \<Rightarrow> string result" where
  "default_role_binding_uuid_for m access_type s =
     (case map_of role_binding_uuid_fns access_type of
        None \<Rightarrow> Inl KeyError
      | Some fns \<Rightarrow> (case map_of fns s of None \<Rightarrow> Inl KeyError | Some f \<Rightarrow> Inr (f m)))"

definition role_binding_ids :: "tenant_mapping \<Rightarrow> string list" where
  "role_binding_ids m =
     remdups [tm_default_role_binding_uuid m, tm_default_admin_role_binding_uuid m,
       tm_root_scope_default_role_binding_uuid m, tm_root_scope_default_admin_role_binding_uuid m,
       tm_tenant_scope_default_role_binding_uuid m, tm_tenant_scope_default_admin_role_binding_uuid m]"

definition source_for_role_binding_id ::
  "tenant_mapping \<Rightarrow> string \<Rightarrow> (default_access_type \<times> scope) option result" where
  "source_for_role_binding_id m role_binding_id =
     bind_r (parse_uuid role_binding_id) (\<lambda>i. Inr (
       if i = tm_default_role_binding_uuid m then Some (ACCESS_USER, SCOPE_DEFAULT)
       else if i = tm_default_admin_role_binding_uuid m then Some (ACCESS_ADMIN, SCOPE_DEFAULT)
       else if i = tm_root_scope_default_role_binding_uuid m then Some (ACCESS_USER, SCOPE_ROOT)
       else if i = tm_root_scope_default_admin_role_binding_uuid m then Some (ACCESS_ADMIN, SCOPE_ROOT)
       else if i = tm_tenant_scope_default_role_binding_uuid m then Some (ACCESS_USER, SCOPE_TENANT)
       else if i = tm_tenant_scope_default_admin_role_binding_uuid m then Some (ACCESS_ADMIN, SCOPE_TENANT)
       else None))"

section \<open>Locks and activation\<close>

definition mappings_of :: "mapping_table \<Rightarrow> tenant \<Rightarrow> tenant_mapping list" where
  "mappings_of tbl t = filter (\<lambda>m. tm_tenant m = tn_pk t) tbl"

definition try_lock_mapping_for_share :: "mapping_table \<Rightarrow> tenant \<Rightarrow> tenant_mapping option result" where
  "try_lock_mapping_for_share tbl t =
     (case mappings_of tbl t of [] \<Rightarrow> Inr None | [m] \<Rightarrow> Inr (Some m) | _ \<Rightarrow> Inl AssertionError)"

definition lock_mapping_for_share :: "mapping_table \<Rightarrow> tenant \<Rightarrow> tenant_mapping result" where
  "lock_mapping_for_share tbl t =
     bind_r (try_lock_mapping_for_share tbl t) (\<lambda>found.
       case found of None \<Rightarrow> Inl TenantNotBootstrappedError | Some m \<Rightarrow> Inr m)"

text \<open>
  \<open>save(update_fields=...)\<close> of the row of a tenant; the table's check constraint refuses an
  activation date without an opt-in date.
\<close>

definition opt_in_constraint :: "tenant_mapping \<Rightarrow> bool" where
  "opt_in_constraint m \<longleftrightarrow> tm_v2_write_activated_at m = None \<or> tm_v2_opted_in_at m \<noteq> None"

definition save_mapping :: "mapping_table \<Rightarrow> tenant_mapping \<Rightarrow> mapping_table result" where
  "save_mapping tbl m =
     bind_r (check_r (opt_in_constraint m) IntegrityError) (\<lambda>_.
       Inr (map (\<lambda>m'. if tm_tenant m' = tm_tenant m then m else m') tbl))"

definition ensure_v2_write_activated :: "string \<Rightarrow> mapping_table \<Rightarrow> tenant \<Rightarrow> mapping_table result" where
  "ensure_v2_write_activated now tbl t =
     bind_r (lock_mapping_for_share tbl t) (\<lambda>m.
       if tm_v2_write_activated_at m \<noteq> None then Inr tbl
       else bind_r (get_one (mappings_of tbl t)) (\<lambda>m.
         if tm_v2_write_activated_at m \<noteq> None then Inr tbl
         else save_mapping tbl
           (m\<lparr>tm_v2_write_activated_at := Some now,
              tm_v2_opted_in_at := (if tm_v2_opted_in_at m = None then Some now else tm_v2_opted_in_at m)\<rparr>)))"

definition is_v2_write_activated :: "mapping_table \<Rightarrow> tenant \<Rightarrow> bool result" where
  "is_v2_write_activated tbl t =
     (case get_one (mappings_of tbl t) of
        Inl DoesNotExist \<Rightarrow> Inr False
      | Inl e \<Rightarrow> Inl e
      | Inr m \<Rightarrow> Inr (tm_v2_write_activated_at m \<noteq> None))"

datatype tenant_version = VERSION_1 | VERSION_2

definition lock_tenant_version :: "mapping_table \<Rightarrow> tenant \<Rightarrow> tenant_version result" where
  "lock_tenant_version tbl t =
     bind_r (lock_mapping_for_share tbl t) (\<lambda>m.
       Inr (if tm_v2_write_activated_at m = None then VERSION_1 else VERSION_2))"

definition assert_v1_write_allowed :: "mapping_table \<Rightarrow> tenant \<Rightarrow> unit result" where
  "assert_v1_write_allowed tbl t =
     bind_r (lock_mapping_for_share tbl t) (\<lambda>m.
       check_r (tm_v2_write_activated_at m = None) V1WriteBlockedError)"

text \<open>
  \<open>set_v2_opt_in_state\<close> up to its call of the role binding service: the table and the mapping to
  create default bindings for, if the tenant is newly opted in.
\<close>

definition set_v2_opt_in_mapping ::
  "string \<Rightarrow> mapping_table \<Rightarrow> tenant \<Rightarrow> bool \<Rightarrow> (mapping_table \<times> tenant_mapping option) result" where
  "set_v2_opt_in_mapping now tbl t opted_in =
     (case mappings_of tbl t of
        [] \<Rightarrow> Inl TenantNotBootstrappedError
      | m # _ \<Rightarrow>
          (if opted_in
           then (let newly = (tm_v2_opted_in_at m = None);
                     m' = (if newly then m\<lparr>tm_v2_opted_in_at := Some now\<rparr> else m)
                 in bind_r (save_mapping tbl m') (\<lambda>tbl'. Inr (tbl', if newly then Some m' else None)))
           else if tm_v2_write_activated_at m \<noteq> None then Inl InvalidV2OptOutError
           else bind_r (save_mapping tbl (m\<lparr>tm_v2_opted_in_at := None\<rparr>)) (\<lambda>tbl'. Inr (tbl', None))))"

definition is_v2_opted_in :: "mapping_table \<Rightarrow> tenant \<Rightarrow> bool result" where
  "is_v2_opted_in tbl t =
     (case get_one (mappings_of tbl t) of
        Inl DoesNotExist \<Rightarrow> Inr False
      | Inl e \<Rightarrow> Inl e
      | Inr m \<Rightarrow> Inr (tm_v2_opted_in_at m \<noteq> None))"

definition lock_v2_opt_in_state :: "mapping_table \<Rightarrow> tenant \<Rightarrow> bool result" where
  "lock_v2_opt_in_state tbl t =
     bind_r (lock_mapping_for_share tbl t) (\<lambda>m. Inr (tm_v2_opted_in_at m \<noteq> None))"

section \<open>The life of a mapping\<close>

definition mapping_inv :: "mapping_table \<Rightarrow> bool" where
  "mapping_inv tbl \<longleftrightarrow> distinct (map tm_tenant tbl) \<and> list_all opt_in_constraint tbl"

text \<open>
  The committed transactions on the table: bootstrapping a tenant, changing its opt-in state, writing
  through V2 and writing through V1.
\<close>

inductive mapping_step :: "mapping_table \<Rightarrow> mapping_table \<Rightarrow> bool" where
  bootstrap: "tm_tenant m \<notin> tm_tenant ` set tbl \<Longrightarrow> tm_v2_write_activated_at m = None \<Longrightarrow>
    mapping_step tbl (tbl @ [m])"
| opt_in: "set_v2_opt_in_mapping now tbl t opted_in = Inr (tbl', created) \<Longrightarrow> mapping_step tbl tbl'"
| v2_write: "ensure_v2_write_activated now tbl t = Inr tbl' \<Longrightarrow> mapping_step tbl tbl'"
| v1_write: "assert_v1_write_allowed tbl t = Inr () \<Longrightarrow> mapping_step tbl tbl"

lemma mappings_of_row:
  assumes "mapping_inv tbl" and "m \<in> set tbl" and "tm_tenant m = tn_pk t"
  shows "mappings_of tbl t = [m]"
proof -
  have "distinct (map tm_tenant tbl)" using assms(1) by (simp add: mapping_inv_def)
  then have "filter (\<lambda>m'. tm_tenant m' = tm_tenant m) tbl = [m]"
    using assms(2) by (rule filter_key_unique)
  then show ?thesis by (simp add: mappings_of_def assms(3))
qed

lemma mappings_of_inv_cases:
  assumes "mapping_inv tbl"
  obtains "mappings_of tbl t = []"
  | m where "m \<in> set tbl" "tm_tenant m = tn_pk t" "mappings_of tbl t = [m]"
proof (cases "mappings_of tbl t")
  case (Cons m ms)
  then have "m \<in> set (mappings_of tbl t)" by simp
  then have "m \<in> set tbl" "tm_tenant m = tn_pk t" by (simp_all add: mappings_of_def)
  then show thesis using that(2) mappings_of_row [OF assms] by blast
qed (rule that(1))

lemma lock_mapping_for_share_Inr_iff:
  "lock_mapping_for_share tbl t = Inr m \<longleftrightarrow> mappings_of tbl t = [m]"
  by (auto simp: lock_mapping_for_share_def try_lock_mapping_for_share_def split: list.splits)

lemma save_mapping_inv:
  assumes "mapping_inv tbl" and "save_mapping tbl m = Inr tbl'"
  shows "mapping_inv tbl'"
proof -
  have "map tm_tenant tbl' = map tm_tenant tbl"
    using assms(2) by (auto simp: save_mapping_def result_simps)
  then show ?thesis
    using assms by (auto simp: save_mapping_def mapping_inv_def list_all_iff result_simps)
qed

lemma save_mapping_row:
  assumes "save_mapping tbl m = Inr tbl'" and "m' \<in> set tbl"
  shows "(if tm_tenant m' = tm_tenant m then m else m') \<in> set tbl'"
  using assms by (auto simp: save_mapping_def result_simps)

text \<open>A row that is activated stays, activated.\<close>

definition activated_row :: "mapping_table \<Rightarrow> tenant \<Rightarrow> bool" where
  "activated_row tbl t \<longleftrightarrow>
     (\<exists>m \<in> set tbl. tm_tenant m = tn_pk t \<and> tm_v2_write_activated_at m \<noteq> None)"

lemma save_keeps_activated:
  assumes "save_mapping tbl m = Inr tbl'" and "activated_row tbl t"
    and "tm_tenant m = tn_pk t \<Longrightarrow> tm_v2_write_activated_at m \<noteq> None"
  shows "activated_row tbl' t"
  using save_mapping_row [OF assms(1)] assms(2,3) unfolding activated_row_def
  by (metis (no_types, lifting))

lemma activated_row_unique:
  assumes "mapping_inv tbl" and "activated_row tbl t" and "m \<in> set tbl" and "tm_tenant m = tn_pk t"
  shows "tm_v2_write_activated_at m \<noteq> None"
proof -
  from assms(2) obtain m' where m': "m' \<in> set tbl" "tm_tenant m' = tn_pk t"
      "tm_v2_write_activated_at m' \<noteq> None"
    unfolding activated_row_def by blast
  have "[m] = [m']"
    using mappings_of_row [OF assms(1,3,4)] mappings_of_row [OF assms(1) m'(1,2)] by simp
  with m'(3) show ?thesis by simp
qed

lemma same_tenant_mappings: "tm_tenant m = tn_pk t \<Longrightarrow> m \<in> set (mappings_of tbl t) \<Longrightarrow> m \<in> set tbl"
  by (simp add: mappings_of_def)

lemma ensure_v2_write_activated_cases:
  assumes "mapping_inv tbl" and "ensure_v2_write_activated now tbl u = Inr tbl'"
  obtains m where "m \<in> set tbl" "tm_tenant m = tn_pk u" "tm_v2_write_activated_at m \<noteq> None" "tbl' = tbl"
  | m m' where "m \<in> set tbl" "tm_tenant m = tn_pk u" "tm_v2_write_activated_at m = None"
      "tm_tenant m' = tn_pk u" "tm_v2_write_activated_at m' \<noteq> None" "save_mapping tbl m' = Inr tbl'"
proof -
  from assms(2) obtain m where m: "mappings_of tbl u = [m]"
    by (auto simp: ensure_v2_write_activated_def bind_r_Inr_iff lock_mapping_for_share_Inr_iff)
  then have row: "m \<in> set tbl" "tm_tenant m = tn_pk u"
    using set_filter [of "\<lambda>m. tm_tenant m = tn_pk u" tbl] by (auto simp: mappings_of_def)
  show thesis
  proof (cases "tm_v2_write_activated_at m = None")
    case True
    let ?m' = "m\<lparr>tm_v2_write_activated_at := Some now,
      tm_v2_opted_in_at := (if tm_v2_opted_in_at m = None then Some now else tm_v2_opted_in_at m)\<rparr>"
    have "save_mapping tbl ?m' = Inr tbl'"
      using assms(2) True m
      by (simp add: ensure_v2_write_activated_def get_one_def lock_mapping_for_share_def
          try_lock_mapping_for_share_def)
    then show thesis using that(2) [OF row True, of ?m'] row by simp
  next
    case False
    then have "tbl' = tbl"
      using assms(2) m by (auto simp: ensure_v2_write_activated_def lock_mapping_for_share_def
          try_lock_mapping_for_share_def)
    with row False show thesis by (rule that(1))
  qed
qed

lemma set_v2_opt_in_mapping_saves:
  assumes "set_v2_opt_in_mapping now tbl u b = Inr (tbl', created)"
  obtains m m' where "m \<in> set tbl" "tm_tenant m = tn_pk u" "tm_tenant m' = tn_pk u"
    "tm_v2_write_activated_at m' = tm_v2_write_activated_at m" "save_mapping tbl m' = Inr tbl'"
proof -
  from assms obtain m ms where ms: "mappings_of tbl u = m # ms"
    by (auto simp: set_v2_opt_in_mapping_def split: list.splits)
  then have row: "m \<in> set tbl" "tm_tenant m = tn_pk u"
    using set_filter [of "\<lambda>m. tm_tenant m = tn_pk u" tbl] by (auto simp: mappings_of_def)
  obtain x where "save_mapping tbl (m\<lparr>tm_v2_opted_in_at := x\<rparr>) = Inr tbl'"
  proof (cases "b \<and> tm_v2_opted_in_at m \<noteq> None")
    case True
    then show thesis
      using assms ms that [of "tm_v2_opted_in_at m"]
      by (auto simp: set_v2_opt_in_mapping_def Let_def bind_r_Inr_iff)
  next
    case False
    then show thesis
      using assms ms that [of "if b then Some now else None"]
      by (auto simp: set_v2_opt_in_mapping_def Let_def bind_r_Inr_iff split: if_splits)
  qed
  then show thesis using that [OF row, of "m\<lparr>tm_v2_opted_in_at := x\<rparr>"] row by simp
qed

lemma mapping_step_inv:
  assumes "mapping_step tbl tbl'" and "mapping_inv tbl"
  shows "mapping_inv tbl'"
  using assms
proof (induction rule: mapping_step.induct)
  case (bootstrap m tbl)
  then show ?case by (auto simp: mapping_inv_def opt_in_constraint_def)
next
  case (opt_in now tbl t opted_in tbl' created)
  then show ?case by (metis set_v2_opt_in_mapping_saves save_mapping_inv)
next
  case (v2_write now tbl t tbl')
  then show ?case by (metis ensure_v2_write_activated_cases save_mapping_inv)
qed

lemma mapping_step_activated:
  assumes "mapping_step tbl tbl'" and "mapping_inv tbl" and "activated_row tbl t"
  shows "activated_row tbl' t"
  using assms
proof (induction rule: mapping_step.induct)
  case (bootstrap m tbl)
  then show ?case by (auto simp: activated_row_def)
next
  case (opt_in now tbl u opted_in tbl' created)
  then obtain m m' where m: "m \<in> set tbl" "tm_tenant m = tn_pk u" "tm_tenant m' = tn_pk u"
    "tm_v2_write_activated_at m' = tm_v2_write_activated_at m" "save_mapping tbl m' = Inr tbl'"
    by (meson set_v2_opt_in_mapping_saves)
  show ?case
    using activated_row_unique [OF opt_in.prems m(1)] m(2-4)
    by (intro save_keeps_activated [OF m(5) opt_in.prems(2)]) simp
next
  case (v2_write now tbl u tbl')
  from v2_write.prems(1) v2_write.hyps show ?case
    by (cases rule: ensure_v2_write_activated_cases)
      (use v2_write.prems(2) save_keeps_activated in blast)+
qed

lemma mapping_steps_keep:
  "mapping_step\<^sup>*\<^sup>* tbl tbl' \<Longrightarrow> mapping_inv tbl \<Longrightarrow> activated_row tbl t \<Longrightarrow>
     mapping_inv tbl' \<and> activated_row tbl' t"
  by (induction rule: rtranclp_induct) (auto intro: mapping_step_inv mapping_step_activated)

lemma ensure_v2_write_activates:
  assumes "mapping_inv tbl" and "ensure_v2_write_activated now tbl t = Inr tbl'"
  shows "mapping_inv tbl' \<and> activated_row tbl' t"
  using assms
proof (cases rule: ensure_v2_write_activated_cases)
  case (1 m)
  then show ?thesis using assms(1) by (auto simp: activated_row_def)
next
  case (2 m m')
  then have "m' \<in> set tbl'" using save_mapping_row [OF 2(6) 2(1)] by simp
  then show ?thesis using 2 save_mapping_inv [OF assms(1) 2(6)] by (auto simp: activated_row_def)
qed

lemma activated_row_checks:
  assumes "mapping_inv tbl" and "activated_row tbl t"
  shows "lock_tenant_version tbl t = Inr VERSION_2"
    and "assert_v1_write_allowed tbl t = Inl V1WriteBlockedError"
    and "set_v2_opt_in_mapping now tbl t False = Inl InvalidV2OptOutError"
    and "is_v2_opted_in tbl t = Inr True"
proof -
  from assms(2) obtain m where m: "m \<in> set tbl" "tm_tenant m = tn_pk t" "tm_v2_write_activated_at m \<noteq> None"
    unfolding activated_row_def by blast
  then have eq: "mappings_of tbl t = [m]" using mappings_of_row [OF assms(1)] by blast
  have lock: "lock_mapping_for_share tbl t = Inr m" by (simp add: lock_mapping_for_share_Inr_iff eq)
  have "opt_in_constraint m" using assms(1) m(1) by (simp add: mapping_inv_def list_all_iff)
  then show "lock_tenant_version tbl t = Inr VERSION_2"
    and "assert_v1_write_allowed tbl t = Inl V1WriteBlockedError"
    and "set_v2_opt_in_mapping now tbl t False = Inl InvalidV2OptOutError"
    and "is_v2_opted_in tbl t = Inr True"
    using m(3) by (auto simp: lock_tenant_version_def assert_v1_write_allowed_def lock
        set_v2_opt_in_mapping_def is_v2_opted_in_def eq get_one_def opt_in_constraint_def)
qed

section \<open>Properties\<close>

definition sample_mapping :: tenant_mapping where
  "sample_mapping =
     \<lparr>tm_pk = 1, tm_tenant = 7, tm_v2_opted_in_at = None, tm_v2_write_activated_at = None,
      tm_default_group_uuid = ''00000000-0000-0000-0000-0000000000a1'',
      tm_default_admin_group_uuid = ''00000000-0000-0000-0000-0000000000a2'',
      tm_default_role_binding_uuid = ''00000000-0000-0000-0000-0000000000b1'',
      tm_default_admin_role_binding_uuid = ''00000000-0000-0000-0000-0000000000b2'',
      tm_root_scope_default_role_binding_uuid = ''00000000-0000-0000-0000-0000000000b3'',
      tm_root_scope_default_admin_role_binding_uuid = ''00000000-0000-0000-0000-0000000000b4'',
      tm_tenant_scope_default_role_binding_uuid = ''00000000-0000-0000-0000-0000000000b5'',
      tm_tenant_scope_default_admin_role_binding_uuid = ''00000000-0000-0000-0000-0000000000b6''\<rparr>"

definition sample_org :: tenant where
  "sample_org = \<lparr>tn_pk = 7, tn_ready = True, tn_tenant_name = ''org7'', tn_account_id = None,
     tn_org_id = Some ''o7'', tn_relations_consistency_token = None, tn_org_config = PyDict []\<rparr>"

lemma sample_mapping_inv: "mapping_inv [sample_mapping]"
  by (simp add: mapping_inv_def opt_in_constraint_def sample_mapping_def)

text \<open>
  C39 (safety): once a tenant has written through V2, whatever transactions follow, the tenant stays
  on V2: every V1 write is refused, it cannot opt out, and it counts as opted in.
\<close>

theorem v1_blocked_after_v2:
  assumes "mapping_inv tbl" and "ensure_v2_write_activated now tbl t = Inr tbl1"
    and "mapping_step\<^sup>*\<^sup>* tbl1 tbl2"
  shows "lock_tenant_version tbl2 t = Inr VERSION_2 \<and>
         assert_v1_write_allowed tbl2 t = Inl V1WriteBlockedError \<and>
         set_v2_opt_in_mapping now' tbl2 t False = Inl InvalidV2OptOutError \<and>
         is_v2_opted_in tbl2 t = Inr True"
proof -
  have "mapping_inv tbl2 \<and> activated_row tbl2 t"
    using ensure_v2_write_activates [OF assms(1,2)] mapping_steps_keep [OF assms(3)] by blast
  then show ?thesis using activated_row_checks by blast
qed

theorem v1_blocked_after_v2_witness:
  "let tbl1 = [sample_mapping\<lparr>tm_v2_write_activated_at := Some ''t1'', tm_v2_opted_in_at := Some ''t1''\<rparr>]
   in ensure_v2_write_activated ''t1'' [sample_mapping] sample_org = Inr tbl1 \<and>
      assert_v1_write_allowed [sample_mapping] sample_org = Inr () \<and>
      assert_v1_write_allowed tbl1 sample_org = Inl V1WriteBlockedError"
proof -
  let ?tbl1 = "[sample_mapping\<lparr>tm_v2_write_activated_at := Some ''t1'', tm_v2_opted_in_at := Some ''t1''\<rparr>]"
  have activate: "ensure_v2_write_activated ''t1'' [sample_mapping] sample_org = Inr ?tbl1"
    by (simp add: ensure_v2_write_activated_def lock_mapping_for_share_def try_lock_mapping_for_share_def
        mappings_of_def get_one_def save_mapping_def opt_in_constraint_def sample_mapping_def sample_org_def)
  have allowed: "assert_v1_write_allowed [sample_mapping] sample_org = Inr ()"
    by (simp add: assert_v1_write_allowed_def lock_mapping_for_share_def try_lock_mapping_for_share_def
        mappings_of_def sample_mapping_def sample_org_def)
  have "mapping_step\<^sup>*\<^sup>* ?tbl1 ?tbl1" by simp
  from v1_blocked_after_v2 [OF sample_mapping_inv activate this] activate allowed
  show ?thesis by (simp add: Let_def)
qed

text \<open>
  The six default role bindings of a tenant are told apart by their uuids: from the
  uuid of a default binding the code finds the access type and the scope it was made for, and it
  finds none for any other uuid.
\<close>

theorem default_binding_source_round_trip:
  assumes "length (role_binding_ids m) = 6" and "list_all canonical_uuid (role_binding_ids m)"
  shows "(default_role_binding_uuid_for m a s = Inr i \<longrightarrow>
            source_for_role_binding_id m i = Inr (Some (a, s))) \<and>
         (source_for_role_binding_id m j = Inr (Some (a, s)) \<longrightarrow>
            parse_uuid j = default_role_binding_uuid_for m a s)"
proof -
  let ?ids = "[tm_default_role_binding_uuid m, tm_default_admin_role_binding_uuid m,
       tm_root_scope_default_role_binding_uuid m, tm_root_scope_default_admin_role_binding_uuid m,
       tm_tenant_scope_default_role_binding_uuid m, tm_tenant_scope_default_admin_role_binding_uuid m]"
  have "length (remdups ?ids) = length ?ids"
    using assms(1) unfolding role_binding_ids_def by (simp del: remdups.simps)
  then have six: "distinct ?ids" by (simp only: length_remdups_eq remdups_id_iff_distinct)
  have canon: "parse_uuid i = Inr i" if "i \<in> set ?ids" for i
  proof -
    have "canonical_uuid i"
      using assms(2) that unfolding list_all_iff role_binding_ids_def set_remdups by (rule bspec)
    then show ?thesis by (simp add: canonical_uuid_def parse_uuid_def)
  qed
  have "source_for_role_binding_id m i = Inr (Some (a, s))" if "default_role_binding_uuid_for m a s = Inr i"
  proof -
    have "i \<in> set ?ids" using that
      by (cases a; cases s) (simp_all add: default_role_binding_uuid_for_def role_binding_uuid_fns_def)
    then have "parse_uuid i = Inr i" by (rule canon)
    then show ?thesis
      using that six unfolding source_for_role_binding_id_def
      by (cases a; cases s; simp add: default_role_binding_uuid_for_def role_binding_uuid_fns_def; blast?)
  qed
  moreover have "parse_uuid j = default_role_binding_uuid_for m a s"
    if "source_for_role_binding_id m j = Inr (Some (a, s))"
    using that unfolding source_for_role_binding_id_def bind_r_Inr_iff
    by (elim exE conjE)
      (simp split: if_splits; elim conjE; simp add: default_role_binding_uuid_for_def role_binding_uuid_fns_def)
  ultimately show ?thesis by blast
qed

theorem default_binding_source_round_trip_witness:
  "source_for_role_binding_id sample_mapping ''00000000-0000-0000-0000-0000000000b4'' =
     Inr (Some (ACCESS_ADMIN, SCOPE_ROOT))"
proof -
  have "length (role_binding_ids sample_mapping) = 6"
    by (simp add: role_binding_ids_def sample_mapping_def)
  moreover have "list_all canonical_uuid (role_binding_ids sample_mapping)"
    by code_simp
  moreover have "default_role_binding_uuid_for sample_mapping ACCESS_ADMIN SCOPE_ROOT =
      Inr ''00000000-0000-0000-0000-0000000000b4''"
    by (simp add: default_role_binding_uuid_for_def role_binding_uuid_fns_def sample_mapping_def)
  ultimately show ?thesis using default_binding_source_round_trip by blast
qed

end
