(* ===== verification/Role_Models.thy ===== *)
theory Role_Models
  imports V2_Values Tenant_Mapping Workspace_Service "HOL-Library.Multiset"
begin

text \<open>
  The rows of roles and role bindings: \<open>Role\<close>, \<open>Access\<close>, \<open>ResourceDefinition\<close> and \<open>BindingMapping\<close>
  (\<open>management/role/model.py\<close>), \<open>RoleV2\<close> and its three kinds (\<open>management/role/v2_model.py\<close>),
  \<open>RoleBinding\<close> with its group and principal entries (\<open>management/role_binding/model.py\<close>), and the
  tables that hold them.

  A foreign key is the primary key of the row it names, that of a group or a principal its uuid. The
  JSON of a binding mapping is kept in the columns of its record. An \<open>Access\<close> row always has a
  permission here. Primary keys come from a counter of the database, new uuids from the function
  \<open>uuid7\<close> of a counter.
\<close>

section \<open>V1 roles\<close>

record access_row =
  ac_permission :: permission_row
  ac_resource_definitions :: "pyval list"

record v1_role =
  ro_pk :: int
  ro_uuid :: string
  ro_name :: string
  ro_display_name :: string
  ro_description :: "string option"
  ro_system :: bool
  ro_platform_default :: bool
  ro_admin_default :: bool
  ro_version :: int
  ro_tenant :: int
  ro_ext_relation :: "(string \<times> string option) option"
  ro_access :: "access_row list"

definition role_save :: "v1_role \<Rightarrow> v1_role" where
  "role_save r = (if ro_display_name r = [] then r\<lparr>ro_display_name := ro_name r\<rparr> else r)"

definition external_role_id :: "v1_role \<Rightarrow> string option" where
  "external_role_id r = map_option fst (ro_ext_relation r)"

definition external_tenant_name :: "v1_role \<Rightarrow> string option result" where
  "external_tenant_name r =
     (case ro_ext_relation r of
        None \<Rightarrow> Inr None
      | Some (_, None) \<Rightarrow> Inl AttributeError
      | Some (_, Some name) \<Rightarrow> Inr (Some name))"

record policy_row =
  po_pk :: int
  po_uuid :: string
  po_name :: string
  po_group :: "string option"
  po_roles :: "int list"
  po_tenant :: int

section \<open>Binding mappings\<close>

record binding_mapping =
  bm_pk :: "int option"
  bm_id :: string
  bm_role_value :: v2_role
  bm_groups :: "string list"
  bm_users :: "(string \<times> string) list"
  bm_role :: int
  bm_v2_role :: "int option"
  bm_resource_type_namespace :: string
  bm_resource_type_name :: string
  bm_resource_id :: string

definition source_key :: "string \<Rightarrow> string \<Rightarrow> string" where
  "source_key class_name source_id = class_name @ ''/'' @ source_id"

definition for_role_binding :: "v2_role_binding \<Rightarrow> int \<Rightarrow> int option \<Rightarrow> binding_mapping" where
  "for_role_binding b role v2_role =
     \<lparr>bm_pk = None, bm_id = vb_id b, bm_role_value = role_as_dict (vb_role b), bm_groups = vb_groups b,
      bm_users = vb_users b, bm_role = role, bm_v2_role = v2_role,
      bm_resource_type_namespace = fst (br_type (vb_resource b)),
      bm_resource_type_name = snd (br_type (vb_resource b)),
      bm_resource_id = br_id (vb_resource b)\<rparr>"

definition get_role_binding :: "binding_mapping \<Rightarrow> v2_role_binding result" where
  "get_role_binding m =
     bind_r (mk_bound_resource (bm_resource_type_namespace m, bm_resource_type_name m)
               (PyStr (bm_resource_id m))) (\<lambda>resource.
       Inr \<lparr>vb_id = bm_id m,
            vb_role = (bm_role_value m)\<lparr>vr_permissions := remdups (vr_permissions (bm_role_value m))\<rparr>,
            vb_resource = resource, vb_groups = bm_groups m, vb_users = bm_users m\<rparr>)"

definition mapping_as_tuples :: "string \<Rightarrow> binding_mapping \<Rightarrow> relation_tuple list result" where
  "mapping_as_tuples domain m = bind_r (get_role_binding m) (binding_as_tuples domain)"

definition is_unassigned :: "binding_mapping \<Rightarrow> bool" where
  "is_unassigned m \<longleftrightarrow> length (bm_groups m) = 0 \<and> length (bm_users m) = 0"

definition pop_group_from_bindings ::
  "string \<Rightarrow> binding_mapping \<Rightarrow> (binding_mapping \<times> relation_tuple option) result" where
  "pop_group_from_bindings group_uuid m =
     (let m' = m\<lparr>bm_groups := remove1 group_uuid (bm_groups m)\<rparr>
      in if group_uuid \<in> set (bm_groups m') then Inr (m', None)
         else bind_r (role_binding_group_subject_tuple (bm_id m') group_uuid) (\<lambda>t. Inr (m', Some t)))"

lemma pop_group_from_bindings_None:
  "pop_group_from_bindings g m = Inr (m', None) \<longleftrightarrow>
     m' = m\<lparr>bm_groups := remove1 g (bm_groups m)\<rparr> \<and> g \<in> set (remove1 g (bm_groups m))"
  by (auto simp: pop_group_from_bindings_def Let_def bind_r_Inr_iff)

function unassign_group :: "string \<Rightarrow> binding_mapping \<Rightarrow> (binding_mapping \<times> relation_tuple) result" where
  "unassign_group group_uuid m =
     (case pop_group_from_bindings group_uuid m of
        Inl e \<Rightarrow> Inl e
      | Inr (m', Some t) \<Rightarrow> Inr (m', t)
      | Inr (m', None) \<Rightarrow> unassign_group group_uuid m')"
  by pat_completeness auto
termination
proof (relation "measure (\<lambda>(g, m). length (bm_groups m))", goal_cases)
  case (2 g m r m' t)
  then have "pop_group_from_bindings g m = Inr (m', None)" by simp
  then have "m' = m\<lparr>bm_groups := remove1 g (bm_groups m)\<rparr>" "g \<in> set (remove1 g (bm_groups m))"
    by (simp_all only: pop_group_from_bindings_None)
  moreover from this have "g \<in> set (bm_groups m)" using notin_set_remove1 by fast
  ultimately show ?case using length_pos_if_in_set [of g "bm_groups m"] by (simp add: length_remove1)
qed simp

declare unassign_group.simps [simp del]

definition assign_group_to_bindings ::
  "string \<Rightarrow> binding_mapping \<Rightarrow> (binding_mapping \<times> relation_tuple option) result" where
  "assign_group_to_bindings group_uuid m =
     (if group_uuid \<in> set (bm_groups m) then Inr (m, None)
      else bind_r (role_binding_group_subject_tuple (bm_id m) group_uuid) (\<lambda>t.
             Inr (m\<lparr>bm_groups := bm_groups m @ [group_uuid]\<rparr>, Some t)))"

definition add_group_to_bindings ::
  "string \<Rightarrow> binding_mapping \<Rightarrow> (binding_mapping \<times> relation_tuple) result" where
  "add_group_to_bindings group_uuid m =
     bind_r (role_binding_group_subject_tuple (bm_id m) group_uuid) (\<lambda>t.
       Inr (m\<lparr>bm_groups := bm_groups m @ [group_uuid]\<rparr>, t))"

definition unassign_user_from_bindings ::
  "string \<Rightarrow> string \<Rightarrow> string \<Rightarrow> binding_mapping \<Rightarrow> (binding_mapping \<times> relation_tuple option) result" where
  "unassign_user_from_bindings domain user_id source m =
     (let m' = m\<lparr>bm_users := AList.delete source (bm_users m)\<rparr>
      in if user_id \<in> snd ` set (bm_users m') then Inr (m', None)
         else bind_r (role_binding_user_subject_tuple domain (bm_id m') user_id) (\<lambda>t. Inr (m', Some t)))"

definition assign_user_to_bindings ::
  "string \<Rightarrow> string \<Rightarrow> string \<Rightarrow> binding_mapping \<Rightarrow> (binding_mapping \<times> relation_tuple) result" where
  "assign_user_to_bindings domain user_id source m =
     bind_r (role_binding_user_subject_tuple domain (bm_id m) user_id) (\<lambda>t.
       Inr (m\<lparr>bm_users := AList.update source user_id (bm_users m)\<rparr>, t))"

definition update_mappings_from_role_binding :: "v2_role_binding \<Rightarrow> binding_mapping \<Rightarrow> binding_mapping result" where
  "update_mappings_from_role_binding b m =
     (if fst (br_type (vb_resource b)) \<noteq> bm_resource_type_namespace m \<or>
         snd (br_type (vb_resource b)) \<noteq> bm_resource_type_name m \<or>
         br_id (vb_resource b) \<noteq> bm_resource_id m
      then Inl PyException
      else Inr (m\<lparr>bm_id := vb_id b, bm_role_value := role_as_dict (vb_role b), bm_groups := vb_groups b,
                  bm_users := vb_users b\<rparr>))"

section \<open>V2 roles\<close>

datatype role_type = ROLE_CUSTOM | ROLE_SEEDED | ROLE_PLATFORM

record role_v2 =
  r2_pk :: int
  r2_uuid :: string
  r2_name :: string
  r2_description :: "string option"
  r2_type :: role_type
  r2_tenant :: int
  r2_permissions :: "permission_row list"
  r2_children :: "int list"
  r2_v1_source :: "int option"

type_synonym role_table = "role_v2 list"

text \<open>
  \<open>full_clean\<close> of a row: \<open>clean\<close> raises its own error for a blank name, every other violation is a
  \<open>ValidationError\<close>. Foreign keys name existing rows. \<open>save\<close> writes the columns of the row, not its
  many-to-many relations.
\<close>

definition role_clean :: "role_v2 \<Rightarrow> unit result" where
  "role_clean r = check_r (str_strip (r2_name r) \<noteq> []) (RequiredFieldError ''name'')"

definition role_unique :: "role_table \<Rightarrow> role_v2 \<Rightarrow> bool" where
  "role_unique tbl r \<longleftrightarrow>
     list_all (\<lambda>r'. r2_pk r' = r2_pk r \<or>
       r2_uuid r' \<noteq> r2_uuid r \<and> \<not> (r2_name r' = r2_name r \<and> r2_tenant r' = r2_tenant r)) tbl"

definition role_full_clean :: "role_table \<Rightarrow> role_v2 \<Rightarrow> unit result" where
  "role_full_clean tbl r =
     bind_r (role_clean r) (\<lambda>_.
       check_r (length (r2_name r) \<le> 175 \<and> role_unique tbl r) ValidationError)"

definition role_v2_save :: "role_table \<Rightarrow> role_v2 \<Rightarrow> role_table result" where
  "role_v2_save tbl r =
     bind_r (role_full_clean tbl r) (\<lambda>_.
       Inr (if r2_pk r \<in> r2_pk ` set tbl
            then map (\<lambda>r'. if r2_pk r' = r2_pk r
                            then r\<lparr>r2_permissions := r2_permissions r', r2_children := r2_children r'\<rparr>
                            else r') tbl
            else tbl @ [r]))"

definition typed_role_init :: "role_type \<Rightarrow> bool \<Rightarrow> role_type option \<Rightarrow> role_v2 \<Rightarrow> role_v2 result" where
  "typed_role_init expected has_pk provided_type r =
     (if \<not> has_pk
      then (if provided_type \<noteq> None \<and> provided_type \<noteq> Some expected then Inl SerializerValidationError
            else Inr (r\<lparr>r2_type := expected\<rparr>))
      else if r2_type r \<noteq> expected then Inl SerializerValidationError else Inr r)"

definition typed_role_save :: "role_type \<Rightarrow> role_table \<Rightarrow> role_v2 \<Rightarrow> role_table result" where
  "typed_role_save expected tbl r =
     bind_r (check_r (r2_type r = expected) SerializerValidationError) (\<lambda>_.
     bind_r (role_full_clean tbl r) (\<lambda>_. role_v2_save tbl r))"

definition typed_role_queryset :: "role_type \<Rightarrow> role_table \<Rightarrow> role_table" where
  "typed_role_queryset role_type tbl = filter (\<lambda>r. r2_type r = role_type) tbl"

definition custom_role_update :: "string \<Rightarrow> string option \<Rightarrow> role_v2 \<Rightarrow> role_v2" where
  "custom_role_update name description r = r\<lparr>r2_name := name, r2_description := description\<rparr>"

definition role_org_id :: "tenant \<Rightarrow> string option" where
  "role_org_id t = (if tn_tenant_name t = PUBLIC_TENANT_NAME then None else tn_org_id t)"

definition role_as_migration_value :: "role_v2 \<Rightarrow> v2_role result" where
  "role_as_migration_value r =
     (case r2_type r of
        ROLE_PLATFORM \<Rightarrow> Inl ValueError
      | ROLE_SEEDED \<Rightarrow> Inr (for_system_role (r2_uuid r))
      | ROLE_CUSTOM \<Rightarrow>
          Inr \<lparr>vr_id = r2_uuid r, vr_is_system = False,
               vr_permissions = remdups (map v2_string (r2_permissions r))\<rparr>)"

definition v2_permissions :: "role_v2 \<Rightarrow> string list" where
  "v2_permissions r = remdups (map v2_string (r2_permissions r))"

definition role_row_permission_tuple :: "role_v2 \<Rightarrow> permission_row \<Rightarrow> relation_tuple result" where
  "role_row_permission_tuple r p = role_permission_tuple (r2_uuid r) (v2_string p)"

definition permission_and_owner_tuples ::
  "string \<Rightarrow> tenant \<Rightarrow> role_v2 \<Rightarrow> permission_row list option \<Rightarrow> relation_tuple list result" where
  "permission_and_owner_tuples domain t r cached_permissions =
     (let tenant_resource = tenant_resource_id domain t
      in bind_r (check_r ((r2_type r = ROLE_CUSTOM) = (tenant_resource \<noteq> None)) RuntimeError) (\<lambda>_.
         bind_r (mapM_r (role_row_permission_tuple r)
                   (case cached_permissions of None \<Rightarrow> r2_permissions r | Some ps \<Rightarrow> ps)) (\<lambda>tuples.
           case tenant_resource of
             None \<Rightarrow> Inr (remdups tuples)
           | Some i \<Rightarrow> bind_r (role_owner_relationship (r2_uuid r) i) (\<lambda>t. Inr (remdups tuples @ [t])))))"

definition tuples_for_update ::
  "role_v2 \<Rightarrow> permission_row list \<Rightarrow> permission_row list \<Rightarrow> (relation_tuple list \<times> relation_tuple list) result" where
  "tuples_for_update r old_permissions new_permissions =
     (let old_set = remdups old_permissions; new_set = remdups new_permissions
      in bind_r (mapM_r (role_row_permission_tuple r) (filter (\<lambda>p. p \<notin> set old_set) new_set)) (\<lambda>add.
         bind_r (mapM_r (role_row_permission_tuple r) (filter (\<lambda>p. p \<notin> set new_set) old_set)) (\<lambda>rem.
           Inr (add, rem))))"

definition tuples_for_create ::
  "string \<Rightarrow> tenant \<Rightarrow> role_v2 \<Rightarrow> permission_row list option \<Rightarrow> relation_tuple list result" where
  "tuples_for_create domain t r cached_permissions = permission_and_owner_tuples domain t r cached_permissions"

definition tuples_for_delete ::
  "string \<Rightarrow> tenant \<Rightarrow> role_v2 \<Rightarrow> permission_row list option \<Rightarrow> relation_tuple list result" where
  "tuples_for_delete domain t r cached_permissions = permission_and_owner_tuples domain t r cached_permissions"

definition for_v1_roles :: "role_table \<Rightarrow> v1_role list \<Rightarrow> role_v2 list result" where
  "for_v1_roles tbl roles0 =
     (let roles = remdups roles0;
          v2_roles = filter (\<lambda>r. r2_v1_source r \<in> Some ` ro_pk ` set roles) (typed_role_queryset ROLE_SEEDED tbl)
      in bind_r (check_r (list_all ro_system roles) ValueError) (\<lambda>_.
           if length roles \<noteq> length v2_roles
           then (if list_all (\<lambda>r. Some (ro_pk r) \<in> r2_v1_source ` set v2_roles) roles
                 then Inl AssertionError else Inl ValueError)
           else Inr v2_roles))"

definition validate_role_children_on_m2m_change ::
  "role_table \<Rightarrow> role_v2 \<Rightarrow> string \<Rightarrow> int list \<Rightarrow> unit result" where
  "validate_role_children_on_m2m_change tbl r action pk_set =
     (if action \<noteq> ''pre_add'' then Inr ()
      else if r2_type r = ROLE_PLATFORM
      then check_r (\<not> list_ex (\<lambda>c. r2_pk c \<in> set pk_set \<and> r2_type c \<noteq> ROLE_SEEDED) tbl)
             SerializerValidationError
      else Inl SerializerValidationError)"

section \<open>Role bindings and the database\<close>

record role_binding =
  rb_pk :: int
  rb_uuid :: string
  rb_tenant :: int
  rb_role :: int
  rb_resource_type :: string
  rb_resource_id :: string

record 's rbac_db =
  db_ws :: "'s ws_state"
  db_tenant_mappings :: mapping_table
  db_v1_roles :: "v1_role list"
  db_policies :: "policy_row list"
  db_groups :: "rbac_group list"
  db_principals :: "principal list"
  db_roles :: role_table
  db_bindings :: "role_binding list"
  db_binding_groups :: "(int \<times> string) list"
  db_binding_principals :: "(int \<times> string \<times> string) list"
  db_mappings :: "binding_mapping list"
  db_next_pk :: int
  db_next_uuid :: nat

definition fresh_pk :: "'s rbac_db \<Rightarrow> int \<times> 's rbac_db" where
  "fresh_pk db = (db_next_pk db, db\<lparr>db_next_pk := db_next_pk db + 1\<rparr>)"

definition fresh_uuid :: "(nat \<Rightarrow> string) \<Rightarrow> 's rbac_db \<Rightarrow> string \<times> 's rbac_db" where
  "fresh_uuid uuid7 db = (uuid7 (db_next_uuid db), db\<lparr>db_next_uuid := db_next_uuid db + 1\<rparr>)"

definition role_by_pk :: "'s rbac_db \<Rightarrow> int \<Rightarrow> role_v2 result" where
  "role_by_pk db pk = get_one (filter (\<lambda>r. r2_pk r = pk) (db_roles db))"

subsection \<open>Tuples\<close>

definition binding_resource_type_pair :: "role_binding \<Rightarrow> string \<times> string" where
  "binding_resource_type_pair b = (''rbac'', rb_resource_type b)"

definition role_relation_tuple :: "role_binding \<Rightarrow> role_v2 \<Rightarrow> relation_tuple result" where
  "role_relation_tuple b r =
     create_relationship (''rbac'', ''role_binding'') (rb_uuid b) (''rbac'', ''role'') (r2_uuid r) ''role'' None"

definition rb_resource_binding_tuple :: "role_binding \<Rightarrow> relation_tuple result" where
  "rb_resource_binding_tuple b =
     create_relationship (binding_resource_type_pair b) (rb_resource_id b)
       (''rbac'', ''role_binding'') (rb_uuid b) ''binding'' None"

definition group_subject_tuple :: "role_binding \<Rightarrow> string \<Rightarrow> relation_tuple result" where
  "group_subject_tuple b group_uuid =
     create_relationship (''rbac'', ''role_binding'') (rb_uuid b) (''rbac'', ''group'') group_uuid
       ''subject'' (Some ''member'')"

definition user_subject_tuple :: "string \<Rightarrow> role_binding \<Rightarrow> principal \<Rightarrow> relation_tuple result" where
  "user_subject_tuple domain b p =
     create_relationship (''rbac'', ''role_binding'') (rb_uuid b) (''rbac'', ''principal'')
       (user_id_to_principal_resource_id domain (py_str (py_opt_str (pr_user_id p)))) ''subject'' None"

definition rb_binding_tuples :: "role_binding \<Rightarrow> role_v2 \<Rightarrow> relation_tuple list result" where
  "rb_binding_tuples b r =
     bind_r (role_relation_tuple b r) (\<lambda>t1. bind_r (rb_resource_binding_tuple b) (\<lambda>t2. Inr [t1, t2]))"

definition group_entries :: "'s rbac_db \<Rightarrow> role_binding \<Rightarrow> string list" where
  "group_entries db b = map snd (filter (\<lambda>(pk, _). pk = rb_pk b) (db_binding_groups db))"

definition principal_entries :: "'s rbac_db \<Rightarrow> role_binding \<Rightarrow> (string \<times> string) list" where
  "principal_entries db b = map snd (filter (\<lambda>(pk, _). pk = rb_pk b) (db_binding_principals db))"

definition principals_by_uuid :: "'s rbac_db \<Rightarrow> string list \<Rightarrow> principal list" where
  "principals_by_uuid db uuids = filter (\<lambda>p. pr_uuid p \<in> set uuids) (db_principals db)"

definition all_tuples :: "string \<Rightarrow> 's rbac_db \<Rightarrow> role_binding \<Rightarrow> relation_tuple list result" where
  "all_tuples domain db b =
     bind_r (role_by_pk db (rb_role b)) (\<lambda>r.
     bind_r (rb_binding_tuples b r) (\<lambda>tuples.
     bind_r (mapM_r (group_subject_tuple b) (group_entries db b)) (\<lambda>groups.
     bind_r (mapM_r (user_subject_tuple domain b) (principals_by_uuid db (map fst (principal_entries db b))))
            (\<lambda>users. Inr (tuples @ groups @ users)))))"

datatype binding_subject = GroupSubject rbac_group | PrincipalSubject principal

definition subject_tuple :: "string \<Rightarrow> role_binding \<Rightarrow> binding_subject \<Rightarrow> relation_tuple result" where
  "subject_tuple domain b s =
     (case s of
        GroupSubject g \<Rightarrow> group_subject_tuple b (gr_uuid g)
      | PrincipalSubject p \<Rightarrow> user_subject_tuple domain b p)"

definition replication_tuples ::
  "string \<Rightarrow> binding_subject \<Rightarrow> (role_binding \<times> role_v2) list \<Rightarrow> (role_binding \<times> role_v2) list
   \<Rightarrow> role_binding list \<Rightarrow> role_binding list \<Rightarrow> (relation_tuple list \<times> relation_tuple list) result" where
  "replication_tuples domain s bindings_created bindings_deleted subject_linked_to subject_unlinked_from =
     bind_r (mapM_r (\<lambda>(b, r). rb_binding_tuples b r) bindings_created) (\<lambda>created.
     bind_r (mapM_r (\<lambda>(b, r). rb_binding_tuples b r) bindings_deleted) (\<lambda>deleted.
     bind_r (mapM_r (\<lambda>b. subject_tuple domain b s) subject_linked_to) (\<lambda>linked.
     bind_r (mapM_r (\<lambda>b. subject_tuple domain b s) subject_unlinked_from) (\<lambda>unlinked.
       Inr (concat created @ linked, concat deleted @ unlinked)))))"

subsection \<open>Subjects\<close>

definition bound_groups :: "'s rbac_db \<Rightarrow> role_binding \<Rightarrow> rbac_group list" where
  "bound_groups db b = filter (\<lambda>g. gr_uuid g \<in> set (group_entries db b)) (db_groups db)"

definition bound_principals :: "'s rbac_db \<Rightarrow> role_binding \<Rightarrow> principal list" where
  "bound_principals db b = principals_by_uuid db (map fst (principal_entries db b))"

definition update_groups :: "role_binding \<Rightarrow> string list \<Rightarrow> 's rbac_db \<Rightarrow> 's rbac_db" where
  "update_groups b group_uuids db =
     db\<lparr>db_binding_groups :=
          filter (\<lambda>(pk, _). pk \<noteq> rb_pk b) (db_binding_groups db) @
          map (\<lambda>g. (rb_pk b, g)) (remdups group_uuids)\<rparr>"

definition update_groups_by_uuid :: "role_binding \<Rightarrow> string list \<Rightarrow> 's rbac_db \<Rightarrow> 's rbac_db result" where
  "update_groups_by_uuid b uuids db =
     (let found = filter (\<lambda>g. gr_uuid g \<in> set uuids) (db_groups db)
      in bind_r (check_r (set (map gr_uuid found) = set uuids) ValueError) (\<lambda>_.
           Inr (update_groups b (map gr_uuid found) db)))"

definition update_principals :: "role_binding \<Rightarrow> (string \<times> principal) list \<Rightarrow> 's rbac_db \<Rightarrow> 's rbac_db result" where
  "update_principals b principals_by_source db =
     bind_r (check_r (list_all (\<lambda>(source, _). source \<noteq> []) principals_by_source) IntegrityError) (\<lambda>_.
       Inr (db\<lparr>db_binding_principals :=
          filter (\<lambda>(pk, _). pk \<noteq> rb_pk b) (db_binding_principals db) @
          map (\<lambda>(source, p). (rb_pk b, pr_uuid p, source)) (remdups principals_by_source)\<rparr>))"

definition update_principals_by_user_id ::
  "role_binding \<Rightarrow> (string \<times> string option) list \<Rightarrow> 's rbac_db \<Rightarrow> 's rbac_db result" where
  "update_principals_by_user_id b user_ids_by_source db =
     (let entries = remdups user_ids_by_source;
          user_ids = map snd entries;
          found = filter (\<lambda>p. pr_user_id p \<noteq> None \<and> pr_user_id p \<in> set user_ids) (db_principals db)
      in bind_r (check_r (None \<notin> set user_ids) TypeError) (\<lambda>_.
         bind_r (check_r (set (map pr_user_id found) = set user_ids) ValueError) (\<lambda>_.
         bind_r (mapM_r (\<lambda>(source, u).
                   (case map_of (rev (map (\<lambda>p. (pr_user_id p, p)) found)) u of
                      None \<Rightarrow> Inl KeyError
                    | Some p \<Rightarrow> Inr (source, p))) entries) (\<lambda>pairs.
           update_principals b pairs db))))"

definition binding_as_migration_value ::
  "'s rbac_db \<Rightarrow> role_binding \<Rightarrow> string list option \<Rightarrow> v2_role_binding result" where
  "binding_as_migration_value db b force_group_uuids =
     bind_r (role_by_pk db (rb_role b)) (\<lambda>r.
     bind_r (role_as_migration_value r) (\<lambda>role.
     bind_r (mk_bound_resource (''rbac'', rb_resource_type b) (PyStr (rb_resource_id b))) (\<lambda>resource.
       Inr \<lparr>vb_id = rb_uuid b, vb_role = role, vb_resource = resource,
            vb_groups = (case force_group_uuids of
                           None \<Rightarrow> map gr_uuid (bound_groups db b)
                         | Some uuids \<Rightarrow> uuids),
            vb_users = []\<rparr>)))"

subsection \<open>Writing rows\<close>

text \<open>
  Saving and deleting rows, with the unique constraints of the tables and the cascades of their
  foreign keys.
\<close>

definition binding_unique :: "role_binding list \<Rightarrow> role_binding \<Rightarrow> bool" where
  "binding_unique tbl b \<longleftrightarrow>
     list_all (\<lambda>b'. rb_pk b' = rb_pk b \<or>
       rb_uuid b' \<noteq> rb_uuid b \<and>
       \<not> (rb_role b' = rb_role b \<and> rb_resource_type b' = rb_resource_type b \<and>
          rb_resource_id b' = rb_resource_id b \<and> rb_tenant b' = rb_tenant b)) tbl"

definition save_role_binding :: "role_binding \<Rightarrow> 's rbac_db \<Rightarrow> 's rbac_db result" where
  "save_role_binding b db =
     bind_r (check_r (binding_unique (db_bindings db) b) IntegrityError) (\<lambda>_.
       Inr (db\<lparr>db_bindings :=
          (if rb_pk b \<in> rb_pk ` set (db_bindings db)
           then map (\<lambda>b'. if rb_pk b' = rb_pk b then b else b') (db_bindings db)
           else db_bindings db @ [b])\<rparr>))"

definition create_role_binding ::
  "string \<Rightarrow> int \<Rightarrow> int \<Rightarrow> string \<Rightarrow> string \<Rightarrow> 's rbac_db \<Rightarrow> (role_binding \<times> 's rbac_db) result" where
  "create_role_binding uuid tenant role resource_type resource_id db =
     (let (pk, db1) = fresh_pk db;
          b = \<lparr>rb_pk = pk, rb_uuid = uuid, rb_tenant = tenant, rb_role = role,
               rb_resource_type = resource_type, rb_resource_id = resource_id\<rparr>
      in bind_r (save_role_binding b db1) (\<lambda>db2. Inr (b, db2)))"

definition mapping_unique :: "binding_mapping list \<Rightarrow> binding_mapping \<Rightarrow> bool" where
  "mapping_unique tbl m \<longleftrightarrow>
     bm_v2_role m = None \<or>
     list_all (\<lambda>m'. bm_pk m' = bm_pk m \<or>
       \<not> (bm_v2_role m' = bm_v2_role m \<and>
          bm_resource_type_namespace m' = bm_resource_type_namespace m \<and>
          bm_resource_type_name m' = bm_resource_type_name m \<and> bm_resource_id m' = bm_resource_id m)) tbl"

definition save_binding_mapping :: "binding_mapping \<Rightarrow> 's rbac_db \<Rightarrow> (binding_mapping \<times> 's rbac_db) result" where
  "save_binding_mapping m db =
     bind_r (check_r (mapping_unique (db_mappings db) m) IntegrityError) (\<lambda>_.
       case bm_pk m of
         None \<Rightarrow>
           (let (pk, db1) = fresh_pk db; m' = m\<lparr>bm_pk := Some pk\<rparr>
            in Inr (m', db1\<lparr>db_mappings := db_mappings db1 @ [m']\<rparr>))
       | Some pk \<Rightarrow>
           Inr (m, db\<lparr>db_mappings :=
             (if Some pk \<in> bm_pk ` set (db_mappings db)
              then map (\<lambda>m'. if bm_pk m' = Some pk then m else m') (db_mappings db)
              else db_mappings db @ [m])\<rparr>))"

definition delete_binding_mapping :: "binding_mapping \<Rightarrow> 's rbac_db \<Rightarrow> 's rbac_db" where
  "delete_binding_mapping m db =
     db\<lparr>db_mappings := filter (\<lambda>m'. bm_pk m' \<noteq> bm_pk m) (db_mappings db)\<rparr>"

definition delete_bindings :: "(role_binding \<Rightarrow> bool) \<Rightarrow> 's rbac_db \<Rightarrow> 's rbac_db" where
  "delete_bindings P db =
     (let pks = map rb_pk (filter P (db_bindings db))
      in db\<lparr>db_bindings := filter (\<lambda>b. \<not> P b) (db_bindings db),
            db_binding_groups := filter (\<lambda>(pk, _). pk \<notin> set pks) (db_binding_groups db),
            db_binding_principals := filter (\<lambda>(pk, _). pk \<notin> set pks) (db_binding_principals db)\<rparr>)"

definition delete_role_binding :: "role_binding \<Rightarrow> 's rbac_db \<Rightarrow> 's rbac_db" where
  "delete_role_binding b db = delete_bindings (\<lambda>b'. rb_pk b' = rb_pk b) db"

definition delete_role_v2 :: "role_v2 \<Rightarrow> 's rbac_db \<Rightarrow> 's rbac_db" where
  "delete_role_v2 r db =
     (delete_bindings (\<lambda>b. rb_role b = r2_pk r) db)
       \<lparr>db_roles := map (\<lambda>r'. r'\<lparr>r2_children := filter (\<lambda>c. c \<noteq> r2_pk r) (r2_children r')\<rparr>)
                      (filter (\<lambda>r'. r2_pk r' \<noteq> r2_pk r) (db_roles db)),
        db_mappings := map (\<lambda>m. if bm_v2_role m = Some (r2_pk r) then m\<lparr>bm_v2_role := None\<rparr> else m)
                         (db_mappings db)\<rparr>"

definition save_custom_role :: "role_v2 \<Rightarrow> 's rbac_db \<Rightarrow> 's rbac_db result" where
  "save_custom_role r db =
     bind_r (typed_role_save ROLE_CUSTOM (db_roles db) r) (\<lambda>tbl. Inr (db\<lparr>db_roles := tbl\<rparr>))"

definition set_role_permissions :: "role_v2 \<Rightarrow> permission_row list \<Rightarrow> 's rbac_db \<Rightarrow> 's rbac_db" where
  "set_role_permissions r permissions db =
     db\<lparr>db_roles := map (\<lambda>r'. if r2_pk r' = r2_pk r then r'\<lparr>r2_permissions := permissions\<rparr> else r') (db_roles db)\<rparr>"

section \<open>Subjects of a binding mapping\<close>

text \<open>
  The subject tuples in the access graph are those of the groups and users of the mapping. \<open>apply_change\<close>
  is what the caller does with the tuples an operation returns.
\<close>

definition users_of :: "(string \<times> string) list \<Rightarrow> string set" where
  "users_of us = snd ` set us"

definition subjects_in_sync :: "string \<Rightarrow> binding_mapping \<Rightarrow> relation_tuple set \<Rightarrow> bool" where
  "subjects_in_sync domain m ts \<longleftrightarrow>
     (\<forall>g. group_tuple (bm_id m) g \<in> ts \<longleftrightarrow> g \<in> set (bm_groups m)) \<and>
     (\<forall>u. user_tuple domain (bm_id m) u \<in> ts \<longleftrightarrow> u \<in> users_of (bm_users m))"

definition with_added :: "relation_tuple set \<Rightarrow> relation_tuple option \<Rightarrow> relation_tuple set" where
  "with_added ts t = (case t of None \<Rightarrow> ts | Some x \<Rightarrow> insert x ts)"

definition with_removed :: "relation_tuple set \<Rightarrow> relation_tuple option \<Rightarrow> relation_tuple set" where
  "with_removed ts t = (case t of None \<Rightarrow> ts | Some x \<Rightarrow> ts - {x})"

lemmas subject_change_defs = subjects_in_sync_def with_added_def with_removed_def

lemma pop_group_from_bindings_Some:
  "pop_group_from_bindings g m = Inr (m', Some t) \<longleftrightarrow>
     m' = m\<lparr>bm_groups := remove1 g (bm_groups m)\<rparr> \<and> g \<notin> set (remove1 g (bm_groups m)) \<and>
     t = group_tuple (bm_id m) g \<and> valid_relation_tuple t"
  by (auto simp: pop_group_from_bindings_def Let_def bind_r_Inr_iff tuple_constructors_Inr)

lemma removeAll_remove1: "removeAll x (remove1 x xs) = removeAll x xs"
  by (induction xs) auto

lemma unassign_group_spec:
  "unassign_group g m = Inr (m', t) \<longleftrightarrow>
     m' = m\<lparr>bm_groups := removeAll g (bm_groups m)\<rparr> \<and> t = group_tuple (bm_id m) g \<and> valid_relation_tuple t"
proof (induction g m arbitrary: m' t rule: unassign_group.induct)
  case (1 g m)
  show ?case
  proof (cases "pop_group_from_bindings g m")
    case (Inl e)
    then have "\<not> valid_relation_tuple (group_tuple (bm_id m) g)"
      by (auto simp: pop_group_from_bindings_def Let_def role_binding_group_subject_tuple_def group_tuple_def
          bind_r_Inl_iff create_relationship_valid split: if_splits)
    then show ?thesis using Inl by (subst unassign_group.simps) auto
  next
    case (Inr p)
    obtain m1 o1 where p: "p = (m1, o1)" by (cases p)
    show ?thesis
    proof (cases o1)
      case None
      then have m1: "m1 = m\<lparr>bm_groups := remove1 g (bm_groups m)\<rparr>"
        using Inr p by (simp add: pop_group_from_bindings_None)
      then show ?thesis
        using 1 [OF Inr p [symmetric] None, of m' t]
        by (subst unassign_group.simps) (simp add: Inr p None removeAll_remove1)
    next
      case (Some t1)
      then have "pop_group_from_bindings g m = Inr (m1, Some t1)" using Inr p by simp
      then have "m1 = m\<lparr>bm_groups := remove1 g (bm_groups m)\<rparr>" and "g \<notin> set (remove1 g (bm_groups m))"
          and "t1 = group_tuple (bm_id m) g" and "valid_relation_tuple t1"
        unfolding pop_group_from_bindings_Some by blast+
      moreover from this have "removeAll g (bm_groups m) = remove1 g (bm_groups m)"
        using removeAll_remove1 [of g "bm_groups m"] by (simp add: removeAll_id)
      ultimately show ?thesis by (subst unassign_group.simps) (auto simp: Inr p Some)
    qed
  qed
qed

lemma get_role_binding_Inr:
  "get_role_binding m = Inr b \<Longrightarrow>
     vb_id b = bm_id m \<and> vb_groups b = bm_groups m \<and> vb_users b = bm_users m \<and>
     br_type (vb_resource b) = (bm_resource_type_namespace m, bm_resource_type_name m) \<and>
     br_id (vb_resource b) = bm_resource_id m \<and> distinct (vr_permissions (vb_role b)) \<and>
     set (vr_permissions (vb_role b)) = set (vr_permissions (bm_role_value m)) \<and>
     vr_id (vb_role b) = vr_id (bm_role_value m)"
  by (auto simp: get_role_binding_def result_simps)

lemma users_after_delete:
  assumes "distinct (map fst us)" and "map_of us k \<in> {None, Some u}"
  shows "users_of (AList.delete k us) \<union> {u} = users_of us \<union> {u}"
  using assms unfolding users_of_def by (induction us) (auto split: if_splits simp: image_iff)

lemma users_after_update:
  assumes "distinct (map fst us)" and "map_of us k \<in> {None, Some u}"
  shows "users_of (AList.update k u us) = insert u (users_of us)"
proof -
  have dist: "distinct (map fst (AList.update k u us))" using assms(1) by (rule distinct_update)
  have "ran (map_of (AList.update k u us)) = insert u (ran (map_of us))"
    using assms(2) by (cases "map_of us k") (auto simp: ran_map_upd map_upd_triv intro: ranI)
  then show ?thesis using ran_distinct [OF dist] ran_distinct [OF assms(1)] by (simp add: users_of_def)
qed

inductive subject_step ::
  "string \<Rightarrow> binding_mapping \<times> relation_tuple set \<Rightarrow> binding_mapping \<times> relation_tuple set \<Rightarrow> bool"
  for domain where
  assign_group: "assign_group_to_bindings g m = Inr (m', t) \<Longrightarrow>
    subject_step domain (m, ts) (m', with_added ts t)"
| add_group: "add_group_to_bindings g m = Inr (m', t) \<Longrightarrow>
    subject_step domain (m, ts) (m', insert t ts)"
| pop_group: "pop_group_from_bindings g m = Inr (m', t) \<Longrightarrow>
    subject_step domain (m, ts) (m', with_removed ts t)"
| unassign_group: "unassign_group g m = Inr (m', t) \<Longrightarrow>
    subject_step domain (m, ts) (m', ts - {t})"
| assign_user: "map_of (bm_users m) source \<in> {None, Some u} \<Longrightarrow>
    assign_user_to_bindings domain u source m = Inr (m', t) \<Longrightarrow>
    subject_step domain (m, ts) (m', insert t ts)"
| unassign_user: "map_of (bm_users m) source \<in> {None, Some u} \<Longrightarrow>
    unassign_user_from_bindings domain u source m = Inr (m', t) \<Longrightarrow>
    subject_step domain (m, ts) (m', with_removed ts t)"

lemma assign_group_sync:
  assumes "assign_group_to_bindings g m = Inr (m', t)" and "subjects_in_sync domain m ts"
  shows "subjects_in_sync domain m' (with_added ts t)"
  using assms by (auto simp: assign_group_to_bindings_def subject_change_defs result_simps split: if_splits)

lemma add_group_sync:
  assumes "add_group_to_bindings g m = Inr (m', t)" and "subjects_in_sync domain m ts"
  shows "subjects_in_sync domain m' (insert t ts)"
  using assms by (auto simp: add_group_to_bindings_def subject_change_defs result_simps)

lemma set_remove1_other: "x \<noteq> y \<Longrightarrow> x \<in> set (remove1 y xs) \<longleftrightarrow> x \<in> set xs"
  by (induction xs) auto

lemma pop_group_sync:
  assumes "pop_group_from_bindings g m = Inr (m', t)" and "subjects_in_sync domain m ts"
  shows "subjects_in_sync domain m' (with_removed ts t)"
proof (cases t)
  case None
  then have m': "m' = m\<lparr>bm_groups := remove1 g (bm_groups m)\<rparr>" and g: "g \<in> set (remove1 g (bm_groups m))"
    using assms(1) by (simp_all add: pop_group_from_bindings_None)
  have "x \<in> set (remove1 g (bm_groups m)) \<longleftrightarrow> x \<in> set (bm_groups m)" for x
    using g set_remove1_subset [of g "bm_groups m"] by (cases "x = g") (auto simp: set_remove1_other)
  then show ?thesis using assms(2) None m' by (simp add: subject_change_defs)
next
  case (Some x)
  then show ?thesis using assms
    by (auto simp: pop_group_from_bindings_Some subject_change_defs set_remove1_other)
qed

lemma unassign_group_sync:
  assumes "unassign_group g m = Inr (m', t)" and "subjects_in_sync domain m ts"
  shows "subjects_in_sync domain m' (ts - {t})"
  using assms by (auto simp: unassign_group_spec subject_change_defs)

lemma assign_user_sync:
  assumes "assign_user_to_bindings domain u source m = Inr (m', t)" and "subjects_in_sync domain m ts"
    and "map_of (bm_users m) source \<in> {None, Some u}" and "distinct (map fst (bm_users m))"
  shows "subjects_in_sync domain m' (insert t ts) \<and> distinct (map fst (bm_users m'))"
  using assms users_after_update [OF assms(4,3)]
  by (auto simp: assign_user_to_bindings_def subject_change_defs result_simps distinct_update)

lemma unassign_user_sync:
  assumes "unassign_user_from_bindings domain u source m = Inr (m', t)" and "subjects_in_sync domain m ts"
    and "map_of (bm_users m) source \<in> {None, Some u}" and "distinct (map fst (bm_users m))"
  shows "subjects_in_sync domain m' (with_removed ts t) \<and> distinct (map fst (bm_users m'))"
proof -
  have eq: "m' = m\<lparr>bm_users := AList.delete source (bm_users m)\<rparr>"
    and t: "t = (if u \<in> users_of (AList.delete source (bm_users m)) then None
                 else Some (user_tuple domain (bm_id m) u))"
    using assms(1) by (auto simp: unassign_user_from_bindings_def Let_def result_simps users_of_def split: if_splits)
  have "users_of (AList.delete source (bm_users m)) \<subseteq> users_of (bm_users m)"
    by (auto simp: AList.delete_eq users_of_def)
  then have "users_of (AList.delete source (bm_users m)) =
      (if u \<in> users_of (AList.delete source (bm_users m)) then users_of (bm_users m)
       else users_of (bm_users m) - {u})"
    using users_after_delete [OF assms(4,3)] by auto
  then show ?thesis
    using assms(2,4) unfolding eq t
    by (cases "u \<in> users_of (AList.delete source (bm_users m))")
      (auto simp: subject_change_defs distinct_delete)
qed

lemma subject_step_sync:
  assumes "subject_step domain s s'" and "subjects_in_sync domain (fst s) (snd s)"
    and "distinct (map fst (bm_users (fst s)))"
  shows "subjects_in_sync domain (fst s') (snd s') \<and> distinct (map fst (bm_users (fst s')))"
  using assms
proof (induction rule: subject_step.induct)
  case (assign_group g m m' t ts)
  then have "bm_users m' = bm_users m"
    by (auto simp: assign_group_to_bindings_def result_simps split: if_splits)
  then show ?case using assign_group assign_group_sync by simp
next
  case (add_group g m m' t ts)
  then have "bm_users m' = bm_users m" by (auto simp: add_group_to_bindings_def result_simps)
  then show ?case using add_group add_group_sync by simp
next
  case (pop_group g m m' t ts)
  then have "bm_users m' = bm_users m"
    by (auto simp: pop_group_from_bindings_def Let_def result_simps split: if_splits)
  then show ?case using pop_group pop_group_sync by simp
next
  case (unassign_group g m m' t ts)
  then have "bm_users m' = bm_users m" by (simp add: unassign_group_spec)
  then show ?case using unassign_group unassign_group_sync by simp
next
  case (assign_user m source u m' t ts)
  then show ?case using assign_user_sync by simp
next
  case (unassign_user m source u m' t ts)
  then show ?case using unassign_user_sync by simp
qed

section \<open>Properties\<close>

text \<open>
  C38 (invariant): the tuples that the operations of a binding mapping tell their callers to add or
  remove keep the access graph in step with the mapping. After any sequence of operations a group or
  a user is a subject of the binding in the graph exactly when the mapping still holds an entry for
  it, although a group may be entered several times and a user by several sources. A source always
  names one user.
\<close>

theorem binding_mapping_subjects_in_sync:
  assumes "(subject_step domain)\<^sup>*\<^sup>* (m, ts) (m', ts')"
    and "subjects_in_sync domain m ts" and "distinct (map fst (bm_users m))"
  shows "subjects_in_sync domain m' ts'"
proof -
  have "subjects_in_sync domain (fst (m', ts')) (snd (m', ts')) \<and> distinct (map fst (bm_users (fst (m', ts'))))"
    using assms(1)
    by (rule rtranclp_induct) (use assms(2,3) subject_step_sync in auto)
  then show ?thesis by simp
qed

definition sample_binding_mapping :: binding_mapping where
  "sample_binding_mapping =
     \<lparr>bm_pk = Some 1, bm_id = ''b1'',
      bm_role_value = \<lparr>vr_id = ''r1'', vr_is_system = False, vr_permissions = [''inventory_hosts_read'']\<rparr>,
      bm_groups = [''g1'', ''g1''], bm_users = [], bm_role = 3, bm_v2_role = Some 4,
      bm_resource_type_namespace = ''rbac'', bm_resource_type_name = ''workspace'', bm_resource_id = ''w1''\<rparr>"

theorem binding_mapping_subjects_in_sync_witness:
  "subjects_in_sync ''redhat'' (sample_binding_mapping\<lparr>bm_groups := []\<rparr>)
     ({group_tuple ''b1'' ''g1''} - {group_tuple ''b1'' ''g1''})"
proof -
  have "unassign_group ''g1'' sample_binding_mapping =
      Inr (sample_binding_mapping\<lparr>bm_groups := []\<rparr>, group_tuple ''b1'' ''g1'')"
    unfolding unassign_group_spec
  proof (intro conjI)
    show "valid_relation_tuple (group_tuple ''b1'' ''g1'')" by (simp add: tuple_eval)
  qed (simp_all add: sample_binding_mapping_def)
  then have "subject_step ''redhat'' (sample_binding_mapping, {group_tuple ''b1'' ''g1''})
      (sample_binding_mapping\<lparr>bm_groups := []\<rparr>, {group_tuple ''b1'' ''g1''} - {group_tuple ''b1'' ''g1''})"
    by (rule subject_step.unassign_group)
  then show ?thesis
    by (rule binding_mapping_subjects_in_sync [OF r_into_rtranclp])
      (auto simp: subjects_in_sync_def users_of_def sample_binding_mapping_def)
qed

end
