(* ===== verification/Platform_Roles.thy ===== *)
theory Platform_Roles
  imports Role_Models
begin

text \<open>
  The platform roles, parents of the seeded roles that everybody or every administrator has
  (\<open>management/role/platform.py\<close>), and the service that finds the policies of the public default
  groups (\<open>management/group/platform.py\<close>).
\<close>

definition ADMIN_DEFAULT_SEEDED_ROLES_FORCE_ROOT_SCOPE :: "string list" where
  "ADMIN_DEFAULT_SEEDED_ROLES_FORCE_ROOT_SCOPE =
     [''Inventory Groups Administrator'', ''Inventory Hosts Administrator'']"

definition admin_platform_parent_scopes_for_seeded_system_role :: "string \<Rightarrow> scope list \<Rightarrow> scope list" where
  "admin_platform_parent_scopes_for_seeded_system_role role_name permission_derived_scopes =
     (if role_name \<in> set ADMIN_DEFAULT_SEEDED_ROLES_FORCE_ROOT_SCOPE then [SCOPE_ROOT]
      else remdups permission_derived_scopes)"

text \<open>The service keeps what it has found.\<close>

record policy_id_service =
  gp_platform_default_uuid :: "string option"
  gp_admin_default_uuid :: "string option"

definition empty_policy_id_service :: policy_id_service where
  "empty_policy_id_service = \<lparr>gp_platform_default_uuid = None, gp_admin_default_uuid = None\<rparr>"

definition shared_service :: "policy_id_service option \<Rightarrow> policy_id_service" where
  "shared_service s = (case s of None \<Rightarrow> empty_policy_id_service | Some i \<Rightarrow> i)"

definition clear_shared :: "policy_id_service option \<Rightarrow> policy_id_service option" where
  "clear_shared s = None"

definition public_tenant :: "'s rbac_db \<Rightarrow> tenant result" where
  "public_tenant db = get_one (filter (\<lambda>t. tn_tenant_name t = PUBLIC_TENANT_NAME) (wst_tenants (db_ws db)))"

text \<open>Only \<open>Group.DoesNotExist\<close> is translated; a missing tenant or policy is another exception class.\<close>

definition public_policy_uuid :: "(rbac_group \<Rightarrow> bool) \<Rightarrow> 's rbac_db \<Rightarrow> string result" where
  "public_policy_uuid is_default db =
     bind_r (public_tenant db) (\<lambda>t.
       case get_one (filter (\<lambda>g. gr_system g \<and> gr_tenant g = tn_pk t \<and> is_default g) (db_groups db)) of
         Inl DoesNotExist \<Rightarrow> Inl DefaultGroupNotAvailableError
       | Inl e \<Rightarrow> Inl e
       | Inr g \<Rightarrow> bind_r (get_one (filter (\<lambda>p. po_group p = Some (gr_uuid g)) (db_policies db))) (\<lambda>p.
                    Inr (po_uuid p)))"

definition platform_default_policy_uuid :: "'s rbac_db \<Rightarrow> policy_id_service \<Rightarrow> (string \<times> policy_id_service) result" where
  "platform_default_policy_uuid db s =
     (case gp_platform_default_uuid s of
        Some u \<Rightarrow> Inr (u, s)
      | None \<Rightarrow> bind_r (public_policy_uuid gr_platform_default db) (\<lambda>u.
                  Inr (u, s\<lparr>gp_platform_default_uuid := Some u\<rparr>)))"

definition admin_default_policy_uuid :: "'s rbac_db \<Rightarrow> policy_id_service \<Rightarrow> (string \<times> policy_id_service) result" where
  "admin_default_policy_uuid db s =
     (case gp_admin_default_uuid s of
        Some u \<Rightarrow> Inr (u, s)
      | None \<Rightarrow> bind_r (public_policy_uuid gr_admin_default db) (\<lambda>u.
                  Inr (u, s\<lparr>gp_admin_default_uuid := Some u\<rparr>)))"

record platform_settings =
  pf_default_root_workspace_role_uuid :: string
  pf_default_tenant_role_uuid :: string
  pf_admin_root_workspace_role_uuid :: string
  pf_admin_tenant_role_uuid :: string

definition platform_v2_role_uuid_for ::
  "platform_settings \<Rightarrow> default_access_type \<Rightarrow> scope \<Rightarrow> 's rbac_db \<Rightarrow> policy_id_service
   \<Rightarrow> (string \<times> policy_id_service) result" where
  "platform_v2_role_uuid_for pf access_type s db service =
     (case (access_type, s) of
        (ACCESS_USER, SCOPE_DEFAULT) \<Rightarrow> platform_default_policy_uuid db service
      | (ACCESS_USER, SCOPE_ROOT) \<Rightarrow>
          bind_r (parse_uuid (pf_default_root_workspace_role_uuid pf)) (\<lambda>u. Inr (u, service))
      | (ACCESS_USER, SCOPE_TENANT) \<Rightarrow> bind_r (parse_uuid (pf_default_tenant_role_uuid pf)) (\<lambda>u. Inr (u, service))
      | (ACCESS_ADMIN, SCOPE_DEFAULT) \<Rightarrow> admin_default_policy_uuid db service
      | (ACCESS_ADMIN, SCOPE_ROOT) \<Rightarrow>
          bind_r (parse_uuid (pf_admin_root_workspace_role_uuid pf)) (\<lambda>u. Inr (u, service))
      | (ACCESS_ADMIN, SCOPE_TENANT) \<Rightarrow> bind_r (parse_uuid (pf_admin_tenant_role_uuid pf)) (\<lambda>u. Inr (u, service))
      | (_, SCOPE_ALL) \<Rightarrow> Inl KeyError)"

end
