(* ===== verification/Role_Migration.thy ===== *)
theory Role_Migration
  imports Role_Models
begin

text \<open>
  Migration of V1 custom roles to V2 (\<open>migration_tool/sharedSystemRolesReplicatedRoleBindings.py\<close>,
  \<open>migration_tool/migrate_role.py\<close>, the resource definition helpers and the ungrouped workspace of
  \<open>internal/utils.py\<close>).

  The operations pass the database through; an exception rolls the transaction back, so an operation
  that raises has no state. \<open>uuid7\<close> gives the uuids of new rows.
\<close>

section \<open>Settings\<close>

record role_settings =
  rc_domain :: string
  rc_root_scope_permissions :: string
  rc_tenant_scope_permissions :: string
  rc_default_scope_permissions :: string
  rc_all_scope_permissions :: string
  rc_ws :: ws_settings

definition scope_service :: "role_settings \<Rightarrow> permissions_map result" where
  "scope_service st =
     from_settings (rc_root_scope_permissions st) (rc_tenant_scope_permissions st)
       (rc_default_scope_permissions st) (rc_all_scope_permissions st)"

section \<open>The ungrouped workspace\<close>

definition plain_save :: "save_error + 'a \<Rightarrow> 'a result" where
  "plain_save r =
     (case r of Inl (Raised e) \<Rightarrow> Inl e | Inl (Invalid _) \<Rightarrow> Inl ValidationError | Inr x \<Rightarrow> Inr x)"

definition ungrouped_row :: "string \<Rightarrow> string \<Rightarrow> tenant \<Rightarrow> workspace \<Rightarrow> workspace" where
  "ungrouped_row now new_id t dflt =
     \<lparr>ws_id = new_id, ws_name = ''Ungrouped Hosts'', ws_parent_id = Some (ws_id dflt), ws_description = None,
      ws_type = WS_UNGROUPED_HOSTS, ws_tenant = tn_pk t, ws_created = now, ws_modified = now\<rparr>"

definition get_or_create_ungrouped_workspace ::
  "ws_settings \<Rightarrow> 's replicator \<Rightarrow> string \<Rightarrow> string \<Rightarrow> string option \<Rightarrow> tenant \<Rightarrow> 's ws_state
   \<Rightarrow> (workspace \<times> 's ws_state) result" where
  "get_or_create_ungrouped_workspace st rp now new_id workspace_id t state =
     (let tbl = wst_table state in
      bind_r (workspace_by_type tbl WS_DEFAULT (tn_pk t)) (\<lambda>dflt.
        case filter (\<lambda>w. ws_tenant w = tn_pk t \<and> ws_type w = WS_UNGROUPED_HOSTS) tbl of
          existing # _ \<Rightarrow>
            if workspace_id \<noteq> None \<and> workspace_id \<noteq> Some (ws_id existing) then Inl UngroupedWorkspaceError
            else Inr (existing, state)
        | [] \<Rightarrow>
            bind_r (case workspace_id of
                      None \<Rightarrow> Inr (ungrouped_row now new_id t dflt)
                    | Some i \<Rightarrow>
                        bind_r (check_r (i \<notin> ws_id ` set tbl) UngroupedWorkspaceError) (\<lambda>_.
                          Inr ((ungrouped_row now i t dflt)
                            \<lparr>ws_description := special_description WS_UNGROUPED_HOSTS\<rparr>))) (\<lambda>row.
            bind_r (plain_save (insert_workspace tbl row)) (\<lambda>(tbl', w).
            bind_r (replicate_new_workspace st rp t w EV_CREATE_WORKSPACE (wst_repl state)) (\<lambda>s'.
              Inr (w, state\<lparr>wst_table := tbl', wst_repl := s'\<rparr>))))))"

section \<open>Resources of a role\<close>

definition constant_bound_resource :: "v2_bound_resource \<Rightarrow> scope \<Rightarrow> v2_bound_resource list result" where
  "constant_bound_resource resource s = Inr [resource]"

definition with_workspace_scope_inheritance ::
  "(scope \<times> v2_bound_resource) list \<Rightarrow> (scope \<times> v2_bound_resource list) list" where
  "with_workspace_scope_inheritance resource_map =
     (let flat = (case (map_of resource_map SCOPE_ROOT, map_of resource_map SCOPE_DEFAULT) of
                    (Some root, None) \<Rightarrow> AList.update SCOPE_DEFAULT root resource_map
                  | _ \<Rightarrow> resource_map)
      in AList.update SCOPE_ALL (remdups (map snd flat)) (map (\<lambda>(s, r). (s, [r])) flat))"

definition bound_resource_resolver_from_map ::
  "(scope \<times> v2_bound_resource list) list \<Rightarrow> scope \<Rightarrow> v2_bound_resource list result" where
  "bound_resource_resolver_from_map resource_map s =
     (case map_of resource_map s of None \<Rightarrow> Inl KeyError | Some rs \<Rightarrow> Inr rs)"

definition inventory_to_workspace :: "string \<Rightarrow> string" where
  "inventory_to_workspace v2_perm =
     (if v2_perm = ''inventory_groups_read'' then ''workspace_read''
      else if v2_perm = ''inventory_groups_write'' then ''workspace_write''
      else if v2_perm = ''inventory_groups_all'' then ''workspace_all''
      else v2_perm)"

definition is_str_valid_uuid :: "pyval \<Rightarrow> bool" where
  "is_str_valid_uuid v = (case v of PyStr s \<Rightarrow> s \<noteq> [] \<and> uuid_of s \<noteq> None | _ \<Rightarrow> False)"

text \<open>\<open>for x in v\<close>.\<close>

definition py_iter :: "pyval \<Rightarrow> pyval list result" where
  "py_iter v =
     (case v of
        PyList vs \<Rightarrow> Inr vs
      | PyStr s \<Rightarrow> Inr (map (\<lambda>c. PyStr [c]) s)
      | PyDict d \<Rightarrow> Inr (map (\<lambda>(k, _). PyStr k) d)
      | _ \<Rightarrow> Inl TypeError)"

definition valid_uuids :: "pyval list \<Rightarrow> string list" where
  "valid_uuids vs =
     concat (map (\<lambda>v. case v of PyStr s \<Rightarrow> (case uuid_of s of Some u \<Rightarrow> [u] | None \<Rightarrow> []) | _ \<Rightarrow> [])
       (filter is_str_valid_uuid vs))"

definition workspace_ids_with_malformed :: "pyval \<Rightarrow> (string list \<times> pyval list) result" where
  "workspace_ids_with_malformed attribute_filter =
     bind_r (py_get attribute_filter ''operation'' PyNone) (\<lambda>operation.
       if operation = PyStr ''in''
       then bind_r (py_get attribute_filter ''value'' (PyList [])) (\<lambda>value.
            bind_r (py_iter value) (\<lambda>vs.
              Inr (valid_uuids vs, filter (\<lambda>v. \<not> is_str_valid_uuid v) vs)))
       else if operation = PyStr ''equal''
       then bind_r (py_get attribute_filter ''value'' (PyStr [])) (\<lambda>value.
              Inr (valid_uuids [value], filter (\<lambda>v. \<not> is_str_valid_uuid v) [value]))
       else Inr ([], []))"

definition get_workspace_ids_from_resource_definition :: "pyval \<Rightarrow> string list result" where
  "get_workspace_ids_from_resource_definition attribute_filter =
     bind_r (workspace_ids_with_malformed attribute_filter) (\<lambda>(valid, _). Inr valid)"

definition values_from_attribute_filter :: "pyval \<Rightarrow> pyval list result" where
  "values_from_attribute_filter attribute_filter =
     bind_r (py_getitem attribute_filter ''operation'') (\<lambda>op.
     bind_r (py_getitem attribute_filter ''value'') (\<lambda>resource_id.
       case resource_id of
         PyList vs \<Rightarrow> Inr vs
       | PyStr s \<Rightarrow> Inr (if op = PyStr ''in'' then map PyStr (split_on CHR '','' s) else [resource_id])
       | _ \<Rightarrow> if op = PyStr ''in'' then Inl AttributeError else Inr [resource_id]))"

definition V2_RESOURCE_BY_ATTRIBUTE :: "(string \<times> (string \<times> string)) list" where
  "V2_RESOURCE_BY_ATTRIBUTE = [(''group.id'', (''rbac'', ''workspace''))]"

definition attribute_key_to_v2_related_resource_type :: "pyval \<Rightarrow> (string \<times> string) option result" where
  "attribute_key_to_v2_related_resource_type key =
     (case key of
        PyStr k \<Rightarrow> Inr (map_of V2_RESOURCE_BY_ATTRIBUTE k)
      | PyList _ \<Rightarrow> Inl TypeError
      | PyDict _ \<Rightarrow> Inl TypeError
      | _ \<Rightarrow> Inr None)"

text \<open>An \<open>in\<close> filter with a single value counts as \<open>equal\<close>; \<open>None\<close> for one with no values.\<close>

definition repair_filter :: "pyval \<Rightarrow> pyval option result" where
  "repair_filter attri_filter =
     bind_r (py_getitem attri_filter ''operation'') (\<lambda>operation.
       if operation = PyStr ''in''
       then bind_r (py_getitem attri_filter ''value'') (\<lambda>value.
              case value of
                PyList [] \<Rightarrow> Inr None
              | PyList _ \<Rightarrow> Inr (Some attri_filter)
              | _ \<Rightarrow> (case attri_filter of
                         PyDict d \<Rightarrow> Inr (Some (PyDict (AList.update ''operation'' (PyStr ''equal'') d)))
                       | _ \<Rightarrow> Inl TypeError))
       else Inr (Some attri_filter))"

definition is_workspace_type :: "string \<times> string \<Rightarrow> bool" where
  "is_workspace_type ty \<longleftrightarrow> ty = (''rbac'', ''workspace'')"

text \<open>
  The guard of a workspace filter: every workspace it names by a valid id is one of the tenant's.
\<close>

definition names_foreign_workspaces :: "ws_table \<Rightarrow> int \<Rightarrow> string \<times> string \<Rightarrow> pyval \<Rightarrow> bool result" where
  "names_foreign_workspaces tbl tenant resource_type attri_filter =
     (if is_workspace_type resource_type
      then bind_r (get_workspace_ids_from_resource_definition attri_filter) (\<lambda>requested.
             Inr (requested \<noteq> [] \<and>
                  set requested \<noteq> ws_id ` set (filter (\<lambda>w. ws_tenant w = tenant \<and> ws_id w \<in> set requested) tbl)))
      else Inr False)"

text \<open>
  The resource of one value of a filter. The code tests the method \<open>is_remove_null_value_enabled\<close>
  itself, which is always true, so a null always stands for the ungrouped workspace.
\<close>

definition value_resource_id ::
  "role_settings \<Rightarrow> 's replicator \<Rightarrow> (nat \<Rightarrow> string) \<Rightarrow> string \<Rightarrow> v1_role \<Rightarrow> string \<times> string \<Rightarrow> pyval
   \<Rightarrow> 's rbac_db \<Rightarrow> (pyval option \<times> 's rbac_db) result" where
  "value_resource_id st rp uuid7 now role resource_type v db =
     (case v of
        PyNone \<Rightarrow>
          (if \<not> is_workspace_type resource_type then Inl ValueError
           else let (new_id, db1) = fresh_uuid uuid7 db
                in bind_r (tenant_by_pk (wst_tenants (db_ws db1)) (ro_tenant role)) (\<lambda>t.
                   bind_r (get_or_create_ungrouped_workspace (rc_ws st) rp now new_id None t (db_ws db1))
                     (\<lambda>(w, ws'). Inr (Some (PyStr (ws_id w)), db1\<lparr>db_ws := ws'\<rparr>))))
      | PyStr [] \<Rightarrow> Inr (None, db)
      | _ \<Rightarrow> Inr (Some v, db))"

type_synonym permission_groupings = "(v2_bound_resource \<times> permission_row list) list"

definition add_element :: "permission_groupings \<Rightarrow> v2_bound_resource \<Rightarrow> permission_row \<Rightarrow> permission_groupings" where
  "add_element d key value =
     AList.update key (set_add value (case map_of d key of None \<Rightarrow> [] | Some c \<Rightarrow> c)) d"

text \<open>Roles of OCM are bound to the default workspace only.\<close>

definition ocm_excludes :: "bool \<Rightarrow> string option \<Rightarrow> string \<times> string \<Rightarrow> string \<Rightarrow> bool" where
  "ocm_excludes is_ocm_role default_ws_id resource_type resource_id \<longleftrightarrow>
     is_ocm_role \<and> is_workspace_type resource_type \<and> Some resource_id \<noteq> default_ws_id"

definition group_value ::
  "role_settings \<Rightarrow> 's replicator \<Rightarrow> (nat \<Rightarrow> string) \<Rightarrow> string \<Rightarrow> v1_role \<Rightarrow> bool \<Rightarrow> string option
   \<Rightarrow> permission_row \<Rightarrow> string \<times> string \<Rightarrow> permission_groupings \<times> 's rbac_db \<Rightarrow> pyval
   \<Rightarrow> (permission_groupings \<times> 's rbac_db) result" where
  "group_value st rp uuid7 now role is_ocm default_ws_id permission resource_type = (\<lambda>(groupings, db) v.
     bind_r (value_resource_id st rp uuid7 now role resource_type v db) (\<lambda>(resource_id, db1).
       case resource_id of
         None \<Rightarrow> Inr (groupings, db1)
       | Some i \<Rightarrow>
           if ocm_excludes is_ocm default_ws_id resource_type (py_str i) then Inr (groupings, db1)
           else bind_r (mk_bound_resource resource_type i) (\<lambda>resource.
                  Inr (add_element groupings resource permission, db1))))"

definition group_resource_definition ::
  "role_settings \<Rightarrow> 's replicator \<Rightarrow> (nat \<Rightarrow> string) \<Rightarrow> string \<Rightarrow> v1_role \<Rightarrow> bool \<Rightarrow> string option
   \<Rightarrow> permission_row \<Rightarrow> permission_groupings \<times> 's rbac_db \<Rightarrow> pyval
   \<Rightarrow> (permission_groupings \<times> 's rbac_db) result" where
  "group_resource_definition st rp uuid7 now role is_ocm default_ws_id permission = (\<lambda>(groupings, db) raw_filter.
     bind_r (repair_filter raw_filter) (\<lambda>repaired.
       case repaired of
         None \<Rightarrow> Inr (groupings, db)
       | Some attri_filter \<Rightarrow>
           bind_r (py_getitem attri_filter ''key'') (\<lambda>key.
           bind_r (attribute_key_to_v2_related_resource_type key) (\<lambda>resource_type.
             case resource_type of
               None \<Rightarrow> Inr (groupings, db)
             | Some ty \<Rightarrow>
                 bind_r (names_foreign_workspaces (wst_table (db_ws db)) (ro_tenant role) ty attri_filter) (\<lambda>foreign.
                   if foreign then Inr (groupings, db)
                   else bind_r (values_from_attribute_filter attri_filter) (\<lambda>vs.
                          foldM_r (group_value st rp uuid7 now role is_ocm default_ws_id permission ty)
                            (groupings, db) vs))))))"

definition group_by_scope ::
  "permissions_map \<Rightarrow> (scope \<Rightarrow> v2_bound_resource list result) \<Rightarrow> bool \<Rightarrow> string option \<Rightarrow> permission_row
   \<Rightarrow> permission_groupings \<Rightarrow> permission_groupings result" where
  "group_by_scope pm resource_for_scope is_ocm default_ws_id permission groupings =
     bind_r (scope_for_permission pm (perm_permission permission)) (\<lambda>s.
     bind_r (resource_for_scope s) (\<lambda>resources.
       Inr (foldl (\<lambda>g resolved.
              if ocm_excludes is_ocm default_ws_id (br_type resolved) (br_id resolved) then g
              else add_element g resolved permission) groupings resources)))"

definition group_access ::
  "role_settings \<Rightarrow> 's replicator \<Rightarrow> (nat \<Rightarrow> string) \<Rightarrow> string \<Rightarrow> v1_role \<Rightarrow> permissions_map
   \<Rightarrow> (scope \<Rightarrow> v2_bound_resource list result) \<Rightarrow> bool \<Rightarrow> string option
   \<Rightarrow> permission_groupings \<times> 's rbac_db \<Rightarrow> access_row \<Rightarrow> (permission_groupings \<times> 's rbac_db) result" where
  "group_access st rp uuid7 now role pm resource_for_scope is_ocm default_ws_id = (\<lambda>(groupings, db) access.
     if ac_resource_definitions access = []
     then bind_r (group_by_scope pm resource_for_scope is_ocm default_ws_id (ac_permission access) groupings)
            (\<lambda>g. Inr (g, db))
     else foldM_r (group_resource_definition st rp uuid7 now role is_ocm default_ws_id (ac_permission access))
            (groupings, db) (ac_resource_definitions access))"

definition ocm_default_workspace ::
  "role_settings \<Rightarrow> v1_role \<Rightarrow> 's rbac_db \<Rightarrow> (bool \<times> string option \<times> 's rbac_db) result" where
  "ocm_default_workspace st role db =
     bind_r (external_tenant_name role) (\<lambda>name.
       if str_lower (case name of None \<Rightarrow> [] | Some n \<Rightarrow> n) \<noteq> ''ocm'' then Inr (False, None, db)
       else bind_r (tenant_by_pk (wst_tenants (db_ws db)) (ro_tenant role)) (\<lambda>t.
              case manager_default (st_cache_enabled (rc_ws st)) (wst_table (db_ws db)) (wst_cache (db_ws db))
                     (Some t) None of
                Inl DoesNotExist \<Rightarrow> Inr (True, None, db)
              | Inl e \<Rightarrow> Inl e
              | Inr (w, cache) \<Rightarrow> Inr (True, Some (ws_id w), db\<lparr>db_ws := (db_ws db)\<lparr>wst_cache := cache\<rparr>\<rparr>)))"

text \<open>The first half of \<open>v1_role_to_v2_bindings\<close>: the permissions of the role per resource.\<close>

definition role_permission_groupings ::
  "role_settings \<Rightarrow> 's replicator \<Rightarrow> (nat \<Rightarrow> string) \<Rightarrow> string \<Rightarrow> v1_role
   \<Rightarrow> (scope \<Rightarrow> v2_bound_resource list result) \<Rightarrow> 's rbac_db \<Rightarrow> (permission_groupings \<times> 's rbac_db) result" where
  "role_permission_groupings st rp uuid7 now role resource_for_scope db =
     bind_r (scope_service st) (\<lambda>pm.
     bind_r (ocm_default_workspace st role db) (\<lambda>(is_ocm, default_ws_id, db1).
       foldM_r (group_access st rp uuid7 now role pm resource_for_scope is_ocm default_ws_id)
         ([], db1) (ro_access role)))"

section \<open>Roles and bindings of a role\<close>

record migrate_result =
  mr_v2_roles :: "role_v2 list"
  mr_binding_mappings :: "binding_mapping list"
  mr_role_bindings :: "role_binding list"

definition mk_migrate_result ::
  "role_v2 list \<Rightarrow> binding_mapping list \<Rightarrow> role_binding list \<Rightarrow> migrate_result result" where
  "mk_migrate_result v2_roles mappings bindings =
     (if length mappings \<noteq> length bindings then Inl ValueError
      else if set (map rb_uuid bindings) \<noteq> set (map bm_id mappings) then Inl ValueError
      else if \<not> set (map rb_role bindings) \<subseteq> set (map r2_pk v2_roles) then Inl ValueError
      else Inr \<lparr>mr_v2_roles = v2_roles, mr_binding_mappings = mappings, mr_role_bindings = bindings\<rparr>)"

definition target_role_uuid_for ::
  "(nat \<Rightarrow> string) \<Rightarrow> v2_role_binding option \<Rightarrow> role_v2 list \<Rightarrow> 's rbac_db \<Rightarrow> (string \<times> 's rbac_db) result" where
  "target_role_uuid_for uuid7 existing_binding latest_roles db =
     (case existing_binding of
        Some b \<Rightarrow>
          if list_ex (\<lambda>r. r2_uuid r = vr_id (vb_role b)) latest_roles then Inr (fresh_uuid uuid7 db)
          else bind_r (parse_uuid (vr_id (vb_role b))) (\<lambda>u. Inr (u, db))
      | None \<Rightarrow> Inr (fresh_uuid uuid7 db))"

definition v2_custom_role_from_v1 ::
  "v1_role \<Rightarrow> nat \<Rightarrow> string \<Rightarrow> 's rbac_db \<Rightarrow> (role_v2 \<times> 's rbac_db) result" where
  "v2_custom_role_from_v1 role disambiguator target_uuid db =
     (let name = ro_display_name role @ '' ('' @ nat_str disambiguator @ '')'' in
      case get_one (filter (\<lambda>r. r2_uuid r = target_uuid \<and> r2_tenant r = ro_tenant role \<and>
                                r2_v1_source r = Some (ro_pk role)) (typed_role_queryset ROLE_CUSTOM (db_roles db))) of
        Inr r \<Rightarrow>
          (let r' = r\<lparr>r2_name := name, r2_description := ro_description role\<rparr>
           in bind_r (save_custom_role r' db) (\<lambda>db'. Inr (r', db')))
      | Inl DoesNotExist \<Rightarrow>
          (let (pk, db1) = fresh_pk db;
               r' = \<lparr>r2_pk = pk, r2_uuid = target_uuid, r2_name = name, r2_description = ro_description role,
                     r2_type = ROLE_CUSTOM, r2_tenant = ro_tenant role, r2_permissions = [], r2_children = [],
                     r2_v1_source = Some (ro_pk role)\<rparr>
           in bind_r (save_custom_role r' db1) (\<lambda>db'. Inr (r', db')))
      | Inl e \<Rightarrow> Inl e)"

text \<open>A uuid in a lookup: Django refuses a string that is none.\<close>

definition uuid_param :: "string \<Rightarrow> string result" where
  "uuid_param s = (case uuid_of s of None \<Rightarrow> Inl ValidationError | Some u \<Rightarrow> Inr u)"

definition update_or_create_role_binding ::
  "int \<Rightarrow> string \<Rightarrow> role_v2 \<Rightarrow> v2_bound_resource \<Rightarrow> 's rbac_db \<Rightarrow> (role_binding \<times> 's rbac_db) result" where
  "update_or_create_role_binding tenant uuid r resource db =
     bind_r (uuid_param uuid) (\<lambda>u.
       case get_one (filter (\<lambda>b. rb_tenant b = tenant \<and> rb_uuid b = u) (db_bindings db)) of
         Inr b \<Rightarrow>
           (let b' = b\<lparr>rb_role := r2_pk r, rb_resource_type := snd (br_type resource),
                       rb_resource_id := br_id resource\<rparr>
            in bind_r (save_role_binding b' db) (\<lambda>db'. Inr (b', db')))
       | Inl DoesNotExist \<Rightarrow> create_role_binding u tenant (r2_pk r) (snd (br_type resource)) (br_id resource) db
       | Inl e \<Rightarrow> Inl e)"

definition get_or_create_binding ::
  "(nat \<Rightarrow> string) \<Rightarrow> v1_role \<Rightarrow> role_v2 \<Rightarrow> v2_bound_resource \<Rightarrow> binding_mapping option \<Rightarrow> string list
   \<Rightarrow> 's rbac_db \<Rightarrow> (binding_mapping \<times> role_binding \<times> 's rbac_db) result" where
  "get_or_create_binding uuid7 role r resource existing_mapping group_uuids db =
     bind_r (check_r (r2_v1_source r = Some (ro_pk role)) ValueError) (\<lambda>_.
       case existing_mapping of
         Some m \<Rightarrow>
           bind_r (get_role_binding m) (\<lambda>existing.
           bind_r (update_or_create_role_binding (ro_tenant role) (vb_id existing) r resource db) (\<lambda>(b, db1).
           bind_r (binding_as_migration_value db1 b (Some group_uuids)) (\<lambda>value.
           bind_r (update_mappings_from_role_binding value m) (\<lambda>m'.
             Inr (m'\<lparr>bm_v2_role := Some (r2_pk r)\<rparr>, b, db1)))))
       | None \<Rightarrow>
           (let (u, db0) = fresh_uuid uuid7 db
            in bind_r (create_role_binding u (ro_tenant role) (r2_pk r) (snd (br_type resource)) (br_id resource) db0)
                 (\<lambda>(b, db1).
               bind_r (binding_as_migration_value db1 b (Some group_uuids)) (\<lambda>value.
                 Inr (for_role_binding value (ro_pk role) (Some (r2_pk r)), b, db1)))))"

definition requested_workspaces_exist :: "ws_table \<Rightarrow> int \<Rightarrow> permission_groupings \<Rightarrow> unit result" where
  "requested_workspaces_exist tbl tenant groupings =
     (let requested = map br_id (filter (\<lambda>r. is_workspace_type (br_type r)) (map fst groupings))
      in if requested = [] then Inr ()
         else bind_r (mapM_r uuid_param requested) (\<lambda>uuids.
                check_r (set requested = ws_id ` set (filter (\<lambda>w. ws_tenant w = tenant \<and> ws_id w \<in> set uuids) tbl))
                  ValueError))"

definition mappings_by_resource ::
  "binding_mapping list \<Rightarrow> (v2_bound_resource \<times> binding_mapping) list result" where
  "mappings_by_resource mappings =
     foldM_r (\<lambda>d m. bind_r (get_role_binding m) (\<lambda>b. Inr (AList.update (vb_resource b) m d))) [] mappings"

definition role_policy_groups :: "v1_role \<Rightarrow> 's rbac_db \<Rightarrow> string list result" where
  "role_policy_groups role db =
     bind_r (mapM_r (\<lambda>p. case po_group p of None \<Rightarrow> Inl AttributeError | Some g \<Rightarrow> Inr g)
               (filter (\<lambda>p. ro_pk role \<in> set (po_roles p)) (db_policies db)))
       (\<lambda>groups. Inr (remdups groups))"

text \<open>
  One turn of the loop over the resources: the roles so far by their sets of permissions, and the
  mappings and bindings so far.
\<close>

type_synonym 's migration_loop =
  "'s rbac_db \<times> (permission_row list \<times> role_v2) list \<times> (binding_mapping \<times> role_binding) list"

definition find_role :: "(permission_row list \<times> role_v2) list \<Rightarrow> permission_row list \<Rightarrow> role_v2 option" where
  "find_role roles permissions = map_option snd (find (\<lambda>(ps, _). set ps = set permissions) roles)"

definition new_role_for ::
  "(nat \<Rightarrow> string) \<Rightarrow> v1_role \<Rightarrow> (permission_row list \<times> role_v2) list \<Rightarrow> binding_mapping option
   \<Rightarrow> permission_row list \<Rightarrow> 's rbac_db \<Rightarrow> (role_v2 \<times> 's rbac_db) result" where
  "new_role_for uuid7 role roles existing_mapping permissions db =
     bind_r (case existing_mapping of
               None \<Rightarrow> Inr None
             | Some m \<Rightarrow> bind_r (get_role_binding m) (\<lambda>b. Inr (Some b))) (\<lambda>existing_binding.
     bind_r (target_role_uuid_for uuid7 existing_binding (map snd roles) db) (\<lambda>(u, db1).
     bind_r (v2_custom_role_from_v1 role (length roles + 1) u db1) (\<lambda>(r, db2).
       Inr (r, set_role_permissions r permissions db2))))"

definition migrate_resource ::
  "(nat \<Rightarrow> string) \<Rightarrow> v1_role \<Rightarrow> (v2_bound_resource \<times> binding_mapping) list \<Rightarrow> string list
   \<Rightarrow> 's migration_loop \<Rightarrow> v2_bound_resource \<times> permission_row list \<Rightarrow> 's migration_loop result" where
  "migrate_resource uuid7 role existing group_uuids = (\<lambda>(db, roles, out) (resource, permissions).
     bind_r (case find_role roles permissions of
               Some r \<Rightarrow> Inr (r, roles, db)
             | None \<Rightarrow>
                 bind_r (new_role_for uuid7 role roles (map_of existing resource) permissions db) (\<lambda>(r, db1).
                   Inr (r, roles @ [(permissions, r)], db1))) (\<lambda>(r, roles', db1).
     bind_r (get_or_create_binding uuid7 role r resource (map_of existing resource) group_uuids db1)
       (\<lambda>(m, b, db2). Inr (db2, roles', out @ [(m, b)]))))"

definition permission_groupings_to_v2_role_bindings ::
  "(nat \<Rightarrow> string) \<Rightarrow> permission_groupings \<Rightarrow> v1_role \<Rightarrow> binding_mapping list \<Rightarrow> role_v2 list
   \<Rightarrow> 's rbac_db \<Rightarrow> (migrate_result \<times> 's rbac_db) result" where
  "permission_groupings_to_v2_role_bindings uuid7 groupings role existing_mappings existing_v2_roles db =
     bind_r (check_r (\<not> ro_system role) ValueError) (\<lambda>_.
     bind_r (check_r (list_all (\<lambda>r. r2_v1_source r = Some (ro_pk role)) existing_v2_roles) ValueError) (\<lambda>_.
     bind_r (check_r (list_all (\<lambda>r. r2_type r = ROLE_CUSTOM) existing_v2_roles) ValueError) (\<lambda>_.
     bind_r (requested_workspaces_exist (wst_table (db_ws db)) (ro_tenant role) groupings) (\<lambda>_.
     bind_r (mappings_by_resource existing_mappings) (\<lambda>existing.
     bind_r (role_policy_groups role db) (\<lambda>groups.
       let db1 = db\<lparr>db_roles := map (\<lambda>r. if r2_type r = ROLE_CUSTOM \<and> r2_pk r \<in> r2_pk ` set existing_v2_roles
                                         then r\<lparr>r2_name := r2_uuid r\<rparr> else r) (db_roles db)\<rparr>
       in bind_r (foldM_r (migrate_resource uuid7 role existing groups) (db1, [], []) groupings)
            (\<lambda>(db2, roles, out).
              let bindings = map snd out;
                  pks = map rb_pk bindings;
                  db3 = db2\<lparr>db_binding_groups :=
                          filter (\<lambda>(pk, _). pk \<notin> set pks) (db_binding_groups db2) @
                          concat (map (\<lambda>pk. map (\<lambda>g. (pk, g)) groups) pks)\<rparr>
              in bind_r (mk_migrate_result (map snd roles) (map fst out) bindings) (\<lambda>result.
                   Inr (result, db3)))))))))"

definition v1_role_to_v2_bindings ::
  "role_settings \<Rightarrow> 's replicator \<Rightarrow> (nat \<Rightarrow> string) \<Rightarrow> string \<Rightarrow> v1_role
   \<Rightarrow> (scope \<Rightarrow> v2_bound_resource list result) \<Rightarrow> binding_mapping list \<Rightarrow> role_v2 list
   \<Rightarrow> 's rbac_db \<Rightarrow> (migrate_result \<times> 's rbac_db) result" where
  "v1_role_to_v2_bindings st rp uuid7 now role resource_for_scope existing_role_bindings existing_v2_roles db =
     bind_r (role_permission_groupings st rp uuid7 now role resource_for_scope db) (\<lambda>(groupings, db1).
       permission_groupings_to_v2_role_bindings uuid7 groupings role existing_role_bindings existing_v2_roles db1)"

definition get_kessel_relation_tuples :: "string \<Rightarrow> v2_role_binding list \<Rightarrow> relation_tuple list result" where
  "get_kessel_relation_tuples domain bindings =
     bind_r (mapM_r (binding_as_tuples domain) bindings) (\<lambda>tuples. Inr (concat tuples))"

definition relation_tuples_for_bindings :: "string \<Rightarrow> binding_mapping list \<Rightarrow> relation_tuple list result" where
  "relation_tuples_for_bindings domain mappings =
     bind_r (mapM_r get_role_binding mappings) (get_kessel_relation_tuples domain)"

definition migrate_role ::
  "role_settings \<Rightarrow> 's replicator \<Rightarrow> (nat \<Rightarrow> string) \<Rightarrow> string \<Rightarrow> v1_role
   \<Rightarrow> (scope \<Rightarrow> v2_bound_resource list result) \<Rightarrow> binding_mapping list \<Rightarrow> role_v2 list
   \<Rightarrow> 's rbac_db \<Rightarrow> (relation_tuple list \<times> migrate_result \<times> 's rbac_db) result" where
  "migrate_role st rp uuid7 now role resource_for_scope current_bindings current_v2_roles db =
     bind_r (v1_role_to_v2_bindings st rp uuid7 now role resource_for_scope current_bindings current_v2_roles db)
       (\<lambda>(result, db1).
     bind_r (relation_tuples_for_bindings (rc_domain st) (mr_binding_mappings result)) (\<lambda>relationships.
       Inr (relationships, result, db1)))"

section \<open>Tables under the migration\<close>

definition role_rows_wf :: "'s rbac_db \<Rightarrow> bool" where
  "role_rows_wf db \<longleftrightarrow>
     distinct (map r2_pk (db_roles db)) \<and> distinct (map r2_uuid (db_roles db)) \<and>
     (\<forall>r \<in> set (db_roles db). r2_pk r < db_next_pk db)"

text \<open>The row of a role holds the given uuid, permissions and type.\<close>

definition custom_row :: "'s rbac_db \<Rightarrow> int \<Rightarrow> string \<Rightarrow> permission_row list \<Rightarrow> bool" where
  "custom_row db pk uuid ps \<longleftrightarrow>
     (\<exists>r \<in> set (db_roles db). r2_pk r = pk \<and> r2_uuid r = uuid \<and> r2_type r = ROLE_CUSTOM \<and> r2_permissions r = ps)"

lemma role_by_pk_row:
  assumes "role_rows_wf db" and "r \<in> set (db_roles db)"
  shows "role_by_pk db (r2_pk r) = Inr r"
proof -
  have "distinct (map r2_pk (db_roles db))" using assms(1) by (simp add: role_rows_wf_def)
  then have "filter (\<lambda>r'. r2_pk r' = r2_pk r) (db_roles db) = [r]"
    using assms(2) by (rule filter_key_unique)
  then show ?thesis by (simp add: role_by_pk_def get_one_def)
qed

lemma typed_role_save_Inr:
  assumes "typed_role_save ty tbl r = Inr tbl'"
  shows "r2_type r = ty" and "role_unique tbl r"
    and "tbl' = (if r2_pk r \<in> r2_pk ` set tbl
                 then map (\<lambda>r'. if r2_pk r' = r2_pk r
                                 then r\<lparr>r2_permissions := r2_permissions r', r2_children := r2_children r'\<rparr>
                                 else r') tbl
                 else tbl @ [r])"
  using assms by (auto simp: typed_role_save_def role_v2_save_def role_full_clean_def result_simps)

lemma save_custom_role_Inr:
  assumes "save_custom_role r db = Inr db'"
  shows "\<exists>tbl. db' = db\<lparr>db_roles := tbl\<rparr> \<and> typed_role_save ROLE_CUSTOM (db_roles db) r = Inr tbl"
  using assms by (auto simp: save_custom_role_def bind_r_Inr_iff)

lemma save_custom_role_wf:
  assumes "save_custom_role r db = Inr db'" and "role_rows_wf db" and "r2_pk r < db_next_pk db"
  shows "role_rows_wf db'"
proof -
  obtain tbl where db': "db' = db\<lparr>db_roles := tbl\<rparr>"
    and save: "typed_role_save ROLE_CUSTOM (db_roles db) r = Inr tbl"
    using save_custom_role_Inr [OF assms(1)] by blast
  note unique = typed_role_save_Inr(2) [OF save] and tbl = typed_role_save_Inr(3) [OF save]
  have other: "r2_uuid r' \<noteq> r2_uuid r" if "r' \<in> set (db_roles db)" "r2_pk r' \<noteq> r2_pk r" for r'
    using unique that by (auto simp: role_unique_def list_all_iff)
  let ?f = "\<lambda>r'. if r2_pk r' = r2_pk r
      then r\<lparr>r2_permissions := r2_permissions r', r2_children := r2_children r'\<rparr> else r'"
  have pks: "distinct (map r2_pk (db_roles db))" and uuids: "distinct (map r2_uuid (db_roles db))"
    using assms(2) by (simp_all add: role_rows_wf_def)
  show ?thesis
  proof (cases "r2_pk r \<in> r2_pk ` set (db_roles db)")
    case True
    have "map r2_pk (map ?f (db_roles db)) = map r2_pk (db_roles db)" by simp
    moreover have "inj_on (r2_uuid \<circ> ?f) (set (db_roles db))"
    proof (rule inj_onI)
      fix x y assume xy: "x \<in> set (db_roles db)" "y \<in> set (db_roles db)" "(r2_uuid \<circ> ?f) x = (r2_uuid \<circ> ?f) y"
      then have "r2_pk x = r2_pk y \<or> r2_uuid x = r2_uuid y"
        using other [OF xy(1)] other [OF xy(2)] by (auto split: if_splits)
      then show "x = y" using pks uuids xy(1,2) by (auto simp: distinct_map inj_on_def)
    qed
    then have "distinct (map r2_uuid (map ?f (db_roles db)))"
      unfolding map_map distinct_map using pks by (simp add: distinct_map)
    moreover have "\<forall>r' \<in> set (map ?f (db_roles db)). r2_pk r' < db_next_pk db"
      using assms(2,3) by (auto simp: role_rows_wf_def)
    moreover have "db_roles db' = map ?f (db_roles db)" "db_next_pk db' = db_next_pk db"
      using True by (simp_all only: db' tbl if_True, simp_all)
    ultimately show ?thesis using pks unfolding role_rows_wf_def by metis
  next
    case False
    then have "r2_uuid r \<notin> r2_uuid ` set (db_roles db)" using other by (metis (no_types, lifting) image_iff)
    with False show ?thesis
      using pks uuids assms(2,3) unfolding db' tbl role_rows_wf_def by auto
  qed
qed

lemma save_custom_role_rows:
  assumes "save_custom_role r db = Inr db'"
  shows "\<exists>ps. custom_row db' (r2_pk r) (r2_uuid r) ps"
    and "custom_row db pk uuid ps \<Longrightarrow> pk \<noteq> r2_pk r \<Longrightarrow> custom_row db' pk uuid ps"
proof -
  obtain tbl where db': "db' = db\<lparr>db_roles := tbl\<rparr>"
    and save: "typed_role_save ROLE_CUSTOM (db_roles db) r = Inr tbl"
    using save_custom_role_Inr [OF assms] by blast
  note facts = typed_role_save_Inr [OF save]
  let ?f = "\<lambda>r'. if r2_pk r' = r2_pk r
      then r\<lparr>r2_permissions := r2_permissions r', r2_children := r2_children r'\<rparr> else r'"
  have rows: "db_roles db' = (if r2_pk r \<in> r2_pk ` set (db_roles db) then map ?f (db_roles db) else db_roles db @ [r])"
    using facts(3) by (simp add: db')
  show "\<exists>ps. custom_row db' (r2_pk r) (r2_uuid r) ps"
  proof (cases "r2_pk r \<in> r2_pk ` set (db_roles db)")
    case True
    then obtain x where "x \<in> set (db_roles db)" "r2_pk x = r2_pk r" by auto
    then have "?f x \<in> set (db_roles db')" using True rows by (simp only: if_True) (simp, blast?)
    then have "custom_row db' (r2_pk r) (r2_uuid r) (r2_permissions x)"
      using facts(1) \<open>r2_pk x = r2_pk r\<close> unfolding custom_row_def by (intro bexI [of _ "?f x"]) simp_all
    then show ?thesis ..
  qed (use rows facts(1) in \<open>auto simp: custom_row_def\<close>)
  show "custom_row db' pk uuid ps" if "custom_row db pk uuid ps" "pk \<noteq> r2_pk r"
  proof -
    from that obtain x where x: "x \<in> set (db_roles db)" "r2_pk x = pk" "r2_uuid x = uuid"
        "r2_type x = ROLE_CUSTOM" "r2_permissions x = ps"
      by (auto simp: custom_row_def)
    then have "?f x = x" using that(2) by simp
    then have "x \<in> set (map ?f (db_roles db))" using x(1) unfolding set_map by (rule image_eqI [OF sym])
    then have "x \<in> set (db_roles db')"
      using x(1) rows by (cases "r2_pk r \<in> r2_pk ` set (db_roles db)") (simp_all only: if_True if_False set_append Un_iff simp_thms)
    then show ?thesis using x by (auto simp: custom_row_def)
  qed
qed

lemma custom_row_pk:
  assumes "role_rows_wf db" and "custom_row db pk uuid ps" and "r \<in> set (db_roles db)" and "r2_pk r = pk"
  shows "r2_uuid r = uuid"
proof -
  from assms(2) obtain x where "x \<in> set (db_roles db)" "r2_pk x = pk" "r2_uuid x = uuid"
    by (auto simp: custom_row_def)
  moreover have "inj_on r2_pk (set (db_roles db))"
    using assms(1) by (simp add: role_rows_wf_def distinct_map)
  ultimately show ?thesis using assms(3,4) by (metis inj_onD)
qed

text \<open>What the migration leaves alone while it makes a role.\<close>

definition same_but_roles :: "'s rbac_db \<Rightarrow> 's rbac_db \<Rightarrow> bool" where
  "same_but_roles db db' \<longleftrightarrow>
     db' = db\<lparr>db_roles := db_roles db', db_next_pk := db_next_pk db', db_next_uuid := db_next_uuid db'\<rparr> \<and>
     db_next_pk db \<le> db_next_pk db' \<and> db_next_uuid db \<le> db_next_uuid db'"

lemma same_but_roles_trans: "same_but_roles a b \<Longrightarrow> same_but_roles b c \<Longrightarrow> same_but_roles a c"
  by (cases a; cases b; cases c) (auto simp: same_but_roles_def)

lemma v2_custom_role_from_v1_spec:
  assumes "v2_custom_role_from_v1 role n u db = Inr (r, db')" and "role_rows_wf db"
  shows "role_rows_wf db'" and "r2_uuid r = u" and "r2_v1_source r = Some (ro_pk role)"
    and "\<exists>ps. custom_row db' (r2_pk r) u ps"
    and "same_but_roles db db' \<and> db_next_uuid db' = db_next_uuid db"
    and "custom_row db pk uuid ps \<Longrightarrow> uuid \<noteq> u \<Longrightarrow> pk \<noteq> r2_pk r \<and> custom_row db' pk uuid ps"
proof -
  let ?name = "ro_display_name role @ '' ('' @ nat_str n @ '')''"
  consider (old) r0 where "r0 \<in> set (db_roles db)" "r2_uuid r0 = u" "r2_v1_source r0 = Some (ro_pk role)"
      "r = r0\<lparr>r2_name := ?name, r2_description := ro_description role\<rparr>" "save_custom_role r db = Inr db'"
    | (new) "r2_pk r = db_next_pk db" "r2_uuid r = u" "r2_v1_source r = Some (ro_pk role)"
      "save_custom_role r (db\<lparr>db_next_pk := db_next_pk db + 1\<rparr>) = Inr db'"
  proof (cases "get_one (filter (\<lambda>r. r2_uuid r = u \<and> r2_tenant r = ro_tenant role \<and>
        r2_v1_source r = Some (ro_pk role)) (typed_role_queryset ROLE_CUSTOM (db_roles db)))")
    case (Inl e)
    then show thesis
      using assms(1) that(2)
      by (auto simp: v2_custom_role_from_v1_def Let_def fresh_pk_def bind_r_Inr_iff split: py_error.splits)
  next
    case (Inr r0)
    then have "r0 \<in> set (typed_role_queryset ROLE_CUSTOM (db_roles db)) \<and> r2_uuid r0 = u \<and>
        r2_tenant r0 = ro_tenant role \<and> r2_v1_source r0 = Some (ro_pk role)"
      by (rule get_one_filterD)
    then show thesis
      using assms(1) Inr that(1) [of r0]
      by (auto simp: v2_custom_role_from_v1_def Let_def bind_r_Inr_iff typed_role_queryset_def)
  qed
  then have "role_rows_wf db' \<and> r2_uuid r = u \<and> r2_v1_source r = Some (ro_pk role) \<and>
      (\<exists>ps. custom_row db' (r2_pk r) u ps) \<and> same_but_roles db db' \<and> db_next_uuid db' = db_next_uuid db \<and>
      (custom_row db pk uuid ps \<longrightarrow> uuid \<noteq> u \<longrightarrow> pk \<noteq> r2_pk r \<and> custom_row db' pk uuid ps)"
  proof cases
    case old
    have pk: "r2_pk r = r2_pk r0" and uu: "r2_uuid r = u" using old by simp_all
    have "r2_pk r < db_next_pk db" using assms(2) old(1) pk by (simp add: role_rows_wf_def)
    moreover have "same_but_roles db db' \<and> db_next_uuid db' = db_next_uuid db"
      using save_custom_role_Inr [OF old(5)] by (auto simp: same_but_roles_def)
    moreover have "pk \<noteq> r2_pk r" if "custom_row db pk uuid ps" "uuid \<noteq> u"
      using custom_row_pk [OF assms(2) that(1) old(1)] old(2) that(2) \<open>r2_pk r = r2_pk r0\<close> by auto
    ultimately show ?thesis
      using save_custom_role_wf [OF old(5) assms(2)] save_custom_role_rows [OF old(5)] old(3,4) uu by simp
  next
    case new
    let ?db = "db\<lparr>db_next_pk := db_next_pk db + 1\<rparr>"
    have wf: "role_rows_wf ?db" using assms(2) by (auto simp: role_rows_wf_def)
    moreover have "same_but_roles db db' \<and> db_next_uuid db' = db_next_uuid db"
      using save_custom_role_Inr [OF new(4)] by (auto simp: same_but_roles_def)
    moreover have "pk \<noteq> r2_pk r" if "custom_row db pk uuid ps"
      using that new(1) assms(2) by (auto simp: custom_row_def role_rows_wf_def)
    moreover have "custom_row ?db pk uuid ps" if "custom_row db pk uuid ps"
      using that by (simp add: custom_row_def)
    ultimately show ?thesis
      using save_custom_role_wf [OF new(4) wf] save_custom_role_rows [OF new(4)] new(1-3) by simp
  qed
  then show "role_rows_wf db'" and "r2_uuid r = u" and "r2_v1_source r = Some (ro_pk role)"
    and "\<exists>ps. custom_row db' (r2_pk r) u ps"
    and "same_but_roles db db' \<and> db_next_uuid db' = db_next_uuid db"
    and "custom_row db pk uuid ps \<Longrightarrow> uuid \<noteq> u \<Longrightarrow> pk \<noteq> r2_pk r \<and> custom_row db' pk uuid ps"
    by simp_all
qed

lemma set_role_permissions_spec:
  shows "role_rows_wf db \<Longrightarrow> role_rows_wf (set_role_permissions r ps db)"
    and "custom_row db (r2_pk r) u ps0 \<Longrightarrow> custom_row (set_role_permissions r ps db) (r2_pk r) u ps"
    and "custom_row db pk uuid ps' \<Longrightarrow> pk \<noteq> r2_pk r \<Longrightarrow> custom_row (set_role_permissions r ps db) pk uuid ps'"
    and "same_but_roles db (set_role_permissions r ps db)"
    and "db_next_uuid (set_role_permissions r ps db) = db_next_uuid db"
proof -
  let ?f = "\<lambda>r'. if r2_pk r' = r2_pk r then r'\<lparr>r2_permissions := ps\<rparr> else r'"
  have rows: "db_roles (set_role_permissions r ps db) = map ?f (db_roles db)"
    by (simp add: set_role_permissions_def)
  have keys: "r2_pk \<circ> ?f = r2_pk" "r2_uuid \<circ> ?f = r2_uuid" by auto
  show "role_rows_wf (set_role_permissions r ps db)" if "role_rows_wf db"
    using that unfolding role_rows_wf_def rows map_map keys by (auto simp: set_role_permissions_def)
  show "custom_row (set_role_permissions r ps db) (r2_pk r) u ps" if "custom_row db (r2_pk r) u ps0"
  proof -
    from that obtain x where x: "x \<in> set (db_roles db)" "r2_pk x = r2_pk r" "r2_uuid x = u" "r2_type x = ROLE_CUSTOM"
      by (auto simp: custom_row_def)
    then show ?thesis unfolding custom_row_def rows set_map by (intro bexI [of _ "?f x"] imageI) simp_all
  qed
  show "custom_row (set_role_permissions r ps db) pk uuid ps'" if "custom_row db pk uuid ps'" "pk \<noteq> r2_pk r"
  proof -
    from that obtain x where x: "x \<in> set (db_roles db)" "r2_pk x = pk" "r2_uuid x = uuid" "r2_type x = ROLE_CUSTOM"
        "r2_permissions x = ps'"
      by (auto simp: custom_row_def)
    then show ?thesis
      using that(2) unfolding custom_row_def rows set_map by (intro bexI [of _ "?f x"] imageI) simp_all
  qed
qed (simp_all add: set_role_permissions_def same_but_roles_def)

definition same_but_bindings :: "'s rbac_db \<Rightarrow> 's rbac_db \<Rightarrow> bool" where
  "same_but_bindings db db' \<longleftrightarrow>
     db' = db\<lparr>db_bindings := db_bindings db', db_next_pk := db_next_pk db', db_next_uuid := db_next_uuid db'\<rparr> \<and>
     db_next_pk db \<le> db_next_pk db' \<and> db_next_uuid db \<le> db_next_uuid db'"

lemma same_but_bindings_rows:
  assumes "same_but_bindings db db'"
  shows "role_rows_wf db \<Longrightarrow> role_rows_wf db'" and "custom_row db' = custom_row db"
    and "db_roles db' = db_roles db"
proof -
  show roles: "db_roles db' = db_roles db"
    using assms by (cases db; cases db') (simp add: same_but_bindings_def)
  show "role_rows_wf db \<Longrightarrow> role_rows_wf db'"
    using assms roles by (auto simp: same_but_bindings_def role_rows_wf_def)
  show "custom_row db' = custom_row db" using roles by (auto simp: custom_row_def fun_eq_iff)
qed

lemma save_role_binding_frame: "save_role_binding b db = Inr db' \<Longrightarrow> same_but_bindings db db'"
  by (auto simp: save_role_binding_def same_but_bindings_def result_simps)

lemma create_role_binding_spec:
  assumes "create_role_binding u tenant role ty i db = Inr (b, db')"
  shows "b = \<lparr>rb_pk = db_next_pk db, rb_uuid = u, rb_tenant = tenant, rb_role = role,
              rb_resource_type = ty, rb_resource_id = i\<rparr>"
    and "same_but_bindings db db'" and "db_next_uuid db' = db_next_uuid db"
  using assms
  by (auto simp: create_role_binding_def fresh_pk_def Let_def save_role_binding_def same_but_bindings_def result_simps)

lemma update_or_create_role_binding_spec:
  assumes "update_or_create_role_binding tenant u r resource db = Inr (b, db')" and "canonical_uuid u"
  shows "rb_uuid b = u" and "rb_role b = r2_pk r" and "rb_resource_type b = snd (br_type resource)"
    and "rb_resource_id b = br_id resource" and "same_but_bindings db db'" and "db_next_uuid db' = db_next_uuid db"
proof -
  have u: "uuid_param u = Inr u" using assms(2) by (simp add: uuid_param_def canonical_uuid_def)
  have "rb_uuid b = u \<and> rb_role b = r2_pk r \<and> rb_resource_type b = snd (br_type resource) \<and>
      rb_resource_id b = br_id resource \<and> same_but_bindings db db' \<and> db_next_uuid db' = db_next_uuid db"
  proof (cases "get_one (filter (\<lambda>b. rb_tenant b = tenant \<and> rb_uuid b = u) (db_bindings db))")
    case (Inl e)
    then have "create_role_binding u tenant (r2_pk r) (snd (br_type resource)) (br_id resource) db = Inr (b, db')"
      using assms(1) u by (auto simp: update_or_create_role_binding_def split: py_error.splits)
    then show ?thesis using create_role_binding_spec by fastforce
  next
    case (Inr b0)
    then have "rb_uuid b0 = u" using get_one_filterD [OF Inr] by simp
    then show ?thesis
      using assms(1) Inr u
      by (auto simp: update_or_create_role_binding_def Let_def bind_r_Inr_iff save_role_binding_def
          same_but_bindings_def check_r_Inr_iff)
  qed
  then show "rb_uuid b = u" and "rb_role b = r2_pk r" and "rb_resource_type b = snd (br_type resource)"
    and "rb_resource_id b = br_id resource" and "same_but_bindings db db'" and "db_next_uuid db' = db_next_uuid db"
    by simp_all
qed

definition custom_value :: "string \<Rightarrow> permission_row list \<Rightarrow> v2_role" where
  "custom_value uuid ps = \<lparr>vr_id = uuid, vr_is_system = False, vr_permissions = remdups (map v2_string ps)\<rparr>"

lemma binding_as_migration_value_custom:
  assumes "binding_as_migration_value db b (Some groups) = Inr v"
    and "role_rows_wf db" and "custom_row db (rb_role b) uuid ps"
  shows "v = \<lparr>vb_id = rb_uuid b, vb_role = custom_value uuid ps,
              vb_resource = \<lparr>br_type = (''rbac'', rb_resource_type b), br_id = rb_resource_id b\<rparr>,
              vb_groups = groups, vb_users = []\<rparr>"
proof -
  from assms(3) obtain x where x: "x \<in> set (db_roles db)" "r2_pk x = rb_role b" "r2_uuid x = uuid"
      "r2_type x = ROLE_CUSTOM" "r2_permissions x = ps"
    by (auto simp: custom_row_def)
  then have "role_by_pk db (rb_role b) = Inr x" using role_by_pk_row [OF assms(2) x(1)] by simp
  then show ?thesis
    using assms(1) x
    by (auto simp: binding_as_migration_value_def role_as_migration_value_def custom_value_def
        bind_r_Inr_iff mk_bound_resource_Inr_iff)
qed

lemma role_as_dict_custom_value [simp]: "role_as_dict (custom_value u ps) = custom_value u ps"
  by (simp add: role_as_dict_def custom_value_def)

text \<open>The mapping that the migration makes for a resource.\<close>

definition mapping_for ::
  "v2_bound_resource \<Rightarrow> string \<Rightarrow> permission_row list \<Rightarrow> int \<Rightarrow> string list \<Rightarrow> binding_mapping \<Rightarrow> bool" where
  "mapping_for resource uuid ps pk groups m \<longleftrightarrow>
     br_type resource = (bm_resource_type_namespace m, bm_resource_type_name m) \<and>
     br_id resource = bm_resource_id m \<and> bm_role_value m = custom_value uuid ps \<and>
     bm_v2_role m = Some pk \<and> bm_groups m = groups \<and> bm_users m = []"

definition mapping_resource :: "binding_mapping \<Rightarrow> v2_bound_resource" where
  "mapping_resource m = \<lparr>br_type = (bm_resource_type_namespace m, bm_resource_type_name m), br_id = bm_resource_id m\<rparr>"

lemma get_or_create_binding_spec:
  assumes "get_or_create_binding uuid7 role r resource existing groups db = Inr (m, b, db')"
    and "role_rows_wf db" and "custom_row db (r2_pk r) (r2_uuid r) ps"
    and "fst (br_type resource) = ''rbac''"
    and "\<And>m0. existing = Some m0 \<Longrightarrow> canonical_uuid (bm_id m0)"
  shows "same_but_bindings db db'" and "mapping_for resource (r2_uuid r) ps (r2_pk r) groups m"
    and "bm_id m = rb_uuid b" and "rb_role b = r2_pk r"
    and "bm_id m = (case existing of None \<Rightarrow> uuid7 (db_next_uuid db) | Some m0 \<Rightarrow> bm_id m0)"
    and "existing = None \<Longrightarrow> db_next_uuid db < db_next_uuid db'"
    and "bm_pk m = (case existing of None \<Rightarrow> None | Some m0 \<Rightarrow> bm_pk m0)"
    and "bm_role m = (case existing of None \<Rightarrow> ro_pk role | Some m0 \<Rightarrow> bm_role m0)"
proof -
  have ty: "br_type resource = (''rbac'', snd (br_type resource))" using assms(4) by (simp add: prod_eq_iff)
  have "same_but_bindings db db' \<and> mapping_for resource (r2_uuid r) ps (r2_pk r) groups m \<and>
    bm_id m = rb_uuid b \<and> rb_role b = r2_pk r \<and>
    bm_id m = (case existing of None \<Rightarrow> uuid7 (db_next_uuid db) | Some m0 \<Rightarrow> bm_id m0) \<and>
    (existing = None \<longrightarrow> db_next_uuid db < db_next_uuid db') \<and>
    bm_pk m = (case existing of None \<Rightarrow> None | Some m0 \<Rightarrow> bm_pk m0) \<and>
    bm_role m = (case existing of None \<Rightarrow> ro_pk role | Some m0 \<Rightarrow> bm_role m0)"
  proof (cases existing)
    case None
    let ?db0 = "db\<lparr>db_next_uuid := db_next_uuid db + 1\<rparr>"
    obtain v where create: "create_role_binding (uuid7 (db_next_uuid db)) (ro_tenant role) (r2_pk r)
          (snd (br_type resource)) (br_id resource) ?db0 = Inr (b, db')"
      and v: "binding_as_migration_value db' b (Some groups) = Inr v"
      and m: "m = for_role_binding v (ro_pk role) (Some (r2_pk r))"
      using assms(1) None by (auto simp: get_or_create_binding_def fresh_uuid_def Let_def bind_r_Inr_iff)
    note b = create_role_binding_spec [OF create]
    have frame: "same_but_bindings db db'" using b(2) by (auto simp: same_but_bindings_def)
    have "v = \<lparr>vb_id = rb_uuid b, vb_role = custom_value (r2_uuid r) ps,
              vb_resource = \<lparr>br_type = (''rbac'', rb_resource_type b), br_id = rb_resource_id b\<rparr>,
              vb_groups = groups, vb_users = []\<rparr>"
      using same_but_bindings_rows [OF frame] assms(2,3) b(1)
      by (intro binding_as_migration_value_custom [OF v]) simp_all
    then show ?thesis using frame b(1,3) None m ty by (simp add: for_role_binding_def mapping_for_def)
  next
    case (Some m0)
    obtain v m1 where update: "update_or_create_role_binding (ro_tenant role) (bm_id m0) r resource db = Inr (b, db')"
      and v: "binding_as_migration_value db' b (Some groups) = Inr v"
      and m1: "update_mappings_from_role_binding v m0 = Inr m1" and m: "m = m1\<lparr>bm_v2_role := Some (r2_pk r)\<rparr>"
      using assms(1) Some
      by (auto simp: get_or_create_binding_def bind_r_Inr_iff dest: get_role_binding_Inr)
    note b = update_or_create_role_binding_spec [OF update assms(5) [OF Some]]
    have "v = \<lparr>vb_id = rb_uuid b, vb_role = custom_value (r2_uuid r) ps,
              vb_resource = \<lparr>br_type = (''rbac'', rb_resource_type b), br_id = rb_resource_id b\<rparr>,
              vb_groups = groups, vb_users = []\<rparr>"
      using same_but_bindings_rows [OF b(5)] assms(2,3) b(2)
      by (intro binding_as_migration_value_custom [OF v]) simp_all
    then show ?thesis
      using b Some m m1 ty
      by (auto simp: update_mappings_from_role_binding_def mapping_for_def split: if_splits)
  qed
  then show "same_but_bindings db db'" and "mapping_for resource (r2_uuid r) ps (r2_pk r) groups m"
    and "bm_id m = rb_uuid b" and "rb_role b = r2_pk r"
    and "bm_id m = (case existing of None \<Rightarrow> uuid7 (db_next_uuid db) | Some m0 \<Rightarrow> bm_id m0)"
    and "existing = None \<Longrightarrow> db_next_uuid db < db_next_uuid db'"
    and "bm_pk m = (case existing of None \<Rightarrow> None | Some m0 \<Rightarrow> bm_pk m0)"
    and "bm_role m = (case existing of None \<Rightarrow> ro_pk role | Some m0 \<Rightarrow> bm_role m0)"
    by blast+
qed

section \<open>The loop over the resources\<close>

text \<open>
  What the migration relies on: the mappings it finds for the role have canonical and pairwise
  different binding uuids, the roles they name have canonical uuids, and \<open>uuid7\<close> gives uuids that are
  new and different from each other.
\<close>

definition existing_wf :: "(nat \<Rightarrow> string) \<Rightarrow> (v2_bound_resource \<times> binding_mapping) list \<Rightarrow> bool" where
  "existing_wf uuid7 existing \<longleftrightarrow>
     (\<forall>res m. map_of existing res = Some m \<longrightarrow>
        canonical_uuid (bm_id m) \<and> canonical_uuid (vr_id (bm_role_value m)) \<and>
        bm_id m \<notin> range uuid7 \<and> vr_id (bm_role_value m) \<notin> range uuid7) \<and>
     (\<forall>res res' m m'. map_of existing res = Some m \<longrightarrow> map_of existing res' = Some m' \<longrightarrow>
        bm_id m = bm_id m' \<longrightarrow> res = res') \<and>
     inj uuid7"

definition loop_entry ::
  "(permission_row list \<times> role_v2) list \<Rightarrow> string list \<Rightarrow> v2_bound_resource \<times> permission_row list
   \<Rightarrow> binding_mapping \<times> role_binding \<Rightarrow> bool" where
  "loop_entry roles groups = (\<lambda>(resource, permissions) (m, b).
     \<exists>ps r. (ps, r) \<in> set roles \<and> set ps = set permissions \<and>
       mapping_for resource (r2_uuid r) ps (r2_pk r) groups m \<and> bm_id m = rb_uuid b \<and> rb_role b = r2_pk r)"

definition entry_origin ::
  "(nat \<Rightarrow> string) \<Rightarrow> v1_role \<Rightarrow> (v2_bound_resource \<times> binding_mapping) list \<Rightarrow> nat \<Rightarrow> v2_bound_resource
   \<Rightarrow> binding_mapping \<Rightarrow> bool" where
  "entry_origin uuid7 role existing n resource m \<longleftrightarrow>
     (case map_of existing resource of
        Some m0 \<Rightarrow> bm_id m = bm_id m0 \<and> bm_pk m = bm_pk m0 \<and> bm_role m = bm_role m0
      | None \<Rightarrow> (\<exists>k < n. bm_id m = uuid7 k) \<and> bm_pk m = None \<and> bm_role m = ro_pk role)"

definition same_rows_elsewhere :: "'s rbac_db \<Rightarrow> 's rbac_db \<Rightarrow> bool" where
  "same_rows_elsewhere db db' \<longleftrightarrow>
     db' = db\<lparr>db_roles := db_roles db', db_bindings := db_bindings db', db_next_pk := db_next_pk db',
              db_next_uuid := db_next_uuid db'\<rparr> \<and>
     db_next_pk db \<le> db_next_pk db' \<and> db_next_uuid db \<le> db_next_uuid db'"

lemma same_rows_elsewhere_steps:
  "same_rows_elsewhere a b \<Longrightarrow> same_but_roles b c \<Longrightarrow> same_rows_elsewhere a c"
  "same_rows_elsewhere a b \<Longrightarrow> same_but_bindings b c \<Longrightarrow> same_rows_elsewhere a c"
  "same_rows_elsewhere a a"
  by (cases a; cases b; cases c; auto simp: same_rows_elsewhere_def same_but_roles_def same_but_bindings_def)+

definition loop_inv ::
  "(nat \<Rightarrow> string) \<Rightarrow> v1_role \<Rightarrow> (v2_bound_resource \<times> binding_mapping) list \<Rightarrow> string list \<Rightarrow> 's rbac_db
   \<Rightarrow> (v2_bound_resource \<times> permission_row list) list \<Rightarrow> 's migration_loop \<Rightarrow> bool" where
  "loop_inv uuid7 role existing groups db0 resources = (\<lambda>(db, roles, out).
     role_rows_wf db \<and> same_rows_elsewhere db0 db \<and>
     (\<forall>(ps, r) \<in> set roles. r2_v1_source r = Some (ro_pk role)) \<and>
     list_all2 (loop_entry roles groups) resources out \<and>
     (\<forall>(ps, r) \<in> set roles. custom_row db (r2_pk r) (r2_uuid r) ps) \<and>
     distinct (map (\<lambda>(ps, r). r2_uuid r) roles) \<and>
     (\<forall>(ps, r) \<in> set roles. r2_uuid r \<in> range uuid7 \<longrightarrow> (\<exists>k < db_next_uuid db. r2_uuid r = uuid7 k)) \<and>
     list_all2 (\<lambda>(resource, _) (m, _). entry_origin uuid7 role existing (db_next_uuid db) resource m) resources out \<and>
     distinct (map (\<lambda>(m, b). bm_id m) out))"

lemma find_role_SomeD:
  "find_role roles ps = Some r \<Longrightarrow> \<exists>ps'. (ps', r) \<in> set roles \<and> set ps' = set ps"
  by (auto simp: find_role_def find_Some_iff) (metis nth_mem)

lemma loop_entry_mono: "set roles \<subseteq> set roles' \<Longrightarrow> loop_entry roles groups x y \<Longrightarrow> loop_entry roles' groups x y"
  unfolding loop_entry_def case_prod_beta by blast

lemma entry_origin_mono:
  "entry_origin uuid7 role ex n res m \<Longrightarrow> n \<le> n' \<Longrightarrow> entry_origin uuid7 role ex n' res m"
  by (auto simp: entry_origin_def split: option.splits intro: less_le_trans)

lemma target_role_uuid_for_spec:
  assumes "target_role_uuid_for uuid7 eb latest db = Inr (u, db')"
    and "\<And>b. eb = Some b \<Longrightarrow> canonical_uuid (vr_id (vb_role b)) \<and> vr_id (vb_role b) \<notin> range uuid7"
  shows "db' = db\<lparr>db_next_uuid := db_next_uuid db'\<rparr>" and "db_next_uuid db \<le> db_next_uuid db'"
    and "u \<notin> range uuid7 \<and> u \<notin> r2_uuid ` set latest \<or>
         u = uuid7 (db_next_uuid db) \<and> db_next_uuid db < db_next_uuid db'"
  using assms
  by (auto simp: target_role_uuid_for_def fresh_uuid_def parse_uuid_def canonical_uuid_def bind_r_Inr_iff
      list_ex_iff split: option.splits if_splits)

lemma new_role_for_spec:
  assumes "new_role_for uuid7 role roles em permissions db = Inr (r, db')"
    and "role_rows_wf db" and "inj uuid7"
    and "\<And>m0. em = Some m0 \<Longrightarrow>
           canonical_uuid (vr_id (bm_role_value m0)) \<and> vr_id (bm_role_value m0) \<notin> range uuid7"
    and "\<And>ps r. (ps, r) \<in> set roles \<Longrightarrow> custom_row db (r2_pk r) (r2_uuid r) ps"
    and "\<And>ps r. (ps, r) \<in> set roles \<Longrightarrow> r2_uuid r \<in> range uuid7 \<Longrightarrow> \<exists>k < db_next_uuid db. r2_uuid r = uuid7 k"
  shows "role_rows_wf db'" and "same_but_roles db db'" and "r2_v1_source r = Some (ro_pk role)"
    and "\<And>ps r. (ps, r) \<in> set roles \<Longrightarrow> custom_row db' (r2_pk r) (r2_uuid r) ps"
    and "custom_row db' (r2_pk r) (r2_uuid r) permissions"
    and "r2_uuid r \<notin> (\<lambda>(ps, r). r2_uuid r) ` set roles"
    and "r2_uuid r \<in> range uuid7 \<Longrightarrow> \<exists>k < db_next_uuid db'. r2_uuid r = uuid7 k"
proof -
  obtain eb u db1 db2 where
      eb: "(case em of None \<Rightarrow> Inr None | Some m \<Rightarrow> bind_r (get_role_binding m) (\<lambda>b. Inr (Some b))) = Inr eb"
    and target: "target_role_uuid_for uuid7 eb (map snd roles) db = Inr (u, db1)"
    and create: "v2_custom_role_from_v1 role (length roles + 1) u db1 = Inr (r, db2)"
    and db': "db' = set_role_permissions r permissions db2"
    using assms(1) by (auto simp: new_role_for_def bind_r_Inr_iff)
  have "canonical_uuid (vr_id (vb_role b)) \<and> vr_id (vb_role b) \<notin> range uuid7" if "eb = Some b" for b
    using eb that assms(4) by (auto simp: bind_r_Inr_iff split: option.splits dest: get_role_binding_Inr)
  note t = target_role_uuid_for_spec [OF target this]
  have wf1: "role_rows_wf db1" and rows1: "custom_row db1 = custom_row db"
    using t(1) assms(2) by (cases db; cases db1; simp add: role_rows_wf_def custom_row_def fun_eq_iff)+
  note c = v2_custom_role_from_v1_spec [OF create wf1]
  have u_new: "u \<notin> (\<lambda>(ps, r). r2_uuid r) ` set roles"
  proof
    assume "u \<in> (\<lambda>(ps, r). r2_uuid r) ` set roles"
    then obtain ps' r' where r': "(ps', r') \<in> set roles" "r2_uuid r' = u" by auto
    then have "u \<in> r2_uuid ` set (map snd roles)" by (force simp: image_iff)
    with t(3) have u: "u = uuid7 (db_next_uuid db)" by blast
    then obtain k where "k < db_next_uuid db" "u = uuid7 k" using assms(6) [OF r'(1)] r'(2) by auto
    with u assms(3) show False by (simp add: inj_eq)
  qed
  show "role_rows_wf db'" unfolding db' using c(1) by (rule set_role_permissions_spec(1))
  have "same_but_roles db db1"
    using t(1,2) by (cases db; cases db1) (simp add: same_but_roles_def)
  then show "same_but_roles db db'"
    unfolding db' using c(5) set_role_permissions_spec(4) same_but_roles_trans by blast
  show "r2_v1_source r = Some (ro_pk role)" by (rule c(3))
  show "custom_row db' (r2_pk r') (r2_uuid r') ps" if "(ps, r') \<in> set roles" for ps r'
  proof -
    have "r2_uuid r' \<noteq> u" using u_new that by force
    then have "r2_pk r' \<noteq> r2_pk r \<and> custom_row db2 (r2_pk r') (r2_uuid r') ps"
      using c(6) rows1 assms(5) [OF that] by simp
    then show ?thesis unfolding db' by (simp add: set_role_permissions_spec(3))
  qed
  show "custom_row db' (r2_pk r) (r2_uuid r) permissions"
    unfolding db' using c(2,4) set_role_permissions_spec(2) by metis
  show "r2_uuid r \<notin> (\<lambda>(ps, r). r2_uuid r) ` set roles" using u_new c(2) by simp
  show "\<exists>k < db_next_uuid db'. r2_uuid r = uuid7 k" if "r2_uuid r \<in> range uuid7"
    using t(2,3) c(2,5) that set_role_permissions_spec(5) [of r permissions db2] unfolding db' by auto
qed

lemma migrate_resource_inv:
  assumes inv: "loop_inv uuid7 role existing groups db0 resources (db, roles, out)"
    and step: "migrate_resource uuid7 role existing groups (db, roles, out) (resource, permissions) = Inr st'"
    and ex: "existing_wf uuid7 existing"
    and new: "resource \<notin> fst ` set resources" and rbac: "fst (br_type resource) = ''rbac''"
  shows "loop_inv uuid7 role existing groups db0 (resources @ [(resource, permissions)]) st'"
proof -
  let ?em = "map_of existing resource"
  note I = inv [unfolded loop_inv_def prod.case]
  have wf: "role_rows_wf db" and frame: "same_rows_elsewhere db0 db"
    and src: "\<And>ps r. (ps, r) \<in> set roles \<Longrightarrow> r2_v1_source r = Some (ro_pk role)"
    and entries: "list_all2 (loop_entry roles groups) resources out"
    and rows: "\<And>ps r. (ps, r) \<in> set roles \<Longrightarrow> custom_row db (r2_pk r) (r2_uuid r) ps"
    and dist: "distinct (map (\<lambda>(ps, r). r2_uuid r) roles)"
    and fresh: "\<And>ps r. (ps, r) \<in> set roles \<Longrightarrow> r2_uuid r \<in> range uuid7 \<Longrightarrow> \<exists>k < db_next_uuid db. r2_uuid r = uuid7 k"
    and origin: "list_all2 (\<lambda>(resource, _) (m, _). entry_origin uuid7 role existing (db_next_uuid db) resource m) resources out"
    and ids: "distinct (map (\<lambda>(m, b). bm_id m) out)"
    using I by auto
  have ex': "canonical_uuid (vr_id (bm_role_value m0)) \<and> vr_id (bm_role_value m0) \<notin> range uuid7"
      "canonical_uuid (bm_id m0)" "bm_id m0 \<notin> range uuid7" if "?em = Some m0" for m0
    using ex that by (auto simp: existing_wf_def)
  have inj: "inj uuid7" using ex by (simp add: existing_wf_def)
  obtain r roles' db1 m b db2 where
      pick: "(case find_role roles permissions of
               Some r \<Rightarrow> Inr (r, roles, db)
             | None \<Rightarrow> bind_r (new_role_for uuid7 role roles ?em permissions db) (\<lambda>(r, db1).
                 Inr (r, roles @ [(permissions, r)], db1))) = Inr (r, roles', db1)"
    and bind: "get_or_create_binding uuid7 role r resource ?em groups db1 = Inr (m, b, db2)"
    and st': "st' = (db2, roles', out @ [(m, b)])"
    using step unfolding migrate_resource_def prod.case bind_r_Inr_iff by (auto simp: bind_r_Inr_iff)
  have P: "role_rows_wf db1 \<and> same_but_roles db db1 \<and> set roles \<subseteq> set roles' \<and>
      (\<exists>ps. (ps, r) \<in> set roles' \<and> set ps = set permissions) \<and>
      (\<forall>(ps, r) \<in> set roles'. r2_v1_source r = Some (ro_pk role)) \<and>
      (\<forall>(ps, r) \<in> set roles'. custom_row db1 (r2_pk r) (r2_uuid r) ps) \<and>
      distinct (map (\<lambda>(ps, r). r2_uuid r) roles') \<and>
      (\<forall>(ps, r) \<in> set roles'. r2_uuid r \<in> range uuid7 \<longrightarrow> (\<exists>k < db_next_uuid db1. r2_uuid r = uuid7 k))"
  proof (cases "find_role roles permissions")
    case None
    then have new_role: "new_role_for uuid7 role roles ?em permissions db = Inr (r, db1)"
      and roles': "roles' = roles @ [(permissions, r)]"
      using pick by (auto simp: bind_r_Inr_iff)
    note n = new_role_for_spec [OF new_role wf inj ex'(1) rows fresh]
    have "db_next_uuid db \<le> db_next_uuid db1" using n(2) by (simp add: same_but_roles_def)
    then have "\<exists>k < db_next_uuid db1. r2_uuid r' = uuid7 k"
      if "(ps, r') \<in> set roles" "r2_uuid r' \<in> range uuid7" for ps r'
      using fresh [OF that] less_le_trans by blast
    then show ?thesis using n dist src unfolding roles' by auto
  next
    case (Some r0)
    then have "r0 = r" "roles' = roles" "db1 = db" using pick by auto
    then show ?thesis
      using find_role_SomeD [OF Some] wf src rows dist fresh by (auto simp: same_but_roles_def) (metis rangeI)
  qed
  then obtain ps where ps: "(ps, r) \<in> set roles'" "set ps = set permissions" by blast
  from P have wf1: "role_rows_wf db1" and row: "custom_row db1 (r2_pk r) (r2_uuid r) ps" using ps(1) by auto
  note g = get_or_create_binding_spec [OF bind wf1 row rbac ex'(2)]
  have uuid1: "db_next_uuid db \<le> db_next_uuid db1" using P by (simp add: same_but_roles_def)
  have uuid2: "db_next_uuid db1 \<le> db_next_uuid db2" using g(1) by (simp add: same_but_bindings_def)
  have "loop_entry roles' groups (resource, permissions) (m, b)"
    using ps g(2-4) unfolding loop_entry_def by auto
  moreover have "list_all2 (loop_entry roles' groups) resources out"
    by (rule list_all2_mono [OF entries]) (use P loop_entry_mono in blast)
  moreover have "entry_origin uuid7 role existing (db_next_uuid db2) resource m"
    using g(5-8) uuid2 by (auto simp: entry_origin_def split: option.splits)
  moreover have "list_all2 (\<lambda>(resource, _) (m, _). entry_origin uuid7 role existing (db_next_uuid db2) resource m)
      resources out"
    by (rule list_all2_mono [OF origin]) (use uuid1 uuid2 in \<open>auto elim: entry_origin_mono\<close>)
  moreover have "bm_id m \<notin> set (map (\<lambda>(m, b). bm_id m) out)"
  proof
    assume "bm_id m \<in> set (map (\<lambda>(m, b). bm_id m) out)"
    then obtain i where i: "i < length out" "bm_id (fst (out ! i)) = bm_id m"
      by (auto simp: in_set_conv_nth case_prod_beta)
    obtain res' perms' m' b' where e: "resources ! i = (res', perms')" "out ! i = (m', b')"
      by (cases "resources ! i"; cases "out ! i") simp
    have len: "i < length resources" using i(1) origin by (simp add: list_all2_lengthD)
    have "res' \<in> fst ` set resources" using e(1) len by (metis fst_conv image_eqI nth_mem)
    then have diff: "res' \<noteq> resource" using new by blast
    have o': "entry_origin uuid7 role existing (db_next_uuid db) res' m'"
      using list_all2_nthD [OF origin len] e by simp
    have same: "bm_id m' = bm_id m" using i(2) e(2) by simp
    show False
    proof (cases ?em)
      case None
      then have idm: "bm_id m = uuid7 (db_next_uuid db1)" using g(5) by simp
      show False
      proof (cases "map_of existing res'")
        case (Some m0)
        then have "bm_id m0 \<notin> range uuid7" using ex by (auto simp: existing_wf_def)
        moreover have "bm_id m0 = uuid7 (db_next_uuid db1)"
          using o' Some same idm by (simp add: entry_origin_def)
        ultimately show False by simp
      next
        case None
        then obtain k where "k < db_next_uuid db" "bm_id m' = uuid7 k" using o' by (auto simp: entry_origin_def)
        then show False using same idm inj uuid1 by (simp add: inj_eq)
      qed
    next
      case (Some m0)
      then have idm: "bm_id m = bm_id m0" using g(5) by simp
      show False
      proof (cases "map_of existing res'")
        case (Some m1)
        then have "bm_id m1 = bm_id m0" using o' same idm by (simp add: entry_origin_def)
        then show False using ex Some \<open>?em = Some m0\<close> diff unfolding existing_wf_def by blast
      next
        case None
        then have "bm_id m' \<in> range uuid7" using o' by (auto simp: entry_origin_def)
        then show False using same idm ex'(3) [OF \<open>?em = Some m0\<close>] by simp
      qed
    qed
  qed
  moreover have "same_rows_elsewhere db0 db2"
    using frame P g(1) same_rows_elsewhere_steps(1,2) by blast
  moreover have "role_rows_wf db2" and "custom_row db2 = custom_row db1"
    using same_but_bindings_rows [OF g(1)] wf1 by blast+
  moreover have "\<forall>(ps, r) \<in> set roles'. r2_uuid r \<in> range uuid7 \<longrightarrow> (\<exists>k < db_next_uuid db2. r2_uuid r = uuid7 k)"
    using P uuid2 unfolding Ball_def split_paired_All prod.case by (meson less_le_trans)
  ultimately show ?thesis
    using P ids unfolding st' loop_inv_def prod.case by (simp add: list_all2_appendI)
qed

lemma migration_loop_inv:
  assumes "foldM_r (migrate_resource uuid7 role existing groups) (db, roles, out) todo = Inr st'"
    and "loop_inv uuid7 role existing groups db0 resources (db, roles, out)"
    and "existing_wf uuid7 existing" and "distinct (map fst (resources @ todo))"
    and "\<forall>res \<in> fst ` set todo. fst (br_type res) = ''rbac''"
  shows "loop_inv uuid7 role existing groups db0 (resources @ todo) st'"
  using assms
proof (induction todo arbitrary: db roles out resources)
  case (Cons x todo)
  obtain res perms where x: "x = (res, perms)" by (cases x)
  from Cons.prems(1) obtain db1 roles1 out1 where
      step: "migrate_resource uuid7 role existing groups (db, roles, out) (res, perms) = Inr (db1, roles1, out1)"
    and rest: "foldM_r (migrate_resource uuid7 role existing groups) (db1, roles1, out1) todo = Inr st'"
    by (auto simp: x bind_r_Inr_iff)
  have "loop_inv uuid7 role existing groups db0 (resources @ [(res, perms)]) (db1, roles1, out1)"
    using Cons.prems by (intro migrate_resource_inv [OF Cons.prems(2) step]) (auto simp: x)
  from Cons.IH [OF rest this Cons.prems(3)] show ?case using Cons.prems(4,5) by (simp add: x)
qed simp

section \<open>What the migrated bindings grant\<close>

definition mappings_wf :: "(nat \<Rightarrow> string) \<Rightarrow> binding_mapping list \<Rightarrow> bool" where
  "mappings_wf uuid7 ms \<longleftrightarrow>
     inj uuid7 \<and> inj_on bm_id (set ms) \<and>
     (\<forall>m \<in> set ms. canonical_uuid (bm_id m) \<and> canonical_uuid (vr_id (bm_role_value m)) \<and>
        bm_id m \<notin> range uuid7 \<and> vr_id (bm_role_value m) \<notin> range uuid7)"

lemma mappings_by_resource_origin:
  assumes "mappings_by_resource ms = Inr existing" and "map_of existing res = Some m"
  shows "m \<in> set ms \<and> (\<exists>b. get_role_binding m = Inr b \<and> vb_resource b = res)"
proof -
  let ?f = "\<lambda>d m. bind_r (get_role_binding m) (\<lambda>b. Inr (AList.update (vb_resource b) m d))"
  let ?P = "\<lambda>d :: (v2_bound_resource \<times> binding_mapping) list. \<forall>res m. map_of d res = Some m \<longrightarrow>
      m \<in> set ms \<and> (\<exists>b. get_role_binding m = Inr b \<and> vb_resource b = res)"
  have "?P existing"
  proof (rule foldM_r_invariant [where P = ?P and f = ?f and s = "[]" and xs = ms])
    show "foldM_r ?f [] ms = Inr existing" using assms(1) by (simp add: mappings_by_resource_def)
    show "?P d'" if "?P d" "x \<in> set ms" "?f d x = Inr d'" for d x d'
      using that by (auto simp: bind_r_Inr_iff split: if_splits)
  qed simp
  with assms(2) show ?thesis by blast
qed

lemma existing_wf_mappings:
  assumes "mappings_by_resource ms = Inr existing" and "mappings_wf uuid7 ms"
  shows "existing_wf uuid7 existing"
proof -
  have "res = res'" if "map_of existing res = Some m" "map_of existing res' = Some m'" "bm_id m = bm_id m'"
    for res res' m m'
  proof -
    have "m = m'"
      using assms(2) mappings_by_resource_origin [OF assms(1)] that unfolding mappings_wf_def inj_on_def by blast
    then show ?thesis
      using mappings_by_resource_origin [OF assms(1) that(1)] mappings_by_resource_origin [OF assms(1) that(2)] by auto
  qed
  then show ?thesis
    using assms(2) mappings_by_resource_origin [OF assms(1)] unfolding existing_wf_def mappings_wf_def by blast
qed

text \<open>Access through the graph: a binding of the resource that has the group as subject and a role with the permission.\<close>

definition grants_access :: "relation_tuple set \<Rightarrow> string \<Rightarrow> string \<Rightarrow> v2_bound_resource \<Rightarrow> bool" where
  "grants_access ts g p res \<longleftrightarrow>
     (\<exists>b r. bound_tuple res b \<in> ts \<and> group_tuple b g \<in> ts \<and> role_tuple b r \<in> ts \<and> permission_tuple r p \<in> ts)"

definition migrated ::
  "string list \<Rightarrow> permission_groupings \<Rightarrow> (permission_row list \<times> role_v2) list
   \<Rightarrow> (binding_mapping \<times> role_binding) list \<Rightarrow> bool" where
  "migrated groups groupings roles out \<longleftrightarrow>
     list_all2 (loop_entry roles groups) groupings out \<and>
     distinct (map (\<lambda>(ps, r). r2_uuid r) roles) \<and> distinct (map (\<lambda>(m, b). bm_id m) out)"

lemma mapping_tuples:
  assumes "mapping_for resource uuid ps pk groups m" and "get_role_binding m = Inr b"
  shows "set (binding_tuples domain b) =
     {role_tuple (bm_id m) uuid, bound_tuple resource (bm_id m)}
     \<union> permission_tuple uuid ` v2_string ` set ps \<union> group_tuple (bm_id m) ` set groups"
proof -
  have "vb_resource b = resource" "vb_id b = bm_id m" "vb_groups b = groups" "vb_users b = []"
      "vr_id (vb_role b) = uuid" "set (vr_permissions (vb_role b)) = v2_string ` set ps"
    using get_role_binding_Inr [OF assms(2)] assms(1)
    by (auto simp: mapping_for_def custom_value_def)
  then show ?thesis by (simp add: set_binding_tuples)
qed

lemma migrated_grants:
  assumes M: "migrated groups groupings roles out"
    and bs: "list_all2 (\<lambda>m b. get_role_binding m = Inr b) (map fst out) bs"
    and ts: "ts = (\<Union>b \<in> set bs. set (binding_tuples domain b))"
  shows "grants_access ts g p res \<longleftrightarrow>
     g \<in> set groups \<and> (\<exists>perms. (res, perms) \<in> set groupings \<and> p \<in> v2_string ` set perms)"
proof -
  have len: "length out = length groupings" "length bs = length out"
    using M bs by (auto simp: migrated_def dest: list_all2_lengthD)
  have entry: "\<exists>ps r. (ps, r) \<in> set roles \<and> set ps = set (snd (groupings ! i)) \<and>
      set (binding_tuples domain (bs ! i)) =
        {role_tuple (bm_id (fst (out ! i))) (r2_uuid r), bound_tuple (fst (groupings ! i)) (bm_id (fst (out ! i)))}
        \<union> permission_tuple (r2_uuid r) ` v2_string ` set ps \<union> group_tuple (bm_id (fst (out ! i))) ` set groups"
    if "i < length out" for i
  proof -
    have "loop_entry roles groups (groupings ! i) (out ! i)"
      using M that len by (auto simp: migrated_def dest: list_all2_nthD)
    then obtain ps r where ps: "(ps, r) \<in> set roles" "set ps = set (snd (groupings ! i))"
        "mapping_for (fst (groupings ! i)) (r2_uuid r) ps (r2_pk r) groups (fst (out ! i))"
      unfolding loop_entry_def case_prod_beta by blast
    moreover have "get_role_binding (fst (out ! i)) = Inr (bs ! i)"
      using list_all2_nthD [OF bs, of i] that len by simp
    ultimately show ?thesis using mapping_tuples by metis
  qed
  have mem: "t \<in> ts \<longleftrightarrow> (\<exists>i < length out. t \<in> set (binding_tuples domain (bs ! i)))" for t
    unfolding ts UN_iff using len(2) by (metis in_set_conv_nth)
  have ids: "i = j" if "i < length out" "j < length out" "bm_id (fst (out ! i)) = bm_id (fst (out ! j))" for i j
    using M that unfolding migrated_def by (auto simp: distinct_conv_nth case_prod_beta)
  have uuids: "ps = ps'" if "(ps, r) \<in> set roles" "(ps', r') \<in> set roles" "r2_uuid r = r2_uuid r'" for ps r ps' r'
    using M that unfolding migrated_def distinct_map inj_on_def by fastforce
  show ?thesis
  proof
    assume "grants_access ts g p res"
    then obtain b r i j k l where
        t: "bound_tuple res b \<in> set (binding_tuples domain (bs ! i))" "group_tuple b g \<in> set (binding_tuples domain (bs ! j))"
          "role_tuple b r \<in> set (binding_tuples domain (bs ! k))" "permission_tuple r p \<in> set (binding_tuples domain (bs ! l))"
      and lt: "i < length out" "j < length out" "k < length out" "l < length out"
      unfolding grants_access_def mem by blast
    from entry [OF lt(1)] obtain ps1 r1 where e1: "(ps1, r1) \<in> set roles" "set ps1 = set (snd (groupings ! i))"
      and E1: "set (binding_tuples domain (bs ! i)) =
        {role_tuple (bm_id (fst (out ! i))) (r2_uuid r1), bound_tuple (fst (groupings ! i)) (bm_id (fst (out ! i)))}
        \<union> permission_tuple (r2_uuid r1) ` v2_string ` set ps1 \<union> group_tuple (bm_id (fst (out ! i))) ` set groups"
      by blast
    have res: "res = fst (groupings ! i)" and b: "b = bm_id (fst (out ! i))" using t(1) unfolding E1 by auto
    from entry [OF lt(2)] obtain r' ps' where "set (binding_tuples domain (bs ! j)) =
        {role_tuple (bm_id (fst (out ! j))) r', bound_tuple (fst (groupings ! j)) (bm_id (fst (out ! j)))}
        \<union> permission_tuple r' ` v2_string ` set ps' \<union> group_tuple (bm_id (fst (out ! j))) ` set groups"
      by blast
    then have "g \<in> set groups" using t(2) by auto
    from entry [OF lt(3)] obtain r' ps' where "set (binding_tuples domain (bs ! k)) =
        {role_tuple (bm_id (fst (out ! k))) r', bound_tuple (fst (groupings ! k)) (bm_id (fst (out ! k)))}
        \<union> permission_tuple r' ` v2_string ` set ps' \<union> group_tuple (bm_id (fst (out ! k))) ` set groups"
      by blast
    then have "b = bm_id (fst (out ! k))" using t(3) by auto
    then have "k = i" using b ids [OF lt(3,1)] by simp
    then have r: "r = r2_uuid r1" using t(3) unfolding \<open>k = i\<close> E1 by auto
    from entry [OF lt(4)] obtain ps2 r2 where e2: "(ps2, r2) \<in> set roles"
      and "set (binding_tuples domain (bs ! l)) =
        {role_tuple (bm_id (fst (out ! l))) (r2_uuid r2), bound_tuple (fst (groupings ! l)) (bm_id (fst (out ! l)))}
        \<union> permission_tuple (r2_uuid r2) ` v2_string ` set ps2 \<union> group_tuple (bm_id (fst (out ! l))) ` set groups"
      by blast
    then have e3: "r = r2_uuid r2" "p \<in> v2_string ` set ps2" using t(4) by auto
    have "ps2 = ps1" using uuids [OF e2 e1(1)] e3(1) r by simp
    moreover have "(res, snd (groupings ! i)) \<in> set groupings" using res lt(1) len by simp
    ultimately show "g \<in> set groups \<and> (\<exists>perms. (res, perms) \<in> set groupings \<and> p \<in> v2_string ` set perms)"
      using \<open>g \<in> set groups\<close> e1(2) e3(2) by auto
  next
    assume "g \<in> set groups \<and> (\<exists>perms. (res, perms) \<in> set groupings \<and> p \<in> v2_string ` set perms)"
    then obtain i where i: "i < length out" "fst (groupings ! i) = res" "p \<in> v2_string ` set (snd (groupings ! i))"
        "g \<in> set groups"
      using len by (metis fst_conv snd_conv in_set_conv_nth)
    have sub: "set (binding_tuples domain (bs ! i)) \<subseteq> ts"
      using i(1) by (intro subsetI iffD2 [OF mem] exI [of _ i] conjI)
    from entry [OF i(1)] obtain ps r where "(ps, r) \<in> set roles" and ps: "set ps = set (snd (groupings ! i))"
      and E: "set (binding_tuples domain (bs ! i)) =
        {role_tuple (bm_id (fst (out ! i))) (r2_uuid r), bound_tuple (fst (groupings ! i)) (bm_id (fst (out ! i)))}
        \<union> permission_tuple (r2_uuid r) ` v2_string ` set ps \<union> group_tuple (bm_id (fst (out ! i))) ` set groups"
      by blast
    have "bound_tuple res (bm_id (fst (out ! i))) \<in> ts"
      by (rule subsetD [OF sub], unfold E) (simp add: i(2))
    moreover have "group_tuple (bm_id (fst (out ! i))) g \<in> ts"
      by (rule subsetD [OF sub], unfold E) (use i(4) in blast)
    moreover have "role_tuple (bm_id (fst (out ! i))) (r2_uuid r) \<in> ts"
      by (rule subsetD [OF sub], unfold E) blast
    moreover have "permission_tuple (r2_uuid r) p \<in> ts"
      by (rule subsetD [OF sub], unfold E ps) (use i(3) in blast)
    ultimately show "grants_access ts g p res" unfolding grants_access_def by blast
  qed
qed

section \<open>The resources of the role's permissions\<close>

text \<open>
  The targets of a value, of a filter and of an access row, as sets. A null stands for the tenant's
  ungrouped workspace.
\<close>

definition ungrouped_workspaces :: "ws_table \<Rightarrow> int \<Rightarrow> workspace list" where
  "ungrouped_workspaces tbl tenant = filter (\<lambda>w. ws_tenant w = tenant \<and> ws_type w = WS_UNGROUPED_HOSTS) tbl"

definition value_targets ::
  "ws_table \<Rightarrow> int \<Rightarrow> bool \<Rightarrow> string option \<Rightarrow> string \<times> string \<Rightarrow> pyval \<Rightarrow> v2_bound_resource set" where
  "value_targets tbl tenant is_ocm dflt ty v =
     {res. \<exists>i. (if v = PyNone
                 then ungrouped_workspaces tbl tenant \<noteq> [] \<and> i = PyStr (ws_id (hd (ungrouped_workspaces tbl tenant)))
                 else v \<noteq> PyStr [] \<and> i = v) \<and>
            \<not> ocm_excludes is_ocm dflt ty (py_str i) \<and> mk_bound_resource ty i = Inr res}"

definition filter_values :: "pyval \<Rightarrow> pyval set" where
  "filter_values raw =
     {v. \<exists>fl vs. repair_filter raw = Inr (Some fl) \<and> values_from_attribute_filter fl = Inr vs \<and> v \<in> set vs}"

definition filter_targets ::
  "ws_table \<Rightarrow> int \<Rightarrow> bool \<Rightarrow> string option \<Rightarrow> pyval \<Rightarrow> v2_bound_resource set" where
  "filter_targets tbl tenant is_ocm dflt raw =
     {res. \<exists>fl key ty. repair_filter raw = Inr (Some fl) \<and> py_getitem fl ''key'' = Inr key \<and>
        attribute_key_to_v2_related_resource_type key = Inr (Some ty) \<and>
        names_foreign_workspaces tbl tenant ty fl = Inr False \<and>
        (\<exists>v \<in> filter_values raw. res \<in> value_targets tbl tenant is_ocm dflt ty v)}"

definition access_targets ::
  "permissions_map \<Rightarrow> (scope \<Rightarrow> v2_bound_resource list result) \<Rightarrow> ws_table \<Rightarrow> int \<Rightarrow> bool \<Rightarrow> string option
   \<Rightarrow> access_row \<Rightarrow> v2_bound_resource set" where
  "access_targets pm resource_for_scope tbl tenant is_ocm dflt access =
     (if ac_resource_definitions access = []
      then {res. \<exists>s rs. scope_for_permission pm (perm_permission (ac_permission access)) = Inr s \<and>
             resource_for_scope s = Inr rs \<and> res \<in> set rs \<and> \<not> ocm_excludes is_ocm dflt (br_type res) (br_id res)}
      else (\<Union>raw \<in> set (ac_resource_definitions access). filter_targets tbl tenant is_ocm dflt raw))"

definition grouping_rel :: "permission_groupings \<Rightarrow> (v2_bound_resource \<times> permission_row) set" where
  "grouping_rel g = {(res, p). \<exists>ps. map_of g res = Some ps \<and> p \<in> set ps}"

lemma grouping_rel_empty [simp]: "grouping_rel [] = {}"
  by (simp add: grouping_rel_def)

lemma grouping_rel_add [simp]: "grouping_rel (add_element g k v) = insert (k, v) (grouping_rel g)"
  by (auto simp: grouping_rel_def add_element_def split: option.splits if_splits)

lemma keys_add_element [simp]: "fst ` set (add_element g k v) = insert k (fst ` set g)"
  by (simp add: add_element_def dom_map_of_conv_image_fst [symmetric] dom_update)

lemma distinct_add_element [simp]: "distinct (map fst g) \<Longrightarrow> distinct (map fst (add_element g k v))"
  by (simp add: add_element_def distinct_update)

text \<open>What holds while the permissions are collected.\<close>

definition collect_inv :: "'s rbac_db \<Rightarrow> permission_groupings \<times> 's rbac_db \<Rightarrow> bool" where
  "collect_inv db0 = (\<lambda>(g, db).
     distinct (map fst g) \<and> fst ` set g = fst ` grouping_rel g \<and> (\<forall>res \<in> fst ` set g. fst (br_type res) = ''rbac'') \<and>
     db = db0\<lparr>db_next_uuid := db_next_uuid db\<rparr>)"

lemma collect_inv_add:
  "collect_inv db0 (g, db) \<Longrightarrow> fst (br_type k) = ''rbac'' \<Longrightarrow> collect_inv db0 (add_element g k v, db)"
  unfolding collect_inv_def prod.case keys_add_element grouping_rel_add image_insert fst_conv
  using distinct_add_element [of g k v] by blast

lemma collect_inv_ws: "collect_inv db0 (g, db) \<Longrightarrow> db_ws db = db_ws db0"
  by (cases db0; cases db) (simp add: collect_inv_def)

lemma value_resource_id_null:
  assumes "value_resource_id st rp uuid7 now role ty PyNone db = Inr (i, db')"
    and "ungrouped_workspaces (wst_table (db_ws db)) (ro_tenant role) = w # ws"
  shows "i = Some (PyStr (ws_id w)) \<and> db' = db\<lparr>db_next_uuid := db_next_uuid db'\<rparr>"
proof -
  from assms(1) obtain t ws' where t: "tenant_by_pk (wst_tenants (db_ws db)) (ro_tenant role) = Inr t"
    and state: "get_or_create_ungrouped_workspace (rc_ws st) rp now (uuid7 (db_next_uuid db)) None t (db_ws db) = Inr ws'"
    and out: "i = Some (PyStr (ws_id (fst ws')))" "db' = db\<lparr>db_next_uuid := db_next_uuid db + 1, db_ws := snd ws'\<rparr>"
    by (auto simp: value_resource_id_def fresh_uuid_def bind_r_Inr_iff split: if_splits)
  have "tn_pk t = ro_tenant role" using t by (auto simp: tenant_by_pk_def dest: get_one_filterD)
  then have "ws' = (w, db_ws db)"
    using state assms(2)
    by (auto simp: get_or_create_ungrouped_workspace_def Let_def bind_r_Inr_iff ungrouped_workspaces_def)
  with out show ?thesis by simp
qed

lemma group_value_collects:
  assumes inv: "collect_inv db0 (g, db)"
    and step: "group_value st rp uuid7 now role is_ocm dflt p ty (g, db) v = Inr s'"
    and ty: "fst ty = ''rbac''"
    and null: "v = PyNone \<Longrightarrow> ungrouped_workspaces (wst_table (db_ws db0)) (ro_tenant role) \<noteq> []"
  shows "collect_inv db0 s' \<and>
     grouping_rel (fst s') = grouping_rel g \<union> value_targets (wst_table (db_ws db0)) (ro_tenant role) is_ocm dflt ty v \<times> {p}"
proof -
  let ?u = "ungrouped_workspaces (wst_table (db_ws db0)) (ro_tenant role)"
  from step obtain i db' where v: "value_resource_id st rp uuid7 now role ty v db = Inr (i, db')"
    and s': "(case i of None \<Rightarrow> Inr (g, db')
       | Some i \<Rightarrow> if ocm_excludes is_ocm dflt ty (py_str i) then Inr (g, db')
           else bind_r (mk_bound_resource ty i) (\<lambda>res. Inr (add_element g res p, db'))) = Inr s'"
    by (auto simp: group_value_def bind_r_Inr_iff)
  have V: "i = (if v = PyNone then Some (PyStr (ws_id (hd ?u))) else if v = PyStr [] then None else Some v) \<and>
      db' = db\<lparr>db_next_uuid := db_next_uuid db'\<rparr>"
  proof (cases "v = PyNone")
    case True
    then obtain w ws where "?u = w # ws" using null by (cases ?u) auto
    then show ?thesis
      using value_resource_id_null v True collect_inv_ws [OF inv] by fastforce
  next
    case False
    then show ?thesis
      using v by (auto simp: value_resource_id_def split: pyval.splits list.splits)
  qed
  have inv': "collect_inv db0 (g, db')"
    using inv V by (cases db; cases db'; cases db0) (simp add: collect_inv_def)
  have T: "value_targets (wst_table (db_ws db0)) (ro_tenant role) is_ocm dflt ty v =
      {res. \<exists>j. i = Some j \<and> \<not> ocm_excludes is_ocm dflt ty (py_str j) \<and> mk_bound_resource ty j = Inr res}"
    using V null by (auto simp: value_targets_def)
  show ?thesis
  proof (cases "\<exists>j. i = Some j \<and> \<not> ocm_excludes is_ocm dflt ty (py_str j)")
    case True
    then obtain j where j: "i = Some j" "\<not> ocm_excludes is_ocm dflt ty (py_str j)" by blast
    with s' obtain res where res: "mk_bound_resource ty j = Inr res" "s' = (add_element g res p, db')"
      by (auto simp: bind_r_Inr_iff)
    then have "fst (br_type res) = ''rbac''" using ty by (simp add: mk_bound_resource_Inr_iff)
    then show ?thesis using collect_inv_add [OF inv'] res j unfolding T by auto
  next
    case False
    then have "s' = (g, db')" using s' by (auto split: option.splits if_splits)
    then show ?thesis using inv' False unfolding T by auto
  qed
qed

lemma related_type_rbac:
  "attribute_key_to_v2_related_resource_type key = Inr (Some ty) \<Longrightarrow> fst ty = ''rbac''"
  by (auto simp: attribute_key_to_v2_related_resource_type_def V2_RESOURCE_BY_ATTRIBUTE_def
      split: pyval.splits if_splits)

lemma group_resource_definition_collects:
  assumes inv: "collect_inv db0 (g, db)"
    and step: "group_resource_definition st rp uuid7 now role is_ocm dflt p (g, db) raw = Inr s'"
    and null: "PyNone \<in> filter_values raw \<Longrightarrow> ungrouped_workspaces (wst_table (db_ws db0)) (ro_tenant role) \<noteq> []"
  shows "collect_inv db0 s' \<and>
     grouping_rel (fst s') = grouping_rel g \<union> filter_targets (wst_table (db_ws db0)) (ro_tenant role) is_ocm dflt raw \<times> {p}"
proof -
  let ?tbl = "wst_table (db_ws db0)" and ?t = "ro_tenant role"
  have ws: "db_ws db = db_ws db0" by (rule collect_inv_ws [OF inv])
  from step obtain repaired where rep: "repair_filter raw = Inr repaired"
    by (auto simp: group_resource_definition_def bind_r_Inr_iff)
  show ?thesis
  proof (cases repaired)
    case None
    then have "s' = (g, db)" "filter_targets ?tbl ?t is_ocm dflt raw = {}"
      using step rep by (auto simp: group_resource_definition_def filter_targets_def)
    then show ?thesis using inv by simp
  next
    case (Some fl)
    from step obtain key ty where key: "py_getitem fl ''key'' = Inr key"
      "attribute_key_to_v2_related_resource_type key = Inr ty"
      by (auto simp: group_resource_definition_def rep Some bind_r_Inr_iff)
    show ?thesis
    proof (cases ty)
      case None
      then have "s' = (g, db)" "filter_targets ?tbl ?t is_ocm dflt raw = {}"
        using step rep key Some by (auto simp: group_resource_definition_def filter_targets_def)
      then show ?thesis using inv by simp
    next
      case (Some ty')
      from step obtain foreign where f: "names_foreign_workspaces ?tbl ?t ty' fl = Inr foreign"
        by (auto simp: group_resource_definition_def rep \<open>repaired = Some fl\<close> key Some bind_r_Inr_iff ws)
      show ?thesis
      proof (cases foreign)
        case True
        then have "s' = (g, db)" "filter_targets ?tbl ?t is_ocm dflt raw = {}"
          using step rep key Some f \<open>repaired = Some fl\<close> ws
          by (auto simp: group_resource_definition_def filter_targets_def)
        then show ?thesis using inv by simp
      next
        case False
        from step obtain vs where vs: "values_from_attribute_filter fl = Inr vs"
          and fold: "foldM_r (group_value st rp uuid7 now role is_ocm dflt p ty') (g, db) vs = Inr s'"
          by (auto simp: group_resource_definition_def rep \<open>repaired = Some fl\<close> key Some f False bind_r_Inr_iff ws)
        have vals: "filter_values raw = set vs"
          using rep vs \<open>repaired = Some fl\<close> by (auto simp: filter_values_def)
        have "collect_inv db0 s' \<and> (\<lambda>s. grouping_rel (fst s)) s' = (\<lambda>s. grouping_rel (fst s)) (g, db) \<union>
            (\<Union>v \<in> set vs. value_targets ?tbl ?t is_ocm dflt ty' v \<times> {p})"
        proof (rule foldM_r_collect [where I = "collect_inv db0" and R = "\<lambda>s. grouping_rel (fst s)", OF fold inv])
          fix s v s1 assume v: "v \<in> set vs" "collect_inv db0 s" "group_value st rp uuid7 now role is_ocm dflt p ty' s v = Inr s1"
          obtain g1 db1 where s: "s = (g1, db1)" by (cases s)
          show "collect_inv db0 s1 \<and> grouping_rel (fst s1) =
              grouping_rel (fst s) \<union> value_targets ?tbl ?t is_ocm dflt ty' v \<times> {p}"
          proof -
            have "fst ty' = ''rbac''" using related_type_rbac key(2) Some by simp
            moreover have "v = PyNone \<Longrightarrow> ungrouped_workspaces ?tbl ?t \<noteq> []" using null v(1) vals by simp
            ultimately show ?thesis
              using group_value_collects [OF v(2) [unfolded s] v(3) [unfolded s]] by (simp add: s)
          qed
        qed
        moreover have "filter_targets ?tbl ?t is_ocm dflt raw = (\<Union>v \<in> set vs. value_targets ?tbl ?t is_ocm dflt ty' v)"
          using rep key Some f False \<open>repaired = Some fl\<close> vals by (cases ty') (auto simp: filter_targets_def)
        ultimately show ?thesis by auto
      qed
    qed
  qed
qed

lemma group_by_scope_collects:
  assumes "group_by_scope pm resolver is_ocm dflt perm g = Inr g'"
    and "collect_inv db0 (g, db)" and "ac_resource_definitions access = []" and "ac_permission access = perm"
    and "\<And>s rs. resolver s = Inr rs \<Longrightarrow> \<forall>r \<in> set rs. fst (br_type r) = ''rbac''"
  shows "collect_inv db0 (g', db) \<and>
     grouping_rel g' = grouping_rel g \<union> access_targets pm resolver tbl tenant is_ocm dflt access \<times> {perm}"
proof -
  from assms(1) obtain s rs where s: "scope_for_permission pm (perm_permission perm) = Inr s" "resolver s = Inr rs"
    and g': "g' = foldl (\<lambda>g r. if ocm_excludes is_ocm dflt (br_type r) (br_id r) then g else add_element g r perm) g rs"
    by (auto simp: group_by_scope_def bind_r_Inr_iff)
  have T: "access_targets pm resolver tbl tenant is_ocm dflt access =
      {r \<in> set rs. \<not> ocm_excludes is_ocm dflt (br_type r) (br_id r)}"
    using s assms(3,4) by (auto simp: access_targets_def)
  have "\<forall>r \<in> set rs. fst (br_type r) = ''rbac''" using assms(5) s(2) by blast
  then have "collect_inv db0 (g', db) \<and>
      grouping_rel g' = grouping_rel g \<union> {r \<in> set rs. \<not> ocm_excludes is_ocm dflt (br_type r) (br_id r)} \<times> {perm}"
    using assms(2) unfolding g'
  proof (induction rs arbitrary: g)
    case (Cons r rs)
    show ?case
    proof (cases "ocm_excludes is_ocm dflt (br_type r) (br_id r)")
      case True
      then show ?thesis using Cons.IH [of g] Cons.prems by auto
    next
      case False
      have "collect_inv db0 (add_element g r perm, db)"
        using Cons.prems by (intro collect_inv_add) simp_all
      then show ?thesis using False Cons.IH [of "add_element g r perm"] Cons.prems(1) by auto
    qed
  qed simp
  then show ?thesis unfolding T .
qed

text \<open>A null value in a filter needs the ungrouped workspace.\<close>

definition nulls_resolved :: "ws_table \<Rightarrow> v1_role \<Rightarrow> bool" where
  "nulls_resolved tbl role \<longleftrightarrow>
     ungrouped_workspaces tbl (ro_tenant role) \<noteq> [] \<or>
     (\<forall>access \<in> set (ro_access role). \<forall>raw \<in> set (ac_resource_definitions access). PyNone \<notin> filter_values raw)"

lemma group_access_collects:
  assumes inv: "collect_inv db0 (g, db)"
    and step: "group_access st rp uuid7 now role pm resolver is_ocm dflt (g, db) access = Inr s'"
    and null: "nulls_resolved (wst_table (db_ws db0)) role" and access: "access \<in> set (ro_access role)"
    and rbac: "\<And>s rs. resolver s = Inr rs \<Longrightarrow> \<forall>r \<in> set rs. fst (br_type r) = ''rbac''"
  shows "collect_inv db0 s' \<and> grouping_rel (fst s') =
     grouping_rel g \<union> access_targets pm resolver (wst_table (db_ws db0)) (ro_tenant role) is_ocm dflt access
       \<times> {ac_permission access}"
proof (cases "ac_resource_definitions access = []")
  case True
  then obtain g' where g': "group_by_scope pm resolver is_ocm dflt (ac_permission access) g = Inr g'" "s' = (g', db)"
    using step by (auto simp: group_access_def bind_r_Inr_iff)
  then show ?thesis using group_by_scope_collects [OF g'(1) inv True refl rbac] by simp
next
  case False
  let ?f = "group_resource_definition st rp uuid7 now role is_ocm dflt (ac_permission access)"
  let ?T = "\<lambda>raw. filter_targets (wst_table (db_ws db0)) (ro_tenant role) is_ocm dflt raw \<times> {ac_permission access}"
  have fold: "foldM_r ?f (g, db) (ac_resource_definitions access) = Inr s'"
    using step False by (simp add: group_access_def)
  have "collect_inv db0 s' \<and> (\<lambda>s. grouping_rel (fst s)) s' = (\<lambda>s. grouping_rel (fst s)) (g, db) \<union>
      (\<Union>raw \<in> set (ac_resource_definitions access). ?T raw)"
  proof (rule foldM_r_collect [where I = "collect_inv db0" and R = "\<lambda>s. grouping_rel (fst s)", OF fold inv])
    fix s raw s1
    assume r: "raw \<in> set (ac_resource_definitions access)" "collect_inv db0 s" "?f s raw = Inr s1"
    obtain g1 db1 where s: "s = (g1, db1)" by (cases s)
    have "PyNone \<in> filter_values raw \<Longrightarrow> ungrouped_workspaces (wst_table (db_ws db0)) (ro_tenant role) \<noteq> []"
      using null access r(1) unfolding nulls_resolved_def by blast
    then show "collect_inv db0 s1 \<and> grouping_rel (fst s1) = grouping_rel (fst s) \<union> ?T raw"
      using group_resource_definition_collects [OF r(2) [unfolded s] r(3) [unfolded s]] by (simp add: s)
  qed
  then show ?thesis using False by (auto simp: access_targets_def)
qed

lemma ocm_default_workspace_frame:
  assumes "ocm_default_workspace st role db = Inr (is_ocm, dflt, db')"
  shows "\<exists>cache. db' = db\<lparr>db_ws := (db_ws db)\<lparr>wst_cache := cache\<rparr>\<rparr>"
proof -
  have same: "db = db\<lparr>db_ws := (db_ws db)\<lparr>wst_cache := wst_cache (db_ws db)\<rparr>\<rparr>" by simp
  from assms obtain name where name: "external_tenant_name role = Inr name"
    by (auto simp: ocm_default_workspace_def bind_r_Inr_iff)
  show ?thesis
  proof (cases "str_lower (case name of None \<Rightarrow> [] | Some n \<Rightarrow> n) = ''ocm''")
    case False
    then have "db' = db" using assms name by (simp add: ocm_default_workspace_def)
    then show ?thesis using same by blast
  next
    case True
    with assms name obtain t where t: "tenant_by_pk (wst_tenants (db_ws db)) (ro_tenant role) = Inr t"
      by (auto simp: ocm_default_workspace_def bind_r_Inr_iff)
    let ?m = "manager_default (st_cache_enabled (rc_ws st)) (wst_table (db_ws db)) (wst_cache (db_ws db)) (Some t) None"
    show ?thesis
    proof (cases ?m)
      case (Inl e)
      then have "db' = db"
        using assms name t True by (simp add: ocm_default_workspace_def split: py_error.splits)
      then show ?thesis using same by blast
    next
      case (Inr p)
      obtain w cache where "p = (w, cache)" by (cases p)
      then show ?thesis using assms name t True Inr by (auto simp: ocm_default_workspace_def)
    qed
  qed
qed

lemma role_permission_groupings_spec:
  assumes run: "role_permission_groupings st rp uuid7 now role resolver db = Inr (groupings, db')"
    and null: "nulls_resolved (wst_table (db_ws db)) role"
    and rbac: "\<And>s rs. resolver s = Inr rs \<Longrightarrow> \<forall>r \<in> set rs. fst (br_type r) = ''rbac''"
  obtains pm is_ocm dflt cache where
    "scope_service st = Inr pm"
    "ocm_default_workspace st role db = Inr (is_ocm, dflt, db\<lparr>db_ws := (db_ws db)\<lparr>wst_cache := cache\<rparr>\<rparr>)"
    "distinct (map fst groupings)" "\<forall>res \<in> fst ` set groupings. fst (br_type res) = ''rbac''"
    "fst ` set groupings = fst ` grouping_rel groupings"
    "db' = db\<lparr>db_ws := (db_ws db)\<lparr>wst_cache := cache\<rparr>, db_next_uuid := db_next_uuid db'\<rparr>"
    "grouping_rel groupings = (\<Union>access \<in> set (ro_access role).
       access_targets pm resolver (wst_table (db_ws db)) (ro_tenant role) is_ocm dflt access \<times> {ac_permission access})"
proof -
  from run obtain pm is_ocm dflt db1 where pm: "scope_service st = Inr pm"
    and ocm: "ocm_default_workspace st role db = Inr (is_ocm, dflt, db1)"
    and fold: "foldM_r (group_access st rp uuid7 now role pm resolver is_ocm dflt) ([], db1) (ro_access role) = Inr (groupings, db')"
    by (auto simp: role_permission_groupings_def bind_r_Inr_iff)
  obtain cache where db1: "db1 = db\<lparr>db_ws := (db_ws db)\<lparr>wst_cache := cache\<rparr>\<rparr>"
    using ocm_default_workspace_frame [OF ocm] by blast
  have tbl: "wst_table (db_ws db1) = wst_table (db_ws db)" by (simp add: db1)
  let ?T = "\<lambda>access. access_targets pm resolver (wst_table (db_ws db)) (ro_tenant role) is_ocm dflt access
      \<times> {ac_permission access}"
  have start: "collect_inv db1 ([], db1)" by (simp add: collect_inv_def)
  have "collect_inv db1 (groupings, db') \<and> grouping_rel (fst (groupings, db')) =
      grouping_rel (fst ([] :: permission_groupings, db1)) \<union> (\<Union>access \<in> set (ro_access role). ?T access)"
  proof (rule foldM_r_collect [where I = "collect_inv db1" and R = "\<lambda>s. grouping_rel (fst s)", OF fold start])
    fix s access s1
    assume a: "access \<in> set (ro_access role)" "collect_inv db1 s"
      "group_access st rp uuid7 now role pm resolver is_ocm dflt s access = Inr s1"
    obtain g1 db2 where s: "s = (g1, db2)" by (cases s)
    show "collect_inv db1 s1 \<and> grouping_rel (fst s1) = grouping_rel (fst s) \<union> ?T access"
      using group_access_collects [OF a(2) [unfolded s] a(3) [unfolded s] _ a(1) rbac] null by (simp add: s tbl)
  qed
  then have inv: "collect_inv db1 (groupings, db')" and rel: "grouping_rel groupings = (\<Union>access \<in> set (ro_access role). ?T access)"
    by simp_all
  have "db' = db\<lparr>db_ws := (db_ws db)\<lparr>wst_cache := cache\<rparr>, db_next_uuid := db_next_uuid db'\<rparr>"
    using inv unfolding collect_inv_def prod.case db1 by blast
  moreover have "distinct (map fst groupings)" "\<forall>res \<in> fst ` set groupings. fst (br_type res) = ''rbac''"
      "fst ` set groupings = fst ` grouping_rel groupings"
    using inv unfolding collect_inv_def prod.case by blast+
  ultimately show thesis using rel by (intro that [OF pm ocm [unfolded db1]])
qed

text \<open>The loop's result, from the checks before it to the result object.\<close>

lemma permission_groupings_migrated:
  assumes run: "permission_groupings_to_v2_role_bindings uuid7 groupings role existing_mappings existing_v2_roles db
      = Inr (result, db')"
    and wf: "role_rows_wf db" and ms: "mappings_wf uuid7 existing_mappings"
    and keys: "distinct (map fst groupings)" and rbac: "\<forall>res \<in> fst ` set groupings. fst (br_type res) = ''rbac''"
  obtains groups existing roles out db0 db2 where
    "role_policy_groups role db = Inr groups"
    "mappings_by_resource existing_mappings = Inr existing"
    "loop_inv uuid7 role existing groups db0 groupings (db2, roles, out)"
    "db0 = db\<lparr>db_roles := db_roles db0\<rparr>" "db' = db2\<lparr>db_binding_groups := db_binding_groups db'\<rparr>"
    "mr_v2_roles result = map snd roles" "mr_binding_mappings result = map fst out"
    "mr_role_bindings result = map snd out"
proof -
  let ?f = "\<lambda>r :: role_v2. if r2_type r = ROLE_CUSTOM \<and> r2_pk r \<in> r2_pk ` set existing_v2_roles
      then r\<lparr>r2_name := r2_uuid r\<rparr> else r"
  let ?db0 = "db\<lparr>db_roles := map ?f (db_roles db)\<rparr>"
  from run obtain existing groups db2 roles out where
      ex: "mappings_by_resource existing_mappings = Inr existing"
    and groups: "role_policy_groups role db = Inr groups"
    and fold: "foldM_r (migrate_resource uuid7 role existing groups) (?db0, [], []) groupings = Inr (db2, roles, out)"
    and result: "mk_migrate_result (map snd roles) (map fst out) (map snd out) = Inr result"
    and db': "db' = db2\<lparr>db_binding_groups := db_binding_groups db'\<rparr>"
    by (auto simp: permission_groupings_to_v2_role_bindings_def bind_r_Inr_iff Let_def)
  have "r2_pk \<circ> ?f = r2_pk" "r2_uuid \<circ> ?f = r2_uuid" by auto
  then have "role_rows_wf ?db0" using wf by (auto simp: role_rows_wf_def simp del: o_apply)
  then have "loop_inv uuid7 role existing groups ?db0 [] (?db0, [], [])"
    by (simp add: loop_inv_def same_rows_elsewhere_steps(3))
  then have "loop_inv uuid7 role existing groups ?db0 ([] @ groupings) (db2, roles, out)"
    using fold existing_wf_mappings [OF ex ms] keys rbac by (intro migration_loop_inv) auto
  moreover have "mr_v2_roles result = map snd roles" "mr_binding_mappings result = map fst out"
    "mr_role_bindings result = map snd out"
    using result by (auto simp: mk_migrate_result_def split: if_splits)
  ultimately show thesis using that [OF groups ex, of ?db0 db2 roles out] db' by simp
qed

lemma grouping_rel_iff:
  assumes "distinct (map fst g)"
  shows "(\<exists>perms. (res, perms) \<in> set g \<and> p \<in> v2_string ` set perms) \<longleftrightarrow>
     (\<exists>perm. (res, perm) \<in> grouping_rel g \<and> v2_string perm = p)"
  using assms by (auto simp: grouping_rel_def)

lemma relation_tuples_for_bindings_Inr:
  assumes "relation_tuples_for_bindings domain ms = Inr ts"
  obtains bs where "list_all2 (\<lambda>m b. get_role_binding m = Inr b) ms bs"
    "ts = concat (map (binding_tuples domain) bs)" "list_all valid_relation_tuple ts"
proof -
  from assms obtain bs tss where bs: "list_all2 (\<lambda>m b. get_role_binding m = Inr b) ms bs"
    and tss: "list_all2 (\<lambda>b t. binding_as_tuples domain b = Inr t) bs tss" and ts: "ts = concat tss"
    by (auto simp: relation_tuples_for_bindings_def get_kessel_relation_tuples_def result_simps)
  have "tss = map (binding_tuples domain) bs \<and> list_all valid_relation_tuple (concat tss)"
    using tss by (induction rule: list_all2_induct) (simp_all add: binding_as_tuples_Inr_iff)
  then show thesis using that [OF bs] ts by auto
qed

text \<open>
  The rows that the migration makes: a mapping for each resource, with the permissions of that resource, and the
  binding of the same id to a row of the role.
\<close>

definition binding_row_of :: "role_v2 list \<Rightarrow> binding_mapping \<Rightarrow> role_binding \<Rightarrow> bool" where
  "binding_row_of roles m b \<longleftrightarrow> rb_uuid b = bm_id m \<and> bm_v2_role m = Some (rb_role b) \<and>
     (\<exists>r \<in> set roles. r2_pk r = rb_role b \<and> r2_uuid r = vr_id (bm_role_value m))"

lemma migrated_rows:
  assumes M: "migrated groups groupings roles out" and keys: "distinct (map fst groupings)"
  shows "map mapping_resource (map fst out) = map fst groupings"
    and "m \<in> fst ` set out \<Longrightarrow> bm_groups m = groups \<and> bm_users m = [] \<and>
       set (vr_permissions (bm_role_value m)) = {v2_string p |p. (mapping_resource m, p) \<in> grouping_rel groupings}"
    and "list_all2 (binding_row_of (map snd roles)) (map fst out) (map snd out)"
proof -
  have all: "list_all2 (loop_entry roles groups) groupings out" using M by (simp add: migrated_def)
  have entry: "mapping_resource (fst y) = fst x \<and> bm_groups (fst y) = groups \<and> bm_users (fst y) = [] \<and>
      set (vr_permissions (bm_role_value (fst y))) = v2_string ` set (snd x) \<and>
      binding_row_of (map snd roles) (fst y) (snd y)" if "loop_entry roles groups x y" for x y
  proof -
    obtain ps r where r: "(ps, r) \<in> set roles" "set ps = set (snd x)" "bm_id (fst y) = rb_uuid (snd y)" "rb_role (snd y) = r2_pk r"
        "mapping_for (fst x) (r2_uuid r) ps (r2_pk r) groups (fst y)"
      using \<open>loop_entry roles groups x y\<close> unfolding loop_entry_def case_prod_beta by blast
    have "r \<in> set (map snd roles)" using r(1) by force
    moreover have "mapping_resource (fst y) = fst x"
      using r(5) by (cases "fst x") (simp add: mapping_for_def mapping_resource_def)
    ultimately show ?thesis
      using r(2-) unfolding binding_row_of_def by (simp add: mapping_for_def custom_value_def) blast
  qed
  show "map mapping_resource (map fst out) = map fst groupings"
    using all by (induction rule: list_all2_induct) (simp_all add: entry)
  show "list_all2 (binding_row_of (map snd roles)) (map fst out) (map snd out)"
    using all by (induction rule: list_all2_induct) (simp_all add: entry)
  show "bm_groups m = groups \<and> bm_users m = [] \<and>
       set (vr_permissions (bm_role_value m)) = {v2_string p |p. (mapping_resource m, p) \<in> grouping_rel groupings}"
    if "m \<in> fst ` set out"
  proof -
    obtain i where i: "i < length out" "m = fst (out ! i)" using \<open>m \<in> fst ` set out\<close> by (auto simp: in_set_conv_nth)
    let ?x = "groupings ! i"
    have x: "?x \<in> set groupings" "loop_entry roles groups ?x (out ! i)"
      using i(1) all by (auto simp: list_all2_conv_all_nth)
    have "map_of groupings (fst ?x) = Some (snd ?x)" using x(1) keys by (simp add: map_of_eq_Some_iff)
    then have "{v2_string p |p. (fst ?x, p) \<in> grouping_rel groupings} = v2_string ` set (snd ?x)"
      by (auto simp: grouping_rel_def)
    then show ?thesis using entry [OF x(2)] i(2) by simp
  qed
qed

section \<open>Properties\<close>

text \<open>
  C8 (functional): migrating a custom role gives exactly the access the V1 role gives. There is exactly one binding
  for each resource that the role's permissions are aimed at, its groups are exactly those that have the role through
  a policy, and the V2 role it binds has exactly the permissions aimed at that resource. In the tuples of the
  migrated bindings a group has a permission on a resource if and only if the group has the role and one of its
  permissions is that permission and is aimed at the resource, so that no tuple mixes two bindings or two roles,
  whatever bindings are reused. A permission is aimed by its resource definitions (only workspaces of the tenant, a
  null being the ungrouped workspace, which has to exist), or, without any, by its scope; roles of OCM reach
  the default workspace only.
\<close>

theorem migrated_role_grants:
  assumes "migrate_role st rp uuid7 now role resolver mappings v2_roles db = Inr (tuples, result, db')"
    and "role_rows_wf db" and "mappings_wf uuid7 mappings" and "nulls_resolved (wst_table (db_ws db)) role"
    and "\<forall>s rs. resolver s = Inr rs \<longrightarrow> (\<forall>r \<in> set rs. fst (br_type r) = ''rbac'')"
    and "role_policy_groups role db = Inr groups" and "scope_service st = Inr pm"
    and "ocm_default_workspace st role db = Inr (is_ocm, dflt, db1)"
  defines "aimed \<equiv> \<lambda>access. access_targets pm resolver (wst_table (db_ws db)) (ro_tenant role) is_ocm dflt access"
  shows "distinct (map mapping_resource (mr_binding_mappings result)) \<and>
     mapping_resource ` set (mr_binding_mappings result) = (\<Union>access \<in> set (ro_access role). aimed access) \<and>
     (\<forall>m \<in> set (mr_binding_mappings result). bm_groups m = groups \<and> bm_users m = [] \<and>
        set (vr_permissions (bm_role_value m)) =
          {v2_string (ac_permission access) |access. access \<in> set (ro_access role) \<and> mapping_resource m \<in> aimed access}) \<and>
     list_all2 (binding_row_of (mr_v2_roles result)) (mr_binding_mappings result) (mr_role_bindings result) \<and>
     (\<forall>g p res. grants_access (set tuples) g p res \<longleftrightarrow>
        g \<in> set groups \<and> (\<exists>access \<in> set (ro_access role). v2_string (ac_permission access) = p \<and> res \<in> aimed access))"
proof -
  from assms(1) obtain groupings db2 where
      run1: "role_permission_groupings st rp uuid7 now role resolver db = Inr (groupings, db2)"
    and run2: "permission_groupings_to_v2_role_bindings uuid7 groupings role mappings v2_roles db2 = Inr (result, db')"
    and tuples: "relation_tuples_for_bindings (rc_domain st) (mr_binding_mappings result) = Inr tuples"
    by (auto simp: migrate_role_def v1_role_to_v2_bindings_def bind_r_Inr_iff)
  have rbac: "\<And>s rs. resolver s = Inr rs \<Longrightarrow> \<forall>r \<in> set rs. fst (br_type r) = ''rbac''" using assms(5) by blast
  obtain pm' is_ocm' dflt' cache where
      s: "scope_service st = Inr pm'"
      "ocm_default_workspace st role db = Inr (is_ocm', dflt', db\<lparr>db_ws := (db_ws db)\<lparr>wst_cache := cache\<rparr>\<rparr>)"
    and keys: "distinct (map fst groupings)" "\<forall>res \<in> fst ` set groupings. fst (br_type res) = ''rbac''"
      "fst ` set groupings = fst ` grouping_rel groupings"
    and db2: "db2 = db\<lparr>db_ws := (db_ws db)\<lparr>wst_cache := cache\<rparr>, db_next_uuid := db_next_uuid db2\<rparr>"
    and rel': "grouping_rel groupings = (\<Union>access \<in> set (ro_access role).
       access_targets pm' resolver (wst_table (db_ws db)) (ro_tenant role) is_ocm' dflt' access \<times> {ac_permission access})"
    by (rule role_permission_groupings_spec [OF run1 assms(4) rbac])
  have "pm' = pm" "is_ocm' = is_ocm" "dflt' = dflt" using s assms(7,8) by simp_all
  then have rel: "grouping_rel groupings = (\<Union>access \<in> set (ro_access role). aimed access \<times> {ac_permission access})"
    using rel' by (simp add: aimed_def)
  have wf2: "role_rows_wf db2" using assms(2) db2 by (cases db2) (auto simp: role_rows_wf_def)
  have groups2: "role_policy_groups role db2 = Inr groups"
    using assms(6) db2 by (cases db2) (auto simp: role_policy_groups_def)
  obtain groups' existing roles out db0 db3 where loop: "role_policy_groups role db2 = Inr groups'"
      "mappings_by_resource mappings = Inr existing"
      "loop_inv uuid7 role existing groups' db0 groupings (db3, roles, out)"
      "db0 = db2\<lparr>db_roles := db_roles db0\<rparr>" "db' = db3\<lparr>db_binding_groups := db_binding_groups db'\<rparr>"
      "mr_v2_roles result = map snd roles" "mr_binding_mappings result = map fst out"
      "mr_role_bindings result = map snd out"
    by (rule permission_groupings_migrated [OF run2 wf2 assms(3) keys(1,2)])
  have "groups' = groups" using loop(1) groups2 by simp
  have M: "migrated groups groupings roles out"
    using loop(3) \<open>groups' = groups\<close> unfolding loop_inv_def migrated_def by simp
  obtain bs where bs: "list_all2 (\<lambda>m b. get_role_binding m = Inr b) (map fst out) bs"
    and ts: "tuples = concat (map (binding_tuples (rc_domain st)) bs)"
    using loop(7) relation_tuples_for_bindings_Inr [OF tuples] by metis
  have "grants_access (set tuples) g p res \<longleftrightarrow>
      g \<in> set groups \<and> (\<exists>perms. (res, perms) \<in> set groupings \<and> p \<in> v2_string ` set perms)" for g p res
    by (rule migrated_grants [OF M bs]) (simp add: ts)
  then have access: "grants_access (set tuples) g p res \<longleftrightarrow>
      g \<in> set groups \<and> (\<exists>access \<in> set (ro_access role). v2_string (ac_permission access) = p \<and> res \<in> aimed access)"
    for g p res unfolding grouping_rel_iff [OF keys(1)] rel by auto
  note R = migrated_rows [OF M keys(1), folded loop(6,7,8)]
  have "mapping_resource ` set (mr_binding_mappings result) = fst ` grouping_rel groupings"
    using arg_cong [OF R(1), of set] keys(3) by simp
  then have resources: "mapping_resource ` set (mr_binding_mappings result) = (\<Union>access \<in> set (ro_access role). aimed access)"
    unfolding rel by (simp add: image_UN)
  have "set (mr_binding_mappings result) = fst ` set out" by (simp add: loop(7))
  then have "bm_groups m = groups \<and> bm_users m = [] \<and> set (vr_permissions (bm_role_value m)) =
      {v2_string (ac_permission access) |access. access \<in> set (ro_access role) \<and> mapping_resource m \<in> aimed access}"
    if "m \<in> set (mr_binding_mappings result)" for m using R(2) [of m] that unfolding rel by auto
  then show ?thesis using R(1,3) keys(1) resources access by simp
qed

text \<open>A custom role with one permission, held by one group.\<close>

definition sample_permission :: permission_row where
  "sample_permission = \<lparr>perm_application = ''app'', perm_resource_type = ''res'', perm_verb = ''read'',
     perm_permission = ''app:res:read''\<rparr>"

definition sample_role :: v1_role where
  "sample_role = \<lparr>ro_pk = 5, ro_uuid = ''v1'', ro_name = ''R'', ro_display_name = ''R'', ro_description = None,
     ro_system = False, ro_platform_default = False, ro_admin_default = False, ro_version = 1, ro_tenant = 1,
     ro_ext_relation = None,
     ro_access = [\<lparr>ac_permission = sample_permission, ac_resource_definitions = []\<rparr>]\<rparr>"

definition sample_policy :: policy_row where
  "sample_policy = \<lparr>po_pk = 1, po_uuid = ''p'', po_name = ''P'', po_group = Some ''g1'', po_roles = [5], po_tenant = 1\<rparr>"

definition sample_db :: "'s \<Rightarrow> 's rbac_db" where
  "sample_db s = \<lparr>db_ws = sample_state s, db_tenant_mappings = [], db_v1_roles = [sample_role],
     db_policies = [sample_policy], db_groups = [], db_principals = [], db_roles = [], db_bindings = [],
     db_binding_groups = [], db_binding_principals = [], db_mappings = [], db_next_pk = 100, db_next_uuid = 0\<rparr>"

definition sample_role_settings :: role_settings where
  "sample_role_settings = \<lparr>rc_domain = ''redhat'', rc_root_scope_permissions = [], rc_tenant_scope_permissions = [],
     rc_default_scope_permissions = [], rc_all_scope_permissions = [], rc_ws = sample_settings\<rparr>"

definition sample_uuid7 :: "nat \<Rightarrow> string" where
  "sample_uuid7 n = replicate (Suc n) CHR ''u''"

definition sample_resource :: v2_bound_resource where
  "sample_resource = \<lparr>br_type = (''rbac'', ''tenant''), br_id = ''redhat/o1''\<rparr>"

lemma sample_uuid7_inj: "inj sample_uuid7"
  by (rule injI) (auto simp: sample_uuid7_def dest: arg_cong [where f = length])

lemma sample_migrate_ok:
  "is_ok (migrate_role sample_role_settings in_memory_replicator sample_uuid7 ''0'' sample_role
     (constant_bound_resource sample_resource) [] [] (sample_db []))"
  by code_simp

theorem migrated_role_grants_witness:
  "\<exists>tuples result db'. migrate_role sample_role_settings in_memory_replicator sample_uuid7 ''0'' sample_role
      (constant_bound_resource sample_resource) [] [] (sample_db []) = Inr (tuples, result, db') \<and>
    map mapping_resource (mr_binding_mappings result) = [sample_resource] \<and>
    grants_access (set tuples) ''g1'' ''app_res_read'' sample_resource \<and>
    \<not> grants_access (set tuples) ''g2'' ''app_res_read'' sample_resource"
proof -
  let ?r = "constant_bound_resource sample_resource"
  let ?run = "migrate_role sample_role_settings in_memory_replicator sample_uuid7 ''0'' sample_role ?r [] [] (sample_db [])"
  have "is_ok ?run" by (rule sample_migrate_ok)
  then obtain tuples result db' where run: "?run = Inr (tuples, result, db')"
    by (auto simp: is_ok_iff)
  have pm: "scope_service sample_role_settings = Inr []" by code_simp
  have ocm: "ocm_default_workspace sample_role_settings sample_role (sample_db []) =
      Inr (False, None, sample_db ([] :: tuple_set))"
    by (simp add: ocm_default_workspace_def external_tenant_name_def sample_role_def str_lower_def)
  have "scope_for_permission [] ''app:res:read'' = Inr SCOPE_DEFAULT" by code_simp
  then have targets: "access_targets [] ?r tbl t False None
      \<lparr>ac_permission = sample_permission, ac_resource_definitions = []\<rparr> = {sample_resource}" for tbl t
    by (auto simp: access_targets_def constant_bound_resource_def ocm_excludes_def sample_permission_def)
  have v2: "v2_string sample_permission = ''app_res_read''" by code_simp
  have wf: "role_rows_wf (sample_db ([] :: tuple_set))" by (simp add: role_rows_wf_def sample_db_def)
  have ms: "mappings_wf sample_uuid7 []" by (simp add: mappings_wf_def sample_uuid7_inj)
  have null: "nulls_resolved (wst_table (db_ws (sample_db ([] :: tuple_set)))) sample_role"
    by (simp add: nulls_resolved_def sample_role_def)
  have rbac: "\<forall>s rs. ?r s = Inr rs \<longrightarrow> (\<forall>r \<in> set rs. fst (br_type r) = ''rbac'')"
    by (auto simp: constant_bound_resource_def sample_resource_def)
  have groups: "role_policy_groups sample_role (sample_db ([] :: tuple_set)) = Inr [''g1'']"
    by (simp add: role_policy_groups_def sample_db_def sample_policy_def sample_role_def)
  note iff = migrated_role_grants [OF run wf ms null rbac groups pm ocm]
  have "grants_access (set tuples) g ''app_res_read'' sample_resource \<longleftrightarrow> g = ''g1''" for g
    using iff targets v2 by (simp add: sample_role_def)
  moreover have "map mapping_resource (mr_binding_mappings result) = [sample_resource]"
  proof -
    have "set (map mapping_resource (mr_binding_mappings result)) = {sample_resource}"
      using iff targets by (simp add: sample_role_def)
    moreover have "distinct (map mapping_resource (mr_binding_mappings result))" using iff by blast
    ultimately have "length (map mapping_resource (mr_binding_mappings result)) = 1" using distinct_card by fastforce
    then show ?thesis using \<open>set (map mapping_resource (mr_binding_mappings result)) = {sample_resource}\<close>
      by (auto simp: length_Suc_conv)
  qed
  ultimately show ?thesis using run by auto
qed

end
