(* ===== verification/Role_Dual_Write.thy ===== *)
theory Role_Dual_Write
  imports Role_Migration Platform_Roles
begin

text \<open>
  The dual-write handlers of roles (\<open>management/role/inventory_api_dual_write_handler.py\<close>): the
  handler of custom roles, which removes the tuples of the role's present bindings and adds those of
  the bindings it is migrated to, and the handler of seeded roles.

  A handler is \<open>None\<close> when replication is off: its methods do nothing then.
\<close>

section \<open>Rows by primary key\<close>

definition by_pk :: "('m \<Rightarrow> int option) \<Rightarrow> 'm list \<Rightarrow> (int \<times> 'm) list result" where
  "by_pk pk models =
     foldM_r (\<lambda>out m. case pk m of None \<Rightarrow> Inl ValueError | Some i \<Rightarrow> Inr (AList.update i m out)) [] models"

text \<open>
  \<open>_update_by_pk\<close> saves the new models and deletes the old ones that are not among them. \<open>save\<close>
  gives the model with its key.
\<close>

definition update_step ::
  "('m \<Rightarrow> int option) \<Rightarrow> ('m \<Rightarrow> 'db \<Rightarrow> ('m \<times> 'db) result)
   \<Rightarrow> (int \<times> 'm) list \<times> 'm list \<times> 'db \<Rightarrow> 'm \<Rightarrow> ((int \<times> 'm) list \<times> 'm list \<times> 'db) result" where
  "update_step pk save = (\<lambda>(old_by_pk, saved, db) m.
     let old' = (case pk m of None \<Rightarrow> old_by_pk | Some i \<Rightarrow> AList.delete i old_by_pk)
     in bind_r (save m db) (\<lambda>(m', db'). Inr (old', saved @ [m'], db')))"

definition update_by_pk ::
  "('m \<Rightarrow> int option) \<Rightarrow> ('m \<Rightarrow> 'db \<Rightarrow> ('m \<times> 'db) result) \<Rightarrow> ('m \<Rightarrow> 'db \<Rightarrow> 'db)
   \<Rightarrow> (int \<times> 'm) list \<Rightarrow> 'm list \<Rightarrow> 'db \<Rightarrow> ('m list \<times> 'db) result" where
  "update_by_pk pk save delete old_by_pk new db =
     bind_r (foldM_r (update_step pk save) (old_by_pk, [], db) new) (\<lambda>(old', saved, db').
       Inr (saved, fold delete (map snd old') db'))"

definition save_binding_row :: "role_binding \<Rightarrow> 's rbac_db \<Rightarrow> (role_binding \<times> 's rbac_db) result" where
  "save_binding_row b db = bind_r (save_role_binding b db) (\<lambda>db'. Inr (b, db'))"

definition save_role_row :: "role_v2 \<Rightarrow> 's rbac_db \<Rightarrow> (role_v2 \<times> 's rbac_db) result" where
  "save_role_row r db = bind_r (save_custom_role r db) (\<lambda>db'. Inr (r, db'))"

section \<open>Custom roles\<close>

record role_handler =
  rh_event_type :: replication_event_type
  rh_role :: v1_role
  rh_tenant :: tenant
  rh_root_workspace :: workspace
  rh_default_workspace :: workspace
  rh_resource_service :: permissions_map
  rh_role_relations :: "relation_tuple list"
  rh_current_role_relations :: "relation_tuple list"
  rh_binding_mappings :: "(int \<times> binding_mapping) list"
  rh_role_bindings :: "(int \<times> role_binding) list"
  rh_v2_roles :: "(int \<times> role_v2) list"
  rh_expected_empty_relation_reason :: "string option"

definition init_role_handler ::
  "role_settings \<Rightarrow> v1_role \<Rightarrow> replication_event_type \<Rightarrow> tenant option \<Rightarrow> 's rbac_db
   \<Rightarrow> (role_handler option \<times> 's rbac_db) result" where
  "init_role_handler st role event_type tn db =
     (if ro_system role then Inl ValueError
      else if \<not> st_replication_enabled (rc_ws st) then Inr (None, db)
      else dual_write_try (
        bind_r (case tn of Some t \<Rightarrow> Inr t | None \<Rightarrow> tenant_by_pk (wst_tenants (db_ws db)) (ro_tenant role)) (\<lambda>t.
        bind_r (check_r (tn_tenant_name t \<noteq> ''public'') DualWriteException) (\<lambda>_.
        bind_r (manager_root (st_cache_enabled (rc_ws st)) (wst_table (db_ws db)) (wst_cache (db_ws db)) (Some t) None)
          (\<lambda>(root, cache1).
        bind_r (manager_default (st_cache_enabled (rc_ws st)) (wst_table (db_ws db)) cache1 (Some t) None)
          (\<lambda>(dflt, cache2).
        bind_r (scope_service st) (\<lambda>pm.
        bind_r (assert_v1_write_allowed (db_tenant_mappings db) t) (\<lambda>_.
          Inr (Some \<lparr>rh_event_type = event_type, rh_role = role, rh_tenant = t, rh_root_workspace = root,
                     rh_default_workspace = dflt, rh_resource_service = pm, rh_role_relations = [],
                     rh_current_role_relations = [], rh_binding_mappings = [], rh_role_bindings = [],
                     rh_v2_roles = [], rh_expected_empty_relation_reason = None\<rparr>,
               db\<lparr>db_ws := (db_ws db)\<lparr>wst_cache := cache2\<rparr>\<rparr>)))))))))"

definition set_expected_empty_relation_reason :: "string \<Rightarrow> role_handler \<Rightarrow> role_handler" where
  "set_expected_empty_relation_reason reason h = h\<lparr>rh_expected_empty_relation_reason := Some reason\<rparr>"

definition mappings_of_role :: "v1_role \<Rightarrow> 's rbac_db \<Rightarrow> binding_mapping list" where
  "mappings_of_role role db = filter (\<lambda>m. bm_role m = ro_pk role) (db_mappings db)"

definition v2_roles_of_role :: "v1_role \<Rightarrow> 's rbac_db \<Rightarrow> role_v2 list" where
  "v2_roles_of_role role db = filter (\<lambda>r. r2_v1_source r = Some (ro_pk role)) (db_roles db)"

definition bindings_of_role :: "v1_role \<Rightarrow> 's rbac_db \<Rightarrow> role_binding list" where
  "bindings_of_role role db =
     filter (\<lambda>b. list_ex (\<lambda>r. r2_pk r = rb_role b) (v2_roles_of_role role db)) (db_bindings db)"

definition owner_relationships :: "string \<Rightarrow> tenant \<Rightarrow> role_v2 list \<Rightarrow> relation_tuple list result" where
  "owner_relationships domain t roles =
     (case tenant_resource_id domain t of
        None \<Rightarrow> Inr []
      | Some i \<Rightarrow> if i = [] then Inr [] else mapM_r (\<lambda>r. role_owner_relationship (r2_uuid r) i) roles)"

definition prepare_for_update :: "role_settings \<Rightarrow> 's rbac_db \<Rightarrow> role_handler \<Rightarrow> role_handler result" where
  "prepare_for_update st db h = dual_write_try (
     bind_r (by_pk bm_pk (mappings_of_role (rh_role h) db)) (\<lambda>mappings.
     bind_r (by_pk (\<lambda>b. Some (rb_pk b)) (bindings_of_role (rh_role h) db)) (\<lambda>bindings.
     bind_r (by_pk (\<lambda>r. Some (r2_pk r)) (v2_roles_of_role (rh_role h) db)) (\<lambda>roles.
       let h1 = h\<lparr>rh_binding_mappings := mappings, rh_role_bindings := bindings, rh_v2_roles := roles\<rparr>
       in if mappings = [] then Inr h1
          else bind_r (relation_tuples_for_bindings (rc_domain st) (map snd mappings)) (\<lambda>current.
               bind_r (owner_relationships (rc_domain st) (rh_tenant h) (map snd roles)) (\<lambda>owners.
                 Inr (h1\<lparr>rh_current_role_relations := current @ owners\<rparr>)))))))"

definition role_event :: "role_settings \<Rightarrow> tenant \<Rightarrow> role_handler \<Rightarrow> replication_event" where
  "role_event st role_tenant h =
     \<lparr>ev_type = rh_event_type h,
      ev_info = [(''binding_mappings'', PyDict (map (\<lambda>(pk, m). (int_str pk, PyStr (bm_id m))) (rh_binding_mappings h))),
                 (''v1_role_uuid'', PyStr (ro_uuid (rh_role h))),
                 (''org_id'', PyStr (py_str (py_opt_str (tn_org_id role_tenant))))],
      ev_partition_key = st_env_name (rc_ws st),
      ev_add = rh_role_relations h, ev_remove = rh_current_role_relations h\<rparr>"

definition replicate_role :: "role_settings \<Rightarrow> 's replicator \<Rightarrow> role_handler \<Rightarrow> 's rbac_db \<Rightarrow> 's rbac_db result" where
  "replicate_role st rp h db =
     (case rh_expected_empty_relation_reason h of
        Some (c # cs) \<Rightarrow> Inr db
      | _ \<Rightarrow>
          if rh_current_role_relations h = [] \<and> rh_role_relations h = [] then Inr db
          else dual_write_try (
            bind_r (tenant_by_pk (wst_tenants (db_ws db)) (ro_tenant (rh_role h))) (\<lambda>role_tenant.
            bind_r (rp_replicate rp (wst_repl (db_ws db)) (role_event st role_tenant h)) (\<lambda>s'.
              Inr (db\<lparr>db_ws := (db_ws db)\<lparr>wst_repl := s'\<rparr>\<rparr>)))))"

definition scope_resource_map ::
  "role_settings \<Rightarrow> role_handler \<Rightarrow> (scope \<times> v2_bound_resource) list result" where
  "scope_resource_map st h =
     bind_r (binding_scopes_for_permissions (rh_resource_service h)
               (map (\<lambda>a. perm_permission (ac_permission a)) (ro_access (rh_role h)))) (\<lambda>scopes.
       foldM_r (\<lambda>d s.
          bind_r (bound_model_for_scope s (rh_tenant h) (rh_root_workspace h) (rh_default_workspace h)) (\<lambda>model.
          bind_r (for_model (rc_domain st) model) (\<lambda>resource. Inr (AList.update s resource d)))) [] scopes)"

definition generate_relations_and_mappings_for_role ::
  "role_settings \<Rightarrow> 's replicator \<Rightarrow> (nat \<Rightarrow> string) \<Rightarrow> string \<Rightarrow> role_handler \<Rightarrow> 's rbac_db
   \<Rightarrow> (role_handler \<times> 's rbac_db) result" where
  "generate_relations_and_mappings_for_role st rp uuid7 now h db = dual_write_try (
     bind_r (scope_resource_map st h) (\<lambda>resource_map.
     bind_r (migrate_role st rp uuid7 now (rh_role h)
               (bound_resource_resolver_from_map (with_workspace_scope_inheritance resource_map))
               (map snd (rh_binding_mappings h)) (map snd (rh_v2_roles h)) db) (\<lambda>(relations0, result, db1).
     let relations = deduplicate_role_permission_relationships relations0 in
     bind_r (update_by_pk bm_pk save_binding_mapping delete_binding_mapping
               (rh_binding_mappings h) (mr_binding_mappings result) db1) (\<lambda>(saved, db2).
     bind_r (update_by_pk (\<lambda>b. Some (rb_pk b)) save_binding_row delete_role_binding
               (rh_role_bindings h) (mr_role_bindings result) db2) (\<lambda>(saved_bindings, db3).
     bind_r (update_by_pk (\<lambda>r. Some (r2_pk r)) save_role_row delete_role_v2
               (rh_v2_roles h) (mr_v2_roles result) db3) (\<lambda>(saved_roles, db4).
     bind_r (by_pk bm_pk saved) (\<lambda>mappings.
     bind_r (by_pk (\<lambda>b. Some (rb_pk b)) saved_bindings) (\<lambda>bindings.
     bind_r (by_pk (\<lambda>r. Some (r2_pk r)) saved_roles) (\<lambda>roles.
     bind_r (owner_relationships (rc_domain st) (rh_tenant h) (map snd roles)) (\<lambda>owners.
       Inr (h\<lparr>rh_role_relations := relations @ owners, rh_binding_mappings := mappings,
              rh_role_bindings := bindings, rh_v2_roles := roles\<rparr>, db4)))))))))))"

definition replicate_new_or_updated_role ::
  "role_settings \<Rightarrow> 's replicator \<Rightarrow> (nat \<Rightarrow> string) \<Rightarrow> string \<Rightarrow> v1_role \<Rightarrow> role_handler \<Rightarrow> 's rbac_db
   \<Rightarrow> (role_handler \<times> 's rbac_db) result" where
  "replicate_new_or_updated_role st rp uuid7 now role h db =
     bind_r (generate_relations_and_mappings_for_role st rp uuid7 now (h\<lparr>rh_role := role\<rparr>) db) (\<lambda>(h', db').
     bind_r (replicate_role st rp h' db') (\<lambda>db''. Inr (h', db'')))"

definition replicate_deleted_role ::
  "role_settings \<Rightarrow> 's replicator \<Rightarrow> role_handler \<Rightarrow> 's rbac_db \<Rightarrow> (role_handler \<times> 's rbac_db) result" where
  "replicate_deleted_role st rp h db =
     (let h' = h\<lparr>rh_binding_mappings := [], rh_role_bindings := [], rh_v2_roles := []\<rparr>
      in bind_r (replicate_role st rp h' db) (\<lambda>db'. Inr (h', db')))"

section \<open>Seeded roles\<close>

record seeding_handler =
  sh_role :: v1_role
  sh_resource_service :: permissions_map
  sh_current_role_relations :: "relation_tuple list"

definition init_seeding_handler :: "role_settings \<Rightarrow> v1_role \<Rightarrow> seeding_handler result" where
  "init_seeding_handler st role =
     bind_r (scope_service st) (\<lambda>pm.
     bind_r (check_r (ro_system role) ValueError) (\<lambda>_.
       Inr \<lparr>sh_role = role, sh_resource_service = pm, sh_current_role_relations = []\<rparr>))"

text \<open>A parent whose default group does not exist yet is left out.\<close>

definition parent_relation ::
  "platform_settings \<Rightarrow> default_access_type \<Rightarrow> v1_role \<Rightarrow> 's rbac_db
   \<Rightarrow> relation_tuple list \<times> policy_id_service \<Rightarrow> scope \<Rightarrow> (relation_tuple list \<times> policy_id_service) result" where
  "parent_relation pf access_type role db = (\<lambda>(relations, service) s.
     case platform_v2_role_uuid_for pf access_type s db service of
       Inl DefaultGroupNotAvailableError \<Rightarrow> Inr (relations, service)
     | Inl e \<Rightarrow> Inl e
     | Inr (parent_uuid, service') \<Rightarrow>
         bind_r (role_child_relationship parent_uuid (ro_uuid role)) (\<lambda>t. Inr (relations @ [t], service')))"

definition check_create_admin_platform_relation ::
  "platform_settings \<Rightarrow> seeding_handler \<Rightarrow> bool \<Rightarrow> 's rbac_db \<Rightarrow> policy_id_service
   \<Rightarrow> (relation_tuple list \<times> policy_id_service) result" where
  "check_create_admin_platform_relation pf h for_removal db service =
     (let role = sh_role h in
      bind_r (if for_removal then Inr (CONCRETE_SCOPES, CONCRETE_SCOPES)
              else bind_r (binding_scopes_for_permissions (sh_resource_service h)
                             (map (\<lambda>a. perm_permission (ac_permission a)) (ro_access role))) (\<lambda>scopes.
                     Inr (remdups scopes,
                          admin_platform_parent_scopes_for_seeded_system_role (ro_name role) (remdups scopes))))
        (\<lambda>(binding_scopes, admin_scopes).
      bind_r (if ro_admin_default role
              then foldM_r (parent_relation pf ACCESS_ADMIN role db) ([], service) admin_scopes
              else Inr ([], service)) (\<lambda>(relations, service1).
        if ro_platform_default role
        then foldM_r (parent_relation pf ACCESS_USER role db) (relations, service1) binding_scopes
        else Inr (relations, service1))))"

definition generate_relations_for_seeded_role ::
  "platform_settings \<Rightarrow> seeding_handler \<Rightarrow> bool \<Rightarrow> 's rbac_db \<Rightarrow> policy_id_service
   \<Rightarrow> (relation_tuple list \<times> policy_id_service) result" where
  "generate_relations_for_seeded_role pf h for_removal db service =
     bind_r (check_create_admin_platform_relation pf h for_removal db service) (\<lambda>(relations, service').
     bind_r (mapM_r (\<lambda>a. create_relationship (''rbac'', ''role'') (ro_uuid (sh_role h)) (''rbac'', ''principal'') ''*''
                        (v2_string (ac_permission a)) None) (ro_access (sh_role h))) (\<lambda>permissions.
       Inr (relations @ permissions, service')))"

definition replicate_seeded ::
  "role_settings \<Rightarrow> 's replicator \<Rightarrow> tenant \<Rightarrow> seeding_handler \<Rightarrow> replication_event_type
   \<Rightarrow> relation_tuple list \<Rightarrow> relation_tuple list \<Rightarrow> 's rbac_db \<Rightarrow> 's rbac_db result" where
  "replicate_seeded st rp role_tenant h event_type remove add db =
     (if \<not> st_replication_enabled (rc_ws st) \<or> remove = [] \<and> add = [] then Inr db
      else dual_write_try (
        bind_r (rp_replicate rp (wst_repl (db_ws db))
                  \<lparr>ev_type = event_type,
                   ev_info = [(''role_uuid'', PyStr (ro_uuid (sh_role h))),
                              (''org_id'', PyStr (py_str (py_opt_str (tn_org_id role_tenant))))],
                   ev_partition_key = st_env_name (rc_ws st), ev_add = add, ev_remove = remove\<rparr>) (\<lambda>s'.
          Inr (db\<lparr>db_ws := (db_ws db)\<lparr>wst_repl := s'\<rparr>\<rparr>))))"

definition seeding_prepare_for_update ::
  "role_settings \<Rightarrow> platform_settings \<Rightarrow> seeding_handler \<Rightarrow> 's rbac_db \<Rightarrow> policy_id_service
   \<Rightarrow> (seeding_handler \<times> policy_id_service) result" where
  "seeding_prepare_for_update st pf h db service =
     (if \<not> st_replication_enabled (rc_ws st) then Inr (h, service)
      else bind_r (generate_relations_for_seeded_role pf h True db service) (\<lambda>(relations, service').
             Inr (h\<lparr>sh_current_role_relations := relations\<rparr>, service')))"

definition replicate_update_system_role ::
  "role_settings \<Rightarrow> platform_settings \<Rightarrow> 's replicator \<Rightarrow> tenant \<Rightarrow> seeding_handler \<Rightarrow> policy_id_service
   \<Rightarrow> 's rbac_db \<Rightarrow> ('s rbac_db \<times> policy_id_service) result" where
  "replicate_update_system_role st pf rp role_tenant h service db =
     (if \<not> st_replication_enabled (rc_ws st) then Inr (db, service)
      else bind_r (generate_relations_for_seeded_role pf h False db service) (\<lambda>(relations, service').
           bind_r (replicate_seeded st rp role_tenant h EV_UPDATE_SYSTEM_ROLE (sh_current_role_relations h) relations db)
             (\<lambda>db'. Inr (db', service'))))"

definition replicate_new_system_role ::
  "role_settings \<Rightarrow> platform_settings \<Rightarrow> 's replicator \<Rightarrow> tenant \<Rightarrow> seeding_handler \<Rightarrow> policy_id_service
   \<Rightarrow> 's rbac_db \<Rightarrow> ('s rbac_db \<times> policy_id_service) result" where
  "replicate_new_system_role st pf rp role_tenant h service db =
     (if \<not> st_replication_enabled (rc_ws st) then Inr (db, service)
      else bind_r (generate_relations_for_seeded_role pf h False db service) (\<lambda>(relations, service').
           bind_r (replicate_seeded st rp role_tenant h EV_CREATE_SYSTEM_ROLE [] relations db)
             (\<lambda>db'. Inr (db', service'))))"

definition replicate_deleted_system_role ::
  "role_settings \<Rightarrow> platform_settings \<Rightarrow> 's replicator \<Rightarrow> tenant \<Rightarrow> seeding_handler \<Rightarrow> policy_id_service
   \<Rightarrow> 's rbac_db \<Rightarrow> ('s rbac_db \<times> policy_id_service) result" where
  "replicate_deleted_system_role st pf rp role_tenant h service db =
     (if \<not> st_replication_enabled (rc_ws st) then Inr (db, service)
      else bind_r (generate_relations_for_seeded_role pf h True db service) (\<lambda>(relations, service').
           bind_r (replicate_seeded st rp role_tenant h EV_DELETE_SYSTEM_ROLE relations [] db)
             (\<lambda>db'. Inr (db', service'))))"

section \<open>The tables after an update\<close>

lemma AList_update_new: "k \<notin> fst ` set d \<Longrightarrow> AList.update k v d = d @ [(k, v)]"
  by (induction d) auto

lemma by_pk_step:
  assumes "foldM_r (\<lambda>out m. case pk m of None \<Rightarrow> Inl ValueError | Some i \<Rightarrow> Inr (AList.update i m out)) d models = Inr d'"
    and "distinct (map fst d @ map (\<lambda>m. the (pk m)) models)"
  shows "d' = d @ map (\<lambda>m. (the (pk m), m)) models \<and> (\<forall>m \<in> set models. pk m \<noteq> None)"
  using assms
proof (induction models arbitrary: d)
  case (Cons m models)
  then obtain i where i: "pk m = Some i" by (auto split: option.splits)
  then have "AList.update i m d = d @ [(i, m)]" using Cons.prems(2) by (intro AList_update_new) auto
  then show ?case using Cons.IH [of "d @ [(i, m)]"] Cons.prems i by auto
qed simp

lemma by_pk_Inr:
  assumes "by_pk pk models = Inr d" and "distinct (map pk models)"
  shows "d = map (\<lambda>m. (the (pk m), m)) models \<and> (\<forall>m \<in> set models. pk m \<noteq> None)"
proof -
  have some: "\<forall>m \<in> set models. pk m \<noteq> None"
  proof -
    let ?f = "\<lambda>out m. case pk m of None \<Rightarrow> Inl ValueError | Some i \<Rightarrow> Inr (AList.update i m out)"
    have "\<forall>m \<in> set ms. pk m \<noteq> None" if "foldM_r ?f d0 ms = Inr d1" for ms d0 d1
      using that by (induction ms arbitrary: d0) (auto simp: bind_r_Inr_iff split: option.splits)
    then show ?thesis using assms(1) unfolding by_pk_def by blast
  qed
  have "distinct (map (\<lambda>m. the (pk m)) models)"
    using assms(2) some unfolding distinct_map inj_on_def by (metis option.expand)
  then show ?thesis using by_pk_step [OF assms(1) [unfolded by_pk_def]] by simp
qed

definition mapping_rows_wf :: "'s rbac_db \<Rightarrow> bool" where
  "mapping_rows_wf db \<longleftrightarrow>
     distinct (map bm_pk (db_mappings db)) \<and>
     (\<forall>m \<in> set (db_mappings db). \<exists>k. bm_pk m = Some k \<and> k < db_next_pk db)"

definition without_pk :: "binding_mapping \<Rightarrow> binding_mapping" where
  "without_pk m = m\<lparr>bm_pk := None\<rparr>"

lemma save_binding_mapping_spec:
  assumes "save_binding_mapping m db = Inr (m', db')" and "mapping_rows_wf db"
    and "bm_pk m = None \<or> bm_pk m \<in> bm_pk ` set (db_mappings db)"
  shows "mapping_rows_wf db'" and "m' \<in> set (db_mappings db')" and "without_pk m' = without_pk m"
    and "bm_pk m' = (case bm_pk m of None \<Rightarrow> Some (db_next_pk db) | Some k \<Rightarrow> Some k)"
    and "\<And>x. x \<in> set (db_mappings db') \<longleftrightarrow> x = m' \<or> x \<in> set (db_mappings db) \<and> bm_pk x \<noteq> bm_pk m'"
    and "db' = db\<lparr>db_mappings := db_mappings db', db_next_pk := db_next_pk db'\<rparr>"
    and "db_next_pk db \<le> db_next_pk db'"
proof -
  have "mapping_rows_wf db' \<and> m' \<in> set (db_mappings db') \<and> without_pk m' = without_pk m \<and>
    bm_pk m' = (case bm_pk m of None \<Rightarrow> Some (db_next_pk db) | Some k \<Rightarrow> Some k) \<and>
    (\<forall>x. x \<in> set (db_mappings db') \<longleftrightarrow> x = m' \<or> x \<in> set (db_mappings db) \<and> bm_pk x \<noteq> bm_pk m') \<and>
    db' = db\<lparr>db_mappings := db_mappings db', db_next_pk := db_next_pk db'\<rparr> \<and> db_next_pk db \<le> db_next_pk db'"
  proof (cases "bm_pk m")
    case None
    then have m': "m' = m\<lparr>bm_pk := Some (db_next_pk db)\<rparr>"
      and db': "db' = db\<lparr>db_next_pk := db_next_pk db + 1, db_mappings := db_mappings db @ [m']\<rparr>"
      using assms(1) by (auto simp: save_binding_mapping_def fresh_pk_def Let_def bind_r_Inr_iff)
    have "Some (db_next_pk db) \<notin> bm_pk ` set (db_mappings db)"
      using assms(2) by (auto simp: mapping_rows_wf_def)
    then show ?thesis
      using assms(2) None unfolding m' db' mapping_rows_wf_def by (auto simp: without_pk_def)
  next
    case (Some k)
    then have in_db: "Some k \<in> bm_pk ` set (db_mappings db)" using assms(3) by simp
    let ?f = "\<lambda>m0. if bm_pk m0 = Some k then m else m0"
    have m': "m' = m" and db': "db' = db\<lparr>db_mappings := map ?f (db_mappings db)\<rparr>"
      using assms(1) Some in_db by (auto simp: save_binding_mapping_def bind_r_Inr_iff)
    have pks: "bm_pk \<circ> ?f = bm_pk" using Some by auto
    obtain m0 where m0: "m0 \<in> set (db_mappings db)" "bm_pk m0 = Some k" using in_db by auto
    have mem: "x \<in> ?f ` set (db_mappings db) \<longleftrightarrow> x = m \<or> x \<in> set (db_mappings db) \<and> bm_pk x \<noteq> Some k" for x
      using m0 by (auto simp: image_iff)
    have "\<exists>j. Some k = Some j \<and> j < db_next_pk db" using assms(2) m0 by (auto simp: mapping_rows_wf_def)
    then have "mapping_rows_wf db'"
      using assms(2) Some unfolding db' mapping_rows_wf_def by (auto simp: pks mem)
    then show ?thesis using Some m' mem by (auto simp: db')
  qed
  then show "mapping_rows_wf db'" and "m' \<in> set (db_mappings db')" and "without_pk m' = without_pk m"
    and "bm_pk m' = (case bm_pk m of None \<Rightarrow> Some (db_next_pk db) | Some k \<Rightarrow> Some k)"
    and "\<And>x. x \<in> set (db_mappings db') \<longleftrightarrow> x = m' \<or> x \<in> set (db_mappings db) \<and> bm_pk x \<noteq> bm_pk m'"
    and "db' = db\<lparr>db_mappings := db_mappings db', db_next_pk := db_next_pk db'\<rparr>"
    and "db_next_pk db \<le> db_next_pk db'"
    by blast+
qed

lemma delete_mappings_fold:
  "fold delete_binding_mapping ms db =
     db\<lparr>db_mappings := filter (\<lambda>m. bm_pk m \<notin> bm_pk ` set ms) (db_mappings db)\<rparr>"
  by (induction ms arbitrary: db) (auto simp: delete_binding_mapping_def intro: filter_cong)

text \<open>
  The state of the loop that saves the new mappings of a role: the saved ones are in the table, and
  every other mapping of the role there is one of those still to delete.
\<close>

definition saving_inv ::
  "int \<Rightarrow> (int \<times> binding_mapping) list \<Rightarrow> 's rbac_db \<Rightarrow> binding_mapping list
   \<Rightarrow> (int \<times> binding_mapping) list \<times> binding_mapping list \<times> 's rbac_db \<Rightarrow> bool" where
  "saving_inv role old db0 before = (\<lambda>(old', saved, db).
     mapping_rows_wf db \<and>
     db = db0\<lparr>db_mappings := db_mappings db, db_next_pk := db_next_pk db\<rparr> \<and> db_next_pk db0 \<le> db_next_pk db \<and>
     old' = filter (\<lambda>(i, _). Some i \<notin> bm_pk ` set before) old \<and>
     map without_pk saved = map without_pk before \<and>
     (\<forall>m \<in> set saved. bm_pk m \<in> bm_pk ` set before \<or> (\<exists>k \<ge> db_next_pk db0. bm_pk m = Some k)) \<and>
     set saved \<subseteq> set (db_mappings db) \<and>
     (\<forall>m \<in> set (db_mappings db). bm_role m = role \<longrightarrow> m \<in> set saved \<or> m \<in> snd ` set old') \<and>
     (\<forall>m \<in> snd ` set old'. m \<in> set (db_mappings db)))"

lemma filter_keyed:
  assumes "\<forall>m \<in> set rows. \<exists>k. bm_pk m = Some k \<and> P k"
  shows "filter (\<lambda>(i, _). Some i \<notin> A) (map (\<lambda>m. (the (bm_pk m), m)) rows) =
     map (\<lambda>m. (the (bm_pk m), m)) (filter (\<lambda>m. bm_pk m \<notin> A) rows)"
  using assms by (induction rows) auto

lemma saving_step:
  assumes inv: "saving_inv role old db0 before (old', saved, db)"
    and step: "update_step bm_pk save_binding_mapping (old', saved, db) m = Inr st'"
    and old: "old = map (\<lambda>m. (the (bm_pk m), m)) rows" "\<forall>m \<in> set rows. \<exists>k. bm_pk m = Some k \<and> k < db_next_pk db0"
    and pk: "bm_pk m = None \<or> bm_pk m \<in> bm_pk ` set rows" and new: "bm_pk m = None \<or> bm_pk m \<notin> bm_pk ` set before"
  shows "saving_inv role old db0 (before @ [m]) st'"
proof -
  obtain m' db' where save: "save_binding_mapping m db = Inr (m', db')"
    and st': "st' = ((case bm_pk m of None \<Rightarrow> old' | Some i \<Rightarrow> AList.delete i old'), saved @ [m'], db')"
    using step by (auto simp: update_step_def Let_def bind_r_Inr_iff)
  note I = inv [unfolded saving_inv_def prod.case]
  have old': "old' = filter (\<lambda>(i, _). Some i \<notin> bm_pk ` set before) old"
    and sub: "set saved \<subseteq> set (db_mappings db)"
    and rest: "\<forall>m \<in> set (db_mappings db). bm_role m = role \<longrightarrow> m \<in> set saved \<or> m \<in> snd ` set old'"
    and kept: "\<forall>m \<in> snd ` set old'. m \<in> set (db_mappings db)"
    and pks: "\<forall>m \<in> set saved. bm_pk m \<in> bm_pk ` set before \<or> (\<exists>k \<ge> db_next_pk db0. bm_pk m = Some k)"
    and wf: "mapping_rows_wf db" and le: "db_next_pk db0 \<le> db_next_pk db"
    and eq: "db = db0\<lparr>db_mappings := db_mappings db, db_next_pk := db_next_pk db\<rparr>"
    and same: "map without_pk saved = map without_pk before"
    using I by blast+
  have old_pk: "bm_pk x = Some i" if "(i, x) \<in> set old" for i x using that old by auto
  have in_old': "x \<in> snd ` set old' \<longleftrightarrow> x \<in> set rows \<and> bm_pk x \<notin> bm_pk ` set before" for x
    unfolding old' old(1) filter_keyed [OF old(2)] by (simp add: image_image)
  have "bm_pk m \<in> bm_pk ` set (db_mappings db)" if some: "bm_pk m \<noteq> None"
  proof -
    obtain x where x: "x \<in> set rows" "bm_pk m = bm_pk x" using some pk by auto
    then have "bm_pk x \<notin> bm_pk ` set before" using some new by auto
    then have "x \<in> snd ` set old'" using x(1) in_old' by blast
    then show ?thesis using kept x(2) by (simp add: image_iff) blast
  qed
  then have "bm_pk m = None \<or> bm_pk m \<in> bm_pk ` set (db_mappings db)" by blast
  note S = save_binding_mapping_spec [OF save wf this]
  let ?old2 = "case bm_pk m of None \<Rightarrow> old' | Some i \<Rightarrow> AList.delete i old'"
  have old2: "?old2 = filter (\<lambda>(i, _). Some i \<notin> bm_pk ` set (before @ [m])) old"
    unfolding old' by (auto simp: AList.delete_eq split: option.splits intro!: filter_cong)
  have in_old2: "x \<in> snd ` set ?old2 \<longleftrightarrow> x \<in> snd ` set old' \<and> bm_pk x \<noteq> bm_pk m" for x
    unfolding old2 in_old' old(1) filter_keyed [OF old(2)] by (auto simp: image_image)
  have m'_pk: "bm_pk m' = bm_pk m \<or> (bm_pk m = None \<and> bm_pk m' = Some (db_next_pk db))"
    using S(4) by (auto split: option.splits)
  have old_low: "\<exists>k. bm_pk x = Some k \<and> k < db_next_pk db0" if "x \<in> snd ` set old'" for x
    using that in_old' old(2) by blast
  have keep: "x \<noteq> m' \<longrightarrow> bm_pk x \<noteq> bm_pk m'" if "x \<in> set saved" for x
  proof
    assume "x \<noteq> m'"
    show "bm_pk x \<noteq> bm_pk m'"
    proof (cases "bm_pk m")
      case None
      then have "bm_pk m' = Some (db_next_pk db)" using S(4) by simp
      then show ?thesis using wf sub that by (fastforce simp: mapping_rows_wf_def)
    next
      case (Some k)
      then have k: "bm_pk m' = Some k" "Some k \<notin> bm_pk ` set before" "Some k \<in> bm_pk ` set rows"
        using S(4) new pk by auto
      then have "k < db_next_pk db0" using old(2) by force
      then have "bm_pk x \<noteq> Some k" using bspec [OF pks that] k(2) by (metis leD option.inject)
      then show ?thesis using k(1) by simp
    qed
  qed
  have "mapping_rows_wf db'" by (rule S(1))
  moreover have "db' = db0\<lparr>db_mappings := db_mappings db', db_next_pk := db_next_pk db'\<rparr>"
    by (rule trans [OF S(6)]) (subst eq, simp)
  moreover have "db_next_pk db0 \<le> db_next_pk db'" using le S(7) by simp
  moreover have "map without_pk (saved @ [m']) = map without_pk (before @ [m])" using same S(3) by simp
  moreover have "\<forall>x \<in> set (saved @ [m']). bm_pk x \<in> bm_pk ` set (before @ [m]) \<or> (\<exists>k \<ge> db_next_pk db0. bm_pk x = Some k)"
    using pks m'_pk le by auto
  moreover have "set (saved @ [m']) \<subseteq> set (db_mappings db')" using S(5) sub keep by auto
  moreover have "x \<in> set (saved @ [m']) \<or> x \<in> snd ` set ?old2" if "x \<in> set (db_mappings db')" "bm_role x = role" for x
  proof (cases "x = m'")
    case False
    then have x: "x \<in> set (db_mappings db)" "bm_pk x \<noteq> bm_pk m'" using that(1) S(5) by auto
    then have "bm_pk x \<noteq> bm_pk m"
      using m'_pk wf by (auto simp: mapping_rows_wf_def)
    then show ?thesis using rest x(1) that(2) in_old2 by auto
  qed simp
  moreover have "x \<in> set (db_mappings db')" if "x \<in> snd ` set ?old2" for x
  proof -
    have x: "x \<in> snd ` set old'" "bm_pk x \<noteq> bm_pk m" using that in_old2 by auto
    then have "bm_pk x \<noteq> bm_pk m'" using m'_pk old_low [OF x(1)] le by auto
    then show ?thesis using S(5) kept x(1) by blast
  qed
  ultimately show ?thesis unfolding st' saving_inv_def prod.case using old2 by blast
qed

lemma saving_loop:
  assumes "foldM_r (update_step bm_pk save_binding_mapping) st ms = Inr st'"
    and "saving_inv role old db0 before st"
    and "old = map (\<lambda>m. (the (bm_pk m), m)) rows" and "\<forall>m \<in> set rows. \<exists>k. bm_pk m = Some k \<and> k < db_next_pk db0"
    and "\<forall>m \<in> set ms. bm_pk m = None \<or> bm_pk m \<in> bm_pk ` set rows"
    and "distinct (filter (\<lambda>k. k \<noteq> None) (map bm_pk (before @ ms)))"
  shows "saving_inv role old db0 (before @ ms) st'"
  using assms
proof (induction ms arbitrary: st before)
  case (Cons m ms)
  obtain o1 s1 d1 where st: "st = (o1, s1, d1)" by (cases st)
  from Cons.prems(1) obtain st1 where
      step: "update_step bm_pk save_binding_mapping (o1, s1, d1) m = Inr st1"
    and rest: "foldM_r (update_step bm_pk save_binding_mapping) st1 ms = Inr st'"
    by (auto simp: st bind_r_Inr_iff)
  have "saving_inv role old db0 (before @ [m]) st1"
  proof (rule saving_step [OF Cons.prems(2) [unfolded st] step Cons.prems(3,4)])
    show "bm_pk m = None \<or> bm_pk m \<in> bm_pk ` set rows" using Cons.prems(5) by simp
    show "bm_pk m = None \<or> bm_pk m \<notin> bm_pk ` set before"
    proof (cases "bm_pk m")
      case (Some k)
      have "Some k \<notin> {x \<in> bm_pk ` set before. x \<noteq> None}" using Cons.prems(6) Some by (simp del: not_None_eq)
      then show ?thesis using Some by simp
    qed simp
  qed
  from Cons.IH [OF rest this Cons.prems(3,4)] Cons.prems(5,6) show ?case by simp
qed simp

lemma update_mappings_of_role:
  assumes "update_by_pk bm_pk save_binding_mapping delete_binding_mapping
             (map (\<lambda>m. (the (bm_pk m), m)) (mappings_of_role role db)) ms db = Inr (saved, db')"
    and wf: "mapping_rows_wf db"
    and "\<forall>m \<in> set ms. bm_pk m = None \<or> bm_pk m \<in> bm_pk ` set (mappings_of_role role db)"
    and "distinct (filter (\<lambda>k. k \<noteq> None) (map bm_pk ms))"
    and role: "\<forall>m \<in> set ms. bm_role m = ro_pk role"
  shows "set (mappings_of_role role db') = set saved" and "map without_pk saved = map without_pk ms"
    and "db' = db\<lparr>db_mappings := db_mappings db', db_next_pk := db_next_pk db'\<rparr>" and "db_next_pk db \<le> db_next_pk db'"
proof -
  let ?old = "map (\<lambda>m. (the (bm_pk m), m)) (mappings_of_role role db)"
  obtain old' db1 where fold: "foldM_r (update_step bm_pk save_binding_mapping) (?old, [], db) ms = Inr (old', saved, db1)"
    and db': "db' = fold delete_binding_mapping (map snd old') db1"
    using assms(1) by (auto simp: update_by_pk_def bind_r_Inr_iff)
  have low: "\<forall>m \<in> set (mappings_of_role role db). \<exists>k. bm_pk m = Some k \<and> k < db_next_pk db"
    using wf by (auto simp: mappings_of_role_def mapping_rows_wf_def)
  have "snd ` set ?old = set (mappings_of_role role db)" by (simp add: image_image)
  then have "saving_inv (ro_pk role) ?old db [] (?old, [], db)"
    using wf by (simp add: saving_inv_def) (simp add: mappings_of_role_def)
  from saving_loop [OF fold this refl low assms(3)] assms(4)
  have inv: "saving_inv (ro_pk role) ?old db ms (old', saved, db1)" by simp
  note I = inv [unfolded saving_inv_def prod.case]
  show eq: "map without_pk saved = map without_pk ms" using I by simp
  have "old' = filter (\<lambda>(i, _). Some i \<notin> bm_pk ` set ms) ?old" using I by blast
  then have del: "snd ` set old' \<subseteq> set (mappings_of_role role db) \<and> (\<forall>m \<in> snd ` set old'. bm_pk m \<notin> bm_pk ` set ms)"
    unfolding filter_keyed [OF low] by auto
  have rows: "db_mappings db' = filter (\<lambda>m. bm_pk m \<notin> bm_pk ` snd ` set old') (db_mappings db1)"
    by (simp add: db' delete_mappings_fold)
  have saved_role: "bm_role m = ro_pk role" if "m \<in> set saved" for m
  proof -
    have "without_pk m \<in> set (map without_pk ms)" using that eq [symmetric] by simp
    then obtain x where "x \<in> set ms" "without_pk m = without_pk x" by auto
    moreover have "bm_role (without_pk m) = bm_role m" "bm_role (without_pk x) = bm_role x" by (simp_all add: without_pk_def)
    ultimately show ?thesis using role by auto
  qed
  have pks: "\<forall>m \<in> set saved. bm_pk m \<in> bm_pk ` set ms \<or> (\<exists>k \<ge> db_next_pk db. bm_pk m = Some k)"
    and sub: "set saved \<subseteq> set (db_mappings db1)"
    and rest: "\<forall>m \<in> set (db_mappings db1). bm_role m = ro_pk role \<longrightarrow> m \<in> set saved \<or> m \<in> snd ` set old'"
    and db1: "db1 = db\<lparr>db_mappings := db_mappings db1, db_next_pk := db_next_pk db1\<rparr>"
    and le: "db_next_pk db \<le> db_next_pk db1"
    using I by blast+
  have saved_pk: "bm_pk m \<noteq> bm_pk x" if "m \<in> set saved" "x \<in> snd ` set old'" for m x
  proof -
    have "bm_pk x \<notin> bm_pk ` set ms" and "\<exists>k. bm_pk x = Some k \<and> k < db_next_pk db" using del low that(2) by blast+
    then show ?thesis using bspec [OF pks that(1)] by (metis leD option.inject)
  qed
  show "set (mappings_of_role role db') = set saved"
  proof (intro set_eqI iffI)
    fix m assume "m \<in> set (mappings_of_role role db')"
    then have "m \<in> set (db_mappings db1)" "bm_role m = ro_pk role" "bm_pk m \<notin> bm_pk ` snd ` set old'"
      by (simp_all add: mappings_of_role_def rows)
    then show "m \<in> set saved" using rest by blast
  next
    fix m assume m: "m \<in> set saved"
    then have "bm_pk m \<notin> bm_pk ` snd ` set old'" using saved_pk by blast
    then show "m \<in> set (mappings_of_role role db')"
      using m sub saved_role by (auto simp: mappings_of_role_def rows)
  qed
  show "db' = db\<lparr>db_mappings := db_mappings db', db_next_pk := db_next_pk db'\<rparr>"
    unfolding db' delete_mappings_fold by (subst db1) simp
  show "db_next_pk db \<le> db_next_pk db'" using le by (simp add: db' delete_mappings_fold)
qed

section \<open>The V2 roles after an update\<close>

definition role_key :: "role_v2 \<Rightarrow> int \<times> string \<times> int option" where
  "role_key r = (r2_pk r, r2_uuid r, r2_v1_source r)"

definition role_keys :: "'s rbac_db \<Rightarrow> (int \<times> string \<times> int option) set" where
  "role_keys db = role_key ` set (db_roles db)"

lemma save_custom_role_keys:
  assumes "save_custom_role r db = Inr db'"
  shows "role_keys db' = insert (role_key r) {x \<in> role_keys db. fst x \<noteq> r2_pk r}"
    and "db' = db\<lparr>db_roles := db_roles db'\<rparr>"
proof -
  obtain tbl where db': "db' = db\<lparr>db_roles := tbl\<rparr>"
    and save: "typed_role_save ROLE_CUSTOM (db_roles db) r = Inr tbl"
    using save_custom_role_Inr [OF assms] by blast
  let ?f = "\<lambda>r'. if r2_pk r' = r2_pk r
      then r\<lparr>r2_permissions := r2_permissions r', r2_children := r2_children r'\<rparr> else r'"
  have tbl: "tbl = (if r2_pk r \<in> r2_pk ` set (db_roles db) then map ?f (db_roles db) else db_roles db @ [r])"
    by (rule typed_role_save_Inr(3) [OF save])
  show "role_keys db' = insert (role_key r) {x \<in> role_keys db. fst x \<noteq> r2_pk r}"
  proof (cases "r2_pk r \<in> r2_pk ` set (db_roles db)")
    case True
    have key: "(\<lambda>r'. role_key (?f r')) = (\<lambda>r'. if r2_pk r' = r2_pk r then role_key r else role_key r')"
      by (simp add: role_key_def fun_eq_iff)
    have rows: "db_roles db' = map ?f (db_roles db)" using True by (simp only: db' tbl if_True) simp
    have "role_keys db' = (\<lambda>r'. if r2_pk r' = r2_pk r then role_key r else role_key r') ` set (db_roles db)"
      unfolding role_keys_def rows set_map image_image key ..
    then show ?thesis using True by (auto simp: role_keys_def role_key_def image_iff)
  next
    case False
    then have "\<forall>r' \<in> set (db_roles db). r2_pk r' \<noteq> r2_pk r" by (metis image_eqI)
    then show ?thesis using False by (auto simp: role_keys_def role_key_def db' tbl)
  qed
  show "db' = db\<lparr>db_roles := db_roles db'\<rparr>" by (simp add: db')
qed

lemma save_roles_keys:
  assumes "foldM_r (update_step (\<lambda>r. Some (r2_pk r)) save_role_row) (old, saved, db) rs = Inr (old', saved', db')"
    and "distinct (map r2_pk rs)"
  shows "role_keys db' = role_key ` set rs \<union> {x \<in> role_keys db. fst x \<notin> r2_pk ` set rs}"
    and "old' = filter (\<lambda>(i, _). i \<notin> r2_pk ` set rs) old" and "saved' = saved @ rs"
    and "db' = db\<lparr>db_roles := db_roles db'\<rparr>"
proof -
  have "role_keys db' = role_key ` set rs \<union> {x \<in> role_keys db. fst x \<notin> r2_pk ` set rs} \<and>
      old' = filter (\<lambda>(i, _). i \<notin> r2_pk ` set rs) old \<and> saved' = saved @ rs \<and> db' = db\<lparr>db_roles := db_roles db'\<rparr>"
    using assms
  proof (induction rs arbitrary: old saved db)
    case (Cons r rs)
    from Cons.prems(1) obtain db1 where save: "save_custom_role r db = Inr db1"
      and rest: "foldM_r (update_step (\<lambda>r. Some (r2_pk r)) save_role_row)
          (AList.delete (r2_pk r) old, saved @ [r], db1) rs = Inr (old', saved', db')"
      by (auto simp: update_step_def save_role_row_def Let_def bind_r_Inr_iff)
    note S = save_custom_role_keys [OF save]
    have IH: "role_keys db' = role_key ` set rs \<union> {x \<in> role_keys db1. fst x \<notin> r2_pk ` set rs}"
        "old' = filter (\<lambda>(i, _). i \<notin> r2_pk ` set rs) (AList.delete (r2_pk r) old)"
        "saved' = (saved @ [r]) @ rs" "db' = db1\<lparr>db_roles := db_roles db'\<rparr>"
      using Cons.IH [OF rest] Cons.prems(2) by simp_all
    have "fst (role_key r) \<notin> r2_pk ` set rs" using Cons.prems(2) by (simp add: role_key_def)
    then have "role_keys db' = role_key ` set (r # rs) \<union> {x \<in> role_keys db. fst x \<notin> r2_pk ` set (r # rs)}"
      unfolding IH(1) S(1) by (auto simp: role_key_def)
    moreover have "old' = filter (\<lambda>(i, _). i \<notin> r2_pk ` set (r # rs)) old"
      unfolding IH(2) by (auto simp: AList.delete_eq intro!: filter_cong)
    moreover have "db' = db\<lparr>db_roles := db_roles db'\<rparr>"
      by (rule trans [OF IH(4)]) (subst S(2), simp)
    ultimately show ?case using IH(3) by simp
  qed simp
  then show "role_keys db' = role_key ` set rs \<union> {x \<in> role_keys db. fst x \<notin> r2_pk ` set rs}"
    and "old' = filter (\<lambda>(i, _). i \<notin> r2_pk ` set rs) old" and "saved' = saved @ rs"
    and "db' = db\<lparr>db_roles := db_roles db'\<rparr>"
    by blast+
qed

lemma delete_role_keys:
  "role_keys (delete_role_v2 r db) = {x \<in> role_keys db. fst x \<noteq> r2_pk r}"
  by (auto simp: role_keys_def delete_role_v2_def role_key_def image_iff)

definition without_v2_role :: "binding_mapping \<Rightarrow> binding_mapping" where
  "without_v2_role m = m\<lparr>bm_pk := None, bm_v2_role := None\<rparr>"

lemma delete_role_v2_frame:
  "db_ws (delete_role_v2 r db) = db_ws db"
  "map (\<lambda>m. (bm_role m, without_v2_role m)) (db_mappings (delete_role_v2 r db)) =
     map (\<lambda>m. (bm_role m, without_v2_role m)) (db_mappings db)"
  by (simp_all add: delete_role_v2_def delete_bindings_def Let_def without_v2_role_def o_def)

lemma delete_roles_fold:
  "role_keys (fold delete_role_v2 rs db) = {x \<in> role_keys db. fst x \<notin> r2_pk ` set rs}"
  "db_ws (fold delete_role_v2 rs db) = db_ws db"
  "map (\<lambda>m. (bm_role m, without_v2_role m)) (db_mappings (fold delete_role_v2 rs db)) =
     map (\<lambda>m. (bm_role m, without_v2_role m)) (db_mappings db)"
  by (induction rs arbitrary: db) (auto simp: delete_role_keys delete_role_v2_frame)

lemma update_roles_of_role:
  assumes "update_by_pk (\<lambda>r. Some (r2_pk r)) save_role_row delete_role_v2
             (map (\<lambda>r. (r2_pk r, r)) old) rs db = Inr (saved, db')"
    and "distinct (map r2_pk rs)" and "\<forall>r \<in> set rs. r2_v1_source r = Some pk"
    and origin: "\<forall>x \<in> role_keys db. snd (snd x) = Some pk \<longrightarrow> fst x \<in> r2_pk ` set old \<union> r2_pk ` set rs"
  shows "{x \<in> role_keys db'. snd (snd x) = Some pk} = role_key ` set rs" and "saved = rs"
    and "db_ws db' = db_ws db"
    and "map (\<lambda>m. (bm_role m, without_v2_role m)) (db_mappings db') =
           map (\<lambda>m. (bm_role m, without_v2_role m)) (db_mappings db)"
proof -
  obtain old' db1 where
      fold: "foldM_r (update_step (\<lambda>r. Some (r2_pk r)) save_role_row) (map (\<lambda>r. (r2_pk r, r)) old, [], db) rs
        = Inr (old', saved, db1)"
    and db': "db' = fold delete_role_v2 (map snd old') db1"
    using assms(1) by (auto simp: update_by_pk_def bind_r_Inr_iff)
  note S = save_roles_keys [OF fold assms(2)]
  have "map snd old' = filter (\<lambda>r. r2_pk r \<notin> r2_pk ` set rs) old"
    unfolding S(2) by (induction old) auto
  then have deleted: "r2_pk ` set (map snd old') = r2_pk ` set old - r2_pk ` set rs" by auto
  have keys: "role_keys db' = {x \<in> role_key ` set rs \<union> {x \<in> role_keys db. fst x \<notin> r2_pk ` set rs}.
      fst x \<notin> r2_pk ` set old - r2_pk ` set rs}"
    unfolding db' delete_roles_fold(1) deleted S(1) ..
  show "{x \<in> role_keys db'. snd (snd x) = Some pk} = role_key ` set rs"
  proof (intro set_eqI iffI)
    fix x assume "x \<in> {x \<in> role_keys db'. snd (snd x) = Some pk}"
    then show "x \<in> role_key ` set rs" unfolding keys using origin by blast
  next
    fix x assume "x \<in> role_key ` set rs"
    then obtain r where "r \<in> set rs" "x = role_key r" by blast
    then show "x \<in> {x \<in> role_keys db'. snd (snd x) = Some pk}"
      unfolding keys using assms(3) by (simp add: role_key_def)
  qed
  show "saved = rs" using S(3) by simp
  have "db_ws db1 = db_ws db" "db_mappings db1 = db_mappings db" 
    using arg_cong [OF S(4), of db_ws] arg_cong [OF S(4), of db_mappings] by simp_all
  then show "db_ws db' = db_ws db"
    and "map (\<lambda>m. (bm_role m, without_v2_role m)) (db_mappings db') =
           map (\<lambda>m. (bm_role m, without_v2_role m)) (db_mappings db)"
    by (simp_all add: db' delete_roles_fold)
qed

lemma update_bindings_frame:
  assumes "update_by_pk pk save_binding_row delete_role_binding old bs db = Inr (saved, db')"
  shows "db_roles db' = db_roles db" and "db_mappings db' = db_mappings db" and "db_ws db' = db_ws db"
proof -
  let ?P = "\<lambda>d :: 'a rbac_db. db_roles d = db_roles db \<and> db_mappings d = db_mappings db \<and> db_ws d = db_ws db"
  obtain old' db1 where fold: "foldM_r (update_step pk save_binding_row) (old, [], db) bs = Inr (old', saved, db1)"
    and db': "db' = fold delete_role_binding (map snd old') db1"
    using assms by (auto simp: update_by_pk_def bind_r_Inr_iff)
  have "?P (snd (snd (old', saved, db1)))"
  proof (rule foldM_r_invariant [OF fold, where P = "\<lambda>st. ?P (snd (snd st))"])
    fix st x st'
    assume "?P (snd (snd st))" "update_step pk save_binding_row st x = Inr st'"
    then show "?P (snd (snd st'))"
      by (cases st) (auto simp: update_step_def save_binding_row_def save_role_binding_def Let_def bind_r_Inr_iff)
  qed simp
  moreover have "?P d \<Longrightarrow> ?P (fold delete_role_binding xs d)" for xs d
    by (induction xs arbitrary: d) (auto simp: delete_role_binding_def delete_bindings_def Let_def)
  ultimately have "?P db'" by (simp add: db')
  then show "db_roles db' = db_roles db" and "db_mappings db' = db_mappings db" and "db_ws db' = db_ws db"
    by simp_all
qed

text \<open>A role that the migration leaves with the V1 role as its source is an old one or a new one.\<close>

lemma role_keys_counters [simp]:
  "role_keys (db\<lparr>db_next_pk := n\<rparr>) = role_keys db" "role_keys (db\<lparr>db_next_uuid := u\<rparr>) = role_keys db"
  by (simp_all add: role_keys_def)

lemma v2_custom_role_from_v1_keys:
  assumes "v2_custom_role_from_v1 role n u db = Inr (r, db')"
  shows "role_keys db' \<subseteq> insert (role_key r) (role_keys db)"
proof -
  have "save_custom_role r db = Inr db' \<or> save_custom_role r (db\<lparr>db_next_pk := db_next_pk db + 1\<rparr>) = Inr db'"
    using assms
    by (auto simp: v2_custom_role_from_v1_def fresh_pk_def Let_def bind_r_Inr_iff split: sum.splits py_error.splits)
  then obtain d where d: "save_custom_role r d = Inr db'" "role_keys d = role_keys db" by auto
  show ?thesis using save_custom_role_keys(1) [OF d(1)] d(2) by auto
qed

lemma role_keys_map:
  "(\<And>r. role_key (f r) = role_key r) \<Longrightarrow> role_keys (db\<lparr>db_roles := map f (db_roles db)\<rparr>) = role_keys db"
  by (simp add: role_keys_def image_image)

lemma set_role_permissions_keys [simp]: "role_keys (set_role_permissions r ps db) = role_keys db"
  unfolding set_role_permissions_def by (rule role_keys_map) (simp add: role_key_def)

lemma new_role_for_keys:
  assumes "new_role_for uuid7 role roles em ps db = Inr (r, db')"
  shows "role_keys db' \<subseteq> insert (role_key r) (role_keys db)"
proof -
  obtain eb u db1 db2 where target: "target_role_uuid_for uuid7 eb (map snd roles) db = Inr (u, db1)"
    and create: "v2_custom_role_from_v1 role (length roles + 1) u db1 = Inr (r, db2)"
    and db': "db' = set_role_permissions r ps db2"
    using assms by (auto simp: new_role_for_def bind_r_Inr_iff)
  have "role_keys db1 = role_keys db"
    using target by (auto simp: target_role_uuid_for_def fresh_uuid_def bind_r_Inr_iff split: option.splits if_splits)
  then show ?thesis using v2_custom_role_from_v1_keys [OF create] by (simp add: db')
qed

lemma get_or_create_binding_keys:
  assumes "get_or_create_binding uuid7 role r res em groups db = Inr (m, b, db')"
  shows "role_keys db' = role_keys db"
proof -
  have save: "role_keys d' = role_keys d" if "save_role_binding b d = Inr d'" for b and d d' :: "'a rbac_db"
    using that by (auto simp: save_role_binding_def role_keys_def bind_r_Inr_iff)
  have create: "role_keys d' = role_keys d" if "create_role_binding u t k ty i d = Inr (b, d')"
    for u t k ty i b and d d' :: "'a rbac_db"
    using that by (auto simp: create_role_binding_def fresh_pk_def Let_def bind_r_Inr_iff dest: save)
  have update: "role_keys d' = role_keys d" if run: "update_or_create_role_binding t u r res d = Inr (b, d')"
    for t u b and d d' :: "'a rbac_db"
  proof -
    obtain v where v: "uuid_param u = Inr v"
      using run by (auto simp: update_or_create_role_binding_def bind_r_Inr_iff)
    show ?thesis
    proof (cases "get_one (filter (\<lambda>b. rb_tenant b = t \<and> rb_uuid b = v) (db_bindings d))")
      case (Inl e)
      then have "create_role_binding v t (r2_pk r) (snd (br_type res)) (br_id res) d = Inr (b, d')"
        using run v by (auto simp: update_or_create_role_binding_def split: py_error.splits)
      then show ?thesis by (rule create)
    next
      case (Inr b0)
      then show ?thesis
        using run v by (auto simp: update_or_create_role_binding_def Let_def bind_r_Inr_iff dest: save)
    qed
  qed
  show ?thesis
    using assms
    by (auto simp: get_or_create_binding_def fresh_uuid_def Let_def bind_r_Inr_iff split: option.splits
        dest: update create)
qed

definition role_origin :: "v1_role \<Rightarrow> int set \<Rightarrow> 's migration_loop \<Rightarrow> bool" where
  "role_origin role pks = (\<lambda>(db, roles, out).
     \<forall>x \<in> role_keys db. snd (snd x) = Some (ro_pk role) \<longrightarrow> fst x \<in> pks \<union> r2_pk ` snd ` set roles)"

lemma migrate_resource_origin:
  assumes "role_origin role pks (db, roles, out)"
    and "migrate_resource uuid7 role existing groups (db, roles, out) x = Inr st'"
  shows "role_origin role pks st'"
proof -
  obtain res perms where x: "x = (res, perms)" by (cases x)
  obtain r roles' db1 m b db2 where
      pick: "(case find_role roles perms of Some r \<Rightarrow> Inr (r, roles, db)
        | None \<Rightarrow> bind_r (new_role_for uuid7 role roles (map_of existing res) perms db)
            (\<lambda>(r, db1). Inr (r, roles @ [(perms, r)], db1))) = Inr (r, roles', db1)"
    and bind: "get_or_create_binding uuid7 role r res (map_of existing res) groups db1 = Inr (m, b, db2)"
    and st': "st' = (db2, roles', out @ [(m, b)])"
    using assms(2) by (auto simp: migrate_resource_def x bind_r_Inr_iff)
  have "role_keys db1 \<subseteq> role_keys db \<and> roles' = roles \<or>
      role_keys db1 \<subseteq> insert (role_key r) (role_keys db) \<and> roles' = roles @ [(perms, r)]"
    using pick by (auto simp: bind_r_Inr_iff split: option.splits dest: new_role_for_keys)
  then have "fst x \<in> pks \<union> r2_pk ` snd ` set roles'"
    if "x \<in> role_keys db1" "snd (snd x) = Some (ro_pk role)" for x
    using bspec [OF assms(1) [unfolded role_origin_def prod.case], of x] that by (auto simp: role_key_def)
  then show ?thesis
    using get_or_create_binding_keys [OF bind] unfolding st' role_origin_def prod.case by blast
qed

lemma migration_origin:
  assumes "permission_groupings_to_v2_role_bindings uuid7 groupings role ms rs db = Inr (result, db')"
    and "x \<in> role_keys db'" and "snd (snd x) = Some (ro_pk role)"
  shows "fst x \<in> r2_pk ` set (v2_roles_of_role role db) \<union> r2_pk ` set (mr_v2_roles result)"
proof -
  let ?f = "\<lambda>r :: role_v2. if r2_type r = ROLE_CUSTOM \<and> r2_pk r \<in> r2_pk ` set rs then r\<lparr>r2_name := r2_uuid r\<rparr> else r"
  let ?db0 = "db\<lparr>db_roles := map ?f (db_roles db)\<rparr>"
  from assms(1) obtain existing groups db2 roles out where
      fold: "foldM_r (migrate_resource uuid7 role existing groups) (?db0, [], []) groupings = Inr (db2, roles, out)"
    and result: "mk_migrate_result (map snd roles) (map fst out) (map snd out) = Inr result"
    and db': "db' = db2\<lparr>db_binding_groups := db_binding_groups db'\<rparr>"
    by (auto simp: permission_groupings_to_v2_role_bindings_def bind_r_Inr_iff Let_def)
  have keys0: "role_keys ?db0 = role_keys db" by (rule role_keys_map) (simp add: role_key_def)
  let ?P = "role_origin role (r2_pk ` set (v2_roles_of_role role db))"
  have "?P (db2, roles, out)"
  proof (rule foldM_r_invariant [OF fold])
    show "?P (?db0, [], [])"
      unfolding role_origin_def prod.case keys0 by (auto simp: role_keys_def role_key_def v2_roles_of_role_def)
    show "?P st'" if "?P st" "migrate_resource uuid7 role existing groups st y = Inr st'" for st y st'
      using that by (cases st) (auto intro: migrate_resource_origin)
  qed
  moreover have "mr_v2_roles result = map snd roles"
    using result by (auto simp: mk_migrate_result_def split: if_splits)
  moreover have "x \<in> role_keys db2"
    using assms(2) arg_cong [OF db', of db_roles] by (simp add: role_keys_def)
  ultimately show ?thesis using assms(3) by (auto simp: role_origin_def)
qed

lemma same_rows_elsewhere_frame:
  "same_rows_elsewhere a b \<Longrightarrow>
     db_mappings b = db_mappings a \<and> db_ws b = db_ws a \<and> db_next_pk a \<le> db_next_pk b"
  by (cases a; cases b) (simp add: same_rows_elsewhere_def)

lemma migrate_role_facts:
  assumes run: "migrate_role st rp uuid7 now role resolver mappings v2_roles db = Inr (tuples, result, db')"
    and "role_rows_wf db" and "mappings_wf uuid7 mappings" and "nulls_resolved (wst_table (db_ws db)) role"
    and rbac0: "\<forall>s rs. resolver s = Inr rs \<longrightarrow> (\<forall>r \<in> set rs. fst (br_type r) = ''rbac'')"
  shows "db_mappings db' = db_mappings db" and "wst_repl (db_ws db') = wst_repl (db_ws db)"
    and "wst_tenants (db_ws db') = wst_tenants (db_ws db)"
    and "db_next_pk db \<le> db_next_pk db'"
    and "\<forall>m \<in> set (mr_binding_mappings result). bm_pk m = None \<and> bm_role m = ro_pk role \<or>
           (\<exists>m0 \<in> set mappings. bm_pk m = bm_pk m0 \<and> bm_role m = bm_role m0 \<and> bm_id m = bm_id m0)"
    and "distinct (map bm_id (mr_binding_mappings result))"
    and "\<forall>m \<in> set (mr_binding_mappings result). bm_resource_type_namespace m = ''rbac''"
    and "\<forall>r \<in> set (mr_v2_roles result). r2_v1_source r = Some (ro_pk role)"
    and "distinct (map r2_pk (mr_v2_roles result))" and "distinct (map r2_uuid (mr_v2_roles result))"
    and "relation_tuples_for_bindings (rc_domain st) (mr_binding_mappings result) = Inr tuples"
    and "\<forall>x \<in> role_keys db'. snd (snd x) = Some (ro_pk role) \<longrightarrow>
           fst x \<in> r2_pk ` set (v2_roles_of_role role db) \<union> r2_pk ` set (mr_v2_roles result)"
proof -
  from run obtain groupings db2 where
      run1: "role_permission_groupings st rp uuid7 now role resolver db = Inr (groupings, db2)"
    and run2: "permission_groupings_to_v2_role_bindings uuid7 groupings role mappings v2_roles db2 = Inr (result, db')"
    and tuples: "relation_tuples_for_bindings (rc_domain st) (mr_binding_mappings result) = Inr tuples"
    by (auto simp: migrate_role_def v1_role_to_v2_bindings_def bind_r_Inr_iff)
  have rbac: "\<And>s rs. resolver s = Inr rs \<Longrightarrow> \<forall>r \<in> set rs. fst (br_type r) = ''rbac''" using rbac0 by blast
  obtain pm is_ocm dflt cache where
      "scope_service st = Inr pm"
      "ocm_default_workspace st role db = Inr (is_ocm, dflt, db\<lparr>db_ws := (db_ws db)\<lparr>wst_cache := cache\<rparr>\<rparr>)"
    and keys: "distinct (map fst groupings)" "\<forall>res \<in> fst ` set groupings. fst (br_type res) = ''rbac''"
    and "fst ` set groupings = fst ` grouping_rel groupings"
    and db2: "db2 = db\<lparr>db_ws := (db_ws db)\<lparr>wst_cache := cache\<rparr>, db_next_uuid := db_next_uuid db2\<rparr>"
    and "grouping_rel groupings = (\<Union>access \<in> set (ro_access role).
       access_targets pm resolver (wst_table (db_ws db)) (ro_tenant role) is_ocm dflt access \<times> {ac_permission access})"
    by (rule role_permission_groupings_spec [OF run1 assms(4) rbac])
  have wf2: "role_rows_wf db2"
    using assms(2) arg_cong [OF db2, of db_roles] arg_cong [OF db2, of db_next_pk] by (simp add: role_rows_wf_def)
  obtain groups existing roles out db0 db3 where "role_policy_groups role db2 = Inr groups"
    and existing: "mappings_by_resource mappings = Inr existing"
    and inv: "loop_inv uuid7 role existing groups db0 groupings (db3, roles, out)"
    and db0: "db0 = db2\<lparr>db_roles := db_roles db0\<rparr>" and db': "db' = db3\<lparr>db_binding_groups := db_binding_groups db'\<rparr>"
    and result: "mr_v2_roles result = map snd roles" "mr_binding_mappings result = map fst out"
      "mr_role_bindings result = map snd out"
    by (rule permission_groupings_migrated [OF run2 wf2 assms(3) keys])
  note I = inv [unfolded loop_inv_def prod.case]
  have db3: "same_rows_elsewhere db0 db3" using I by blast
  have "db_mappings db' = db_mappings db3" "db_ws db' = db_ws db3" "db_next_pk db' = db_next_pk db3"
    using arg_cong [OF db', of db_mappings] arg_cong [OF db', of db_ws] arg_cong [OF db', of db_next_pk] by simp_all
  moreover have "db_mappings db0 = db_mappings db2" "db_ws db0 = db_ws db2" "db_next_pk db0 = db_next_pk db2"
    using arg_cong [OF db0, of db_mappings] arg_cong [OF db0, of db_ws] arg_cong [OF db0, of db_next_pk] by simp_all
  moreover have "db_mappings db2 = db_mappings db" "db_ws db2 = (db_ws db)\<lparr>wst_cache := cache\<rparr>" "db_next_pk db2 = db_next_pk db"
    using arg_cong [OF db2, of db_mappings] arg_cong [OF db2, of db_ws] arg_cong [OF db2, of db_next_pk] by simp_all
  ultimately have "db_mappings db' = db_mappings db \<and> db_ws db' = (db_ws db)\<lparr>wst_cache := cache\<rparr> \<and> db_next_pk db \<le> db_next_pk db'"
    using same_rows_elsewhere_frame [OF db3] by simp
  then show "db_mappings db' = db_mappings db" "wst_repl (db_ws db') = wst_repl (db_ws db)"
    "wst_tenants (db_ws db') = wst_tenants (db_ws db)" "db_next_pk db \<le> db_next_pk db'"
    by simp_all
  have entries: "list_all2 (loop_entry roles groups) groupings out"
    and origins: "list_all2 (\<lambda>(resource, _) (m, _). entry_origin uuid7 role existing (db_next_uuid db3) resource m) groupings out"
    and source: "\<forall>(ps, r) \<in> set roles. r2_v1_source r = Some (ro_pk role)"
    and rows: "\<forall>(ps, r) \<in> set roles. custom_row db3 (r2_pk r) (r2_uuid r) ps"
    and uuids: "distinct (map (\<lambda>(ps, r). r2_uuid r) roles)" and wf3: "role_rows_wf db3"
    and ids: "distinct (map (\<lambda>(m, b). bm_id m) out)"
    using I by blast+
  show "\<forall>m \<in> set (mr_binding_mappings result). bm_pk m = None \<and> bm_role m = ro_pk role \<or>
      (\<exists>m0 \<in> set mappings. bm_pk m = bm_pk m0 \<and> bm_role m = bm_role m0 \<and> bm_id m = bm_id m0)"
  proof
    fix m assume "m \<in> set (mr_binding_mappings result)"
    then obtain i where i: "i < length out" "m = fst (out ! i)" by (auto simp: result in_set_conv_nth)
    then have "entry_origin uuid7 role existing (db_next_uuid db3) (fst (groupings ! i)) m"
      using list_all2_nthD2 [OF origins i(1)] by (simp add: case_prod_beta)
    then show "bm_pk m = None \<and> bm_role m = ro_pk role \<or>
        (\<exists>m0 \<in> set mappings. bm_pk m = bm_pk m0 \<and> bm_role m = bm_role m0 \<and> bm_id m = bm_id m0)"
      using mappings_by_resource_origin [OF existing] by (auto simp: entry_origin_def split: option.splits)
  qed
  show "distinct (map bm_id (mr_binding_mappings result))"
    using ids by (simp add: result case_prod_unfold o_def)
  show "\<forall>m \<in> set (mr_binding_mappings result). bm_resource_type_namespace m = ''rbac''"
  proof
    fix m assume "m \<in> set (mr_binding_mappings result)"
    then obtain i where i: "i < length out" "m = fst (out ! i)" by (auto simp: result in_set_conv_nth)
    then have "br_type (fst (groupings ! i)) = (bm_resource_type_namespace m, bm_resource_type_name m)"
      using list_all2_nthD2 [OF entries i(1)] by (auto simp: loop_entry_def mapping_for_def case_prod_beta)
    moreover have "fst (groupings ! i) \<in> fst ` set groupings"
      using i(1) list_all2_lengthD [OF entries] by simp
    ultimately show "bm_resource_type_namespace m = ''rbac''" using keys(2) by fastforce
  qed
  show "\<forall>r \<in> set (mr_v2_roles result). r2_v1_source r = Some (ro_pk role)"
    using source by (auto simp: result)
  have uuids': "distinct (map r2_uuid (map snd roles))" using uuids by (simp add: case_prod_unfold o_def)
  then show "distinct (map r2_uuid (mr_v2_roles result))" by (simp add: result)
  have "r2_uuid r = r2_uuid r'"
    if r: "r \<in> set (map snd roles)" "r' \<in> set (map snd roles)" and pk: "r2_pk r = r2_pk r'" for r r'
  proof -
    obtain ps ps' where rr: "(ps, r) \<in> set roles" "(ps', r') \<in> set roles" using r by auto
    then obtain x where "x \<in> set (db_roles db3)" "r2_pk x = r2_pk r" "r2_uuid x = r2_uuid r"
      using rows by (auto simp: custom_row_def)
    moreover have "custom_row db3 (r2_pk r') (r2_uuid r') ps'" using rows rr(2) by blast
    ultimately show ?thesis using custom_row_pk [OF wf3] pk by metis
  qed
  then have "inj_on r2_pk (set (map snd roles))"
    using uuids' unfolding distinct_map by (meson inj_onD inj_onI)
  then show "distinct (map r2_pk (mr_v2_roles result))"
    using uuids' unfolding result distinct_map by blast
  show "relation_tuples_for_bindings (rc_domain st) (mr_binding_mappings result) = Inr tuples" by (rule tuples)
  have "v2_roles_of_role role db2 = v2_roles_of_role role db"
    using arg_cong [OF db2, of db_roles] by (simp add: v2_roles_of_role_def)
  then show "\<forall>x \<in> role_keys db'. snd (snd x) = Some (ro_pk role) \<longrightarrow>
      fst x \<in> r2_pk ` set (v2_roles_of_role role db) \<union> r2_pk ` set (mr_v2_roles result)"
    using migration_origin [OF run2] by simp
qed

section \<open>The role in the access graph\<close>

text \<open>The tuples of a role's rows: those of its binding mappings and the owner of each of its V2 roles.\<close>

definition mapping_graph :: "string \<Rightarrow> binding_mapping \<Rightarrow> relation_tuple set" where
  "mapping_graph domain m =
     (case get_role_binding m of Inr b \<Rightarrow> set (binding_tuples domain b) | Inl _ \<Rightarrow> {})"

definition owner_graph :: "string \<Rightarrow> tenant \<Rightarrow> string set \<Rightarrow> relation_tuple set" where
  "owner_graph domain t uuids =
     (case tenant_resource_id domain t of
        None \<Rightarrow> {}
      | Some i \<Rightarrow> if i = [] then {} else (\<lambda>u. owner_tuple u i) ` uuids)"

definition role_graph :: "string \<Rightarrow> tenant \<Rightarrow> v1_role \<Rightarrow> 's rbac_db \<Rightarrow> relation_tuple set" where
  "role_graph domain t role db =
     \<Union> (mapping_graph domain ` set (mappings_of_role role db)) \<union>
     owner_graph domain t (r2_uuid ` set (v2_roles_of_role role db))"

lemma mapping_graph_columns:
  "mapping_graph domain (without_pk m) = mapping_graph domain m"
  "mapping_graph domain (without_v2_role m) = mapping_graph domain m"
  by (simp_all add: mapping_graph_def without_pk_def without_v2_role_def get_role_binding_def)

lemma relation_tuples_graph:
  assumes "relation_tuples_for_bindings domain ms = Inr ts"
  shows "set ts = \<Union> (mapping_graph domain ` set ms)" and "list_all valid_relation_tuple ts"
proof -
  obtain bs where bs: "list_all2 (\<lambda>m b. get_role_binding m = Inr b) ms bs"
    and ts: "ts = concat (map (binding_tuples domain) bs)" and v: "list_all valid_relation_tuple ts"
    by (rule relation_tuples_for_bindings_Inr [OF assms])
  show "list_all valid_relation_tuple ts" by (rule v)
  show "set ts = \<Union> (mapping_graph domain ` set ms)"
    unfolding ts using bs by (induction rule: list_all2_induct) (simp_all add: mapping_graph_def)
qed

lemma owner_relationships_graph:
  assumes "owner_relationships domain t rs = Inr ts"
  shows "set ts = owner_graph domain t (r2_uuid ` set rs)" and "list_all valid_relation_tuple ts"
    and "distinct (map r2_uuid rs) \<Longrightarrow> distinct ts" and "\<forall>u \<in> set ts. \<exists>r i. u = owner_tuple r i"
proof -
  have owners: "mapM_r (\<lambda>r. role_owner_relationship (r2_uuid r) i) rs = Inr ts \<longleftrightarrow>
      ts = map (\<lambda>r. owner_tuple (r2_uuid r) i) rs \<and> list_all valid_relation_tuple ts" for i
    by (rule mapM_r_tuples) (rule tuple_constructors_Inr(6))
  consider (none) "ts = []" "owner_graph domain t (r2_uuid ` set rs) = {}"
    | (some) i where "ts = map (\<lambda>r. owner_tuple (r2_uuid r) i) rs" "list_all valid_relation_tuple ts"
        "owner_graph domain t (r2_uuid ` set rs) = (\<lambda>u. owner_tuple u i) ` r2_uuid ` set rs"
    using assms by (auto simp: owner_relationships_def owner_graph_def owners split: option.splits if_splits)
  then have "set ts = owner_graph domain t (r2_uuid ` set rs) \<and> list_all valid_relation_tuple ts \<and>
      (distinct (map r2_uuid rs) \<longrightarrow> distinct ts) \<and> (\<forall>u \<in> set ts. \<exists>r i. u = owner_tuple r i)"
    by cases (auto simp: distinct_map inj_on_def)
  then show "set ts = owner_graph domain t (r2_uuid ` set rs)" "list_all valid_relation_tuple ts"
    "distinct (map r2_uuid rs) \<Longrightarrow> distinct ts" "\<forall>u \<in> set ts. \<exists>r i. u = owner_tuple r i"
    by blast+
qed

text \<open>The tuples that are prepared for removal: none, when the role has no binding mapping.\<close>

definition prepared_graph :: "string \<Rightarrow> tenant \<Rightarrow> v1_role \<Rightarrow> 's rbac_db \<Rightarrow> relation_tuple set" where
  "prepared_graph domain t role db = (if mappings_of_role role db = [] then {} else role_graph domain t role db)"

lemma prepare_for_update_spec:
  assumes run: "prepare_for_update st db h = Inr h1" and "mapping_rows_wf db" and "role_rows_wf db"
    and "rh_current_role_relations h = []"
  shows "rh_binding_mappings h1 = map (\<lambda>m. (the (bm_pk m), m)) (mappings_of_role (rh_role h) db)"
    and "rh_v2_roles h1 = map (\<lambda>r. (r2_pk r, r)) (v2_roles_of_role (rh_role h) db)"
    and "set (rh_current_role_relations h1) = prepared_graph (rc_domain st) (rh_tenant h) (rh_role h) db"
    and "list_all valid_relation_tuple (rh_current_role_relations h1)"
    and "rh_tenant h1 = rh_tenant h" and "rh_expected_empty_relation_reason h1 = rh_expected_empty_relation_reason h"
    and "rh_role h1 = rh_role h" and "rh_role_relations h1 = rh_role_relations h"
proof -
  let ?ms = "mappings_of_role (rh_role h) db" and ?rs = "v2_roles_of_role (rh_role h) db"
  obtain mappings bindings roles where
      m: "by_pk bm_pk ?ms = Inr mappings" and r: "by_pk (\<lambda>r. Some (r2_pk r)) ?rs = Inr roles"
    and rest: "(let h1 = h\<lparr>rh_binding_mappings := mappings, rh_role_bindings := bindings, rh_v2_roles := roles\<rparr>
       in if mappings = [] then Inr h1
          else bind_r (relation_tuples_for_bindings (rc_domain st) (map snd mappings)) (\<lambda>current.
               bind_r (owner_relationships (rc_domain st) (rh_tenant h) (map snd roles)) (\<lambda>owners.
                 Inr (h1\<lparr>rh_current_role_relations := current @ owners\<rparr>)))) = Inr h1"
    using run by (auto simp: prepare_for_update_def bind_r_Inr_iff)
  have "distinct (map bm_pk ?ms)"
    using assms(2) by (simp add: mapping_rows_wf_def mappings_of_role_def distinct_map_filter)
  then have mappings: "mappings = map (\<lambda>m. (the (bm_pk m), m)) ?ms" using by_pk_Inr [OF m] by blast
  have "distinct (map r2_pk ?rs)"
    using assms(3) by (simp add: role_rows_wf_def v2_roles_of_role_def distinct_map_filter)
  then have "distinct (map (\<lambda>r. Some (r2_pk r)) ?rs)" by (simp add: distinct_map inj_on_def)
  then have roles: "roles = map (\<lambda>r. (r2_pk r, r)) ?rs" using by_pk_Inr [OF r] by simp
  have "rh_binding_mappings h1 = mappings \<and> rh_v2_roles h1 = roles \<and>
      set (rh_current_role_relations h1) = prepared_graph (rc_domain st) (rh_tenant h) (rh_role h) db \<and>
      list_all valid_relation_tuple (rh_current_role_relations h1) \<and> rh_tenant h1 = rh_tenant h \<and>
      rh_expected_empty_relation_reason h1 = rh_expected_empty_relation_reason h \<and> rh_role h1 = rh_role h \<and>
      rh_role_relations h1 = rh_role_relations h"
  proof (cases "?ms = []")
    case True
    then show ?thesis
      using rest assms(4) by (auto simp: mappings roles prepared_graph_def)
  next
    case False
    then obtain current owners where c: "relation_tuples_for_bindings (rc_domain st) (map snd mappings) = Inr current"
      and o: "owner_relationships (rc_domain st) (rh_tenant h) (map snd roles) = Inr owners"
      and h1: "h1 = h\<lparr>rh_binding_mappings := mappings, rh_role_bindings := bindings, rh_v2_roles := roles,
        rh_current_role_relations := current @ owners\<rparr>"
      using rest by (auto simp: mappings bind_r_Inr_iff)
    show ?thesis
      using relation_tuples_graph [OF c] owner_relationships_graph(1,2) [OF o]
      False by (simp add: h1 prepared_graph_def role_graph_def mappings roles image_image o_def)
  qed
  then show "rh_binding_mappings h1 = map (\<lambda>m. (the (bm_pk m), m)) (mappings_of_role (rh_role h) db)"
    and "rh_v2_roles h1 = map (\<lambda>r. (r2_pk r, r)) (v2_roles_of_role (rh_role h) db)"
    and "set (rh_current_role_relations h1) = prepared_graph (rc_domain st) (rh_tenant h) (rh_role h) db"
    and "list_all valid_relation_tuple (rh_current_role_relations h1)"
    and "rh_tenant h1 = rh_tenant h" and "rh_expected_empty_relation_reason h1 = rh_expected_empty_relation_reason h"
    and "rh_role h1 = rh_role h" and "rh_role_relations h1 = rh_role_relations h"
    using mappings roles by blast+
qed

lemma AList_update_values: "snd ` set (AList.update k v d) \<subseteq> insert v (snd ` set d)"
  by (induction d) auto

lemma mk_bound_resource_type: "mk_bound_resource ty i = Inr r \<Longrightarrow> br_type r = ty"
  by (simp add: mk_bound_resource_Inr_iff)

lemma for_model_rbac: "for_model domain model = Inr r \<Longrightarrow> fst (br_type r) = ''rbac''"
  by (cases model; cases "tenant_resource_id domain (case model of TenantModel t \<Rightarrow> t)")
    (auto simp: for_model_def try_for_model_def for_workspace_id_def bind_r_Inr_iff dest!: mk_bound_resource_type)

lemma with_workspace_scope_inheritance_values:
  assumes "(s, rs) \<in> set (with_workspace_scope_inheritance d)"
  shows "set rs \<subseteq> snd ` set d"
proof -
  let ?flat = "case (map_of d SCOPE_ROOT, map_of d SCOPE_DEFAULT) of
      (Some root, None) \<Rightarrow> AList.update SCOPE_DEFAULT root d | _ \<Rightarrow> d"
  have flat: "snd ` set ?flat \<subseteq> snd ` set d"
  proof (cases "map_of d SCOPE_ROOT")
    case (Some root)
    then have "root \<in> snd ` set d" by (force dest: map_of_SomeD)
    then show ?thesis
      using AList_update_values [of SCOPE_DEFAULT root d] Some by (auto split: option.splits)
  qed simp
  have "rs \<in> snd ` set (AList.update SCOPE_ALL (remdups (map snd ?flat)) (map (\<lambda>(s, r). (s, [r])) ?flat))"
    using assms unfolding with_workspace_scope_inheritance_def Let_def by (rule rev_image_eqI) simp
  then have "rs = remdups (map snd ?flat) \<or> (\<exists>r \<in> snd ` set ?flat. rs = [r])"
    using AList_update_values [of SCOPE_ALL "remdups (map snd ?flat)" "map (\<lambda>(s, r). (s, [r])) ?flat"] by fastforce
  then have "set rs \<subseteq> snd ` set ?flat" by (elim disjE bexE) simp_all
  then show ?thesis using flat by (rule order_trans)
qed

lemma ball_subset: "\<forall>x \<in> B. P x \<Longrightarrow> A \<subseteq> B \<Longrightarrow> \<forall>x \<in> A. P x"
  by blast

lemma scope_resource_map_rbac:
  assumes "scope_resource_map st h = Inr resource_map"
    and "bound_resource_resolver_from_map (with_workspace_scope_inheritance resource_map) s = Inr rs"
  shows "\<forall>r \<in> set rs. fst (br_type r) = ''rbac''"
proof -
  let ?P = "\<lambda>d :: (scope \<times> v2_bound_resource) list. \<forall>r \<in> snd ` set d. fst (br_type r) = ''rbac''"
  let ?f = "\<lambda>d s. bind_r (bound_model_for_scope s (rh_tenant h) (rh_root_workspace h) (rh_default_workspace h)) (\<lambda>model.
      bind_r (for_model (rc_domain st) model) (\<lambda>resource. Inr (AList.update s resource d)))"
  obtain scopes where fold: "foldM_r ?f [] scopes = Inr resource_map"
    using assms(1) by (auto simp: scope_resource_map_def bind_r_Inr_iff)
  have "?P resource_map"
  proof (rule foldM_r_invariant [OF fold, where P = ?P])
    fix d s d' assume d: "?P d" "?f d s = Inr d'"
    obtain model r where r: "for_model (rc_domain st) model = Inr r" "d' = AList.update s r d"
      using d(2) by (auto simp: bind_r_Inr_iff)
    have sub: "snd ` set d' \<subseteq> insert r (snd ` set d)" unfolding r(2) by (rule AList_update_values)
    show "?P d'"
    proof
      fix x assume "x \<in> snd ` set d'"
      then have "x = r \<or> x \<in> snd ` set d" using sub by blast
      then show "fst (br_type x) = ''rbac''"
      proof
        assume "x = r" then show ?thesis using for_model_rbac [OF r(1)] by simp
      next
        assume "x \<in> snd ` set d" with d(1) show ?thesis by (rule bspec)
      qed
    qed
  qed simp
  moreover have "map_of (with_workspace_scope_inheritance resource_map) s = Some rs"
    using assms(2) unfolding bound_resource_resolver_from_map_def by (cases "map_of (with_workspace_scope_inheritance resource_map) s") simp_all
  then have "set rs \<subseteq> snd ` set resource_map"
    by (intro with_workspace_scope_inheritance_values) (rule map_of_SomeD)
  ultimately show ?thesis by (rule ball_subset)
qed

lemma bindings_of_mappings:
  assumes "list_all2 (\<lambda>m b. get_role_binding m = Inr b) ms bs"
  shows "map vb_id bs = map bm_id ms"
    and "map (\<lambda>b. fst (br_type (vb_resource b))) bs = map bm_resource_type_namespace ms"
  using assms by (induction rule: list_all2_induct) (auto dest: get_role_binding_Inr)

lemma migrated_additions:
  assumes "relation_tuples_for_bindings domain ms = Inr tuples" and "owner_relationships domain t rs = Inr owners"
    and "distinct (map bm_id ms)" and "\<forall>m \<in> set ms. bm_resource_type_namespace m = ''rbac''"
    and "distinct (map r2_uuid rs)"
  shows "set (deduplicate_role_permission_relationships tuples @ owners) =
      \<Union> (mapping_graph domain ` set ms) \<union> owner_graph domain t (r2_uuid ` set rs)"
    and "list_all valid_relation_tuple (deduplicate_role_permission_relationships tuples @ owners)"
    and "distinct (map stringify_spicedb_relationship (deduplicate_role_permission_relationships tuples @ owners))"
proof -
  obtain bs where bs: "list_all2 (\<lambda>m b. get_role_binding m = Inr b) ms bs"
    and ts: "tuples = concat (map (binding_tuples domain) bs)" and v: "list_all valid_relation_tuple tuples"
    by (rule relation_tuples_for_bindings_Inr [OF assms(1)])
  let ?d = "deduplicate_role_permission_relationships tuples"
  note B = bindings_of_mappings [OF bs] and O = owner_relationships_graph [OF assms(2)]
  have "set (map (\<lambda>b. fst (br_type (vb_resource b))) bs) \<subseteq> {''rbac''}" unfolding B(2) using assms(4) by auto
  then have "\<forall>b \<in> set bs. fst (br_type (vb_resource b)) = ''rbac''" by auto
  then have graph: "\<forall>u \<in> set tuples. role_graph_tuple u" using bindings_graph_tuples v unfolding ts by blast
  have "distinct (map vb_id bs)" using B(1) assms(3) by simp
  then have d: "distinct ?d"
    unfolding ts by (intro distinct_dedup_role_permissions distinct_bindings_tuples) (use graph ts in blast)
  have set_d: "set ?d = set tuples" by (rule set_dedup_role_permissions [OF graph])
  show "set (?d @ owners) = \<Union> (mapping_graph domain ` set ms) \<union> owner_graph domain t (r2_uuid ` set rs)"
    using set_d relation_tuples_graph(1) [OF assms(1)] O(1) by simp
  show "list_all valid_relation_tuple (?d @ owners)" using v O(2) set_d unfolding list_all_iff by auto
  have owners: "\<forall>u \<in> set owners. role_graph_tuple u"
    using O(2,4) unfolding role_graph_tuple_def list_all_iff by blast
  have "u \<notin> set owners" if "u \<in> set tuples" for u
    using that O(4) unfolding ts by (auto simp: set_binding_tuples)
  then have "distinct (?d @ owners)" using d O(3) assms(5) set_d by auto
  moreover have "inj_on stringify_spicedb_relationship (set (?d @ owners))"
    using graph owners set_d by (intro inj_on_key) auto
  ultimately show "distinct (map stringify_spicedb_relationship (?d @ owners))"
    unfolding distinct_map by blast
qed

lemma distinct_known_keys:
  assumes "distinct (map f xs)" and "\<forall>x \<in> set xs. \<forall>y \<in> set xs. g x \<noteq> None \<longrightarrow> g x = g y \<longrightarrow> f x = f y"
  shows "distinct (filter (\<lambda>k. k \<noteq> None) (map g xs))"
  using assms
proof (induction xs)
  case (Cons x xs)
  have "g x \<notin> set (map g xs)" if "g x \<noteq> None"
  proof
    assume "g x \<in> set (map g xs)"
    then obtain y where y: "y \<in> set xs" "g x = g y" by auto
    then have "f x = f y" using Cons.prems(2) that by (meson list.set_intros)
    then show False using Cons.prems(1) y(1) by simp
  qed
  then have "g x = None \<or> g x \<notin> set (filter (\<lambda>k. k \<noteq> None) (map g xs))"
    by (cases "g x = None") simp_all
  moreover have "distinct (filter (\<lambda>k. k \<noteq> None) (map g xs))"
  proof (rule Cons.IH)
    show "distinct (map f xs)" using Cons.prems(1) by simp
    show "\<forall>x \<in> set xs. \<forall>y \<in> set xs. g x \<noteq> None \<longrightarrow> g x = g y \<longrightarrow> f x = f y"
      using Cons.prems(2) by (meson list.set_intros(2))
  qed
  ultimately show ?case by (auto simp del: not_None_eq)
qed simp

lemma mappings_graph_columns:
  "mapping_graph d ` set (mappings_of_role role db) =
     mapping_graph d ` snd ` set (filter (\<lambda>p. fst p = ro_pk role)
       (map (\<lambda>m. (bm_role m, without_v2_role m)) (db_mappings db)))"
  unfolding filter_map by (simp add: mappings_of_role_def image_image mapping_graph_columns o_def)

lemma role_uuids_of_keys:
  "r2_uuid ` set (v2_roles_of_role role db) =
     (\<lambda>x. fst (snd x)) ` {x \<in> role_keys db. snd (snd x) = Some (ro_pk role)}"
proof -
  have "{x \<in> role_keys db. snd (snd x) = Some (ro_pk role)} = role_key ` set (v2_roles_of_role role db)"
    by (auto simp: v2_roles_of_role_def role_keys_def role_key_def)
  then show ?thesis by (simp add: image_image role_key_def)
qed

lemma generate_relations_spec:
  assumes run: "generate_relations_and_mappings_for_role st rp uuid7 now h db = Inr (h2, db')"
    and mwf: "mapping_rows_wf db" and rwf: "role_rows_wf db"
    and "mappings_wf uuid7 (mappings_of_role (rh_role h) db)" and "nulls_resolved (wst_table (db_ws db)) (rh_role h)"
    and hm: "rh_binding_mappings h = map (\<lambda>m. (the (bm_pk m), m)) (mappings_of_role (rh_role h) db)"
    and hr: "rh_v2_roles h = map (\<lambda>r. (r2_pk r, r)) (v2_roles_of_role (rh_role h) db)"
  shows "set (rh_role_relations h2) = role_graph (rc_domain st) (rh_tenant h) (rh_role h) db'"
    and "list_all valid_relation_tuple (rh_role_relations h2)"
    and "distinct (map stringify_spicedb_relationship (rh_role_relations h2))"
    and "wst_repl (db_ws db') = wst_repl (db_ws db)" and "wst_tenants (db_ws db') = wst_tenants (db_ws db)"
    and "rh_current_role_relations h2 = rh_current_role_relations h" and "rh_role h2 = rh_role h"
    and "rh_expected_empty_relation_reason h2 = rh_expected_empty_relation_reason h"
proof -
  let ?role = "rh_role h" let ?ms = "mappings_of_role ?role db" and ?rs = "v2_roles_of_role ?role db"
  let ?dom = "rc_domain st"
  from run obtain resource_map relations0 result db1 saved db2 saved_bindings db3 saved_roles bindings mappings roles owners
    where rm: "scope_resource_map st h = Inr resource_map"
      and mig: "migrate_role st rp uuid7 now ?role
          (bound_resource_resolver_from_map (with_workspace_scope_inheritance resource_map)) ?ms ?rs db
          = Inr (relations0, result, db1)"
      and um: "update_by_pk bm_pk save_binding_mapping delete_binding_mapping
          (map (\<lambda>m. (the (bm_pk m), m)) ?ms) (mr_binding_mappings result) db1 = Inr (saved, db2)"
      and ub: "update_by_pk (\<lambda>b. Some (rb_pk b)) save_binding_row delete_role_binding
          (rh_role_bindings h) (mr_role_bindings result) db2 = Inr (saved_bindings, db3)"
      and ur: "update_by_pk (\<lambda>r. Some (r2_pk r)) save_role_row delete_role_v2
          (map (\<lambda>r. (r2_pk r, r)) ?rs) (mr_v2_roles result) db3 = Inr (saved_roles, db')"
      and pr: "by_pk (\<lambda>r. Some (r2_pk r)) saved_roles = Inr roles"
      and ow: "owner_relationships ?dom (rh_tenant h) (map snd roles) = Inr owners"
      and h2: "h2 = h\<lparr>rh_role_relations := deduplicate_role_permission_relationships relations0 @ owners,
          rh_binding_mappings := mappings, rh_role_bindings := bindings, rh_v2_roles := roles\<rparr>"
    by (auto simp: generate_relations_and_mappings_for_role_def bind_r_Inr_iff Let_def hm hr o_def)
  have "\<forall>s rs. bound_resource_resolver_from_map (with_workspace_scope_inheritance resource_map) s = Inr rs \<longrightarrow>
      (\<forall>r \<in> set rs. fst (br_type r) = ''rbac'')"
    by (intro allI impI) (rule scope_resource_map_rbac [OF rm])
  note F = migrate_role_facts [OF mig rwf assms(4,5) this]
  have ms1: "mappings_of_role ?role db1 = ?ms" using F(1) by (simp add: mappings_of_role_def)
  have wf1: "mapping_rows_wf db1" using mwf F(1,4) by (fastforce simp: mapping_rows_wf_def)
  have same_id: "bm_id m = bm_id m'"
    if m: "m \<in> set (mr_binding_mappings result)" "m' \<in> set (mr_binding_mappings result)"
      and pk: "bm_pk m \<noteq> None" "bm_pk m = bm_pk m'" for m m'
  proof -
    have "\<exists>m0 \<in> set ?ms. bm_pk x = bm_pk m0 \<and> bm_id x = bm_id m0"
      if "x \<in> set (mr_binding_mappings result)" "bm_pk x \<noteq> None" for x
      using bspec [OF F(5) that(1)] that(2) by blast
    then obtain m0 m1 where m0: "m0 \<in> set ?ms" "bm_pk m = bm_pk m0" "bm_id m = bm_id m0"
      and m1: "m1 \<in> set ?ms" "bm_pk m' = bm_pk m1" "bm_id m' = bm_id m1"
      using m pk by metis
    have "inj_on bm_pk (set (db_mappings db))" using mwf by (simp add: mapping_rows_wf_def distinct_map)
    moreover have "m0 \<in> set (db_mappings db)" "m1 \<in> set (db_mappings db)" "bm_pk m0 = bm_pk m1"
      using m0 m1 pk(2) by (simp_all add: mappings_of_role_def)
    ultimately have "m0 = m1" by (simp add: inj_on_eq_iff)
    then show ?thesis using m0(3) m1(3) by simp
  qed
  have "distinct (filter (\<lambda>k. k \<noteq> None) (map bm_pk (mr_binding_mappings result)))"
    by (rule distinct_known_keys [OF F(6)]) (use same_id in blast)
  moreover have "\<forall>m \<in> set (mr_binding_mappings result). bm_pk m = None \<or> bm_pk m \<in> bm_pk ` set ?ms"
    using F(5) by blast
  moreover have "\<forall>m \<in> set (mr_binding_mappings result). bm_role m = ro_pk ?role"
    using F(5) by (auto simp: mappings_of_role_def)
  ultimately have M: "set (mappings_of_role ?role db2) = set saved"
      "map without_pk saved = map without_pk (mr_binding_mappings result)"
      "db2 = db1\<lparr>db_mappings := db_mappings db2, db_next_pk := db_next_pk db2\<rparr>"
    using update_mappings_of_role [OF um [folded ms1] wf1] unfolding ms1 by blast+
  have graph_saved: "mapping_graph ?dom ` set saved = mapping_graph ?dom ` set (mr_binding_mappings result)"
    using arg_cong [OF M(2), of "\<lambda>xs. mapping_graph ?dom ` set xs"] by (simp add: image_image mapping_graph_columns)
  note U = update_bindings_frame [OF ub]
  have keys3: "role_keys db3 = role_keys db1"
    using U(1) arg_cong [OF M(3), of db_roles] by (simp add: role_keys_def)
  note R = update_roles_of_role [OF ur F(9,8), unfolded keys3, OF F(12)]
  have graph': "mapping_graph ?dom ` set (mappings_of_role ?role db') = mapping_graph ?dom ` set (mr_binding_mappings result)"
    using M(1) graph_saved U(2) R(4) by (simp only: mappings_graph_columns [of _ _ db'] mappings_graph_columns [of _ _ db2, symmetric])
  have uuids': "r2_uuid ` set (v2_roles_of_role ?role db') = r2_uuid ` set (mr_v2_roles result)"
    unfolding role_uuids_of_keys R(1) by (simp add: image_image role_key_def)
  have "distinct (map (\<lambda>r. Some (r2_pk r)) (mr_v2_roles result))"
    using F(9) by (simp add: distinct_map inj_on_def)
  then have roles: "map snd roles = mr_v2_roles result"
    using by_pk_Inr [OF pr [unfolded R(2)]] by (simp add: o_def)
  note A = migrated_additions [OF F(11) ow [unfolded roles] F(6,7,10)]
  show "set (rh_role_relations h2) = role_graph ?dom (rh_tenant h) ?role db'"
    using A(1) by (simp add: h2 role_graph_def graph' uuids')
  show "list_all valid_relation_tuple (rh_role_relations h2)" using A(2) by (simp add: h2)
  show "distinct (map stringify_spicedb_relationship (rh_role_relations h2))" using A(3) by (simp add: h2)
  have "db_ws db' = db_ws db1" using R(3) U(3) arg_cong [OF M(3), of db_ws] by simp
  then show "wst_repl (db_ws db') = wst_repl (db_ws db)" "wst_tenants (db_ws db') = wst_tenants (db_ws db)"
    using F(2,3) by simp_all
  show "rh_current_role_relations h2 = rh_current_role_relations h" "rh_role h2 = rh_role h"
    "rh_expected_empty_relation_reason h2 = rh_expected_empty_relation_reason h"
    by (simp_all add: h2)
qed

lemma init_role_handler_frame:
  assumes "init_role_handler st role event_type tn db0 = Inr (Some h, db)"
  shows "rh_role h = role" and "rh_current_role_relations h = []" and "rh_role_relations h = []"
    and "rh_expected_empty_relation_reason h = None"
    and "\<exists>cache. db = db0\<lparr>db_ws := (db_ws db0)\<lparr>wst_cache := cache\<rparr>\<rparr>"
  using assms by (auto simp: init_role_handler_def bind_r_Inr_iff split: if_splits)

lemma role_graph_role: "ro_pk role = ro_pk role' \<Longrightarrow> role_graph domain t role db = role_graph domain t role' db"
  by (simp add: role_graph_def mappings_of_role_def v2_roles_of_role_def)

lemma role_graph_ws: "role_graph domain t role (db\<lparr>db_ws := w\<rparr>) = role_graph domain t role db"
  by (simp add: role_graph_def mappings_of_role_def v2_roles_of_role_def)

text \<open>
  Over any replicator: after preparing, an update replaces the tuples of the role's old rows by those of
  its new rows, and a deletion removes them. The event is never refused.
\<close>

context workspace_replicator
begin

lemma role_event_replicated:
  assumes "rh_expected_empty_relation_reason h = None"
    and "distinct (map stringify_spicedb_relationship (rh_role_relations h))"
    and "list_all valid_relation_tuple (rh_role_relations h)"
    and "list_all valid_relation_tuple (rh_current_role_relations h)"
    and "tenant_by_pk (wst_tenants (db_ws db)) (ro_tenant (rh_role h)) = Inr role_tenant"
  shows "\<exists>s'. replicate_role st rp h db = Inr (db\<lparr>db_ws := (db_ws db)\<lparr>wst_repl := s'\<rparr>\<rparr>) \<and>
     tuples s' = (tuples (wst_repl (db_ws db)) - set (rh_current_role_relations h)) \<union> set (rh_role_relations h)"
proof (cases "rh_current_role_relations h = [] \<and> rh_role_relations h = []")
  case True
  then have "replicate_role st rp h db = Inr (db\<lparr>db_ws := (db_ws db)\<lparr>wst_repl := wst_repl (db_ws db)\<rparr>\<rparr>)"
    using assms(1) by (simp add: replicate_role_def)
  then show ?thesis using True by (intro exI [of _ "wst_repl (db_ws db)"] conjI) simp_all
next
  case False
  let ?e = "role_event st role_tenant h"
  have e: "replicable ?e" using assms(2-4) by (simp add: replicable_def role_event_def)
  obtain s' where s': "rp_replicate rp (wst_repl (db_ws db)) ?e = Inr s'" using replicate_accepts [OF e] by blast
  then have "replicate_role st rp h db = Inr (db\<lparr>db_ws := (db_ws db)\<lparr>wst_repl := s'\<rparr>\<rparr>)"
    using assms(1,5) False unfolding replicate_role_def by (simp only: if_False) simp
  moreover have "tuples s' = (tuples (wst_repl (db_ws db)) - set (rh_current_role_relations h)) \<union> set (rh_role_relations h)"
    using replicate_applies [OF e s'] by (simp add: apply_event_def role_event_def)
  ultimately show ?thesis by blast
qed

lemma role_update_in_sync:
  assumes h: "rh_current_role_relations h = []" "rh_expected_empty_relation_reason h = None"
    and wf: "mapping_rows_wf db" "role_rows_wf db" "mappings_wf uuid7 (mappings_of_role (rh_role h) db)"
      "nulls_resolved (wst_table (db_ws db)) role"
    and same: "ro_pk role = ro_pk (rh_role h)"
    and prep: "prepare_for_update st db h = Inr h1"
    and gen: "generate_relations_and_mappings_for_role st rp uuid7 now (h1\<lparr>rh_role := role\<rparr>) db = Inr (h2, db1)"
    and tn: "tenant_by_pk (wst_tenants (db_ws db)) (ro_tenant role) = Inr role_tenant"
  shows "\<exists>db'. replicate_new_or_updated_role st rp uuid7 now role h1 db = Inr (h2, db') \<and>
     tuples (wst_repl (db_ws db')) =
       (tuples (wst_repl (db_ws db)) - prepared_graph (rc_domain st) (rh_tenant h) (rh_role h) db) \<union>
       role_graph (rc_domain st) (rh_tenant h) role db'"
proof -
  note P = prepare_for_update_spec [OF prep wf(1,2) h(1)]
  let ?h = "h1\<lparr>rh_role := role\<rparr>"
  have rows: "mappings_of_role role db = mappings_of_role (rh_role h) db" "v2_roles_of_role role db = v2_roles_of_role (rh_role h) db"
    using same by (simp_all add: mappings_of_role_def v2_roles_of_role_def)
  have "mappings_wf uuid7 (mappings_of_role (rh_role ?h) db)" "nulls_resolved (wst_table (db_ws db)) (rh_role ?h)"
    "rh_binding_mappings ?h = map (\<lambda>m. (the (bm_pk m), m)) (mappings_of_role (rh_role ?h) db)"
    "rh_v2_roles ?h = map (\<lambda>r. (r2_pk r, r)) (v2_roles_of_role (rh_role ?h) db)"
    using wf(3,4) P(1,2) rows by simp_all
  note G = generate_relations_spec [OF gen wf(1,2) this]
  have "tenant_by_pk (wst_tenants (db_ws db1)) (ro_tenant (rh_role h2)) = Inr role_tenant" using tn G(5,7) by simp
  moreover have "list_all valid_relation_tuple (rh_current_role_relations h2)" using P(4) G(6) by simp
  moreover have "rh_expected_empty_relation_reason h2 = None" using h(2) P(6) G(8) by simp
  ultimately obtain s' where rep: "replicate_role st rp h2 db1 = Inr (db1\<lparr>db_ws := (db_ws db1)\<lparr>wst_repl := s'\<rparr>\<rparr>)"
    and s': "tuples s' = (tuples (wst_repl (db_ws db1)) - set (rh_current_role_relations h2)) \<union> set (rh_role_relations h2)"
    using role_event_replicated [of h2 db1 role_tenant st] G(2,3) by blast
  show ?thesis
    using gen rep s' G(1,4,6) P(3,5)
    by (simp add: replicate_new_or_updated_role_def role_graph_ws)
qed

lemma role_deletion_in_sync:
  assumes h: "rh_current_role_relations h = []" "rh_role_relations h = []" "rh_expected_empty_relation_reason h = None"
    and wf: "mapping_rows_wf db" "role_rows_wf db"
    and prep: "prepare_for_update st db h = Inr h1"
    and tn: "tenant_by_pk (wst_tenants (db_ws db)) (ro_tenant (rh_role h)) = Inr role_tenant"
  shows "\<exists>h2 db'. replicate_deleted_role st rp h1 db = Inr (h2, db') \<and>
     tuples (wst_repl (db_ws db')) =
       tuples (wst_repl (db_ws db)) - prepared_graph (rc_domain st) (rh_tenant h) (rh_role h) db"
proof -
  note P = prepare_for_update_spec [OF prep wf h(1)]
  let ?h = "h1\<lparr>rh_binding_mappings := [], rh_role_bindings := [], rh_v2_roles := []\<rparr>"
  obtain s' where "replicate_role st rp ?h db = Inr (db\<lparr>db_ws := (db_ws db)\<lparr>wst_repl := s'\<rparr>\<rparr>)"
    and "tuples s' = (tuples (wst_repl (db_ws db)) - set (rh_current_role_relations ?h)) \<union> set (rh_role_relations ?h)"
    using role_event_replicated [of ?h db role_tenant st] h(2,3) P(4,6,7,8) tn by auto
  then show ?thesis using P(3,8) h(2) by (simp add: replicate_deleted_role_def Let_def)
qed

end

section \<open>Properties\<close>

text \<open>
  C3 (refinement): the dual write keeps the access graph in step with the rows of a custom role. Once
  the handler is prepared on the role's old rows, an update fails exactly if the relations and mappings of the new
  role cannot be generated, with that error; otherwise the outbox does not refuse it, and it replaces the tuples of
  the old rows, and nothing else, by those of the rows it leaves in the database: the binding mappings it reused,
  made or kept out of deletion, and the owners of the V2 roles. The ungrouped workspace has to exist if the new role
  names it by a null; otherwise the update would also make and replicate this workspace. A deletion succeeds and
  removes the tuples of the old rows and nothing else. For a role without any binding mapping neither
  removes anything, so that the owners of V2 roles left without a binding would stay.
\<close>

theorem role_dual_write_in_sync:
  fixes db0 :: "outbox_wal rbac_db" and time :: int
  defines "rp \<equiv> outbox_replicator outbox_wal_log time"
    and "graph \<equiv> \<lambda>db :: outbox_wal rbac_db. log_tuples (wal_rows (wst_repl (db_ws db)))"
  assumes init: "init_role_handler st role0 event_type tn db0 = Inr (Some h, db)"
    and prep: "prepare_for_update st db h = Inr h1"
    and wf: "mapping_rows_wf db0" "role_rows_wf db0" "mappings_wf uuid7 (mappings_of_role role0 db0)"
    and tn: "tenant_by_pk (wst_tenants (db_ws db0)) (ro_tenant role0) = Inr role_tenant"
  defines "old \<equiv> if mappings_of_role role0 db0 = [] then {} else role_graph (rc_domain st) (rh_tenant h) role0 db0"
  shows "(\<forall>role. ro_pk role = ro_pk role0 \<and> ro_tenant role = ro_tenant role0 \<and>
        nulls_resolved (wst_table (db_ws db0)) role \<longrightarrow>
        (case generate_relations_and_mappings_for_role st rp uuid7 now (h1\<lparr>rh_role := role\<rparr>) db of
           Inl e \<Rightarrow> replicate_new_or_updated_role st rp uuid7 now role h1 db = Inl e
         | Inr (h2, db1) \<Rightarrow>
             \<exists>db'. replicate_new_or_updated_role st rp uuid7 now role h1 db = Inr (h2, db') \<and>
               graph db' = (graph db0 - old) \<union> role_graph (rc_domain st) (rh_tenant h) role db'))
     \<and> (\<exists>h2 db'. replicate_deleted_role st rp h1 db = Inr (h2, db') \<and> graph db' = graph db0 - old)"
proof -
  note I = init_role_handler_frame [OF init]
  obtain cache where db: "db = db0\<lparr>db_ws := (db_ws db0)\<lparr>wst_cache := cache\<rparr>\<rparr>" using I(5) by blast
  have rows: "mappings_of_role r db = mappings_of_role r db0" "v2_roles_of_role r db = v2_roles_of_role r db0"
      "role_graph d t r db = role_graph d t r db0" for r d t
    by (simp_all add: db mappings_of_role_def v2_roles_of_role_def role_graph_ws)
  have ws: "wst_repl (db_ws db) = wst_repl (db_ws db0)" "wst_table (db_ws db) = wst_table (db_ws db0)"
      "wst_tenants (db_ws db) = wst_tenants (db_ws db0)"
    by (simp_all add: db)
  have wf': "mapping_rows_wf db" "role_rows_wf db" using wf(1,2) by (simp_all add: db mapping_rows_wf_def role_rows_wf_def)
  have old: "prepared_graph (rc_domain st) (rh_tenant h) (rh_role h) db = old"
    by (simp add: prepared_graph_def old_def rows I(1))
  have ms: "mappings_wf uuid7 (mappings_of_role (rh_role h) db)" using wf(3) by (simp add: rows I(1))
  have "\<exists>db'. replicate_new_or_updated_role st rp uuid7 now role h1 db = Inr (h2, db') \<and>
      graph db' = (graph db0 - old) \<union> role_graph (rc_domain st) (rh_tenant h) role db'"
    if "ro_pk role = ro_pk role0" "ro_tenant role = ro_tenant role0" "nulls_resolved (wst_table (db_ws db0)) role"
      "generate_relations_and_mappings_for_role st rp uuid7 now (h1\<lparr>rh_role := role\<rparr>) db = Inr (h2, db1)"
    for role h2 db1
    using outbox_wal_ws.role_update_in_sync [OF I(2,4) wf' ms _ _ prep that(4) [unfolded rp_def], of role_tenant]
      that(1-3) tn by (simp add: rp_def graph_def I(1) old [unfolded I(1)] ws)
  then have "case generate_relations_and_mappings_for_role st rp uuid7 now (h1\<lparr>rh_role := role\<rparr>) db of
        Inl e \<Rightarrow> replicate_new_or_updated_role st rp uuid7 now role h1 db = Inl e
      | Inr (h2, db1) \<Rightarrow> \<exists>db'. replicate_new_or_updated_role st rp uuid7 now role h1 db = Inr (h2, db') \<and>
          graph db' = (graph db0 - old) \<union> role_graph (rc_domain st) (rh_tenant h) role db'"
    if "ro_pk role = ro_pk role0" "ro_tenant role = ro_tenant role0" "nulls_resolved (wst_table (db_ws db0)) role" for role
    using that by (auto simp: replicate_new_or_updated_role_def split: sum.splits)
  moreover have "\<exists>h2 db'. replicate_deleted_role st rp h1 db = Inr (h2, db') \<and> graph db' = graph db0 - old"
    using outbox_wal_ws.role_deletion_in_sync [OF I(2-4) wf' prep, of role_tenant] tn
    by (simp add: rp_def graph_def I(1) old [unfolded I(1)] ws)
  ultimately show ?thesis by blast
qed

text \<open>The sample role with a permission of tenant scope, created and then bound for the first time.\<close>

definition tenant_scope_settings :: role_settings where
  "tenant_scope_settings = sample_role_settings\<lparr>rc_tenant_scope_permissions := ''app:*:*''\<rparr>"

definition sample_mapped_db :: "'s \<Rightarrow> 's rbac_db" where
  "sample_mapped_db s = (sample_db s)\<lparr>db_tenant_mappings := [sample_mapping\<lparr>tm_tenant := 1\<rparr>]\<rparr>"

definition sample_role_write :: "outbox_wal rbac_db \<Rightarrow> (role_handler \<times> outbox_wal rbac_db) result" where
  "sample_role_write db0 =
     bind_r (init_role_handler tenant_scope_settings sample_role EV_UPDATE_CUSTOM_ROLE None db0) (\<lambda>(h, db).
       case h of
         None \<Rightarrow> Inl ValueError
       | Some h \<Rightarrow>
           bind_r (prepare_for_update tenant_scope_settings db h) (\<lambda>h1.
             generate_relations_and_mappings_for_role tenant_scope_settings (outbox_replicator outbox_wal_log 0)
               sample_uuid7 ''0'' (h1\<lparr>rh_role := sample_role\<rparr>) db))"

lemma sample_role_write_ok: "is_ok (sample_role_write (sample_mapped_db \<lparr>wal_table = [], wal_entries = []\<rparr>))"
  by code_simp

theorem role_dual_write_in_sync_witness:
  "\<exists>h db h1 h2 db'.
     init_role_handler tenant_scope_settings sample_role EV_UPDATE_CUSTOM_ROLE None
       (sample_mapped_db \<lparr>wal_table = [], wal_entries = []\<rparr>) = Inr (Some h, db) \<and>
     prepare_for_update tenant_scope_settings db h = Inr h1 \<and>
     replicate_new_or_updated_role tenant_scope_settings (outbox_replicator outbox_wal_log 0) sample_uuid7 ''0''
       sample_role h1 db = Inr (h2, db') \<and>
     log_tuples (wal_rows (wst_repl (db_ws db'))) = role_graph ''redhat'' (rh_tenant h) sample_role db'"
proof -
  let ?db0 = "sample_mapped_db \<lparr>wal_table = [], wal_entries = []\<rparr>" and ?rp = "outbox_replicator outbox_wal_log 0"
  let ?st = "tenant_scope_settings"
  obtain h db h1 h2 db1 where
      init: "init_role_handler ?st sample_role EV_UPDATE_CUSTOM_ROLE None ?db0 = Inr (Some h, db)"
    and prep: "prepare_for_update ?st db h = Inr h1"
    and gen: "generate_relations_and_mappings_for_role ?st ?rp sample_uuid7 ''0'' (h1\<lparr>rh_role := sample_role\<rparr>) db = Inr (h2, db1)"
    using sample_role_write_ok by (auto simp: sample_role_write_def is_ok_iff bind_r_Inr_iff split: option.splits)
  have none: "mappings_of_role sample_role ?db0 = []" "v2_roles_of_role sample_role ?db0 = []"
    by (simp_all add: mappings_of_role_def v2_roles_of_role_def sample_mapped_db_def sample_db_def)
  have wf: "mapping_rows_wf ?db0" "role_rows_wf ?db0" "mappings_wf sample_uuid7 (mappings_of_role sample_role ?db0)"
    by (simp_all add: mapping_rows_wf_def role_rows_wf_def none mappings_wf_def sample_uuid7_inj,
        simp_all add: sample_mapped_db_def sample_db_def)
  have tn: "tenant_by_pk (wst_tenants (db_ws ?db0)) (ro_tenant sample_role) = Inr sample_tenant"
    by (simp add: tenant_by_pk_def get_one_def sample_mapped_db_def sample_db_def sample_state_def sample_role_def sample_tenant_def)
  have null: "nulls_resolved (wst_table (db_ws ?db0)) sample_role" by (simp add: nulls_resolved_def sample_role_def)
  have empty: "log_tuples (wal_rows (wst_repl (db_ws ?db0))) = {}"
    by (simp add: sample_mapped_db_def sample_db_def sample_state_def wal_rows_def log_tuples_def)
  have dom: "rc_domain ?st = ''redhat''" by (simp add: tenant_scope_settings_def sample_role_settings_def)
  have "\<exists>db'. replicate_new_or_updated_role ?st ?rp sample_uuid7 ''0'' sample_role h1 db = Inr (h2, db') \<and>
      log_tuples (wal_rows (wst_repl (db_ws db'))) = role_graph ''redhat'' (rh_tenant h) sample_role db'"
    using conjunct1 [OF role_dual_write_in_sync [OF init prep wf tn, of 0 "''0''"], THEN spec [of _ sample_role]] gen null
    unfolding dom by (simp add: none(1) empty)
  with init prep show ?thesis by blast
qed

end
