(* ===== verification/Principal_Service.thy ===== *)
theory Principal_Service
  imports Role_Migration
begin

text \<open>
  Principals and their user ids (\<open>management/tenant_service/tenant_service.py\<close>): a principal is found
  or created for a user, gets the user's id, and takes over the group memberships and role bindings of an
  older principal that had this id.

  A user id is a string; the empty one counts as missing. The primary key of a principal is its uuid.
\<close>

section \<open>Events\<close>

definition send_event ::
  "role_settings \<Rightarrow> 's replicator \<Rightarrow> replication_event_type \<Rightarrow> (string \<times> pyval) list \<Rightarrow> relation_tuple list
   \<Rightarrow> relation_tuple list \<Rightarrow> 's rbac_db \<Rightarrow> 's rbac_db result" where
  "send_event st rp event_type info add remove db =
     bind_r (rp_replicate rp (wst_repl (db_ws db))
               \<lparr>ev_type = event_type, ev_info = info, ev_partition_key = st_env_name (rc_ws st),
                ev_add = add, ev_remove = remove\<rparr>) (\<lambda>s'.
       Inr (db\<lparr>db_ws := (db_ws db)\<lparr>wst_repl := s'\<rparr>\<rparr>))"

section \<open>Rows\<close>

definition normalize_user_id :: "string option \<Rightarrow> string option" where
  "normalize_user_id user_id = (if user_id \<in> {None, Some []} then None else user_id)"

definition is_missing_user_id :: "string option \<Rightarrow> bool" where
  "is_missing_user_id user_id \<longleftrightarrow> normalize_user_id user_id = None"

definition principal_unique :: "principal list \<Rightarrow> principal \<Rightarrow> bool" where
  "principal_unique tbl p \<longleftrightarrow>
     list_all (\<lambda>p'. pr_uuid p' = pr_uuid p \<or>
       \<not> (pr_username p' = pr_username p \<and> pr_tenant p' = pr_tenant p) \<and>
       \<not> (pr_user_id p \<noteq> None \<and> pr_user_id p' = pr_user_id p)) tbl"

definition save_principal :: "principal \<Rightarrow> 's rbac_db \<Rightarrow> (principal \<times> 's rbac_db) result" where
  "save_principal p0 db =
     (let p = principal_save p0 in
      bind_r (check_r (principal_unique (db_principals db) p) IntegrityError) (\<lambda>_.
        Inr (p, db\<lparr>db_principals :=
          (if pr_uuid p \<in> pr_uuid ` set (db_principals db)
           then map (\<lambda>p'. if pr_uuid p' = pr_uuid p then p else p') (db_principals db)
           else db_principals db @ [p])\<rparr>)))"

definition add_member :: "string \<Rightarrow> string \<Rightarrow> 's rbac_db \<Rightarrow> 's rbac_db" where
  "add_member group_uuid p db =
     db\<lparr>db_groups := map (\<lambda>g. if gr_uuid g = group_uuid then g\<lparr>gr_principals := set_add p (gr_principals g)\<rparr> else g)
                      (db_groups db)\<rparr>"

definition remove_member :: "string \<Rightarrow> string \<Rightarrow> 's rbac_db \<Rightarrow> 's rbac_db" where
  "remove_member group_uuid p db =
     db\<lparr>db_groups := map (\<lambda>g. if gr_uuid g = group_uuid then g\<lparr>gr_principals := removeAll p (gr_principals g)\<rparr> else g)
                      (db_groups db)\<rparr>"

definition groups_of_principal :: "'s rbac_db \<Rightarrow> principal \<Rightarrow> rbac_group list" where
  "groups_of_principal db p = filter (\<lambda>g. pr_uuid p \<in> set (gr_principals g)) (db_groups db)"

text \<open>A principal with role binding entries is protected; its memberships go with it.\<close>

definition delete_principal :: "principal \<Rightarrow> 's rbac_db \<Rightarrow> 's rbac_db result" where
  "delete_principal p db =
     bind_r (check_r (\<not> list_ex (\<lambda>(_, u, _). u = pr_uuid p) (db_binding_principals db)) IntegrityError) (\<lambda>_.
       Inr (db\<lparr>db_principals := filter (\<lambda>p'. pr_uuid p' \<noteq> pr_uuid p) (db_principals db),
               db_groups := map (\<lambda>g. g\<lparr>gr_principals := removeAll (pr_uuid p) (gr_principals g)\<rparr>) (db_groups db)\<rparr>))"

text \<open>\<open>get_or_create\<close> on user name and tenant; \<open>None\<close> is no user name.\<close>

definition principals_named :: "'s rbac_db \<Rightarrow> string option \<Rightarrow> tenant \<Rightarrow> principal list" where
  "principals_named db username t =
     filter (\<lambda>p. username = Some (pr_username p) \<and> pr_tenant p = tn_pk t) (db_principals db)"

definition get_or_create_principal ::
  "(nat \<Rightarrow> string) \<Rightarrow> string option \<Rightarrow> tenant \<Rightarrow> string option \<Rightarrow> 's rbac_db
   \<Rightarrow> (principal \<times> bool \<times> 's rbac_db) result" where
  "get_or_create_principal uuid4 username t user_id db =
     (case get_one (principals_named db username t) of
        Inr p \<Rightarrow> Inr (p, False, db)
      | Inl DoesNotExist \<Rightarrow>
          (case username of
             None \<Rightarrow> Inl AttributeError
           | Some name \<Rightarrow>
               (let (u, db1) = fresh_uuid uuid4 db;
                    p = \<lparr>pr_uuid = u, pr_username = name, pr_cross_account = False, pr_type = PRINCIPAL_USER,
                         pr_service_account_id = None, pr_user_id = user_id, pr_tenant = tn_pk t\<rparr>
                in bind_r (save_principal p db1) (\<lambda>(p', db2). Inr (p', True, db2))))
      | Inl e \<Rightarrow> Inl e)"

section \<open>Merging principals\<close>

definition transfer_entry :: "string \<Rightarrow> int \<times> string \<times> string \<Rightarrow> 's rbac_db \<Rightarrow> 's rbac_db" where
  "transfer_entry survivor entry db =
     (let (binding, obsolete, source) = entry
      in db\<lparr>db_binding_principals :=
           filter (\<lambda>e. e \<noteq> entry) (set_add (binding, survivor, source) (db_binding_principals db))\<rparr>)"

definition transfer_role_binding_entries :: "principal \<Rightarrow> principal \<Rightarrow> 's rbac_db \<Rightarrow> 's rbac_db" where
  "transfer_role_binding_entries obsolete survivor db =
     fold (transfer_entry (pr_uuid survivor))
       (filter (\<lambda>(binding, u, _). u = pr_uuid obsolete \<and> binding \<in> rb_pk ` set (db_bindings db))
         (db_binding_principals db)) db"

definition transfer_membership ::
  "string \<Rightarrow> principal \<Rightarrow> principal \<Rightarrow> relation_tuple list \<times> 's rbac_db \<Rightarrow> rbac_group
   \<Rightarrow> (relation_tuple list \<times> 's rbac_db) result" where
  "transfer_membership domain obsolete survivor = (\<lambda>(tuples_to_remove, db) g.
     bind_r (case pr_user_id obsolete of
               Some (c # cs) \<Rightarrow> bind_r (relationship_to_user_id_for_group domain (gr_uuid g) (c # cs)) (\<lambda>t. Inr [t])
             | _ \<Rightarrow> Inr []) (\<lambda>ts.
       Inr (tuples_to_remove @ ts,
            remove_member (gr_uuid g) (pr_uuid obsolete) (add_member (gr_uuid g) (pr_uuid survivor) db))))"

definition transfer_group_memberships ::
  "string \<Rightarrow> principal \<Rightarrow> principal \<Rightarrow> rbac_group list \<Rightarrow> 's rbac_db \<Rightarrow> (relation_tuple list \<times> 's rbac_db) result" where
  "transfer_group_memberships domain obsolete survivor obsolete_groups db =
     foldM_r (transfer_membership domain obsolete survivor) ([], db) obsolete_groups"

definition group_member_tuples_for_principal :: "string \<Rightarrow> 's rbac_db \<Rightarrow> principal \<Rightarrow> relation_tuple list result" where
  "group_member_tuples_for_principal domain db p =
     bind_r (mapM_r (\<lambda>g. relationship_to_principal_for_group domain g (FromPrincipal p)) (groups_of_principal db p))
       (\<lambda>ts. Inr (concat (map (\<lambda>t. case t of None \<Rightarrow> [] | Some t \<Rightarrow> [t]) ts)))"

definition assign_user_id_and_replicate_merge ::
  "role_settings \<Rightarrow> 's replicator \<Rightarrow> principal \<Rightarrow> string \<Rightarrow> relation_tuple list \<Rightarrow> string \<Rightarrow> 's rbac_db
   \<Rightarrow> 's rbac_db result" where
  "assign_user_id_and_replicate_merge st rp survivor obsolete_username tuples_to_remove user_id db =
     bind_r (save_principal (survivor\<lparr>pr_user_id := Some user_id\<rparr>) db) (\<lambda>(p, db1).
     bind_r (group_member_tuples_for_principal (rc_domain st) db1 p) (\<lambda>tuples_to_add.
       if tuples_to_add = [] \<and> tuples_to_remove = [] then Inr db1
       else bind_r (tenant_by_pk (wst_tenants (db_ws db1)) (pr_tenant p)) (\<lambda>t.
            send_event st rp EV_ADD_PRINCIPALS_TO_GROUP
              [(''org_id'', PyStr (py_str (py_opt_str (tn_org_id t)))), (''merged_from_username'', PyStr obsolete_username),
               (''merged_into_username'', PyStr (pr_username p)), (''user_id'', PyStr user_id)]
              tuples_to_add tuples_to_remove db1)))"

definition merge_obsolete_principal_into_survivor ::
  "role_settings \<Rightarrow> 's replicator \<Rightarrow> principal \<Rightarrow> principal \<Rightarrow> string \<Rightarrow> 's rbac_db \<Rightarrow> 's rbac_db result" where
  "merge_obsolete_principal_into_survivor st rp survivor obsolete user_id db =
     (if pr_uuid survivor = pr_uuid obsolete then Inr db
      else if pr_tenant survivor \<noteq> pr_tenant obsolete then Inl RuntimeError
      else bind_r (transfer_group_memberships (rc_domain st) obsolete survivor (groups_of_principal db obsolete) db)
             (\<lambda>(tuples_to_remove, db1).
           bind_r (delete_principal obsolete (transfer_role_binding_entries obsolete survivor db1)) (\<lambda>db2.
             assign_user_id_and_replicate_merge st rp survivor (pr_username obsolete) tuples_to_remove user_id db2)))"

definition resolve_user_id_conflict ::
  "role_settings \<Rightarrow> 's replicator \<Rightarrow> principal \<Rightarrow> string option \<Rightarrow> 's rbac_db \<Rightarrow> 's rbac_db result" where
  "resolve_user_id_conflict st rp survivor user_id db =
     (case normalize_user_id user_id of
        None \<Rightarrow> Inl ValueError
      | Some u \<Rightarrow>
          (case filter (\<lambda>p. pr_user_id p = Some u \<and> pr_uuid p \<noteq> pr_uuid survivor) (db_principals db) of
             obsolete # _ \<Rightarrow> merge_obsolete_principal_into_survivor st rp survivor obsolete u db
           | [] \<Rightarrow>
               bind_r (get_one (filter (\<lambda>p. pr_uuid p = pr_uuid survivor) (db_principals db))) (\<lambda>row.
                 if pr_user_id row = Some u then Inr db else Inl RuntimeError)))"

section \<open>The principal of a user\<close>

definition assign_user_id ::
  "role_settings \<Rightarrow> 's replicator \<Rightarrow> principal \<Rightarrow> tenant \<Rightarrow> string option \<Rightarrow> 's rbac_db \<Rightarrow> 's rbac_db result" where
  "assign_user_id st rp p t user_id db =
     (case user_id of
        None \<Rightarrow> Inr db
      | Some u \<Rightarrow>
          if pr_user_id p = Some u then Inr db
          else if \<not> is_missing_user_id (pr_user_id p) then Inl RuntimeError
          else (case filter (\<lambda>q. pr_user_id q = Some u \<and> pr_tenant q = tn_pk t \<and> pr_uuid q \<noteq> pr_uuid p)
                       (db_principals db) of
                  obsolete # _ \<Rightarrow> merge_obsolete_principal_into_survivor st rp p obsolete u db
                | [] \<Rightarrow>
                    (case save_principal (p\<lparr>pr_user_id := Some u\<rparr>) db of
                       Inr (_, db1) \<Rightarrow> Inr db1
                     | Inl IntegrityError \<Rightarrow> resolve_user_id_conflict st rp (p\<lparr>pr_user_id := Some u\<rparr>) (Some u) db
                     | Inl e \<Rightarrow> Inl e)))"

definition ensure_principal_with_user_id_in_tenant ::
  "role_settings \<Rightarrow> 's replicator \<Rightarrow> (nat \<Rightarrow> string) \<Rightarrow> rbac_user \<Rightarrow> tenant \<Rightarrow> bool \<Rightarrow> 's rbac_db \<Rightarrow> 's rbac_db result" where
  "ensure_principal_with_user_id_in_tenant st rp uuid4 user t upsert db =
     (let user_id = normalize_user_id (us_user_id user) in
      if upsert
      then (case get_or_create_principal uuid4 (us_username user) t user_id db of
              Inr (p, created, db1) \<Rightarrow> if created then Inr db1 else assign_user_id st rp p t user_id db1
            | Inl IntegrityError \<Rightarrow>
                (if user_id = None then Inl IntegrityError
                 else bind_r (get_or_create_principal uuid4 (us_username user) t None db) (\<lambda>(survivor, _, db1).
                        resolve_user_id_conflict st rp survivor user_id db1))
            | Inl e \<Rightarrow> Inl e)
      else (case get_one (principals_named db (us_username user) t) of
              Inr p \<Rightarrow> assign_user_id st rp p t user_id db
            | Inl DoesNotExist \<Rightarrow> Inr db
            | Inl MultipleObjectsReturned \<Rightarrow> Inr db
            | Inl e \<Rightarrow> Inl e))"

section \<open>Memberships\<close>

definition member_tuple :: "string \<Rightarrow> string \<Rightarrow> string \<Rightarrow> relation_tuple" where
  "member_tuple domain g u =
     plain_tuple (''rbac'', ''group'') g (''rbac'', ''principal'') (user_id_to_principal_resource_id domain u)
       ''member'' None"

lemma member_tuple_inject [simp]: "member_tuple d g u = member_tuple d g' u' \<longleftrightarrow> g = g' \<and> u = u'"
  by (simp add: member_tuple_def)

lemma member_tuple_graph: "valid_relation_tuple (member_tuple d g u) \<Longrightarrow> graph_tuple (member_tuple d g u)"
  by (simp add: graph_tuple_def member_tuple_def plain_tuple_def)

lemma member_constructors_Inr [result_simps]:
  "relationship_to_user_id_for_group d g u = Inr t \<longleftrightarrow> t = member_tuple d g u \<and> valid_relation_tuple t"
  "relationship_to_principal_for_group d gr (FromPrincipal p) = Inr ot \<longleftrightarrow>
     (case pr_user_id p of
        None \<Rightarrow> ot = None
      | Some u \<Rightarrow> ot = Some (member_tuple d (gr_uuid gr) u) \<and> valid_relation_tuple (member_tuple d (gr_uuid gr) u))"
  "relationship_to_principal_for_group d gr (FromUser user) = Inr ot \<longleftrightarrow>
     (case us_user_id user of
        None \<Rightarrow> ot = None
      | Some u \<Rightarrow> ot = Some (member_tuple d (gr_uuid gr) u) \<and> valid_relation_tuple (member_tuple d (gr_uuid gr) u))"
  by (auto simp: relationship_to_user_id_for_group_def relationship_to_principal_for_group_def member_tuple_def
      principal_resource_id_def create_relationship_Inr_iff bind_r_Inr_iff split: option.splits)

text \<open>The pairs of the uuid of a group and of a principal in it.\<close>

definition memberships :: "'s rbac_db \<Rightarrow> (string \<times> string) set" where
  "memberships db = (\<Union>g \<in> set (db_groups db). {gr_uuid g} \<times> set (gr_principals g))"

lemma memberships_groups: "db_groups db = db_groups db' \<Longrightarrow> memberships db = memberships db'"
  by (simp add: memberships_def)

lemma add_member_memberships:
  "memberships (add_member g p db) = memberships db \<union> {(g, p)} \<inter> (gr_uuid ` set (db_groups db)) \<times> UNIV"
  by (auto simp: memberships_def add_member_def split: if_splits)

lemma remove_member_memberships: "memberships (remove_member g p db) = memberships db - {(g, p)}"
  by (auto simp: memberships_def remove_member_def split: if_splits)

lemma member_group_uuids [simp]:
  "map gr_uuid (db_groups (add_member g p db)) = map gr_uuid (db_groups db)"
  "map gr_uuid (db_groups (remove_member g p db)) = map gr_uuid (db_groups db)"
  by (simp_all add: add_member_def remove_member_def)

lemma groups_of_principal_memberships:
  "gr_uuid ` set (groups_of_principal db p) = {g. (g, pr_uuid p) \<in> memberships db}"
  by (auto simp: groups_of_principal_def memberships_def)

lemma distinct_groups_of_principal:
  "distinct (map gr_uuid (db_groups db)) \<Longrightarrow> distinct (map gr_uuid (groups_of_principal db p))"
  by (simp add: groups_of_principal_def distinct_map_filter)

text \<open>
  A group is in step with the graph if the graph has as its members the ids of the principals in it.
\<close>

definition group_synced :: "string \<Rightarrow> relation_tuple set \<Rightarrow> 's rbac_db \<Rightarrow> string \<Rightarrow> bool" where
  "group_synced domain graph db g \<longleftrightarrow>
     (\<forall>u. member_tuple domain g u \<in> graph \<longleftrightarrow>
        (\<exists>p \<in> set (db_principals db). pr_user_id p = Some u \<and> (g, pr_uuid p) \<in> memberships db))"

definition principal_rows_wf :: "'s rbac_db \<Rightarrow> bool" where
  "principal_rows_wf db \<longleftrightarrow>
     distinct (map gr_uuid (db_groups db)) \<and> distinct (map pr_uuid (db_principals db)) \<and>
     (\<forall>p \<in> set (db_principals db). pr_user_id p \<noteq> Some []) \<and>
     inj_on pr_user_id {p \<in> set (db_principals db). pr_user_id p \<noteq> None} \<and>
     snd ` memberships db \<subseteq> pr_uuid ` set (db_principals db)"

definition removed_member :: "string \<Rightarrow> principal \<Rightarrow> string \<Rightarrow> relation_tuple list" where
  "removed_member d p g = (case pr_user_id p of Some (c # cs) \<Rightarrow> [member_tuple d g (c # cs)] | _ \<Rightarrow> [])"

lemma transfer_membership_frame:
  assumes "transfer_membership d ob sv (ts, db) g = Inr (ts', db')"
    and "gr_uuid g \<in> gr_uuid ` set (db_groups db)"
  shows "ts' = ts @ removed_member d ob (gr_uuid g)"
    and "list_all valid_relation_tuple (removed_member d ob (gr_uuid g))"
    and "memberships db' = memberships db \<union> {(gr_uuid g, pr_uuid sv)} - {(gr_uuid g, pr_uuid ob)}"
    and "map gr_uuid (db_groups db') = map gr_uuid (db_groups db)"
    and "\<exists>x. db' = db\<lparr>db_groups := x\<rparr>"
proof -
  have db': "db' = remove_member (gr_uuid g) (pr_uuid ob) (add_member (gr_uuid g) (pr_uuid sv) db)"
    using assms(1) by (auto simp: transfer_membership_def bind_r_Inr_iff)
  show "ts' = ts @ removed_member d ob (gr_uuid g)" "list_all valid_relation_tuple (removed_member d ob (gr_uuid g))"
    using assms(1) by (auto simp: transfer_membership_def removed_member_def bind_r_Inr_iff result_simps
        split: option.splits list.splits)
  show "memberships db' = memberships db \<union> {(gr_uuid g, pr_uuid sv)} - {(gr_uuid g, pr_uuid ob)}"
    using assms(2) by (auto simp: db' remove_member_memberships add_member_memberships)
  show "map gr_uuid (db_groups db') = map gr_uuid (db_groups db)" by (simp add: db')
  show "\<exists>x. db' = db\<lparr>db_groups := x\<rparr>" by (auto simp: db' remove_member_def add_member_def)
qed

lemma transfer_memberships_frame:
  assumes "foldM_r (transfer_membership d ob sv) (ts, db) gs = Inr (ts', db')" and "pr_uuid ob \<noteq> pr_uuid sv"
    and "gr_uuid ` set gs \<subseteq> gr_uuid ` set (db_groups db)"
  shows "ts' = ts @ concat (map (removed_member d ob) (map gr_uuid gs)) \<and>
    list_all valid_relation_tuple (concat (map (removed_member d ob) (map gr_uuid gs))) \<and>
    memberships db' = memberships db \<union> gr_uuid ` set gs \<times> {pr_uuid sv} - gr_uuid ` set gs \<times> {pr_uuid ob} \<and>
    map gr_uuid (db_groups db') = map gr_uuid (db_groups db) \<and> (\<exists>x. db' = db\<lparr>db_groups := x\<rparr>)"
  using assms
proof (induction gs arbitrary: ts db)
  case (Cons g gs)
  then obtain ts1 db1 where step: "transfer_membership d ob sv (ts, db) g = Inr (ts1, db1)"
    and rest: "foldM_r (transfer_membership d ob sv) (ts1, db1) gs = Inr (ts', db')"
    by (auto simp: bind_r_Inr_iff)
  have "gr_uuid g \<in> gr_uuid ` set (db_groups db)" using Cons.prems(3) by simp
  note F = transfer_membership_frame [OF step this]
  have "gr_uuid ` set (db_groups db1) = gr_uuid ` set (db_groups db)"
    using arg_cong [OF F(4), of set] by simp
  then have IH: "ts' = ts1 @ concat (map (removed_member d ob) (map gr_uuid gs)) \<and>
    list_all valid_relation_tuple (concat (map (removed_member d ob) (map gr_uuid gs))) \<and>
    memberships db' = memberships db1 \<union> gr_uuid ` set gs \<times> {pr_uuid sv} - gr_uuid ` set gs \<times> {pr_uuid ob} \<and>
    map gr_uuid (db_groups db') = map gr_uuid (db_groups db1) \<and> (\<exists>x. db' = db1\<lparr>db_groups := x\<rparr>)"
    using Cons.IH [OF rest assms(2)] Cons.prems(3) by simp
  have "\<exists>x. db' = db\<lparr>db_groups := x\<rparr>" using IH F(5) by auto
  moreover have "memberships db' = memberships db \<union> gr_uuid ` set (g # gs) \<times> {pr_uuid sv} - gr_uuid ` set (g # gs) \<times> {pr_uuid ob}"
    using IH F(3) assms(2) by auto
  ultimately show ?case using IH F(1,2,4) by simp
qed (auto intro: exI [of _ "db_groups db'"])

lemma transfer_entries_frame: "\<exists>x. transfer_role_binding_entries ob sv db = db\<lparr>db_binding_principals := x\<rparr>"
proof -
  have "\<exists>x. fold (transfer_entry s) es db = db\<lparr>db_binding_principals := x\<rparr>" for s es and db :: "'a rbac_db"
  proof (induction es arbitrary: db)
    case Nil
    have "fold (transfer_entry s) [] db = db\<lparr>db_binding_principals := db_binding_principals db\<rparr>" by simp
    then show ?case ..
  next
    case (Cons e es)
    obtain y where y: "transfer_entry s e db = db\<lparr>db_binding_principals := y\<rparr>"
      by (cases e) (simp add: transfer_entry_def)
    obtain x where "fold (transfer_entry s) es (transfer_entry s e db) = (transfer_entry s e db)\<lparr>db_binding_principals := x\<rparr>"
      using Cons [of "transfer_entry s e db"] by blast
    then show ?case by (auto simp: y)
  qed
  then show ?thesis by (simp add: transfer_role_binding_entries_def)
qed

lemma transfer_entries_set:
  assumes "\<forall>e \<in> set es. fst (snd e) \<noteq> s"
  shows "set (db_binding_principals (fold (transfer_entry s) es db)) =
     (set (db_binding_principals db) - set es) \<union> (\<lambda>(b, _, src). (b, s, src)) ` set es"
  using assms
proof (induction es arbitrary: db)
  case (Cons e es)
  have "set (db_binding_principals (transfer_entry s e db)) =
      (set (db_binding_principals db) - {e}) \<union> {(fst e, s, snd (snd e))}"
    using Cons.prems by (auto simp: transfer_entry_def split: prod.splits)
  then show ?case using Cons.IH [of "transfer_entry s e db"] Cons.prems by (force split: prod.splits)
qed simp

lemma delete_principal_Inr:
  assumes "delete_principal p db = Inr db'"
  shows "db_principals db' = filter (\<lambda>p'. pr_uuid p' \<noteq> pr_uuid p) (db_principals db)"
    and "memberships db' = {m \<in> memberships db. snd m \<noteq> pr_uuid p}"
    and "\<forall>e \<in> set (db_binding_principals db). fst (snd e) \<noteq> pr_uuid p"
    and "map gr_uuid (db_groups db') = map gr_uuid (db_groups db)"
    and "\<exists>x y. db' = db\<lparr>db_principals := x, db_groups := y\<rparr>"
  using assms by (fastforce simp: delete_principal_def bind_r_Inr_iff check_r_Inr_iff memberships_def list_ex_iff)+

lemma save_principal_Inr:
  assumes "save_principal p db = Inr (p', db')"
  shows "p' = principal_save p" and "\<exists>x. db' = db\<lparr>db_principals := x\<rparr>"
    and "pr_uuid p \<in> pr_uuid ` set (db_principals db) \<Longrightarrow>
      db_principals db' = map (\<lambda>q. if pr_uuid q = pr_uuid p then p' else q) (db_principals db)"
    and "pr_uuid p \<notin> pr_uuid ` set (db_principals db) \<Longrightarrow> db_principals db' = db_principals db @ [p']"
    and "pr_user_id p' = pr_user_id p" and "pr_uuid p' = pr_uuid p"
    and "\<forall>q \<in> set (db_principals db). pr_user_id p \<noteq> None \<longrightarrow> pr_user_id q = pr_user_id p \<longrightarrow> pr_uuid q = pr_uuid p"
  using assms by (auto simp: save_principal_def principal_save_def bind_r_Inr_iff Let_def principal_unique_def list_all_iff
      check_r_Inr_iff)

lemma group_member_tuples_Inr:
  assumes "group_member_tuples_for_principal d db p = Inr ts" and "pr_user_id p = Some u"
  shows "ts = map (\<lambda>g. member_tuple d g u) (map gr_uuid (groups_of_principal db p))"
    and "list_all graph_tuple ts"
proof -
  obtain os where os: "mapM_r (\<lambda>g. relationship_to_principal_for_group d g (FromPrincipal p)) (groups_of_principal db p) = Inr os"
    and ts: "ts = concat (map (\<lambda>t. case t of None \<Rightarrow> [] | Some t \<Rightarrow> [t]) os)"
    using assms(1) by (auto simp: group_member_tuples_for_principal_def bind_r_Inr_iff)
  have "os = map (\<lambda>g. Some (member_tuple d (gr_uuid g) u)) gs \<and> (\<forall>g \<in> set gs. valid_relation_tuple (member_tuple d (gr_uuid g) u))"
    if "mapM_r (\<lambda>g. relationship_to_principal_for_group d g (FromPrincipal p)) gs = Inr os" for gs os
    using that by (induction gs arbitrary: os) (auto simp: bind_r_Inr_iff result_simps assms(2))
  from this [OF os] show "ts = map (\<lambda>g. member_tuple d g u) (map gr_uuid (groups_of_principal db p))" "list_all graph_tuple ts"
    by (auto simp: ts o_def list_all_iff member_tuple_graph)
qed

text \<open>One principal takes the place of another in every group.\<close>

lemma renamed_members:
  assumes "s \<noteq> p"
  shows "{m \<in> M \<union> {g. (g, p) \<in> M} \<times> {s} - {g. (g, p) \<in> M} \<times> {p}. snd m \<noteq> p} =
     (\<lambda>(g, q). (g, if q = p then s else q)) ` M"
proof (intro set_eqI iffI)
  fix m assume "m \<in> {m \<in> M \<union> {g. (g, p) \<in> M} \<times> {s} - {g. (g, p) \<in> M} \<times> {p}. snd m \<noteq> p}"
  then have "m \<in> M \<and> snd m \<noteq> p \<or> (fst m, p) \<in> M \<and> snd m = s" by auto
  then show "m \<in> (\<lambda>(g, q). (g, if q = p then s else q)) ` M"
    by (elim disjE; intro rev_image_eqI) (auto simp: prod_eq_iff case_prod_unfold)
next
  fix m assume "m \<in> (\<lambda>(g, q). (g, if q = p then s else q)) ` M"
  then obtain g q where "(g, q) \<in> M" "m = (g, if q = p then s else q)" by auto
  then show "m \<in> {m \<in> M \<union> {g. (g, p) \<in> M} \<times> {s} - {g. (g, p) \<in> M} \<times> {p}. snd m \<noteq> p}"
    using assms by auto
qed

lemma renamed_member_iff:
  "s \<noteq> p \<Longrightarrow> (g, q) \<in> (\<lambda>(g, q). (g, if q = p then s else q)) ` M \<longleftrightarrow>
     (g, q) \<in> M \<and> q \<noteq> p \<or> q = s \<and> (g, p) \<in> M"
  unfolding renamed_members [symmetric] by auto

context workspace_replicator
begin

lemma send_event_ok:
  assumes "list_all graph_tuple add" and "distinct add" and "list_all valid_relation_tuple rem"
  shows "\<exists>s'. send_event st rp ty info add rem db = Inr (db\<lparr>db_ws := (db_ws db)\<lparr>wst_repl := s'\<rparr>\<rparr>) \<and>
     tuples s' = (tuples (wst_repl (db_ws db)) - set rem) \<union> set add"
proof -
  let ?e = "\<lparr>ev_type = ty, ev_info = info, ev_partition_key = st_env_name (rc_ws st), ev_add = add, ev_remove = rem\<rparr>"
  have e: "replicable ?e" using assms graph_tuple_keys [OF assms(1)] graph_tuple_valid [OF assms(1)]
    by (simp add: replicable_def)
  obtain s' where s': "rp_replicate rp (wst_repl (db_ws db)) ?e = Inr s'" using replicate_accepts [OF e] by blast
  then show ?thesis using replicate_applies [OF e s']
    by (intro exI [of _ s'] conjI) (simp_all add: send_event_def apply_event_def)
qed

lemma send_event_applies:
  assumes "send_event st rp ty info add rem db = Inr db'"
    and "list_all graph_tuple add" and "distinct add" and "list_all valid_relation_tuple rem"
  shows "\<exists>x. db' = db\<lparr>db_ws := (db_ws db)\<lparr>wst_repl := x\<rparr>\<rparr>"
    and "tuples (wst_repl (db_ws db')) = (tuples (wst_repl (db_ws db)) - set rem) \<union> set add"
proof -
  obtain s' where "db' = db\<lparr>db_ws := (db_ws db)\<lparr>wst_repl := s'\<rparr>\<rparr>"
    "tuples s' = (tuples (wst_repl (db_ws db)) - set rem) \<union> set add"
    using send_event_ok [OF assms(2-4), of st ty info db] unfolding assms(1) by blast
  then show "\<exists>x. db' = db\<lparr>db_ws := (db_ws db)\<lparr>wst_repl := x\<rparr>\<rparr>"
    "tuples (wst_repl (db_ws db')) = (tuples (wst_repl (db_ws db)) - set rem) \<union> set add"
    by (blast, simp)
qed

lemma merge_spec:
  assumes run: "merge_obsolete_principal_into_survivor st rp sv ob u db = Inr db'"
    and ne: "pr_uuid sv \<noteq> pr_uuid ob" and groups: "distinct (map gr_uuid (db_groups db))"
    and sv: "pr_uuid sv \<in> pr_uuid ` set (db_principals db)"
  shows "db_principals db' = map (\<lambda>q. if pr_uuid q = pr_uuid sv then principal_save (sv\<lparr>pr_user_id := Some u\<rparr>) else q)
      (filter (\<lambda>q. pr_uuid q \<noteq> pr_uuid ob) (db_principals db))" (is ?rows)
    and "memberships db' = (\<lambda>(g, q). (g, if q = pr_uuid ob then pr_uuid sv else q)) ` memberships db" (is ?members)
    and "tuples (wst_repl (db_ws db')) =
      (tuples (wst_repl (db_ws db)) - {t. \<exists>g. (g, pr_uuid ob) \<in> memberships db \<and> t \<in> set (removed_member (rc_domain st) ob g)})
      \<union> {member_tuple (rc_domain st) g u |g. (g, pr_uuid sv) \<in> memberships db'}" (is ?graph)
    and "map gr_uuid (db_groups db') = map gr_uuid (db_groups db)" (is ?uuids)
proof -
  let ?d = "rc_domain st" and ?gs = "groups_of_principal db ob"
  obtain ts db1 db2 where tr: "foldM_r (transfer_membership ?d ob sv) ([], db) ?gs = Inr (ts, db1)"
    and del: "delete_principal ob (transfer_role_binding_entries ob sv db1) = Inr db2"
    and asg: "assign_user_id_and_replicate_merge st rp sv (pr_username ob) ts u db2 = Inr db'"
    using run ne unfolding merge_obsolete_principal_into_survivor_def transfer_group_memberships_def
    by (simp only: if_False split: if_splits) (auto simp: bind_r_Inr_iff)
  have "gr_uuid ` set ?gs \<subseteq> gr_uuid ` set (db_groups db)" by (auto simp: groups_of_principal_def)
  note F = transfer_memberships_frame [OF tr ne [symmetric] this]
  have T: "ts = concat (map (removed_member ?d ob) (map gr_uuid ?gs))"
      "list_all valid_relation_tuple (concat (map (removed_member ?d ob) (map gr_uuid ?gs)))"
      "memberships db1 = memberships db \<union> gr_uuid ` set ?gs \<times> {pr_uuid sv} - gr_uuid ` set ?gs \<times> {pr_uuid ob}"
      "map gr_uuid (db_groups db1) = map gr_uuid (db_groups db)" "\<exists>x. db1 = db\<lparr>db_groups := x\<rparr>"
    using F by (elim conjE, simp only: append_Nil)+
  let ?db1 = "transfer_role_binding_entries ob sv db1"
  have E: "db_groups ?db1 = db_groups db1" "db_principals ?db1 = db_principals db1" "db_ws ?db1 = db_ws db1"
    using transfer_entries_frame [of ob sv db1] by auto
  have base: "db_principals db1 = db_principals db" "db_ws db1 = db_ws db" using T(5) by auto
  note D = delete_principal_Inr [OF del, unfolded E memberships_groups [OF E(1)]]
  have ws2: "db_ws db2 = db_ws db" using D(5) E(3) base by auto
  obtain p db3 us where sp: "save_principal (sv\<lparr>pr_user_id := Some u\<rparr>) db2 = Inr (p, db3)"
    and us: "group_member_tuples_for_principal ?d db3 p = Inr us"
    and ev: "us = [] \<and> ts = [] \<and> db' = db3 \<or>
        (\<exists>info. send_event st rp EV_ADD_PRINCIPALS_TO_GROUP info us ts db3 = Inr db')"
    using asg by (auto simp: assign_user_id_and_replicate_merge_def bind_r_Inr_iff split: if_splits)
  note S = save_principal_Inr [OF sp]
  have pu: "pr_user_id p = Some u" "pr_uuid p = pr_uuid sv" using S(5,6) by simp_all
  have g3: "db_groups db3 = db_groups db2" "db_ws db3 = db_ws db2"
    using S(2) by auto
  note U = group_member_tuples_Inr [OF us pu(1)]
  have "distinct (map gr_uuid (db_groups db3))" using groups T(4) D(4) g3 by simp
  then have "distinct us" using distinct_groups_of_principal [of db3 p]
    by (auto simp: U(1) distinct_map inj_on_def)
  then have ev': "(\<exists>x. db' = db3\<lparr>db_ws := (db_ws db3)\<lparr>wst_repl := x\<rparr>\<rparr>) \<and>
      tuples (wst_repl (db_ws db')) = (tuples (wst_repl (db_ws db3)) - set ts) \<union> set us"
    using ev
  proof (elim disjE exE)
    assume "us = [] \<and> ts = [] \<and> db' = db3"
    then show ?thesis by (auto intro: exI [of _ "wst_repl (db_ws db3)"])
  qed (use send_event_applies [OF _ U(2) _ T(2) [folded T(1)]] in blast)
  have g': "db_groups db' = db_groups db3" "db_principals db' = db_principals db3" using ev' by auto
  show ?rows
    using S(1,3) D(1) base sv ne by (auto simp: g')
  have m': "memberships db' = memberships db2" using memberships_groups [of db' db2] g' g3 by simp
  have obs: "gr_uuid ` set ?gs = {g. (g, pr_uuid ob) \<in> memberships db}" by (rule groups_of_principal_memberships)
  show ?members
    unfolding m' D(2) T(3) obs by (rule renamed_members [OF ne])
  show ?uuids using g' g3 D(4) T(4) by simp
  have "set us = {member_tuple ?d g u |g. (g, pr_uuid sv) \<in> memberships db'}"
  proof -
    have "set us = (\<lambda>g. member_tuple ?d g u) ` (gr_uuid ` set (groups_of_principal db3 p))" by (simp add: U(1) image_image)
    then show ?thesis
      unfolding groups_of_principal_memberships pu(2) memberships_groups [OF g'(1)] by (simp add: setcompr_eq_image)
  qed
  moreover have "set ts = {t. \<exists>g. (g, pr_uuid ob) \<in> memberships db \<and> t \<in> set (removed_member ?d ob g)}"
  proof -
    have "set ts = (\<Union>g \<in> gr_uuid ` set ?gs. set (removed_member ?d ob g))" by (simp add: T(1))
    then show ?thesis unfolding obs by blast
  qed
  ultimately show ?graph using ev' g3 ws2 by simp
qed

lemma merge_synced:
  assumes run: "merge_obsolete_principal_into_survivor st rp sv ob u db = Inr db'"
    and wf: "principal_rows_wf db" and rows: "sv \<in> set (db_principals db)" "ob \<in> set (db_principals db)"
    and ids: "pr_user_id sv = None" "pr_user_id ob = Some u"
    and synced: "group_synced (rc_domain st) (tuples (wst_repl (db_ws db))) db g"
  shows "group_synced (rc_domain st) (tuples (wst_repl (db_ws db'))) db' g"
    and "pr_uuid ob \<notin> pr_uuid ` set (db_principals db')"
proof -
  let ?G = "tuples (wst_repl (db_ws db))" and ?G' = "tuples (wst_repl (db_ws db'))"
  let ?M = "memberships db" and ?M' = "memberships db'" and ?t = "member_tuple (rc_domain st) g"
  let ?sv = "principal_save (sv\<lparr>pr_user_id := Some u\<rparr>)"
  have inj: "inj_on pr_uuid (set (db_principals db))" and u: "u \<noteq> []"
    using wf rows(2) ids(2) by (auto simp: principal_rows_wf_def distinct_map)
  have ne: "pr_uuid sv \<noteq> pr_uuid ob" using inj_onD [OF inj _ rows] ids by auto
  have groups: "distinct (map gr_uuid (db_groups db))" using wf by (simp add: principal_rows_wf_def)
  note S = merge_spec [OF run ne groups imageI [OF rows(1)]]
  have uniq: "inj_on pr_user_id {p \<in> set (db_principals db). pr_user_id p \<noteq> None}"
    using wf by (simp add: principal_rows_wf_def)
  have owner: "p = ob" if p: "p \<in> set (db_principals db)" "pr_user_id p = Some u" for p
    using inj_onD [OF uniq, of p ob] p rows(2) ids(2) by simp
  have M': "(g, q) \<in> ?M' \<longleftrightarrow> (g, q) \<in> ?M \<and> q \<noteq> pr_uuid ob \<or> q = pr_uuid sv \<and> (g, pr_uuid ob) \<in> ?M" for q
    unfolding S(2) by (rule renamed_member_iff [OF ne])
  have saved: "pr_user_id ?sv = Some u" "pr_uuid ?sv = pr_uuid sv" by (simp_all add: principal_save_def)
  have uuid_eq: "pr_uuid q = pr_uuid r \<longleftrightarrow> q = r" if "q \<in> set (db_principals db)" "r \<in> {sv, ob}" for q r
    using inj_on_eq_iff [OF inj that(1)] rows that(2) by auto
  have rows': "q \<in> set (db_principals db') \<longleftrightarrow>
      q \<in> set (db_principals db) \<and> q \<noteq> ob \<and> q \<noteq> sv \<or> q = ?sv" for q
  proof -
    have "set (db_principals db') = (\<lambda>q. if q = sv then ?sv else q) ` {q \<in> set (db_principals db). q \<noteq> ob}"
      unfolding S(1) using uuid_eq by (auto intro!: image_cong)
    also have "\<dots> = insert ?sv {q \<in> set (db_principals db). q \<noteq> ob \<and> q \<noteq> sv}" using rows(1) ne by auto
    finally show ?thesis by blast
  qed
  have old: "?t v \<in> ?G \<longleftrightarrow> (\<exists>p \<in> set (db_principals db). pr_user_id p = Some v \<and> (g, pr_uuid p) \<in> ?M)" for v
    using synced by (simp add: group_synced_def)
  have G': "?t v \<in> ?G' \<longleftrightarrow> (if v = u then (g, pr_uuid sv) \<in> ?M' else ?t v \<in> ?G)" for v
    using S(3) ids(2) u owner old [of u] M' [of "pr_uuid sv"] ne by (auto simp: removed_member_def neq_Nil_conv)
  have "?t v \<in> ?G' \<longleftrightarrow> (\<exists>p \<in> set (db_principals db'). pr_user_id p = Some v \<and> (g, pr_uuid p) \<in> ?M')" for v
  proof (cases "v = u")
    case True
    have "(\<exists>p \<in> set (db_principals db'). pr_user_id p = Some u \<and> (g, pr_uuid p) \<in> ?M') \<longleftrightarrow> (g, pr_uuid sv) \<in> ?M'"
    proof
      assume "\<exists>p \<in> set (db_principals db'). pr_user_id p = Some u \<and> (g, pr_uuid p) \<in> ?M'"
      then obtain p where p: "p \<in> set (db_principals db')" "pr_user_id p = Some u" "(g, pr_uuid p) \<in> ?M'" by blast
      then have "p = ?sv" using rows' [of p] owner [of p] by blast
      then show "(g, pr_uuid sv) \<in> ?M'" using p(3) saved(2) by simp
    next
      assume "(g, pr_uuid sv) \<in> ?M'"
      then show "\<exists>p \<in> set (db_principals db'). pr_user_id p = Some u \<and> (g, pr_uuid p) \<in> ?M'"
        using rows' [of ?sv] saved by (intro bexI [of _ ?sv] conjI) simp_all
    qed
    then show ?thesis using G' [of u] True by simp
  next
    case False
    have other: "(g, pr_uuid p) \<in> ?M' \<longleftrightarrow> (g, pr_uuid p) \<in> ?M"
      if "p \<in> set (db_principals db)" "p \<noteq> ob" "p \<noteq> sv" for p
      using that M' [of "pr_uuid p"] uuid_eq [of p] by auto
    have "(\<exists>p \<in> set (db_principals db'). pr_user_id p = Some v \<and> (g, pr_uuid p) \<in> ?M') \<longleftrightarrow>
        (\<exists>p \<in> set (db_principals db). pr_user_id p = Some v \<and> (g, pr_uuid p) \<in> ?M)"
    proof (intro iffI; elim bexE conjE)
      fix p assume p: "p \<in> set (db_principals db')" "pr_user_id p = Some v" "(g, pr_uuid p) \<in> ?M'"
      then have "p \<noteq> ?sv" using saved False by auto
      with p rows' [of p] other [of p] show "\<exists>p \<in> set (db_principals db). pr_user_id p = Some v \<and> (g, pr_uuid p) \<in> ?M" by blast
    next
      fix p assume p: "p \<in> set (db_principals db)" "pr_user_id p = Some v" "(g, pr_uuid p) \<in> ?M"
      then have "p \<noteq> ob" "p \<noteq> sv" using ids False by auto
      with p rows' [of p] other [of p] show "\<exists>p \<in> set (db_principals db'). pr_user_id p = Some v \<and> (g, pr_uuid p) \<in> ?M'" by blast
    qed
    then show ?thesis using G' [of v] old [of v] False by simp
  qed
  then show "group_synced (rc_domain st) ?G' db' g" by (simp add: group_synced_def)
  show "pr_uuid ob \<notin> pr_uuid ` set (db_principals db')"
  proof
    assume "pr_uuid ob \<in> pr_uuid ` set (db_principals db')"
    then obtain q where "q \<in> set (db_principals db')" "pr_uuid q = pr_uuid ob" by auto
    then show False using rows' [of q] uuid_eq [of q ob] ne saved(2) by auto
  qed
qed

end

section \<open>Giving a principal its id\<close>

lemma named_principal:
  assumes "get_one (principals_named db name t) = Inr p"
  shows "p \<in> set (db_principals db)" and "pr_tenant p = tn_pk t"
proof -
  have "p \<in> set (principals_named db name t)" using assms by (auto simp: get_one_def split: list.splits)
  then show "p \<in> set (db_principals db)" "pr_tenant p = tn_pk t" by (simp_all add: principals_named_def)
qed

lemma missing_user_id:
  "principal_rows_wf db \<Longrightarrow> p \<in> set (db_principals db) \<Longrightarrow> is_missing_user_id (pr_user_id p) \<longleftrightarrow> pr_user_id p = None"
  by (auto simp: principal_rows_wf_def is_missing_user_id_def normalize_user_id_def)

text \<open>
  An id that is not the principal's own is given by a merge with the principal of the tenant that has it,
  or else by saving it; the other branches raise.
\<close>

lemma assign_user_id_cases:
  assumes run: "assign_user_id st rp p t (Some u) db = Inr db'" and wf: "principal_rows_wf db"
    and p: "p \<in> set (db_principals db)" "pr_tenant p = tn_pk t"
  shows "db' = db \<or>
    pr_user_id p = None \<and>
      ((\<exists>ob \<in> set (db_principals db). pr_user_id ob = Some u \<and>
          merge_obsolete_principal_into_survivor st rp p ob u db = Inr db') \<or>
       (\<exists>p'. save_principal (p\<lparr>pr_user_id := Some u\<rparr>) db = Inr (p', db')))"
proof (cases "pr_user_id p = Some u")
  case True
  then show ?thesis using run by (simp add: assign_user_id_def)
next
  case False
  then have none: "pr_user_id p = None"
    using run missing_user_id [OF wf p(1)] by (auto simp: assign_user_id_def split: if_splits)
  let ?obs = "filter (\<lambda>q. pr_user_id q = Some u \<and> pr_tenant q = tn_pk t \<and> pr_uuid q \<noteq> pr_uuid p) (db_principals db)"
  show ?thesis
  proof (cases ?obs)
    case (Cons ob obs)
    then have "ob \<in> set ?obs" by simp
    then have "ob \<in> set (db_principals db)" "pr_user_id ob = Some u" by simp_all
    moreover have "merge_obsolete_principal_into_survivor st rp p ob u db = Inr db'"
      using run Cons none by (simp add: assign_user_id_def is_missing_user_id_def normalize_user_id_def)
    ultimately show ?thesis using none by blast
  next
    case Nil
    have saved: "(case save_principal (p\<lparr>pr_user_id := Some u\<rparr>) db of
          Inr (_, db1) \<Rightarrow> Inr db1
        | Inl IntegrityError \<Rightarrow> resolve_user_id_conflict st rp (p\<lparr>pr_user_id := Some u\<rparr>) (Some u) db
        | Inl e \<Rightarrow> Inl e) = Inr db'"
      using run Nil none by (simp add: assign_user_id_def is_missing_user_id_def normalize_user_id_def)
    show ?thesis
    proof (cases "save_principal (p\<lparr>pr_user_id := Some u\<rparr>) db")
      case (Inr r)
      then show ?thesis using saved none by (cases r) simp
    next
      case (Inl e)
      then have conflict: "resolve_user_id_conflict st rp (p\<lparr>pr_user_id := Some u\<rparr>) (Some u) db = Inr db'"
        using saved by (cases e) simp_all
      let ?owners = "filter (\<lambda>q. pr_user_id q = Some u \<and> pr_uuid q \<noteq> pr_uuid p) (db_principals db)"
      show ?thesis
      proof (cases ?owners)
        case Nil
        have "distinct (map pr_uuid (db_principals db))" using wf by (simp add: principal_rows_wf_def)
        then have "filter (\<lambda>q. pr_uuid q = pr_uuid p) (db_principals db) = [p]"
          using p(1) by (rule filter_key_unique)
        then show ?thesis using conflict Nil none
          by (auto simp: resolve_user_id_conflict_def normalize_user_id_def get_one_def split: if_splits)
      next
        case (Cons ob obs)
        then have "ob \<in> set ?owners" by simp
        then have "pr_tenant ob \<noteq> tn_pk t" using Nil by (auto simp: filter_empty_conv)
        then show ?thesis using conflict Cons \<open>ob \<in> set ?owners\<close> p(2)
          by (auto simp: resolve_user_id_conflict_def normalize_user_id_def merge_obsolete_principal_into_survivor_def
              split: if_splits)
      qed
    qed
  qed
qed

lemma get_or_create_principal_cases:
  assumes "get_or_create_principal uuid4 name t uid db = Inr (p, created, db1)"
    and "uuid4 (db_next_uuid db) \<notin> pr_uuid ` set (db_principals db)"
  shows "\<not> created \<and> db1 = db \<and> get_one (principals_named db name t) = Inr p \<or>
    created \<and> get_one (principals_named db name t) = Inl DoesNotExist \<and>
      db1 = db\<lparr>db_principals := db_principals db @ [p], db_next_uuid := db_next_uuid db + 1\<rparr> \<and>
      pr_uuid p = uuid4 (db_next_uuid db) \<and> pr_user_id p = uid \<and> pr_tenant p = tn_pk t"
proof (cases "get_one (principals_named db name t)")
  case (Inr q)
  then show ?thesis using assms(1) by (auto simp: get_or_create_principal_def)
next
  case (Inl e)
  then have e: "e = DoesNotExist" and "\<exists>n. name = Some n"
    using assms(1) by (cases e; auto simp: get_or_create_principal_def split: option.splits)+
  then show ?thesis using assms Inl
    by (auto simp: get_or_create_principal_def fresh_uuid_def Let_def bind_r_Inr_iff save_principal_def principal_save_def)
qed

lemma group_synced_new_principal:
  assumes "db_groups db1 = db_groups db" and "db_principals db1 = db_principals db @ [p]"
    and "pr_uuid p \<notin> snd ` memberships db"
  shows "group_synced d G db1 g \<longleftrightarrow> group_synced d G db g"
proof -
  have "(g, pr_uuid p) \<notin> memberships db" using assms(3) by force
  then show ?thesis by (simp add: group_synced_def assms(2) memberships_groups [OF assms(1)] bex_Un)
qed

lemma principal_rows_wf_new:
  assumes "principal_rows_wf db" and "db_groups db1 = db_groups db" and "db_principals db1 = db_principals db @ [p]"
    and "pr_uuid p \<notin> pr_uuid ` set (db_principals db)" and "pr_user_id p = None"
  shows "principal_rows_wf db1"
proof -
  have "{q \<in> set (db_principals db1). pr_user_id q \<noteq> None} = {q \<in> set (db_principals db). pr_user_id q \<noteq> None}"
    using assms(3,5) by auto
  then show ?thesis
    using assms(1,4,5) unfolding principal_rows_wf_def memberships_groups [OF assms(2)] assms(2) by (auto simp: assms(3))
qed

definition id_without_merge :: "'s rbac_db \<Rightarrow> 's rbac_db \<Rightarrow> string \<Rightarrow> bool" where
  "id_without_merge db db' g \<longleftrightarrow>
     pr_uuid ` set (db_principals db) \<subseteq> pr_uuid ` set (db_principals db') \<and>
     (\<exists>p \<in> set (db_principals db). \<exists>p' \<in> set (db_principals db').
        pr_uuid p' = pr_uuid p \<and> pr_user_id p = None \<and> pr_user_id p' \<noteq> None \<and> (g, pr_uuid p) \<in> memberships db)"

lemma id_without_merge_unchanged:
  assumes "distinct (map pr_uuid (db_principals db'))" and "set (db_principals db) \<subseteq> set (db_principals db')"
  shows "\<not> id_without_merge db db' g"
proof
  assume "id_without_merge db db' g"
  then obtain p p' where p: "p \<in> set (db_principals db)" "p' \<in> set (db_principals db')" "pr_uuid p' = pr_uuid p"
      "pr_user_id p = None" "pr_user_id p' \<noteq> None"
    unfolding id_without_merge_def by blast
  have "p' = p" using assms p(1-3) by (auto simp: distinct_map dest: inj_onD)
  then show False using p(4,5) by simp
qed

lemma saved_id_synced:
  assumes save: "save_principal (p\<lparr>pr_user_id := Some u\<rparr>) db = Inr (p', db')" and wf: "principal_rows_wf db"
    and p: "p \<in> set (db_principals db)" "pr_user_id p = None" and synced: "group_synced d G db g"
  shows "group_synced d G db' g \<longleftrightarrow> (g, pr_uuid p) \<notin> memberships db"
    and "id_without_merge db db' g \<longleftrightarrow> (g, pr_uuid p) \<in> memberships db"
proof -
  note S = save_principal_Inr [OF save]
  have inj: "inj_on pr_uuid (set (db_principals db))" using wf by (simp add: principal_rows_wf_def distinct_map)
  have rows: "db_principals db' = map (\<lambda>q. if pr_uuid q = pr_uuid p then p' else q) (db_principals db)"
    using S(3) p(1) by simp
  have eq: "pr_uuid q = pr_uuid p \<longleftrightarrow> q = p" if "q \<in> set (db_principals db)" for q
    using inj_on_eq_iff [OF inj that p(1)] .
  have mem: "memberships db' = memberships db" using S(2) by (intro memberships_groups) auto
  have free: "pr_user_id q \<noteq> Some u" if "q \<in> set (db_principals db)" for q
    using bspec [OF S(7) that] eq [OF that] p(2) by auto
  have p': "pr_user_id p' = Some u" "pr_uuid p' = pr_uuid p" using S(5,6) by simp_all
  have set': "set (db_principals db') = insert p' {q \<in> set (db_principals db). q \<noteq> p}"
    unfolding rows using eq p(1) by (auto simp: image_iff)
  have old: "member_tuple d g v \<in> G \<longleftrightarrow> (\<exists>q \<in> set (db_principals db). pr_user_id q = Some v \<and> (g, pr_uuid q) \<in> memberships db)" for v
    using synced by (simp add: group_synced_def)
  have new: "(\<exists>q \<in> set (db_principals db'). pr_user_id q = Some v \<and> (g, pr_uuid q) \<in> memberships db) \<longleftrightarrow>
      v = u \<and> (g, pr_uuid p) \<in> memberships db \<or> member_tuple d g v \<in> G" for v
  proof -
    have "(\<exists>q \<in> {q \<in> set (db_principals db). q \<noteq> p}. pr_user_id q = Some v \<and> (g, pr_uuid q) \<in> memberships db) \<longleftrightarrow>
        member_tuple d g v \<in> G"
      unfolding old using p(2) by force
    then show ?thesis unfolding set' using p' by (simp only: bex_simps) auto
  qed
  have "member_tuple d g u \<notin> G" using old [of u] free by blast
  then show "group_synced d G db' g \<longleftrightarrow> (g, pr_uuid p) \<notin> memberships db"
    unfolding group_synced_def mem new by blast
  have sub: "pr_uuid ` set (db_principals db) \<subseteq> pr_uuid ` set (db_principals db')" unfolding set' using p'(2) by auto
  show "id_without_merge db db' g \<longleftrightarrow> (g, pr_uuid p) \<in> memberships db"
  proof
    assume "id_without_merge db db' g"
    then obtain q q' where q: "q \<in> set (db_principals db)" "q' \<in> set (db_principals db')" "pr_uuid q' = pr_uuid q"
        "pr_user_id q = None" "pr_user_id q' \<noteq> None" "(g, pr_uuid q) \<in> memberships db"
      unfolding id_without_merge_def by blast
    have "q' = p'"
    proof (rule ccontr)
      assume "q' \<noteq> p'"
      then have "q' \<in> set (db_principals db)" using q(2) unfolding set' by blast
      then have "q' = q" using inj_onD [OF inj q(3)] q(1) by blast
      then show False using q(4,5) by simp
    qed
    then show "(g, pr_uuid p) \<in> memberships db" using q(3,6) p'(2) by simp
  next
    assume "(g, pr_uuid p) \<in> memberships db"
    then show "id_without_merge db db' g"
      unfolding id_without_merge_def using sub p p' set' by (intro conjI bexI [of _ p] bexI [of _ p']) simp_all
  qed
qed

lemma normalize_user_id_Some: "normalize_user_id x = Some u \<longleftrightarrow> x = Some u \<and> u \<noteq> []"
  by (auto simp: normalize_user_id_def)

context workspace_replicator
begin

lemma assign_synced:
  assumes run: "assign_user_id st rp p t uid db = Inr db'" and wf: "principal_rows_wf db"
    and p: "p \<in> set (db_principals db)" "pr_tenant p = tn_pk t"
    and synced: "group_synced (rc_domain st) (tuples (wst_repl (db_ws db))) db g"
  shows "group_synced (rc_domain st) (tuples (wst_repl (db_ws db'))) db' g \<longleftrightarrow> \<not> id_without_merge db db' g"
proof -
  have same: ?thesis if "db' = db"
    using that synced id_without_merge_unchanged [of db db] wf by (simp add: principal_rows_wf_def)
  show ?thesis
  proof (cases uid)
    case None
    then show ?thesis using run same by (simp add: assign_user_id_def)
  next
    case (Some u)
    from assign_user_id_cases [OF run [unfolded Some] wf p] show ?thesis
    proof (elim disjE conjE bexE exE)
      fix ob assume ob: "pr_user_id p = None" "ob \<in> set (db_principals db)" "pr_user_id ob = Some u"
        "merge_obsolete_principal_into_survivor st rp p ob u db = Inr db'"
      note M = merge_synced [OF ob(4) wf p(1) ob(2,1,3) synced]
      have "\<not> id_without_merge db db' g" using M(2) ob(2) unfolding id_without_merge_def by blast
      then show ?thesis using M(1) by simp
    next
      fix p' assume save: "pr_user_id p = None" "save_principal (p\<lparr>pr_user_id := Some u\<rparr>) db = Inr (p', db')"
      have "db_ws db' = db_ws db" using save_principal_Inr(2) [OF save(2)] by auto
      then show ?thesis using saved_id_synced [OF save(2) wf p(1) save(1) synced] by simp
    qed (rule same)
  qed
qed

lemma conflict_synced:
  assumes created: "get_or_create_principal uuid4 name t None db = Inr (sv, c, db1)"
    and missing: "get_one (principals_named db name t) = Inl DoesNotExist"
    and run: "resolve_user_id_conflict st rp sv uid db1 = Inr db'" and wf: "principal_rows_wf db"
    and fresh: "uuid4 (db_next_uuid db) \<notin> pr_uuid ` set (db_principals db)"
    and synced: "group_synced (rc_domain st) (tuples (wst_repl (db_ws db))) db g"
  shows "group_synced (rc_domain st) (tuples (wst_repl (db_ws db'))) db' g" and "\<not> id_without_merge db db' g"
proof -
  have db1: "db1 = db\<lparr>db_principals := db_principals db @ [sv], db_next_uuid := db_next_uuid db + 1\<rparr>"
    and sv: "pr_uuid sv = uuid4 (db_next_uuid db)" "pr_user_id sv = None"
    using get_or_create_principal_cases [OF created fresh] missing by auto
  have new: "pr_uuid sv \<notin> pr_uuid ` set (db_principals db)" using fresh sv(1) by simp
  have rows: "db_groups db1 = db_groups db" "db_principals db1 = db_principals db @ [sv]" "db_ws db1 = db_ws db"
    by (simp_all add: db1)
  have wf1: "principal_rows_wf db1" by (rule principal_rows_wf_new [OF wf rows(1,2) new sv(2)])
  have "pr_uuid sv \<notin> snd ` memberships db" using new wf unfolding principal_rows_wf_def by blast
  then have synced1: "group_synced (rc_domain st) (tuples (wst_repl (db_ws db1))) db1 g"
    using group_synced_new_principal [OF rows(1,2)] synced rows(3) by simp
  obtain u where u: "normalize_user_id uid = Some u" using run by (auto simp: resolve_user_id_conflict_def split: option.splits)
  let ?owners = "filter (\<lambda>p. pr_user_id p = Some u \<and> pr_uuid p \<noteq> pr_uuid sv) (db_principals db1)"
  have "?owners \<noteq> []"
  proof
    assume none: "?owners = []"
    have "distinct (map pr_uuid (db_principals db1))" using wf1 by (simp add: principal_rows_wf_def)
    then have "filter (\<lambda>p. pr_uuid p = pr_uuid sv) (db_principals db1) = [sv]"
      by (rule filter_key_unique) (simp add: rows)
    then show False using run none u sv(2) by (simp add: resolve_user_id_conflict_def get_one_def)
  qed
  then obtain ob obs where obs: "?owners = ob # obs" by (cases ?owners) auto
  then have "ob \<in> set ?owners" by simp
  then have ob: "ob \<in> set (db_principals db1)" "pr_user_id ob = Some u" "ob \<in> set (db_principals db)"
    using sv(2) by (auto simp: rows)
  have "merge_obsolete_principal_into_survivor st rp sv ob u db1 = Inr db'"
    using run obs u by (simp add: resolve_user_id_conflict_def)
  note M = merge_synced [OF this wf1 _ ob(1) sv(2) ob(2) synced1]
  show "group_synced (rc_domain st) (tuples (wst_repl (db_ws db'))) db' g" by (rule M(1)) (simp add: rows)
  have "pr_uuid ob \<notin> pr_uuid ` set (db_principals db')" by (rule M(2)) (simp add: rows)
  then show "\<not> id_without_merge db db' g" using ob(3) unfolding id_without_merge_def by blast
qed

lemma ensure_synced:
  assumes run: "ensure_principal_with_user_id_in_tenant st rp uuid4 user t upsert db = Inr db'"
    and wf: "principal_rows_wf db" and fresh: "uuid4 (db_next_uuid db) \<notin> pr_uuid ` set (db_principals db)"
    and synced: "group_synced (rc_domain st) (tuples (wst_repl (db_ws db))) db g"
  shows "group_synced (rc_domain st) (tuples (wst_repl (db_ws db'))) db' g \<longleftrightarrow> \<not> id_without_merge db db' g"
proof -
  let ?uid = "normalize_user_id (us_user_id user)" and ?named = "get_one (principals_named db (us_username user) t)"
  have found: ?thesis if "?named = Inr p" "assign_user_id st rp p t ?uid db = Inr db'" for p
    by (rule assign_synced [OF that(2) wf named_principal [OF that(1)] synced])
  have same: ?thesis if "db' = db"
    using that synced id_without_merge_unchanged [of db db] wf by (simp add: principal_rows_wf_def)
  show ?thesis
  proof (cases upsert)
    case False
    show ?thesis
    proof (cases ?named)
      case (Inr p)
      then show ?thesis using run False found by (simp add: ensure_principal_with_user_id_in_tenant_def)
    next
      case (Inl e)
      then have "db' = db" using run False by (cases e) (simp_all add: ensure_principal_with_user_id_in_tenant_def)
      then show ?thesis by (rule same)
    qed
  next
    case True
    show ?thesis
    proof (cases "get_or_create_principal uuid4 (us_username user) t ?uid db")
      case (Inr r)
      obtain p created db1 where r: "r = (p, created, db1)" by (cases r)
      note C = get_or_create_principal_cases [OF Inr [unfolded r] fresh]
      show ?thesis
      proof (cases created)
        case False
        then have "db1 = db" "?named = Inr p" using C by simp_all
        then show ?thesis using run Inr r \<open>upsert\<close> False found by (simp add: ensure_principal_with_user_id_in_tenant_def)
      next
        case True
        then have db': "db' = db1" using run Inr r \<open>upsert\<close> by (simp add: ensure_principal_with_user_id_in_tenant_def)
        have rows: "db_groups db' = db_groups db" "db_principals db' = db_principals db @ [p]" "db_ws db' = db_ws db"
            "pr_uuid p \<notin> pr_uuid ` set (db_principals db)"
          using C True fresh db' by auto
        have "pr_uuid p \<notin> snd ` memberships db" using rows(4) wf unfolding principal_rows_wf_def by blast
        moreover have "\<not> id_without_merge db db' g"
          using wf rows(2,4) by (intro id_without_merge_unchanged) (auto simp: principal_rows_wf_def)
        ultimately show ?thesis using group_synced_new_principal [OF rows(1,2)] synced rows(3) by simp
      qed
    next
      case (Inl e)
      have e: "e = IntegrityError"
        using run True Inl by (cases e) (simp_all add: ensure_principal_with_user_id_in_tenant_def)
      have "bind_r (get_or_create_principal uuid4 (us_username user) t None db) (\<lambda>(survivor, _, db1).
          resolve_user_id_conflict st rp survivor ?uid db1) = Inr db'"
        using run True Inl e by (simp add: ensure_principal_with_user_id_in_tenant_def Let_def split: if_splits)
      then obtain sv c db1 where sv: "get_or_create_principal uuid4 (us_username user) t None db = Inr (sv, c, db1)"
        and conflict: "resolve_user_id_conflict st rp sv ?uid db1 = Inr db'"
        by (auto simp: bind_r_Inr_iff)
      have "?named = Inl DoesNotExist"
        using Inl e by (auto simp: get_or_create_principal_def get_one_def split: list.splits)
      then show ?thesis using conflict_synced [OF sv _ conflict wf fresh synced] by simp
    qed
  qed
qed

end

section \<open>Properties\<close>

text \<open>
  C11 (functional): when a user's principal is found, created, given its id or merged with an older
  principal of the same id, every group whose member tuples were in step with its rows stays in step, with
  one exception: a principal that is in the group without an id and gets the id without a merge. Its
  member tuple is then missing from the graph.
\<close>

theorem principal_user_id_synced:
  fixes db :: "outbox_wal rbac_db" and time :: int
  defines "graph \<equiv> \<lambda>db :: outbox_wal rbac_db. log_tuples (wal_rows (wst_repl (db_ws db)))"
  assumes "ensure_principal_with_user_id_in_tenant st (outbox_replicator outbox_wal_log time) uuid4 user t upsert db = Inr db'"
    and "principal_rows_wf db" and "uuid4 (db_next_uuid db) \<notin> pr_uuid ` set (db_principals db)"
    and "group_synced (rc_domain st) (graph db) db g"
  shows "group_synced (rc_domain st) (graph db') db' g \<longleftrightarrow> \<not> id_without_merge db db' g"
  using outbox_wal_ws.ensure_synced [OF assms(2-4), of g] assms(5) by (simp add: graph_def)

definition sample_principal :: "string \<Rightarrow> string \<Rightarrow> string option \<Rightarrow> principal" where
  "sample_principal i name user_id = \<lparr>pr_uuid = i, pr_username = name, pr_cross_account = False,
     pr_type = PRINCIPAL_USER, pr_service_account_id = None, pr_user_id = user_id, pr_tenant = 1\<rparr>"

definition sample_group :: rbac_group where
  "sample_group = \<lparr>gr_uuid = ''g1'', gr_name = ''G'', gr_description = None, gr_principals = [''p2''],
     gr_platform_default = False, gr_system = False, gr_admin_default = False, gr_tenant = 1\<rparr>"

definition sample_user :: rbac_user where
  "sample_user = \<lparr>us_username = Some ''new'', us_account = None, us_admin = False, us_internal = False,
     us_system = False, us_is_active = True, us_org_id = Some ''o1'', us_user_id = Some ''7'',
     us_cross_access = False, us_bearer_token = [], us_client_id = [], us_is_service_account = False\<rparr>"

definition sample_principals_db :: "outbox_wal rbac_db" where
  "sample_principals_db = (sample_db \<lparr>wal_table = [], wal_entries = []\<rparr>)
     \<lparr>db_principals := [sample_principal ''p1'' ''old'' (Some ''7''), sample_principal ''p2'' ''new'' None],
      db_groups := [sample_group]\<rparr>"

lemma sample_merge_ok:
  "is_ok (ensure_principal_with_user_id_in_tenant sample_role_settings (outbox_replicator outbox_wal_log 0) sample_uuid7
     sample_user sample_tenant False sample_principals_db)"
  by code_simp

text \<open>The principal without an id takes over the id of the older one; its group stays in step.\<close>

theorem principal_user_id_synced_witness:
  "\<exists>db'. ensure_principal_with_user_id_in_tenant sample_role_settings (outbox_replicator outbox_wal_log 0) sample_uuid7
       sample_user sample_tenant False sample_principals_db = Inr db' \<and>
     (group_synced ''redhat'' (log_tuples (wal_rows (wst_repl (db_ws db')))) db' ''g1'' \<longleftrightarrow>
        \<not> id_without_merge sample_principals_db db' ''g1'')"
proof -
  obtain db' where run: "ensure_principal_with_user_id_in_tenant sample_role_settings (outbox_replicator outbox_wal_log 0)
      sample_uuid7 sample_user sample_tenant False sample_principals_db = Inr db'"
    using sample_merge_ok by (auto simp: is_ok_iff)
  have m: "memberships sample_principals_db = {(''g1'', ''p2'')}"
    by (simp add: memberships_def sample_principals_db_def sample_group_def)
  have wf: "principal_rows_wf sample_principals_db"
    unfolding principal_rows_wf_def m
    by (auto simp: sample_principals_db_def sample_group_def sample_principal_def inj_on_def)
  have "group_synced ''redhat'' {} sample_principals_db ''g1''"
    unfolding group_synced_def m by (simp add: sample_principals_db_def sample_principal_def)
  moreover have "log_tuples (wal_rows (wst_repl (db_ws sample_principals_db))) = {}"
    by (simp add: sample_principals_db_def sample_db_def sample_state_def wal_rows_def log_tuples_def)
  moreover have "rc_domain sample_role_settings = ''redhat''" by (simp add: sample_role_settings_def)
  moreover have "sample_uuid7 (db_next_uuid sample_principals_db) \<notin> pr_uuid ` set (db_principals sample_principals_db)"
    by (simp add: sample_uuid7_def sample_principals_db_def sample_db_def sample_principal_def)
  ultimately show ?thesis using principal_user_id_synced [OF run wf, of "''g1''"] run by simp
qed

end
