(* ===== verification/Tenant_Bootstrap.thy ===== *)
theory Tenant_Bootstrap
  imports Principal_Service Platform_Roles
begin

text \<open>
  Bootstrapping tenants and users: the built-in workspaces, the tenant mapping and the default access of
  a tenant with the tuples that put them in the access graph (\<open>management/tenant_service/v2.py\<close>,
  \<open>management/tenant_service/relations.py\<close>), and the service for tenants without V2
  (\<open>management/tenant_service/v1.py\<close>).

  The function \<open>new_uuid\<close> gives all uuids of new rows. A set of tenants or of scopes is gone through in
  the order of a list; the policy service is passed through. \<open>get_user_id\<close> is the service's function for
  the id of a user.
\<close>

section \<open>Default role bindings\<close>

definition default_binding_tuples_for_scope ::
  "platform_settings \<Rightarrow> tenant_mapping \<Rightarrow> tenant_scope_resources \<Rightarrow> default_access_type \<Rightarrow> bool \<Rightarrow> 's rbac_db
   \<Rightarrow> relation_tuple list \<times> policy_id_service \<Rightarrow> scope \<Rightarrow> (relation_tuple list \<times> policy_id_service) result" where
  "default_binding_tuples_for_scope pf m target_resources access_type resource_binding_only db = (\<lambda>(rels, service) s.
     bind_r (default_role_binding_uuid_for m access_type s) (\<lambda>binding.
     bind_r (resource_for target_resources s) (\<lambda>target.
     bind_r (resource_binding_tuple target binding) (\<lambda>t1.
       if resource_binding_only then Inr (rels @ [t1], service)
       else bind_r (platform_v2_role_uuid_for pf access_type s db service) (\<lambda>(role, service').
            bind_r (role_binding_role_tuple binding role) (\<lambda>t2.
            bind_r (role_binding_group_subject_tuple binding (group_uuid_for m access_type)) (\<lambda>t3.
              Inr (rels @ [t1, t2, t3], service'))))))))"

definition default_role_binding_tuples ::
  "platform_settings \<Rightarrow> tenant_mapping \<Rightarrow> tenant_scope_resources \<Rightarrow> default_access_type \<Rightarrow> bool
   \<Rightarrow> scope list option \<Rightarrow> 's rbac_db \<Rightarrow> policy_id_service \<Rightarrow> (relation_tuple list \<times> policy_id_service) result" where
  "default_role_binding_tuples pf m target_resources access_type resource_binding_only target_scopes db service =
     foldM_r (default_binding_tuples_for_scope pf m target_resources access_type resource_binding_only db)
       ([], service) (case target_scopes of None \<Rightarrow> CONCRETE_SCOPES | Some ss \<Rightarrow> remdups ss)"

section \<open>Locks\<close>

record bootstrap_lock =
  bl_tenant_mapping :: tenant_mapping
  bl_custom_default_group :: "rbac_group option"

definition tenant_default_groups :: "'s rbac_db \<Rightarrow> tenant \<Rightarrow> rbac_group list" where
  "tenant_default_groups db t = filter (\<lambda>g. gr_platform_default g \<and> gr_tenant g = tn_pk t) (db_groups db)"

definition bootstrap_lock_of :: "'s rbac_db \<Rightarrow> tenant \<Rightarrow> bootstrap_lock option" where
  "bootstrap_lock_of db t =
     (case mappings_of (db_tenant_mappings db) t of
        [] \<Rightarrow> None
      | ms \<Rightarrow> Some \<lparr>bl_tenant_mapping = last ms,
                   bl_custom_default_group =
                     (case tenant_default_groups db t of [] \<Rightarrow> None | gs \<Rightarrow> Some (last gs))\<rparr>)"

definition try_lock_tenants_for_bootstrap ::
  "tenant list \<Rightarrow> 's rbac_db \<Rightarrow> (tenant \<times> bootstrap_lock option) list result" where
  "try_lock_tenants_for_bootstrap tenants db =
     bind_r (check_r (\<not> list_ex (\<lambda>t. tn_tenant_name t = ''public'') tenants) ValueError) (\<lambda>_.
       Inr (map (\<lambda>t. (t, bootstrap_lock_of db t)) tenants))"

definition try_lock_tenant_for_bootstrap :: "tenant \<Rightarrow> 's rbac_db \<Rightarrow> bootstrap_lock option result" where
  "try_lock_tenant_for_bootstrap t db =
     bind_r (try_lock_tenants_for_bootstrap [t] db) (\<lambda>locks.
       case map_of locks t of None \<Rightarrow> Inl KeyError | Some l \<Rightarrow> Inr l)"

definition lock_tenant_for_bootstrap :: "tenant \<Rightarrow> 's rbac_db \<Rightarrow> bootstrap_lock result" where
  "lock_tenant_for_bootstrap t db =
     bind_r (try_lock_tenant_for_bootstrap t db) (\<lambda>l.
       case l of None \<Rightarrow> Inl TenantNotBootstrappedError | Some l \<Rightarrow> Inr l)"

section \<open>The tuples of a tenant\<close>

record bootstrapped_tenant =
  bt_tenant :: tenant
  bt_mapping :: "tenant_mapping option"
  bt_default_workspace :: "workspace option"
  bt_root_workspace :: "workspace option"

definition built_in_hierarchy_tuples ::
  "role_settings \<Rightarrow> string \<Rightarrow> string \<Rightarrow> string option \<Rightarrow> relation_tuple list result" where
  "built_in_hierarchy_tuples st default_workspace_id root_workspace_id org_id =
     (let tenant_id = org_id_to_tenant_resource_id (rc_domain st) (py_str (py_opt_str org_id)) in
      bind_r (create_relationship (''rbac'', ''workspace'') default_workspace_id (''rbac'', ''workspace'')
                root_workspace_id ''parent'' None) (\<lambda>t1.
      bind_r (create_relationship (''rbac'', ''workspace'') root_workspace_id (''rbac'', ''tenant'') tenant_id
                ''tenant'' None) (\<lambda>t2.
      bind_r (create_relationship (''rbac'', ''tenant'') tenant_id (''rbac'', ''platform'') (st_env_name (rc_ws st))
                ''platform'' None) (\<lambda>t3. Inr [t1, t2, t3]))))"

text \<open>A default group that is not available leaves out the default access it would give.\<close>

definition default_access_tuples ::
  "platform_settings \<Rightarrow> tenant_mapping \<Rightarrow> tenant_scope_resources \<Rightarrow> default_access_type \<Rightarrow> 's rbac_db
   \<Rightarrow> policy_id_service \<Rightarrow> (relation_tuple list \<times> policy_id_service) result" where
  "default_access_tuples pf m scope_resources access_type db service =
     (case default_role_binding_tuples pf m scope_resources access_type False None db service of
        Inl DefaultGroupNotAvailableError \<Rightarrow> Inr ([], service)
      | r \<Rightarrow> r)"

definition bootstrap_default_access ::
  "platform_settings \<Rightarrow> tenant \<Rightarrow> tenant_mapping \<Rightarrow> tenant_scope_resources \<Rightarrow> 's rbac_db \<Rightarrow> policy_id_service
   \<Rightarrow> (relation_tuple list \<times> policy_id_service) result" where
  "bootstrap_default_access pf t m scope_resources db service =
     bind_r (if tenant_default_groups db t = []
             then default_access_tuples pf m scope_resources ACCESS_USER db service
             else Inr ([], service)) (\<lambda>(users, service1).
     bind_r (default_access_tuples pf m scope_resources ACCESS_ADMIN db service1) (\<lambda>(admins, service2).
       Inr (users @ admins, service2)))"

section \<open>Events\<close>

definition replicate_default_workspace ::
  "role_settings \<Rightarrow> 's replicator \<Rightarrow> 's rbac_db \<Rightarrow> tenant \<times> workspace \<Rightarrow> 's rbac_db result" where
  "replicate_default_workspace st rp db = (\<lambda>(t, w).
     bind_r (make_workspace_event (st_env_name (rc_ws st)) t w EV_CREATE_WORKSPACE) (\<lambda>e.
     bind_r (rp_replicate_workspace rp (wst_repl (db_ws db)) e STREAM_STANDARD) (\<lambda>s'.
       Inr (db\<lparr>db_ws := (db_ws db)\<lparr>wst_repl := s'\<rparr>\<rparr>))))"

definition replication_entry :: "tenant \<Rightarrow> workspace \<Rightarrow> (tenant \<times> workspace) result" where
  "replication_entry t dflt =
     bind_r (check_r (ws_tenant dflt = tn_pk t) ValueError) (\<lambda>_.
     bind_r (check_r (ws_type dflt = WS_DEFAULT) ValueError) (\<lambda>_. Inr (t, dflt)))"

definition send_bootstrap_events ::
  "role_settings \<Rightarrow> 's replicator \<Rightarrow> (tenant \<times> workspace) list \<Rightarrow> relation_tuple list \<Rightarrow> bool \<Rightarrow> bool
   \<Rightarrow> 's rbac_db \<Rightarrow> 's rbac_db result" where
  "send_bootstrap_events st rp entries relationships bulk forced db =
     bind_r (check_r (bulk \<or> length entries = 1) ValueError) (\<lambda>_.
     bind_r (check_r ((entries = []) = (relationships = [])) AssertionError) (\<lambda>_.
       case entries of
         [] \<Rightarrow> Inr db
       | (t, _) # _ \<Rightarrow>
           (let org = py_opt_str (tn_org_id t);
                info = (if bulk then [(''num_tenants'', PyInt (int (length entries))), (''first_org_id'', org)]
                        else [(''org_id'', org)]) @ (if forced then [(''forced'', PyBool True)] else [])
            in bind_r (send_event st rp (if bulk then EV_BULK_BOOTSTRAP_TENANT else EV_BOOTSTRAP_TENANT) info
                         relationships [] db) (\<lambda>db1.
                 foldM_r (replicate_default_workspace st rp) db1 entries))))"

section \<open>Bootstrapping tenants\<close>

definition new_mapping :: "(nat \<Rightarrow> string) \<Rightarrow> tenant \<Rightarrow> string option \<Rightarrow> 's rbac_db \<Rightarrow> tenant_mapping \<times> 's rbac_db" where
  "new_mapping new_uuid t default_group_uuid db =
     (let (pk, db00) = fresh_pk db;
          (g, db0) = (case default_group_uuid of Some u \<Rightarrow> (u, db00) | None \<Rightarrow> fresh_uuid new_uuid db00);
          (ag, db1) = fresh_uuid new_uuid db0; (b1, db2) = fresh_uuid new_uuid db1;
          (b2, db3) = fresh_uuid new_uuid db2; (b3, db4) = fresh_uuid new_uuid db3;
          (b4, db5) = fresh_uuid new_uuid db4; (b5, db6) = fresh_uuid new_uuid db5;
          (b6, db7) = fresh_uuid new_uuid db6
      in (\<lparr>tm_pk = pk, tm_tenant = tn_pk t, tm_v2_opted_in_at = None, tm_v2_write_activated_at = None,
           tm_default_group_uuid = g, tm_default_admin_group_uuid = ag,
           tm_default_role_binding_uuid = b1, tm_default_admin_role_binding_uuid = b2,
           tm_root_scope_default_role_binding_uuid = b3, tm_root_scope_default_admin_role_binding_uuid = b4,
           tm_tenant_scope_default_role_binding_uuid = b5, tm_tenant_scope_default_admin_role_binding_uuid = b6\<rparr>, db7))"

definition built_in_workspaces ::
  "role_settings \<Rightarrow> (nat \<Rightarrow> string) \<Rightarrow> string \<Rightarrow> tenant \<Rightarrow> 's rbac_db
   \<Rightarrow> (workspace \<times> workspace \<times> relation_tuple list \<times> 's rbac_db) result" where
  "built_in_workspaces st new_uuid now t db =
     (let (root_id, db1) = fresh_uuid new_uuid db; (default_id, db2) = fresh_uuid new_uuid db1;
          root = \<lparr>ws_id = root_id, ws_name = ''Root Workspace'', ws_parent_id = None,
                  ws_description = special_description WS_ROOT, ws_type = WS_ROOT, ws_tenant = tn_pk t,
                  ws_created = now, ws_modified = now\<rparr>;
          dflt = \<lparr>ws_id = default_id, ws_name = ''Default Workspace'', ws_parent_id = Some root_id,
                  ws_description = special_description WS_DEFAULT, ws_type = WS_DEFAULT, ws_tenant = tn_pk t,
                  ws_created = now, ws_modified = now\<rparr>
      in bind_r (built_in_hierarchy_tuples st default_id root_id (tn_org_id t)) (\<lambda>rels.
           Inr (root, dflt, rels, db2)))"

text \<open>\<open>bulk_create\<close> skips \<open>save\<close>: only the constraints of the table hold.\<close>

definition bulk_insert_workspace :: "ws_table \<Rightarrow> workspace \<Rightarrow> ws_table result" where
  "bulk_insert_workspace tbl w =
     bind_r (check_r (ws_id w \<notin> ws_id ` set tbl \<and> constraint_messages tbl w = []) IntegrityError) (\<lambda>_.
       Inr (tbl @ [w]))"

definition mapping_unique_uuids :: "tenant_mapping \<Rightarrow> string list" where
  "mapping_unique_uuids m =
     [tm_default_role_binding_uuid m, tm_default_admin_role_binding_uuid m,
      tm_root_scope_default_role_binding_uuid m, tm_root_scope_default_admin_role_binding_uuid m,
      tm_tenant_scope_default_role_binding_uuid m, tm_tenant_scope_default_admin_role_binding_uuid m]"

definition bulk_insert_mapping :: "mapping_table \<Rightarrow> tenant_mapping \<Rightarrow> mapping_table result" where
  "bulk_insert_mapping tbl m =
     bind_r (check_r (list_all (\<lambda>m'. tm_tenant m' \<noteq> tm_tenant m \<and>
               list_all2 (\<noteq>) (mapping_unique_uuids m') (mapping_unique_uuids m)) tbl) IntegrityError) (\<lambda>_.
       Inr (tbl @ [m]))"

record new_tenant =
  nt_tenant :: tenant
  nt_mapping :: tenant_mapping
  nt_root :: workspace
  nt_default :: workspace

text \<open>The first loop: the rows of each tenant and the tuples of its workspaces.\<close>

definition new_tenant_rows ::
  "role_settings \<Rightarrow> (nat \<Rightarrow> string) \<Rightarrow> string \<Rightarrow> (new_tenant list \<times> relation_tuple list) \<times> 's rbac_db \<Rightarrow> tenant
   \<Rightarrow> ((new_tenant list \<times> relation_tuple list) \<times> 's rbac_db) result" where
  "new_tenant_rows st new_uuid now = (\<lambda>((entries, rels), db) t.
     let custom = (case tenant_default_groups db t of [] \<Rightarrow> None | g # _ \<Rightarrow> Some (gr_uuid g));
         (m, db1) = new_mapping new_uuid t custom db
     in bind_r (built_in_workspaces st new_uuid now t db1) (\<lambda>(root, dflt, built_in, db2).
          Inr ((entries @ [\<lparr>nt_tenant = t, nt_mapping = m, nt_root = root, nt_default = dflt\<rparr>], rels @ built_in), db2)))"

definition new_tenant_access ::
  "role_settings \<Rightarrow> platform_settings \<Rightarrow> 's rbac_db \<Rightarrow> relation_tuple list \<times> policy_id_service \<Rightarrow> new_tenant
   \<Rightarrow> (relation_tuple list \<times> policy_id_service) result" where
  "new_tenant_access st pf db = (\<lambda>(rels, service) e.
     bind_r (resources_for_models (rc_domain st) (nt_tenant e) (nt_root e) (nt_default e)) (\<lambda>resources.
     bind_r (bootstrap_default_access pf (nt_tenant e) (nt_mapping e) resources db service) (\<lambda>(access, service').
       Inr (rels @ access, service'))))"

definition invalidate_workspaces :: "ws_cache \<Rightarrow> tenant \<Rightarrow> ws_cache" where
  "invalidate_workspaces cache t =
     (case tn_org_id t of Some (c # cs) \<Rightarrow> delete_workspaces_for_tenant cache (c # cs) | _ \<Rightarrow> cache)"

definition bootstrap_tenants_no_replicate ::
  "role_settings \<Rightarrow> platform_settings \<Rightarrow> (nat \<Rightarrow> string) \<Rightarrow> string \<Rightarrow> tenant list \<Rightarrow> 's rbac_db \<Rightarrow> policy_id_service
   \<Rightarrow> (new_tenant list \<times> relation_tuple list \<times> 's rbac_db \<times> policy_id_service) result" where
  "bootstrap_tenants_no_replicate st pf new_uuid now tenants db service =
     bind_r (check_r (\<not> list_ex (\<lambda>t. tn_tenant_name t = ''public'') tenants) ValueError) (\<lambda>_.
       let loaded = filter (\<lambda>t. tn_pk t \<in> tn_pk ` set tenants) (wst_tenants (db_ws db)) in
     bind_r (check_r (length loaded = length tenants) AssertionError) (\<lambda>_.
     bind_r (foldM_r (new_tenant_rows st new_uuid now) (([], []), db) loaded) (\<lambda>((entries, rels), db1).
     bind_r (foldM_r bulk_insert_workspace (wst_table (db_ws db1)) (map nt_default entries @ map nt_root entries))
       (\<lambda>tbl.
     bind_r (foldM_r bulk_insert_mapping (db_tenant_mappings db1) (map nt_mapping entries)) (\<lambda>mappings.
       let db2 = db1\<lparr>db_ws := (db_ws db1)\<lparr>wst_table := tbl,
                       wst_cache := foldl invalidate_workspaces (wst_cache (db_ws db1)) loaded\<rparr>,
                     db_tenant_mappings := mappings\<rparr>
       in bind_r (foldM_r (new_tenant_access st pf db2) (rels, service) entries) (\<lambda>(relationships, service').
            Inr (entries, relationships, db2, service')))))))"

definition bootstrap_tenants_now ::
  "role_settings \<Rightarrow> platform_settings \<Rightarrow> 's replicator \<Rightarrow> (nat \<Rightarrow> string) \<Rightarrow> string \<Rightarrow> tenant list \<Rightarrow> bool
   \<Rightarrow> 's rbac_db \<Rightarrow> policy_id_service \<Rightarrow> (bootstrapped_tenant list \<times> 's rbac_db \<times> policy_id_service) result" where
  "bootstrap_tenants_now st pf rp new_uuid now tenants bulk db service =
     bind_r (check_r (bulk \<or> length tenants = 1) RuntimeError) (\<lambda>_.
     bind_r (bootstrap_tenants_no_replicate st pf new_uuid now tenants db service)
       (\<lambda>(entries, relationships, db1, service').
     bind_r (check_r (length entries = length tenants) AssertionError) (\<lambda>_.
     bind_r (mapM_r (\<lambda>e. replication_entry (nt_tenant e) (nt_default e)) entries) (\<lambda>replicated.
     bind_r (send_bootstrap_events st rp replicated relationships bulk False db1) (\<lambda>db2.
       Inr (map (\<lambda>e. \<lparr>bt_tenant = nt_tenant e, bt_mapping = Some (nt_mapping e),
                      bt_default_workspace = Some (nt_default e), bt_root_workspace = Some (nt_root e)\<rparr>) entries,
            db2, service'))))))"

definition bootstrap_tenant_now ::
  "role_settings \<Rightarrow> platform_settings \<Rightarrow> 's replicator \<Rightarrow> (nat \<Rightarrow> string) \<Rightarrow> string \<Rightarrow> tenant
   \<Rightarrow> 's rbac_db \<Rightarrow> policy_id_service \<Rightarrow> (bootstrapped_tenant \<times> 's rbac_db \<times> policy_id_service) result" where
  "bootstrap_tenant_now st pf rp new_uuid now t db service =
     bind_r (bootstrap_tenants_now st pf rp new_uuid now [t] False db service) (\<lambda>(bs, db', service').
       case bs of [b] \<Rightarrow> Inr (b, db', service') | _ \<Rightarrow> Inl AssertionError)"

text \<open>The forced replication of bootstrapped tenants.\<close>

definition workspace_of_type :: "ws_table \<Rightarrow> tenant \<Rightarrow> workspace_type \<Rightarrow> workspace option" where
  "workspace_of_type tbl t ty =
     (case filter (\<lambda>w. ws_tenant w = tn_pk t \<and> ws_type w = ty) tbl of [] \<Rightarrow> None | ws \<Rightarrow> Some (last ws))"

definition replicated_tenant ::
  "role_settings \<Rightarrow> platform_settings \<Rightarrow> 's rbac_db
   \<Rightarrow> relation_tuple list \<times> (tenant \<times> workspace) list \<times> policy_id_service \<Rightarrow> tenant \<times> tenant_mapping
   \<Rightarrow> (relation_tuple list \<times> (tenant \<times> workspace) list \<times> policy_id_service) result" where
  "replicated_tenant st pf db = (\<lambda>(rels, entries, service) (t, m).
     let tbl = wst_table (db_ws db) in
     case (workspace_of_type tbl t WS_ROOT, workspace_of_type tbl t WS_DEFAULT) of
       (Some root, Some dflt) \<Rightarrow>
         bind_r (built_in_hierarchy_tuples st (ws_id dflt) (ws_id root) (tn_org_id t)) (\<lambda>built_in.
         bind_r (resources_for_models (rc_domain st) t root dflt) (\<lambda>resources.
         bind_r (bootstrap_default_access pf t m resources db service) (\<lambda>(access, service').
         bind_r (replication_entry t dflt) (\<lambda>e.
           Inr (rels @ built_in @ access, entries @ [e], service')))))
     | _ \<Rightarrow> Inl RuntimeError)"

definition replicate_bootstraps ::
  "role_settings \<Rightarrow> platform_settings \<Rightarrow> 's replicator \<Rightarrow> (tenant \<times> tenant_mapping) list \<Rightarrow> bool
   \<Rightarrow> 's rbac_db \<Rightarrow> policy_id_service \<Rightarrow> ('s rbac_db \<times> policy_id_service) result" where
  "replicate_bootstraps st pf rp tenants_with_mappings bulk db service =
     bind_r (check_r (bulk \<or> length tenants_with_mappings = 1) ValueError) (\<lambda>_.
       if tenants_with_mappings = [] then Inr (db, service)
       else bind_r (foldM_r (replicated_tenant st pf db) ([], [], service) tenants_with_mappings)
              (\<lambda>(relationships, entries, service').
            bind_r (send_bootstrap_events st rp entries relationships bulk True db) (\<lambda>db'. Inr (db', service'))))"

definition bootstrap_tenant ::
  "role_settings \<Rightarrow> platform_settings \<Rightarrow> 's replicator \<Rightarrow> (nat \<Rightarrow> string) \<Rightarrow> string \<Rightarrow> tenant \<Rightarrow> bool
   \<Rightarrow> 's rbac_db \<Rightarrow> policy_id_service \<Rightarrow> (bootstrapped_tenant \<times> 's rbac_db \<times> policy_id_service) result" where
  "bootstrap_tenant st pf rp new_uuid now t force db service =
     bind_r (try_lock_tenant_for_bootstrap t db) (\<lambda>lock.
       case lock of
         None \<Rightarrow> bootstrap_tenant_now st pf rp new_uuid now t db service
       | Some l \<Rightarrow>
           bind_r (if force then replicate_bootstraps st pf rp [(t, bl_tenant_mapping l)] False db service
                   else Inr (db, service)) (\<lambda>(db', service').
             Inr (\<lparr>bt_tenant = t, bt_mapping = Some (bl_tenant_mapping l), bt_default_workspace = None,
                   bt_root_workspace = None\<rparr>, db', service')))"

definition already_bootstrapped :: "(tenant \<times> bootstrap_lock option) list \<Rightarrow> (tenant \<times> tenant_mapping) list" where
  "already_bootstrapped locks =
     concat (map (\<lambda>(t, l). case l of None \<Rightarrow> [] | Some l \<Rightarrow> [(t, bl_tenant_mapping l)]) locks)"

definition not_bootstrapped :: "(tenant \<times> bootstrap_lock option) list \<Rightarrow> tenant list" where
  "not_bootstrapped locks = map fst (filter (\<lambda>(t, l). l = None) locks)"

definition bootstrapped_with_mapping :: "tenant \<times> tenant_mapping \<Rightarrow> bootstrapped_tenant" where
  "bootstrapped_with_mapping = (\<lambda>(t, m). \<lparr>bt_tenant = t, bt_mapping = Some m, bt_default_workspace = None,
     bt_root_workspace = None\<rparr>)"

definition bootstrap_tenants ::
  "role_settings \<Rightarrow> platform_settings \<Rightarrow> 's replicator \<Rightarrow> (nat \<Rightarrow> string) \<Rightarrow> string \<Rightarrow> tenant list \<Rightarrow> bool
   \<Rightarrow> 's rbac_db \<Rightarrow> policy_id_service \<Rightarrow> (bootstrapped_tenant list \<times> 's rbac_db \<times> policy_id_service) result" where
  "bootstrap_tenants st pf rp new_uuid now tenants0 force db service =
     (let tenants = remdups tenants0 in
      bind_r (try_lock_tenants_for_bootstrap tenants db) (\<lambda>locks.
        let done_before = already_bootstrapped locks; to_bootstrap = not_bootstrapped locks in
      bind_r (if force \<and> done_before \<noteq> [] then replicate_bootstraps st pf rp done_before True db service
              else Inr (db, service)) (\<lambda>(db1, service1).
      bind_r (if to_bootstrap \<noteq> [] then bootstrap_tenants_now st pf rp new_uuid now to_bootstrap True db1 service1
              else Inr ([], db1, service1)) (\<lambda>(new, db2, service2).
        let results = map bootstrapped_with_mapping done_before @ new in
      bind_r (check_r (length results = length tenants) AssertionError) (\<lambda>_. Inr (results, db2, service2))))))"

section \<open>Tenants by organisation\<close>

definition insert_tenant :: "tenant \<Rightarrow> 's rbac_db \<Rightarrow> 's rbac_db result" where
  "insert_tenant t db =
     bind_r (check_r (tn_org_id t = None \<or> tn_org_id t \<notin> tn_org_id ` set (wst_tenants (db_ws db))) IntegrityError)
       (\<lambda>_. Inr (db\<lparr>db_ws := (db_ws db)\<lparr>wst_tenants := wst_tenants (db_ws db) @ [t]\<rparr>\<rparr>))"

definition tenant_row :: "int \<Rightarrow> bool \<Rightarrow> string \<Rightarrow> string option \<Rightarrow> string option \<Rightarrow> tenant" where
  "tenant_row pk ready name account_id org_id =
     \<lparr>tn_pk = pk, tn_ready = ready, tn_tenant_name = name,
      tn_account_id = (if account_id = Some [] then None else account_id), tn_org_id = org_id,
      tn_relations_consistency_token = None, tn_org_config = PyDict []\<rparr>"

definition create_tenant ::
  "bool \<Rightarrow> string \<Rightarrow> string option \<Rightarrow> string option \<Rightarrow> 's rbac_db \<Rightarrow> (tenant \<times> 's rbac_db) result" where
  "create_tenant ready name account_id org_id db =
     (let (pk, db1) = fresh_pk db; t = tenant_row pk ready name account_id org_id
      in bind_r (insert_tenant t db1) (\<lambda>db2. Inr (t, db2)))"

definition tenants_of_org :: "'s rbac_db \<Rightarrow> string option \<Rightarrow> tenant list" where
  "tenants_of_org db org_id = filter (\<lambda>t. tn_org_id t = org_id) (wst_tenants (db_ws db))"

definition new_bootstrapped_tenant ::
  "role_settings \<Rightarrow> platform_settings \<Rightarrow> 's replicator \<Rightarrow> (nat \<Rightarrow> string) \<Rightarrow> string \<Rightarrow> string \<Rightarrow> string option
   \<Rightarrow> 's rbac_db \<Rightarrow> policy_id_service \<Rightarrow> (bootstrapped_tenant \<times> 's rbac_db \<times> policy_id_service) result" where
  "new_bootstrapped_tenant st pf rp new_uuid now org_id account_number db service =
     bind_r (create_tenant False [] account_number (Some org_id) db) (\<lambda>(t, db1).
       bootstrap_tenant_now st pf rp new_uuid now t db1 service)"

definition create_org_tenants ::
  "bool \<Rightarrow> (string \<times> string option) list \<Rightarrow> string list \<Rightarrow> 's rbac_db \<Rightarrow> (tenant list \<times> 's rbac_db) result" where
  "create_org_tenants ready accounts org_ids db =
     foldM_r (\<lambda>(ts, d) org_id.
        let account = (case map_of accounts org_id of Some a \<Rightarrow> a | None \<Rightarrow> None) in
        bind_r (create_tenant ready (''org'' @ org_id) account (Some org_id) d) (\<lambda>(t, d'). Inr (ts @ [t], d')))
       ([], db) org_ids"

definition get_or_bootstrap_tenants ::
  "role_settings \<Rightarrow> platform_settings \<Rightarrow> 's replicator \<Rightarrow> (nat \<Rightarrow> string) \<Rightarrow> string \<Rightarrow> string list \<Rightarrow> bool
   \<Rightarrow> (string \<times> string option) list \<Rightarrow> bool \<Rightarrow> 's rbac_db \<Rightarrow> policy_id_service
   \<Rightarrow> (bootstrapped_tenant list \<times> 's rbac_db \<times> policy_id_service) result" where
  "get_or_bootstrap_tenants st pf rp new_uuid now org_ids ready accounts bulk db service =
     bind_r (check_r (bulk \<or> length org_ids = 1) ValueError) (\<lambda>_.
       let existing = filter (\<lambda>t. tn_org_id t \<in> Some ` set org_ids) (wst_tenants (db_ws db)) in
     bind_r (try_lock_tenants_for_bootstrap existing db) (\<lambda>locks.
     bind_r (create_org_tenants ready accounts
               (filter (\<lambda>i. Some i \<notin> tn_org_id ` set existing) org_ids) db) (\<lambda>(new, db1).
       let to_bootstrap = not_bootstrapped locks @ new;
           before = map bootstrapped_with_mapping (already_bootstrapped locks) in
       if to_bootstrap = [] then Inr (before, db1, service)
       else if bulk
       then bind_r (bootstrap_tenants_now st pf rp new_uuid now to_bootstrap True db1 service) (\<lambda>(bs, db2, service').
              Inr (before @ bs, db2, service'))
       else bind_r (check_r (length to_bootstrap = 1) AssertionError) (\<lambda>_.
            bind_r (bootstrap_tenant_now st pf rp new_uuid now (hd to_bootstrap) db1 service) (\<lambda>(b, db2, service').
              Inr (before @ [b], db2, service'))))))"

definition get_or_bootstrap_tenant ::
  "role_settings \<Rightarrow> platform_settings \<Rightarrow> 's replicator \<Rightarrow> (nat \<Rightarrow> string) \<Rightarrow> string \<Rightarrow> string \<Rightarrow> bool \<Rightarrow> string option
   \<Rightarrow> 's rbac_db \<Rightarrow> policy_id_service \<Rightarrow> (bootstrapped_tenant \<times> 's rbac_db \<times> policy_id_service) result" where
  "get_or_bootstrap_tenant st pf rp new_uuid now org_id ready account_number db service =
     bind_r (get_or_bootstrap_tenants st pf rp new_uuid now [org_id] ready [(org_id, account_number)] False db service)
       (\<lambda>(bs, db', service'). case bs of [b] \<Rightarrow> Inr (b, db', service') | _ \<Rightarrow> Inl AssertionError)"

section \<open>Users\<close>

definition default_get_user_id :: "rbac_user \<Rightarrow> string result" where
  "default_get_user_id user = (case us_user_id user of None \<Rightarrow> Inl ValueError | Some u \<Rightarrow> Inr u)"

definition default_group_tuple_edits ::
  "(rbac_user \<Rightarrow> string result) \<Rightarrow> string \<Rightarrow> rbac_user \<Rightarrow> tenant_mapping
   \<Rightarrow> (relation_tuple list \<times> relation_tuple list) result" where
  "default_group_tuple_edits get_user_id domain user m =
     bind_r (get_user_id user) (\<lambda>user_id.
     bind_r (relationship_to_user_id_for_group domain (tm_default_group_uuid m) user_id) (\<lambda>t1.
     bind_r (relationship_to_user_id_for_group domain (tm_default_admin_group_uuid m) user_id) (\<lambda>t2.
       Inr (if us_admin user then ([t1, t2], []) else ([t1], [t2])))))"

definition leave_group ::
  "string \<Rightarrow> rbac_user \<Rightarrow> principal \<Rightarrow> relation_tuple list \<times> 's rbac_db \<Rightarrow> rbac_group
   \<Rightarrow> (relation_tuple list \<times> 's rbac_db) result" where
  "leave_group domain user p = (\<lambda>(ts, db) g.
     bind_r (relationship_to_principal_for_group domain g (FromUser user)) (\<lambda>t.
       case t of
         None \<Rightarrow> Inl ValueError
       | Some t \<Rightarrow> Inr (ts @ [t], remove_member (gr_uuid g) (pr_uuid p) db)))"

definition mappings_of_org :: "'s rbac_db \<Rightarrow> string option \<Rightarrow> tenant_mapping list" where
  "mappings_of_org db org_id =
     filter (\<lambda>m. list_ex (\<lambda>t. tn_org_id t = org_id \<and> tn_pk t = tm_tenant m) (wst_tenants (db_ws db)))
       (db_tenant_mappings db)"

definition principals_of_org :: "'s rbac_db \<Rightarrow> string option \<Rightarrow> string option \<Rightarrow> principal list" where
  "principals_of_org db username org_id =
     filter (\<lambda>p. username = Some (pr_username p) \<and>
       list_ex (\<lambda>t. tn_org_id t = org_id \<and> tn_pk t = pr_tenant p) (wst_tenants (db_ws db))) (db_principals db)"

text \<open>The first part removes the user from the default groups, the second from the other groups.\<close>

definition disabled_default_tuples ::
  "string \<Rightarrow> string \<Rightarrow> rbac_user \<Rightarrow> 's rbac_db \<Rightarrow> (relation_tuple list \<times> tenant_mapping option) result" where
  "disabled_default_tuples domain user_id user db =
     (case get_one (mappings_of_org db (us_org_id user)) of
        Inl DoesNotExist \<Rightarrow> Inr ([], None)
      | Inl e \<Rightarrow> Inl e
      | Inr m \<Rightarrow>
          bind_r (relationship_to_user_id_for_group domain (tm_default_group_uuid m) user_id) (\<lambda>t1.
          bind_r (relationship_to_user_id_for_group domain (tm_default_admin_group_uuid m) user_id) (\<lambda>t2.
            Inr ([t1, t2], Some m))))"

definition remove_user_principal ::
  "string \<Rightarrow> rbac_user \<Rightarrow> 's rbac_db \<Rightarrow> (relation_tuple list \<times> string \<times> 's rbac_db) result" where
  "remove_user_principal domain user db =
     (case get_one (principals_of_org db (us_username user) (us_org_id user)) of
        Inl DoesNotExist \<Rightarrow> Inr ([], [], db)
      | Inl e \<Rightarrow> Inl e
      | Inr p \<Rightarrow>
          bind_r (foldM_r (leave_group domain user p) ([], db) (groups_of_principal db p)) (\<lambda>(ts, db1).
          bind_r (delete_principal p db1) (\<lambda>db2. Inr (ts, pr_uuid p, db2))))"

definition disable_user_in_tenant ::
  "(rbac_user \<Rightarrow> string result) \<Rightarrow> role_settings \<Rightarrow> 's replicator \<Rightarrow> rbac_user \<Rightarrow> 's rbac_db \<Rightarrow> 's rbac_db result" where
  "disable_user_in_tenant get_user_id st rp user db =
     bind_r (check_r (\<not> us_is_active user) AssertionError) (\<lambda>_.
     bind_r (get_user_id user) (\<lambda>user_id.
     bind_r (disabled_default_tuples (rc_domain st) user_id user db) (\<lambda>(default_tuples, m).
     bind_r (remove_user_principal (rc_domain st) user db) (\<lambda>(member_tuples, principal_uuid, db1).
       if default_tuples @ member_tuples = [] then Inr db1
       else send_event st rp EV_EXTERNAL_USER_DISABLE
              [(''user_id'', PyStr user_id), (''org_id'', py_opt_str (us_org_id user)),
               (''mapping_id'', case m of None \<Rightarrow> PyNone | Some m \<Rightarrow> PyInt (tm_pk m)),
               (''principal_uuid'', PyStr principal_uuid)]
              [] (default_tuples @ member_tuples) db1))))"

definition update_active_user ::
  "(rbac_user \<Rightarrow> string result) \<Rightarrow> role_settings \<Rightarrow> 's replicator \<Rightarrow> (nat \<Rightarrow> string) \<Rightarrow> rbac_user \<Rightarrow> bool
   \<Rightarrow> bootstrapped_tenant \<Rightarrow> 's rbac_db \<Rightarrow> 's rbac_db result" where
  "update_active_user get_user_id st rp new_uuid user0 upsert b db =
     (case bt_mapping b of
        None \<Rightarrow> Inl ValueError
      | Some m \<Rightarrow>
          bind_r (get_user_id user0) (\<lambda>user_id.
            let user = user0\<lparr>us_user_id := Some user_id\<rparr> in
          bind_r (if us_is_service_account user then Inr (([], []), db)
                  else bind_r (ensure_principal_with_user_id_in_tenant st rp new_uuid user (bt_tenant b) upsert db)
                         (\<lambda>db1.
                       bind_r (default_group_tuple_edits get_user_id (rc_domain st) user m) (\<lambda>edits.
                         Inr (edits, db1)))) (\<lambda>((add, remove), db2).
            send_event st rp EV_EXTERNAL_USER_UPDATE
              [(''user_id'', PyStr user_id), (''org_id'', py_opt_str (us_org_id user))] add remove db2)))"

definition update_user ::
  "(rbac_user \<Rightarrow> string result) \<Rightarrow> role_settings \<Rightarrow> platform_settings \<Rightarrow> 's replicator \<Rightarrow> (nat \<Rightarrow> string) \<Rightarrow> string
   \<Rightarrow> rbac_user \<Rightarrow> bool \<Rightarrow> bootstrapped_tenant option \<Rightarrow> bool \<Rightarrow> 's rbac_db \<Rightarrow> policy_id_service
   \<Rightarrow> (bootstrapped_tenant option \<times> 's rbac_db \<times> policy_id_service) result" where
  "update_user get_user_id st pf rp new_uuid now user upsert bootstrapped ready_tenant db service =
     (case us_org_id user of
        None \<Rightarrow> Inl ValueError
      | Some org_id \<Rightarrow>
          if \<not> us_is_active user
          then bind_r (disable_user_in_tenant get_user_id st rp user db) (\<lambda>db'. Inr (None, db', service))
          else bind_r (case bootstrapped of
                         Some b \<Rightarrow> Inr (b, db, service)
                       | None \<Rightarrow> get_or_bootstrap_tenant st pf rp new_uuid now org_id ready_tenant (us_account user)
                                   db service) (\<lambda>(b, db1, service').
               bind_r (update_active_user get_user_id st rp new_uuid user upsert b db1) (\<lambda>db2.
                 Inr (Some b, db2, service'))))"

subsection \<open>Bulk import\<close>

text \<open>
  The principals are objects shared by the users with the same organisation and name, so the second
  user of a name sees the id the first one has set. \<open>bulk_update\<close> writes the objects of the list; the
  unique index on user ids is checked with each row.
\<close>

type_synonym principal_dict = "((string option \<times> string option) \<times> principal) list"

definition existing_principal_dict :: "tenant list \<Rightarrow> rbac_user list \<Rightarrow> 's rbac_db \<Rightarrow> principal_dict" where
  "existing_principal_dict tenants users db =
     fold (\<lambda>p d. case find (\<lambda>t. tn_pk t = pr_tenant p) tenants of
                   None \<Rightarrow> d
                 | Some t \<Rightarrow> if Some (pr_username p) \<in> us_username ` set users
                             then AList.update (tn_org_id t, Some (pr_username p)) p d else d)
       (db_principals db) []"

definition import_user ::
  "(rbac_user \<Rightarrow> string result) \<Rightarrow> string \<Rightarrow> bootstrapped_tenant list
   \<Rightarrow> principal_dict \<times> (string option \<times> string option) list \<times> relation_tuple list \<times> relation_tuple list \<Rightarrow> rbac_user
   \<Rightarrow> (principal_dict \<times> (string option \<times> string option) list \<times> relation_tuple list \<times> relation_tuple list) result" where
  "import_user get_user_id domain bootstrapped = (\<lambda>(principals, to_update, add, remove) user.
     if \<not> us_is_active user \<or> us_org_id user = None then Inr (principals, to_update, add, remove)
     else (case find (\<lambda>b. tn_org_id (bt_tenant b) = us_org_id user) (rev bootstrapped) of
             None \<Rightarrow> Inl KeyError
           | Some b \<Rightarrow>
               (let key = (us_org_id user, us_username user);
                    (principals', to_update') =
                      (case map_of principals key of
                         None \<Rightarrow> (principals, to_update)
                       | Some p \<Rightarrow> if pr_user_id p \<noteq> us_user_id user
                                   then (AList.update key (p\<lparr>pr_user_id := us_user_id user\<rparr>) principals,
                                         to_update @ [key])
                                   else (principals, to_update))
                in (case bt_mapping b of
                      None \<Rightarrow> Inl ValueError
                    | Some m \<Rightarrow>
                        bind_r (default_group_tuple_edits get_user_id domain user m) (\<lambda>(sub_add, sub_remove).
                          Inr (principals', to_update', add @ sub_add, remove @ sub_remove))))))"

definition bulk_update_user_id :: "principal list \<Rightarrow> principal \<Rightarrow> principal list result" where
  "bulk_update_user_id tbl p =
     bind_r (check_r (pr_user_id p = None \<or>
               list_all (\<lambda>p'. pr_uuid p' = pr_uuid p \<or> pr_user_id p' \<noteq> pr_user_id p) tbl) IntegrityError) (\<lambda>_.
       Inr (map (\<lambda>p'. if pr_uuid p' = pr_uuid p then p'\<lparr>pr_user_id := pr_user_id p\<rparr> else p') tbl))"

definition import_bulk_users ::
  "(rbac_user \<Rightarrow> string result) \<Rightarrow> role_settings \<Rightarrow> platform_settings \<Rightarrow> 's replicator \<Rightarrow> (nat \<Rightarrow> string) \<Rightarrow> string
   \<Rightarrow> rbac_user list \<Rightarrow> bool \<Rightarrow> 's rbac_db \<Rightarrow> policy_id_service \<Rightarrow> ('s rbac_db \<times> policy_id_service) result" where
  "import_bulk_users get_user_id st pf rp new_uuid now users ready_tenants db service =
     (let org_ids = remdups (concat (map (\<lambda>u. case us_org_id u of None \<Rightarrow> [] | Some i \<Rightarrow> [i])
                                      (filter us_is_active users))) in
      bind_r (get_or_bootstrap_tenants st pf rp new_uuid now org_ids ready_tenants [] True db service)
        (\<lambda>(bootstrapped, db1, service').
      bind_r (foldM_r (import_user get_user_id (rc_domain st) bootstrapped)
                (existing_principal_dict (map bt_tenant bootstrapped) users db1, [], [], []) users)
        (\<lambda>(principals, to_update, add, remove).
      bind_r (foldM_r bulk_update_user_id (db_principals db1)
                (map (\<lambda>k. the (map_of principals k)) (remdups to_update))) (\<lambda>rows.
      bind_r (send_event st rp EV_BULK_EXTERNAL_USER_UPDATE
                [(''num_users'', PyInt (int (length users))),
                 (''first_user_id'', case users of [] \<Rightarrow> PyNone | u # _ \<Rightarrow> py_opt_str (us_user_id u))]
                add remove (db1\<lparr>db_principals := rows\<rparr>)) (\<lambda>db2. Inr (db2, service'))))))"

section \<open>Workspace relationships\<close>

definition create_ungrouped_workspace ::
  "role_settings \<Rightarrow> 's replicator \<Rightarrow> (nat \<Rightarrow> string) \<Rightarrow> string \<Rightarrow> string option \<Rightarrow> 's rbac_db
   \<Rightarrow> (workspace \<times> 's rbac_db) result" where
  "create_ungrouped_workspace st rp new_uuid now org_id db =
     bind_r (get_one (tenants_of_org db org_id)) (\<lambda>t.
     bind_r (workspace_by_type (wst_table (db_ws db)) WS_DEFAULT (tn_pk t)) (\<lambda>dflt.
       let (new_id, db1) = fresh_uuid new_uuid db;
           row = (ungrouped_row now new_id t dflt)\<lparr>ws_description := special_description WS_UNGROUPED_HOSTS\<rparr> in
     bind_r (case get_one (filter (\<lambda>w. ws_tenant w = tn_pk t \<and> ws_type w = WS_UNGROUPED_HOSTS \<and>
                             ws_name w = ''Ungrouped Hosts'' \<and> ws_parent_id w = Some (ws_id dflt))
                             (wst_table (db_ws db))) of
               Inr w \<Rightarrow> Inr (w, db)
             | Inl DoesNotExist \<Rightarrow>
                 bind_r (plain_save (insert_workspace (wst_table (db_ws db1)) row)) (\<lambda>(tbl, w).
                   Inr (w, db1\<lparr>db_ws := (db_ws db1)\<lparr>wst_table := tbl\<rparr>\<rparr>))
             | Inl e \<Rightarrow> Inl e) (\<lambda>(w, db2).
     bind_r (create_relationship (''rbac'', ''workspace'') (ws_id w) (''rbac'', ''workspace'') (ws_id dflt)
               ''parent'' None) (\<lambda>rel.
     bind_r (send_event st rp EV_CREATE_UNGROUPED_HOSTS_WORKSPACE
               [(''org_id'', py_opt_str (tn_org_id t)), (''ungrouped_hosts_id'', PyStr (ws_id w))] [rel] [] db2)
       (\<lambda>db3. Inr (w, db3))))))"

definition create_workspace_relationships ::
  "role_settings \<Rightarrow> 's replicator \<Rightarrow> (string \<times> string) list \<Rightarrow> 's rbac_db \<Rightarrow> 's rbac_db result" where
  "create_workspace_relationships st rp pairs db =
     bind_r (mapM_r (\<lambda>(r, s). create_relationship (''rbac'', ''workspace'') r (''rbac'', ''workspace'') s
                                ''parent'' None) pairs) (\<lambda>rels.
       send_event st rp EV_WORKSPACE_IMPORT [] rels [] db)"

section \<open>Tenants without V2\<close>

definition create_tenant_name :: "string option \<Rightarrow> string" where
  "create_tenant_name account = ''acct'' @ py_str (py_opt_str account)"

definition v1_get_or_bootstrap_tenant ::
  "string option \<Rightarrow> string option \<Rightarrow> bool \<Rightarrow> 's rbac_db \<Rightarrow> (bootstrapped_tenant \<times> 's rbac_db) result" where
  "v1_get_or_bootstrap_tenant org_id account_number ready db =
     bind_r (case get_one (tenants_of_org db org_id) of
               Inr t \<Rightarrow> Inr (t, db)
             | Inl DoesNotExist \<Rightarrow> create_tenant ready (create_tenant_name account_number) account_number org_id db
             | Inl e \<Rightarrow> Inl e) (\<lambda>(t, db').
       Inr (\<lparr>bt_tenant = t, bt_mapping = None, bt_default_workspace = None, bt_root_workspace = None\<rparr>, db'))"

definition noop_replicator :: "'s replicator" where
  "noop_replicator = \<lparr>rp_replicate = noop_replicate, rp_replicate_workspace = base_replicate_workspace\<rparr>"

definition v1_update_active_user ::
  "role_settings \<Rightarrow> (nat \<Rightarrow> string) \<Rightarrow> rbac_user \<Rightarrow> bool \<Rightarrow> bool \<Rightarrow> 's rbac_db
   \<Rightarrow> (bootstrapped_tenant option \<times> 's rbac_db) result" where
  "v1_update_active_user st new_uuid user upsert ready_tenant db =
     bind_r (if upsert
             then bind_r (v1_get_or_bootstrap_tenant (us_org_id user) (us_account user) ready_tenant db) (\<lambda>(b, db1).
                    Inr (Some b, db1))
             else (case get_one (tenants_of_org db (us_org_id user)) of
                     Inr t \<Rightarrow> Inr (Some \<lparr>bt_tenant = t, bt_mapping = None, bt_default_workspace = None,
                                        bt_root_workspace = None\<rparr>, db)
                   | Inl DoesNotExist \<Rightarrow> Inr (None, db)
                   | Inl e \<Rightarrow> Inl e)) (\<lambda>(b, db1).
       case b of
         None \<Rightarrow> Inr (None, db1)
       | Some b' \<Rightarrow>
           bind_r (ensure_principal_with_user_id_in_tenant st noop_replicator new_uuid user (bt_tenant b') upsert db1)
             (\<lambda>db2. Inr (Some b', db2)))"

definition v1_update_inactive_user :: "rbac_user \<Rightarrow> 's rbac_db \<Rightarrow> 's rbac_db result" where
  "v1_update_inactive_user user db =
     (case bind_r (get_one (tenants_of_org db (us_org_id user))) (\<lambda>t.
             get_one (principals_named db (us_username user) t)) of
        Inl DoesNotExist \<Rightarrow> Inr db
      | Inl e \<Rightarrow> Inl e
      | Inr p \<Rightarrow> delete_principal p
                   (fold (\<lambda>g d. remove_member (gr_uuid g) (pr_uuid p) d) (groups_of_principal db p) db))"

definition v1_update_user ::
  "role_settings \<Rightarrow> (nat \<Rightarrow> string) \<Rightarrow> rbac_user \<Rightarrow> bool \<Rightarrow> bootstrapped_tenant option \<Rightarrow> bool \<Rightarrow> 's rbac_db
   \<Rightarrow> (bootstrapped_tenant option \<times> 's rbac_db) result" where
  "v1_update_user st new_uuid user upsert bootstrapped ready_tenant db =
     (if us_is_active user then v1_update_active_user st new_uuid user upsert ready_tenant db
      else bind_r (v1_update_inactive_user user db) (\<lambda>db'. Inr (None, db')))"

section \<open>What a bootstrap adds to the graph\<close>

text \<open>The role of an access type at a scope, without the service's cache.\<close>

definition role_of :: "platform_settings \<Rightarrow> 's rbac_db \<Rightarrow> policy_id_service \<Rightarrow> default_access_type \<Rightarrow> scope \<Rightarrow> string result" where
  "role_of pf db service a s =
     (case platform_v2_role_uuid_for pf a s db service of Inl e \<Rightarrow> Inl e | Inr (u, _) \<Rightarrow> Inr u)"

definition access_binding :: "tenant_mapping \<Rightarrow> default_access_type \<Rightarrow> scope \<Rightarrow> string" where
  "access_binding m a s =
     (case (a, s) of
        (ACCESS_USER, SCOPE_ROOT) \<Rightarrow> tm_root_scope_default_role_binding_uuid m
      | (ACCESS_USER, SCOPE_TENANT) \<Rightarrow> tm_tenant_scope_default_role_binding_uuid m
      | (ACCESS_USER, _) \<Rightarrow> tm_default_role_binding_uuid m
      | (ACCESS_ADMIN, SCOPE_ROOT) \<Rightarrow> tm_root_scope_default_admin_role_binding_uuid m
      | (ACCESS_ADMIN, SCOPE_TENANT) \<Rightarrow> tm_tenant_scope_default_admin_role_binding_uuid m
      | (ACCESS_ADMIN, _) \<Rightarrow> tm_default_admin_role_binding_uuid m)"

definition access_resource :: "tenant_scope_resources \<Rightarrow> scope \<Rightarrow> v2_bound_resource" where
  "access_resource r s =
     (case s of SCOPE_TENANT \<Rightarrow> ts_tenant r | SCOPE_ROOT \<Rightarrow> ts_root_workspace r | _ \<Rightarrow> ts_default_workspace r)"

definition binding_triple :: "tenant_mapping \<Rightarrow> tenant_scope_resources \<Rightarrow> (scope \<Rightarrow> string) \<Rightarrow> default_access_type \<Rightarrow> scope
    \<Rightarrow> relation_tuple list" where
  "binding_triple m r roles a s =
     [bound_tuple (access_resource r s) (access_binding m a s), role_tuple (access_binding m a s) (roles s),
      group_tuple (access_binding m a s) (group_uuid_for m a)]"

definition access_list :: "tenant_mapping \<Rightarrow> tenant_scope_resources \<Rightarrow> (scope \<Rightarrow> string) \<Rightarrow> default_access_type
    \<Rightarrow> relation_tuple list" where
  "access_list m r roles a = concat (map (binding_triple m r roles a) CONCRETE_SCOPES)"

definition chosen_role :: "string result \<Rightarrow> string" where
  "chosen_role r = (case r of Inr u \<Rightarrow> u | Inl _ \<Rightarrow> [])"

text \<open>What an access type gives: nothing if its public default group is missing.\<close>

definition access_of :: "platform_settings \<Rightarrow> 's rbac_db \<Rightarrow> policy_id_service \<Rightarrow> tenant_mapping \<Rightarrow> tenant_scope_resources
    \<Rightarrow> default_access_type \<Rightarrow> relation_tuple list" where
  "access_of pf db service m r a =
     (if role_of pf db service a SCOPE_DEFAULT = Inl DefaultGroupNotAvailableError then []
      else access_list m r (\<lambda>s. chosen_role (role_of pf db service a s)) a)"

lemma forget_found [simp]:
  "(case bind_r x (\<lambda>u. Inr (u, f u)) of Inl e \<Rightarrow> Inl e | Inr (u, _) \<Rightarrow> Inr u) = x"
  by (cases x) simp_all

lemma role_of_cached:
  assumes "platform_v2_role_uuid_for pf a s db service = Inr (u, service')"
  shows "role_of pf db service' = role_of pf db service"
proof (intro ext)
  fix a' s'
  show "role_of pf db service' a' s' = role_of pf db service a' s'"
    using assms
    by (cases a; cases s; cases a'; cases s')
      (auto simp: role_of_def platform_v2_role_uuid_for_def platform_default_policy_uuid_def admin_default_policy_uuid_def
        bind_r_Inr_iff split: option.splits)
qed

lemma role_of_same_rows:
  assumes "wst_tenants (db_ws db') = wst_tenants (db_ws db)" and "db_groups db' = db_groups db"
    and "db_policies db' = db_policies db"
  shows "role_of pf db' service = role_of pf db service"
proof -
  have same: "public_policy_uuid f db' = public_policy_uuid f db" for f
    by (simp only: public_policy_uuid_def public_tenant_def assms)
  show ?thesis
    unfolding role_of_def [abs_def] platform_v2_role_uuid_for_def platform_default_policy_uuid_def
      admin_default_policy_uuid_def same ..
qed

lemma scope_lookups:
  assumes "s \<in> set CONCRETE_SCOPES"
  shows "default_role_binding_uuid_for m a s = Inr (access_binding m a s)" and "resource_for r s = Inr (access_resource r s)"
  using assms by (cases a; auto simp: CONCRETE_SCOPES_def default_role_binding_uuid_for_def role_binding_uuid_fns_def
      access_binding_def resource_for_def access_resource_def)+

text \<open>One scope: the three tuples if they are valid and there is a role.\<close>

lemma scope_step_Inr:
  assumes "s \<in> set CONCRETE_SCOPES"
    and "default_binding_tuples_for_scope pf m r a False db (rels, service) s = Inr (rels', service')"
  shows "\<exists>u. role_of pf db service a s = Inr u \<and> rels' = rels @ binding_triple m r (\<lambda>_. u) a s \<and>
      list_all valid_relation_tuple (binding_triple m r (\<lambda>_. u) a s) \<and> role_of pf db service' = role_of pf db service"
  using assms(2) role_of_cached [of pf a s db service]
  by (auto simp: default_binding_tuples_for_scope_def scope_lookups [OF assms(1)] bind_r_Inr_iff tuple_constructors_Inr
      role_of_def binding_triple_def)

lemma scope_step_run:
  assumes "s \<in> set CONCRETE_SCOPES" and "role_of pf db service a s = Inr u"
    and "list_all valid_relation_tuple (binding_triple m r (\<lambda>_. u) a s)"
  shows "\<exists>service'. default_binding_tuples_for_scope pf m r a False db (rels, service) s =
      Inr (rels @ binding_triple m r (\<lambda>_. u) a s, service') \<and> role_of pf db service' = role_of pf db service"
proof -
  obtain service' where p: "platform_v2_role_uuid_for pf a s db service = Inr (u, service')"
    using assms(2) by (auto simp: role_of_def split: sum.splits)
  have t: "resource_binding_tuple (access_resource r s) (access_binding m a s) =
        Inr (bound_tuple (access_resource r s) (access_binding m a s))"
      "role_binding_role_tuple (access_binding m a s) u = Inr (role_tuple (access_binding m a s) u)"
      "role_binding_group_subject_tuple (access_binding m a s) (group_uuid_for m a) =
        Inr (group_tuple (access_binding m a s) (group_uuid_for m a))"
    using assms(3) by (simp_all add: binding_triple_def tuple_constructors_Inr)
  show ?thesis using role_of_cached [OF p] p t
    by (simp add: default_binding_tuples_for_scope_def scope_lookups [OF assms(1)] binding_triple_def)
qed

lemma create_relationship_error:
  "create_relationship rn ri sn si rel srel \<noteq> Inl DefaultGroupNotAvailableError"
  by (cases rn; cases sn)
    (auto simp: create_relationship_def mk_object_type_def mk_object_reference_def mk_subject_reference_def
      mk_relation_tuple_def bind_r_Inl_iff validate_required_str_def validate_optional_str_def validate_pattern_def
      check_r_Inl_iff split: option.splits if_splits pyval.splits)

lemma scope_step_missing:
  assumes "s \<in> set CONCRETE_SCOPES"
  shows "default_binding_tuples_for_scope pf m r a False db (rels, service) s = Inl DefaultGroupNotAvailableError \<longleftrightarrow>
    s = SCOPE_DEFAULT \<and> role_of pf db service a s = Inl DefaultGroupNotAvailableError \<and>
    valid_relation_tuple (bound_tuple (access_resource r s) (access_binding m a s))"
proof -
  have "s = SCOPE_DEFAULT" if "platform_v2_role_uuid_for pf a s db service = Inl DefaultGroupNotAvailableError"
    using that assms by (cases a; cases s)
      (auto simp: platform_v2_role_uuid_for_def CONCRETE_SCOPES_def bind_r_Inl_iff parse_uuid_def
        split: option.splits)
  then show ?thesis
    by (auto simp: default_binding_tuples_for_scope_def scope_lookups [OF assms] bind_r_Inl_iff tuple_constructors_Inr
        role_of_def resource_binding_tuple_def role_binding_role_tuple_def role_binding_group_subject_tuple_def
        create_relationship_error create_relationship_Inr_iff bound_tuple_def split: sum.splits)
qed

lemma concrete: "SCOPE_DEFAULT \<in> set CONCRETE_SCOPES" "SCOPE_ROOT \<in> set CONCRETE_SCOPES" "SCOPE_TENANT \<in> set CONCRETE_SCOPES"
  by (simp_all add: CONCRETE_SCOPES_def)

lemma default_role_bindings_Inr:
  assumes "default_role_binding_tuples pf m r a False None db service = Inr (ts, service')"
  shows "\<forall>s \<in> set CONCRETE_SCOPES. \<exists>u. role_of pf db service a s = Inr u"
    and "ts = access_list m r (\<lambda>s. chosen_role (role_of pf db service a s)) a"
    and "list_all valid_relation_tuple ts" and "role_of pf db service' = role_of pf db service"
proof -
  let ?step = "default_binding_tuples_for_scope pf m r a False db"
  obtain t1 v1 t2 v2 where
      s1: "?step ([], service) SCOPE_DEFAULT = Inr (t1, v1)" and s2: "?step (t1, v1) SCOPE_ROOT = Inr (t2, v2)"
    and s3: "?step (t2, v2) SCOPE_TENANT = Inr (ts, service')"
    using assms by (auto simp: default_role_binding_tuples_def CONCRETE_SCOPES_def bind_r_Inr_iff)
  obtain u1 where u1: "role_of pf db service a SCOPE_DEFAULT = Inr u1" "t1 = [] @ binding_triple m r (\<lambda>_. u1) a SCOPE_DEFAULT"
      "list_all valid_relation_tuple (binding_triple m r (\<lambda>_. u1) a SCOPE_DEFAULT)" "role_of pf db v1 = role_of pf db service"
    using scope_step_Inr [OF concrete(1) s1] by blast
  obtain u2 where u2: "role_of pf db v1 a SCOPE_ROOT = Inr u2" "t2 = t1 @ binding_triple m r (\<lambda>_. u2) a SCOPE_ROOT"
      "list_all valid_relation_tuple (binding_triple m r (\<lambda>_. u2) a SCOPE_ROOT)" "role_of pf db v2 = role_of pf db v1"
    using scope_step_Inr [OF concrete(2) s2] by blast
  obtain u3 where u3: "role_of pf db v2 a SCOPE_TENANT = Inr u3" "ts = t2 @ binding_triple m r (\<lambda>_. u3) a SCOPE_TENANT"
      "list_all valid_relation_tuple (binding_triple m r (\<lambda>_. u3) a SCOPE_TENANT)" "role_of pf db service' = role_of pf db v2"
    using scope_step_Inr [OF concrete(3) s3] by blast
  show "\<forall>s \<in> set CONCRETE_SCOPES. \<exists>u. role_of pf db service a s = Inr u"
    using u1 u2 u3 by (auto simp: CONCRETE_SCOPES_def)
  show "ts = access_list m r (\<lambda>s. chosen_role (role_of pf db service a s)) a"
    using u1 u2 u3 by (simp add: access_list_def CONCRETE_SCOPES_def binding_triple_def chosen_role_def)
  show "list_all valid_relation_tuple ts" "role_of pf db service' = role_of pf db service" using u1 u2 u3 by simp_all
qed

lemma default_role_bindings_run:
  assumes "\<forall>s \<in> set CONCRETE_SCOPES. \<exists>u. role_of pf db service a s = Inr u"
    and "list_all valid_relation_tuple (access_list m r (\<lambda>s. chosen_role (role_of pf db service a s)) a)"
  shows "\<exists>service'. default_role_binding_tuples pf m r a False None db service =
    Inr (access_list m r (\<lambda>s. chosen_role (role_of pf db service a s)) a, service')"
proof -
  let ?step = "default_binding_tuples_for_scope pf m r a False db"
  have valid: "list_all valid_relation_tuple (binding_triple m r (\<lambda>_. u) a s)"
    if "s \<in> set CONCRETE_SCOPES" "role_of pf db service a s = Inr u" for s u
    using assms(2) that by (auto simp: access_list_def CONCRETE_SCOPES_def binding_triple_def chosen_role_def)
  obtain u1 u2 u3 where u: "role_of pf db service a SCOPE_DEFAULT = Inr u1" "role_of pf db service a SCOPE_ROOT = Inr u2"
      "role_of pf db service a SCOPE_TENANT = Inr u3"
    using assms(1) concrete by meson
  let ?t1 = "binding_triple m r (\<lambda>_. u1) a SCOPE_DEFAULT" and ?t2 = "binding_triple m r (\<lambda>_. u2) a SCOPE_ROOT"
  let ?t3 = "binding_triple m r (\<lambda>_. u3) a SCOPE_TENANT"
  obtain v1 where v1: "?step ([], service) SCOPE_DEFAULT = Inr ([] @ ?t1, v1)" "role_of pf db v1 = role_of pf db service"
    using scope_step_run [OF concrete(1) u(1) valid [OF concrete(1) u(1)]] by blast
  obtain v2 where v2: "?step (?t1, v1) SCOPE_ROOT = Inr (?t1 @ ?t2, v2)" "role_of pf db v2 = role_of pf db v1"
    using scope_step_run [OF concrete(2) _ valid [OF concrete(2) u(2)], of pf db v1 ?t1] u(2) v1(2) by auto
  obtain v3 where v3: "?step (?t1 @ ?t2, v2) SCOPE_TENANT = Inr ((?t1 @ ?t2) @ ?t3, v3)"
    using scope_step_run [OF concrete(3) _ valid [OF concrete(3) u(3)], of pf db v2 "?t1 @ ?t2"] u(3) v1(2) v2(2) by auto
  have "access_list m r (\<lambda>s. chosen_role (role_of pf db service a s)) a = (?t1 @ ?t2) @ ?t3"
    by (simp add: access_list_def CONCRETE_SCOPES_def binding_triple_def chosen_role_def u)
  then show ?thesis using v1(1) v2(1) v3 by (simp add: default_role_binding_tuples_def CONCRETE_SCOPES_def)
qed

lemma default_role_bindings_missing:
  "default_role_binding_tuples pf m r a False None db service = Inl DefaultGroupNotAvailableError \<longleftrightarrow>
     role_of pf db service a SCOPE_DEFAULT = Inl DefaultGroupNotAvailableError \<and>
     valid_relation_tuple (bound_tuple (access_resource r SCOPE_DEFAULT) (access_binding m a SCOPE_DEFAULT))"
  using scope_step_missing [OF concrete(2), of pf m r a db] scope_step_missing [OF concrete(3), of pf m r a db]
    scope_step_missing [OF concrete(1), of pf m r a db "[]" service]
  by (auto simp: default_role_binding_tuples_def CONCRETE_SCOPES_def bind_r_Inl_iff)

text \<open>The default access of an access type, and that it does not depend on what the service has cached.\<close>

lemma default_access_tuples_Inr:
  assumes "default_access_tuples pf m r a db service = Inr (ts, service')"
  shows "ts = access_of pf db service m r a" and "list_all valid_relation_tuple ts"
    and "role_of pf db service' = role_of pf db service"
    and "role_of pf db' other = role_of pf db service \<Longrightarrow> \<exists>x. default_access_tuples pf m r a db' other = Inr (ts, x)"
proof -
  consider (found) "default_role_binding_tuples pf m r a False None db service = Inr (ts, service')"
    | (missing) "default_role_binding_tuples pf m r a False None db service = Inl DefaultGroupNotAvailableError"
        "ts = []" "service' = service"
    using assms unfolding default_access_tuples_def
    by (cases "default_role_binding_tuples pf m r a False None db service" rule: sum.exhaust)
      (auto split: py_error.splits)
  then have "ts = access_of pf db service m r a \<and> list_all valid_relation_tuple ts \<and>
      role_of pf db service' = role_of pf db service \<and>
      (role_of pf db' other = role_of pf db service \<longrightarrow> (\<exists>x. default_access_tuples pf m r a db' other = Inr (ts, x)))"
  proof cases
    case found
    note F = default_role_bindings_Inr [OF found]
    obtain u where "role_of pf db service a SCOPE_DEFAULT = Inr u" using bspec [OF F(1) concrete(1)] by blast
    moreover have "\<exists>x. default_role_binding_tuples pf m r a False None db' other = Inr (ts, x)"
      if "role_of pf db' other = role_of pf db service"
      using default_role_bindings_run [of pf db' other a m r] F(1-3) that by simp
    ultimately show ?thesis using F(2-4) by (auto simp: access_of_def default_access_tuples_def)
  next
    case missing
    note M = missing(1) [unfolded default_role_bindings_missing]
    have "default_role_binding_tuples pf m r a False None db' other = Inl DefaultGroupNotAvailableError"
      if "role_of pf db' other = role_of pf db service"
      using M that by (simp add: default_role_bindings_missing)
    then show ?thesis using M missing(2,3) by (simp add: access_of_def default_access_tuples_def)
  qed
  then show "ts = access_of pf db service m r a" "list_all valid_relation_tuple ts"
    "role_of pf db service' = role_of pf db service"
    "role_of pf db' other = role_of pf db service \<Longrightarrow> \<exists>x. default_access_tuples pf m r a db' other = Inr (ts, x)"
    by blast+
qed

text \<open>The tuples of a tenant.\<close>

definition hierarchy_tuples :: "role_settings \<Rightarrow> tenant \<Rightarrow> workspace \<Rightarrow> workspace \<Rightarrow> relation_tuple list" where
  "hierarchy_tuples st t root dflt =
     (let tenant_id = org_id_to_tenant_resource_id (rc_domain st) (py_str (py_opt_str (tn_org_id t)))
      in [parent_tuple (ws_id dflt) (ws_id root),
          plain_tuple (''rbac'', ''workspace'') (ws_id root) (''rbac'', ''tenant'') tenant_id ''tenant'' None,
          plain_tuple (''rbac'', ''tenant'') tenant_id (''rbac'', ''platform'') (st_env_name (rc_ws st)) ''platform'' None])"

definition tenant_access :: "platform_settings \<Rightarrow> 's rbac_db \<Rightarrow> policy_id_service \<Rightarrow> tenant \<Rightarrow> tenant_mapping
    \<Rightarrow> tenant_scope_resources \<Rightarrow> relation_tuple list" where
  "tenant_access pf db service t m r =
     (if tenant_default_groups db t = [] then access_of pf db service m r ACCESS_USER else []) @
     access_of pf db service m r ACCESS_ADMIN"

lemma built_in_hierarchy_Inr:
  "built_in_hierarchy_tuples st (ws_id dflt) (ws_id root) (tn_org_id t) = Inr ts \<longleftrightarrow>
     ts = hierarchy_tuples st t root dflt \<and> list_all valid_relation_tuple ts"
  by (auto simp: built_in_hierarchy_tuples_def hierarchy_tuples_def Let_def bind_r_Inr_iff create_relationship_Inr_iff
      parent_tuple_def)

lemma bootstrap_default_access_Inr:
  assumes "bootstrap_default_access pf t m r db service = Inr (ts, service')"
  shows "ts = tenant_access pf db service t m r" and "list_all valid_relation_tuple ts"
    and "role_of pf db service' = role_of pf db service"
    and "role_of pf db' other = role_of pf db service \<Longrightarrow> db_groups db' = db_groups db \<Longrightarrow>
      \<exists>x. bootstrap_default_access pf t m r db' other = Inr (ts, x)"
proof -
  let ?user = "\<lambda>db service. if tenant_default_groups db t = [] then default_access_tuples pf m r ACCESS_USER db service
      else Inr ([], service)"
  obtain users v admins where u: "?user db service = Inr (users, v)"
    and ad: "default_access_tuples pf m r ACCESS_ADMIN db v = Inr (admins, service')" and ts: "ts = users @ admins"
    using assms by (auto simp: bootstrap_default_access_def bind_r_Inr_iff)
  have U: "users = (if tenant_default_groups db t = [] then access_of pf db service m r ACCESS_USER else [])"
      "list_all valid_relation_tuple users" "role_of pf db v = role_of pf db service"
    using u default_access_tuples_Inr(1-3) [of pf m r ACCESS_USER db service users v] by (auto split: if_splits)
  note A = default_access_tuples_Inr [OF ad]
  have "access_of pf db v m r ACCESS_ADMIN = access_of pf db service m r ACCESS_ADMIN"
    using U(3) by (simp add: access_of_def)
  then show "ts = tenant_access pf db service t m r" using U(1) A(1) by (simp add: ts tenant_access_def)
  show "list_all valid_relation_tuple ts" "role_of pf db service' = role_of pf db service" using U A(2,3) by (simp_all add: ts)
  assume same: "role_of pf db' other = role_of pf db service" and groups: "db_groups db' = db_groups db"
  have "tenant_default_groups db' t = tenant_default_groups db t" by (simp add: tenant_default_groups_def groups)
  then obtain x where x: "?user db' other = Inr (users, x)" "role_of pf db' x = role_of pf db' other"
    using u default_access_tuples_Inr(4) [of pf m r ACCESS_USER db service users v db' other]
      default_access_tuples_Inr(3) [of pf m r ACCESS_USER db' other] same
    by (fastforce split: if_splits)
  then obtain y where "default_access_tuples pf m r ACCESS_ADMIN db' x = Inr (admins, y)"
    using A(4) [of db' x] same U(3) by auto
  then show "\<exists>x. bootstrap_default_access pf t m r db' other = Inr (ts, x)"
    using x(1) by (simp add: bootstrap_default_access_def ts)
qed

text \<open>The tuples of a tenant are pairwise different tuples of the graph.\<close>

lemma access_binding_inj:
  assumes "distinct (mapping_unique_uuids m)" and "s \<in> set CONCRETE_SCOPES" and "s' \<in> set CONCRETE_SCOPES"
  shows "access_binding m a s = access_binding m a' s' \<longleftrightarrow> a = a' \<and> s = s'"
  using assms by (cases a; cases a'; cases s; cases s')
    (auto simp: mapping_unique_uuids_def access_binding_def CONCRETE_SCOPES_def)

lemma access_of_cases:
  "access_of pf db service m r a = [] \<or> (\<exists>roles. access_of pf db service m r a = access_list m r roles a)"
  by (auto simp: access_of_def)

lemma access_list_distinct:
  assumes "distinct (mapping_unique_uuids m)"
  shows "distinct (access_list m r roles a)"
    and "a \<noteq> a' \<Longrightarrow> set (access_list m r roles a) \<inter> set (access_list m r roles' a') = {}"
  using access_binding_inj [OF assms]
  by (auto simp: access_list_def binding_triple_def CONCRETE_SCOPES_def)

lemma tenant_access_distinct:
  assumes "distinct (mapping_unique_uuids m)"
  shows "distinct (tenant_access pf db service t m r)"
proof -
  have "distinct (access_of pf db service m r a)" for a
    using access_of_cases [of pf db service m r a] access_list_distinct(1) [OF assms] by auto
  moreover have "set (access_of pf db service m r ACCESS_USER) \<inter> set (access_of pf db service m r ACCESS_ADMIN) = {}"
    using access_of_cases [of pf db service m r ACCESS_USER] access_of_cases [of pf db service m r ACCESS_ADMIN]
      access_list_distinct(2) [OF assms, of ACCESS_USER ACCESS_ADMIN r] by (elim disjE exE) simp_all
  ultimately show ?thesis by (simp add: tenant_access_def)
qed

definition binding_tuple_kind :: "relation_tuple \<Rightarrow> bool" where
  "binding_tuple_kind t \<longleftrightarrow> (\<exists>b g. t = group_tuple b g) \<or> (\<exists>b r. t = role_tuple b r) \<or>
     (\<exists>res b. t = bound_tuple res b \<and> fst (br_type res) = ''rbac'')"

lemma tenant_access_kinds:
  assumes "\<forall>s. fst (br_type (access_resource r s)) = ''rbac''" and "x \<in> set (tenant_access pf db service t m r)"
  shows "binding_tuple_kind x"
proof -
  have "binding_tuple_kind x" if "x \<in> set (access_list m r roles a)" for roles a
    using that assms(1) unfolding access_list_def binding_triple_def binding_tuple_kind_def by fastforce
  moreover have "x \<in> set (access_of pf db service m r ACCESS_USER) \<union> set (access_of pf db service m r ACCESS_ADMIN)"
    using assms(2) by (auto simp: tenant_access_def split: if_splits)
  ultimately show ?thesis
    using access_of_cases [of pf db service m r ACCESS_USER] access_of_cases [of pf db service m r ACCESS_ADMIN] by auto
qed

lemma hierarchy_tuples_kind: "x \<in> set (hierarchy_tuples st t root dflt) \<Longrightarrow> \<not> binding_tuple_kind x"
  by (auto simp: hierarchy_tuples_def Let_def binding_tuple_kind_def tuple_kinds parent_tuple_def)

lemma resources_rbac:
  assumes "resources_for_models domain t root dflt = Inr r"
  shows "fst (br_type (access_resource r s)) = ''rbac''"
  using assms by (cases s) (auto simp: resources_for_models_def for_model_def try_for_model_def for_workspace_id_def
      access_resource_def bind_r_Inr_iff mk_bound_resource_Inr_iff split: option.splits)

lemma tenant_tuples_graph:
  assumes "distinct (mapping_unique_uuids m)" and "resources_for_models (rc_domain st) t root dflt = Inr r"
    and "list_all valid_relation_tuple (hierarchy_tuples st t root dflt @ tenant_access pf db service t m r)"
  shows "list_all graph_tuple (hierarchy_tuples st t root dflt @ tenant_access pf db service t m r)"
    and "distinct (hierarchy_tuples st t root dflt @ tenant_access pf db service t m r)"
proof -
  have kinds: "binding_tuple_kind x" if "x \<in> set (tenant_access pf db service t m r)" for x
    using tenant_access_kinds [OF _ that] resources_rbac [OF assms(2)] by blast
  have "graph_tuple x" if "x \<in> set (tenant_access pf db service t m r)" for x
    using kinds [OF that] assms(3) that
    by (intro role_graph_tuple_graph) (auto simp: role_graph_tuple_def binding_tuple_kind_def list_all_iff)
  moreover have "graph_tuple x" if "x \<in> set (hierarchy_tuples st t root dflt)" for x
    using that assms(3) by (auto simp: hierarchy_tuples_def Let_def graph_tuple_def plain_tuple_def parent_tuple_def)
  ultimately show "list_all graph_tuple (hierarchy_tuples st t root dflt @ tenant_access pf db service t m r)"
    by (auto simp: list_all_iff)
  have "distinct (hierarchy_tuples st t root dflt)" by (simp add: hierarchy_tuples_def Let_def parent_tuple_def)
  moreover have "set (hierarchy_tuples st t root dflt) \<inter> set (tenant_access pf db service t m r) = {}"
    using kinds hierarchy_tuples_kind by blast
  ultimately show "distinct (hierarchy_tuples st t root dflt @ tenant_access pf db service t m r)"
    using tenant_access_distinct [OF assms(1)] by simp
qed

section \<open>The rows of a new tenant\<close>

lemma new_mapping_spec:
  assumes "new_mapping new_uuid t g db = (m, db')"
  shows "\<exists>i p. db' = db\<lparr>db_next_pk := p, db_next_uuid := i\<rparr>" and "tm_tenant m = tn_pk t"
    and "inj new_uuid \<Longrightarrow> distinct (mapping_unique_uuids m)" and "g = Some u \<Longrightarrow> tm_default_group_uuid m = u"
  using assms by (auto simp: new_mapping_def fresh_pk_def fresh_uuid_def mapping_unique_uuids_def inj_eq
      split: option.splits)

lemma built_in_workspaces_spec:
  assumes "built_in_workspaces st new_uuid now t db = Inr (root, dflt, rels, db')"
  shows "\<exists>i. db' = db\<lparr>db_next_uuid := i\<rparr>" and "ws_type root = WS_ROOT" and "ws_type dflt = WS_DEFAULT"
    and "ws_tenant root = tn_pk t" and "ws_tenant dflt = tn_pk t" and "ws_parent_id root = None"
    and "ws_parent_id dflt = Some (ws_id root)" and "rels = hierarchy_tuples st t root dflt"
    and "list_all valid_relation_tuple rels"
  using assms built_in_hierarchy_Inr [of st dflt root t rels]
  by (auto simp: built_in_workspaces_def fresh_uuid_def Let_def bind_r_Inr_iff)

lemma bulk_insert_workspace_Inr:
  "bulk_insert_workspace tbl w = Inr tbl' \<longleftrightarrow>
     tbl' = tbl @ [w] \<and> ws_id w \<notin> ws_id ` set tbl \<and> constraint_messages tbl w = []"
  by (auto simp: bulk_insert_workspace_def bind_r_Inr_iff check_r_Inr_iff)

lemma bulk_insert_mapping_Inr: "bulk_insert_mapping tbl m = Inr tbl' \<Longrightarrow> tbl' = tbl @ [m]"
  by (auto simp: bulk_insert_mapping_def bind_r_Inr_iff)

lemma new_tenant:
  assumes run: "bootstrap_tenants_no_replicate st pf new_uuid now [t] db service = Inr (entries, rels, db', service')"
    and loaded: "filter (\<lambda>t'. tn_pk t' = tn_pk t) (wst_tenants (db_ws db)) = [t]" and uuids: "inj new_uuid"
  shows "\<exists>m root dflt r access cache pk i.
      entries = [\<lparr>nt_tenant = t, nt_mapping = m, nt_root = root, nt_default = dflt\<rparr>] \<and>
      rels = hierarchy_tuples st t root dflt @ access \<and>
      list_all valid_relation_tuple (hierarchy_tuples st t root dflt) \<and>
      resources_for_models (rc_domain st) t root dflt = Inr r \<and>
      bootstrap_default_access pf t m r db' service = Inr (access, service') \<and>
      tm_tenant m = tn_pk t \<and> distinct (mapping_unique_uuids m) \<and>
      ws_type root = WS_ROOT \<and> ws_type dflt = WS_DEFAULT \<and> ws_tenant root = tn_pk t \<and> ws_tenant dflt = tn_pk t \<and>
      ws_parent_id root = None \<and> ws_parent_id dflt = Some (ws_id root) \<and>
      {ws_id dflt, ws_id root} \<inter> ws_id ` set (wst_table (db_ws db)) = {} \<and> ws_id dflt \<noteq> ws_id root \<and>
      db' = db\<lparr>db_ws := (db_ws db)\<lparr>wst_table := wst_table (db_ws db) @ [dflt, root], wst_cache := cache\<rparr>,
               db_tenant_mappings := db_tenant_mappings db @ [m], db_next_pk := pk, db_next_uuid := i\<rparr>"
proof -
  have sel: "filter (\<lambda>t'. tn_pk t' \<in> tn_pk ` set [t]) (wst_tenants (db_ws db)) = [t]"
    using loaded by simp
  obtain es rs db1 tbl mappings where
      rows: "new_tenant_rows st new_uuid now (([], []), db) t = Inr ((es, rs), db1)"
    and tbl: "foldM_r bulk_insert_workspace (wst_table (db_ws db1)) (map nt_default es @ map nt_root es) = Inr tbl"
    and mp: "foldM_r bulk_insert_mapping (db_tenant_mappings db1) (map nt_mapping es) = Inr mappings"
    and db': "db' = db1\<lparr>db_ws := (db_ws db1)\<lparr>wst_table := tbl,
        wst_cache := foldl invalidate_workspaces (wst_cache (db_ws db1)) [t]\<rparr>, db_tenant_mappings := mappings\<rparr>"
    and acc: "foldM_r (new_tenant_access st pf db') (rs, service) es = Inr (rels, service')" and es: "entries = es"
    using run unfolding bootstrap_tenants_no_replicate_def Let_def sel by (auto simp: bind_r_Inr_iff)
  obtain g m db0 where m: "new_mapping new_uuid t g db = (m, db0)"
    and ws: "\<exists>root dflt. built_in_workspaces st new_uuid now t db0 = Inr (root, dflt, rs, db1) \<and>
       es = [\<lparr>nt_tenant = t, nt_mapping = m, nt_root = root, nt_default = dflt\<rparr>]"
    using rows by (auto simp: new_tenant_rows_def Let_def bind_r_Inr_iff split: prod.splits)
  obtain root dflt where w: "built_in_workspaces st new_uuid now t db0 = Inr (root, dflt, rs, db1)"
    and e: "es = [\<lparr>nt_tenant = t, nt_mapping = m, nt_root = root, nt_default = dflt\<rparr>]" using ws by blast
  note M = new_mapping_spec [OF m] and W = built_in_workspaces_spec [OF w]
  obtain pk i where db1: "db1 = db\<lparr>db_next_pk := pk, db_next_uuid := i\<rparr>" using M(1) W(1) by auto
  have T: "tbl = wst_table (db_ws db) @ [dflt, root]"
      "{ws_id dflt, ws_id root} \<inter> ws_id ` set (wst_table (db_ws db)) = {}" "ws_id dflt \<noteq> ws_id root"
    using tbl by (auto simp: e db1 bind_r_Inr_iff bulk_insert_workspace_Inr)
  have mappings: "mappings = db_tenant_mappings db @ [m]"
    using mp by (auto simp: e db1 bind_r_Inr_iff dest: bulk_insert_mapping_Inr)
  obtain r access where ra: "resources_for_models (rc_domain st) t root dflt = Inr r"
      "bootstrap_default_access pf t m r db' service = Inr (access, service')" "rels = rs @ access"
    using acc by (auto simp: e new_tenant_access_def bind_r_Inr_iff)
  have "db' = db\<lparr>db_ws := (db_ws db)\<lparr>wst_table := wst_table (db_ws db) @ [dflt, root],
       wst_cache := invalidate_workspaces (wst_cache (db_ws db)) t\<rparr>,
     db_tenant_mappings := db_tenant_mappings db @ [m], db_next_pk := pk, db_next_uuid := i\<rparr>"
    by (simp add: db' db1 T(1) mappings)
  then show ?thesis using es e ra W(2-9) M(2,3) T(2,3) uuids by blast
qed

lemma resources_for_models_org:
  "resources_for_models domain t root dflt = Inr r \<Longrightarrow> \<exists>org. tn_org_id t = Some org"
  by (auto simp: resources_for_models_def for_model_def try_for_model_def tenant_resource_id_def bind_r_Inr_iff
      split: option.splits)

context workspace_replicator
begin

lemma replicate_default_workspace_ok:
  "\<exists>s'. replicate_default_workspace st rp db (t, w) = Inr (db\<lparr>db_ws := (db_ws db)\<lparr>wst_repl := s'\<rparr>\<rparr>) \<and>
     tuples s' = tuples (wst_repl (db_ws db))"
proof -
  let ?e = "\<lparr>we_org_id = py_str (py_opt_str (tn_org_id t)), we_account_number = tn_account_id t,
      we_workspace = workspace_event_data w, we_event_type = EV_CREATE_WORKSPACE, we_partition_key = st_env_name (rc_ws st)\<rparr>"
  obtain s' where s': "rp_replicate_workspace rp (wst_repl (db_ws db)) ?e STREAM_STANDARD = Inr s'"
    using workspace_accepts [of ?e] by auto
  then show ?thesis using workspace_neutral [OF s']
    by (intro exI [of _ s']) (simp add: replicate_default_workspace_def make_workspace_event_def)
qed

lemma send_bootstrap_events_ok:
  assumes "list_all graph_tuple rels" and "distinct rels" and "rels \<noteq> []"
  shows "\<exists>s'. send_bootstrap_events st rp [(t, w)] rels bulk forced db = Inr (db\<lparr>db_ws := (db_ws db)\<lparr>wst_repl := s'\<rparr>\<rparr>) \<and>
     tuples s' = tuples (wst_repl (db_ws db)) \<union> set rels"
proof -
  let ?org = "py_opt_str (tn_org_id t)"
  let ?info = "(if bulk then [(''num_tenants'', PyInt (int (length [(t, w)]))), (''first_org_id'', ?org)]
      else [(''org_id'', ?org)]) @ (if forced then [(''forced'', PyBool True)] else [])"
  let ?type = "if bulk then EV_BULK_BOOTSTRAP_TENANT else EV_BOOTSTRAP_TENANT"
  obtain s1 where s1: "send_event st rp ?type ?info rels [] db = Inr (db\<lparr>db_ws := (db_ws db)\<lparr>wst_repl := s1\<rparr>\<rparr>)"
      "tuples s1 = tuples (wst_repl (db_ws db)) \<union> set rels"
    using send_event_ok [OF assms(1,2), of "[]" st ?type ?info db] by auto
  let ?db1 = "db\<lparr>db_ws := (db_ws db)\<lparr>wst_repl := s1\<rparr>\<rparr>"
  obtain s2 where s2: "replicate_default_workspace st rp ?db1 (t, w) = Inr (?db1\<lparr>db_ws := (db_ws ?db1)\<lparr>wst_repl := s2\<rparr>\<rparr>)"
      "tuples s2 = tuples (wst_repl (db_ws ?db1))"
    using replicate_default_workspace_ok [of st ?db1 t w] by blast
  show ?thesis
    using assms(3) s1 s2 by (intro exI [of _ s2]) (simp add: send_bootstrap_events_def Let_def del: if_split)
qed

end

definition new_tenant_rows_of :: "'s rbac_db \<Rightarrow> tenant \<Rightarrow> tenant_mapping \<Rightarrow> workspace \<Rightarrow> workspace \<Rightarrow> 's rbac_db \<Rightarrow> bool" where
  "new_tenant_rows_of db t m root dflt db' \<longleftrightarrow>
     wst_table (db_ws db') = wst_table (db_ws db) @ [dflt, root] \<and>
     db_tenant_mappings db' = db_tenant_mappings db @ [m] \<and> tm_tenant m = tn_pk t \<and>
     ws_type root = WS_ROOT \<and> ws_type dflt = WS_DEFAULT \<and> ws_tenant root = tn_pk t \<and> ws_tenant dflt = tn_pk t \<and>
     ws_parent_id root = None \<and> ws_parent_id dflt = Some (ws_id root) \<and>
     wst_tenants (db_ws db') = wst_tenants (db_ws db) \<and> db_groups db' = db_groups db \<and>
     db_principals db' = db_principals db \<and> db_policies db' = db_policies db"

lemma tenant_access_same_rows:
  assumes "wst_tenants (db_ws db') = wst_tenants (db_ws db)" and "db_groups db' = db_groups db"
    and "db_policies db' = db_policies db"
  shows "tenant_access pf db' service t m r = tenant_access pf db service t m r"
  using role_of_same_rows [OF assms, of pf service] assms(2)
  by (simp add: tenant_access_def access_of_def tenant_default_groups_def)

lemma last_if_any_append [simp]: "(case xs @ [x] of [] \<Rightarrow> None | y # ys \<Rightarrow> Some (last (y # ys))) = Some x"
  by (cases xs) simp_all

lemma built_in_workspaces_found:
  assumes "new_tenant_rows_of db t m root dflt db'"
  shows "workspace_of_type (wst_table (db_ws db')) t WS_ROOT = Some root"
    and "workspace_of_type (wst_table (db_ws db')) t WS_DEFAULT = Some dflt"
  using assms by (simp_all add: new_tenant_rows_of_def workspace_of_type_def del: last.simps)

lemma bootstrapped_hierarchy_in_sync:
  assumes "new_tenant_rows_of db t m root dflt db'" and "hierarchy_in_sync (wst_table (db_ws db)) G"
    and "\<forall>x \<in> set access. binding_tuple_kind x"
  shows "hierarchy_in_sync (wst_table (db_ws db')) (G \<union> set (hierarchy_tuples st t root dflt @ access))"
proof -
  have links: "ws_links (wst_table (db_ws db')) = insert (ws_id dflt, ws_id root) (ws_links (wst_table (db_ws db)))"
    using assms(1) by (auto simp: new_tenant_rows_of_def ws_links_def)
  have "parent_tuple i p \<notin> set access" for i p
    using assms(3) by (auto simp: binding_tuple_kind_def tuple_kinds parent_tuple_def)
  moreover have "parent_tuple i p \<in> set (hierarchy_tuples st t root dflt) \<longleftrightarrow> i = ws_id dflt \<and> p = ws_id root" for i p
    by (auto simp: hierarchy_tuples_def Let_def parent_tuple_def)
  ultimately show ?thesis
    unfolding hierarchy_in_sync_def links assms(2) [unfolded hierarchy_in_sync_def, symmetric] by auto
qed

context workspace_replicator
begin

lemma bootstrap_new_tenant:
  assumes run: "bootstrap_tenants_no_replicate st pf new_uuid now [t] db service = Inr (entries, rels, dbr, service')"
    and loaded: "filter (\<lambda>t'. tn_pk t' = tn_pk t) (wst_tenants (db_ws db)) = [t]" and uuids: "inj new_uuid"
    and free: "mappings_of (db_tenant_mappings db) t = []"
  shows "\<exists>m root dflt r db1.
      bootstrap_tenant st pf rp new_uuid now t force db service =
        Inr (\<lparr>bt_tenant = t, bt_mapping = Some m, bt_default_workspace = Some dflt, bt_root_workspace = Some root\<rparr>, db1, service') \<and>
      new_tenant_rows_of db t m root dflt db1 \<and> resources_for_models (rc_domain st) t root dflt = Inr r \<and>
      tuples (wst_repl (db_ws db1)) =
        tuples (wst_repl (db_ws db)) \<union> set (hierarchy_tuples st t root dflt @ tenant_access pf db service t m r) \<and>
      (\<forall>x \<in> set (tenant_access pf db service t m r). binding_tuple_kind x) \<and>
      (\<exists>service2 s. bootstrap_tenant st pf rp new_uuid now t again db1 service' =
          Inr (\<lparr>bt_tenant = t, bt_mapping = Some m, bt_default_workspace = None, bt_root_workspace = None\<rparr>,
               db1\<lparr>db_ws := (db_ws db1)\<lparr>wst_repl := s\<rparr>\<rparr>, service2) \<and>
         tuples s = tuples (wst_repl (db_ws db1)))"
proof -
  obtain m root dflt r access cache pk i where N:
      "entries = [\<lparr>nt_tenant = t, nt_mapping = m, nt_root = root, nt_default = dflt\<rparr>]"
      "rels = hierarchy_tuples st t root dflt @ access" "list_all valid_relation_tuple (hierarchy_tuples st t root dflt)"
      "resources_for_models (rc_domain st) t root dflt = Inr r"
      "bootstrap_default_access pf t m r dbr service = Inr (access, service')"
      "tm_tenant m = tn_pk t" "distinct (mapping_unique_uuids m)"
      "ws_type root = WS_ROOT" "ws_type dflt = WS_DEFAULT" "ws_tenant root = tn_pk t" "ws_tenant dflt = tn_pk t"
      "ws_parent_id root = None" "ws_parent_id dflt = Some (ws_id root)"
      "dbr = db\<lparr>db_ws := (db_ws db)\<lparr>wst_table := wst_table (db_ws db) @ [dflt, root], wst_cache := cache\<rparr>,
          db_tenant_mappings := db_tenant_mappings db @ [m], db_next_pk := pk, db_next_uuid := i\<rparr>"
    using new_tenant [OF run loaded uuids] by blast
  note A = bootstrap_default_access_Inr [OF N(5)]
  have same: "wst_tenants (db_ws dbr) = wst_tenants (db_ws db)" "db_groups dbr = db_groups db" "db_policies dbr = db_policies db"
      "wst_repl (db_ws dbr) = wst_repl (db_ws db)" by (simp_all add: N(14))
  have access: "access = tenant_access pf db service t m r" using A(1) tenant_access_same_rows [OF same(1-3)] by simp
  have "list_all valid_relation_tuple (hierarchy_tuples st t root dflt @ tenant_access pf db service t m r)"
    using N(3) A(2) by (simp add: access)
  note G = tenant_tuples_graph [OF N(7,4) this, folded access, folded N(2)]
  have ne: "rels \<noteq> []" by (simp add: N(2) hierarchy_tuples_def Let_def)
  obtain s1 where s1: "send_bootstrap_events st rp [(t, dflt)] rels False False dbr =
        Inr (dbr\<lparr>db_ws := (db_ws dbr)\<lparr>wst_repl := s1\<rparr>\<rparr>)" "tuples s1 = tuples (wst_repl (db_ws db)) \<union> set rels"
    using send_bootstrap_events_ok [OF G ne] same(4) by metis
  let ?db1 = "dbr\<lparr>db_ws := (db_ws dbr)\<lparr>wst_repl := s1\<rparr>\<rparr>"
  have public: "tn_tenant_name t \<noteq> ''public''"
    using run by (auto simp: bootstrap_tenants_no_replicate_def bind_r_Inr_iff check_r_Inr_iff)
  have entry: "replication_entry t dflt = Inr (t, dflt)" using N(9,11) by (simp add: replication_entry_def)
  have first: "bootstrap_tenant st pf rp new_uuid now t force db service =
      Inr (\<lparr>bt_tenant = t, bt_mapping = Some m, bt_default_workspace = Some dflt, bt_root_workspace = Some root\<rparr>, ?db1, service')"
    using run s1(1) public free entry
    by (simp add: bootstrap_tenant_def try_lock_tenant_for_bootstrap_def try_lock_tenants_for_bootstrap_def
        bootstrap_lock_of_def bootstrap_tenant_now_def bootstrap_tenants_now_def N(1))
  have rows: "new_tenant_rows_of db t m root dflt ?db1" using N by (simp add: new_tenant_rows_of_def)
  have graph: "tuples (wst_repl (db_ws ?db1)) =
      tuples (wst_repl (db_ws db)) \<union> set (hierarchy_tuples st t root dflt @ tenant_access pf db service t m r)"
    using s1(2) by (simp add: N(2) access)
  have kinds: "\<forall>x \<in> set (tenant_access pf db service t m r). binding_tuple_kind x"
    using tenant_access_kinds resources_rbac [OF N(4)] by blast
  have lock: "bootstrap_lock_of ?db1 t = Some \<lparr>bl_tenant_mapping = m, bl_custom_default_group =
      (case tenant_default_groups ?db1 t of [] \<Rightarrow> None | gs \<Rightarrow> Some (last gs))\<rparr>"
    using free by (simp add: bootstrap_lock_of_def mappings_of_def N(14) N(6))
  have second: "\<exists>service2 s. bootstrap_tenant st pf rp new_uuid now t again ?db1 service' =
      Inr (\<lparr>bt_tenant = t, bt_mapping = Some m, bt_default_workspace = None, bt_root_workspace = None\<rparr>,
           ?db1\<lparr>db_ws := (db_ws ?db1)\<lparr>wst_repl := s\<rparr>\<rparr>, service2) \<and> tuples s = tuples (wst_repl (db_ws ?db1))"
  proof (cases again)
    case False
    then show ?thesis using public lock
      by (intro exI [of _ service'] exI [of _ s1])
        (simp add: bootstrap_tenant_def try_lock_tenant_for_bootstrap_def try_lock_tenants_for_bootstrap_def)
  next
    case True
    have "role_of pf ?db1 service' = role_of pf dbr service"
      using role_of_same_rows [of ?db1 dbr pf service'] A(3) by simp
    then obtain x where x: "bootstrap_default_access pf t m r ?db1 service' = Inr (access, x)" using A(4) [of ?db1 service'] by auto
    have hier: "built_in_hierarchy_tuples st (ws_id dflt) (ws_id root) (tn_org_id t) = Inr (hierarchy_tuples st t root dflt)"
      using N(3) by (simp add: built_in_hierarchy_Inr)
    obtain s2 where s2: "send_bootstrap_events st rp [(t, dflt)] rels False True ?db1 =
          Inr (?db1\<lparr>db_ws := (db_ws ?db1)\<lparr>wst_repl := s2\<rparr>\<rparr>)" "tuples s2 = tuples s1 \<union> set rels"
      using send_bootstrap_events_ok [OF G ne, of st t dflt False True ?db1] by auto
    have "replicate_bootstraps st pf rp [(t, m)] False ?db1 service' = Inr (?db1\<lparr>db_ws := (db_ws ?db1)\<lparr>wst_repl := s2\<rparr>\<rparr>, x)"
      using built_in_workspaces_found [OF rows] hier x s2(1) entry N(2,4)
      by (simp add: replicate_bootstraps_def replicated_tenant_def)
    then show ?thesis using True public lock s1(2) s2(2)
      by (intro exI [of _ x] exI [of _ s2])
        (auto simp: bootstrap_tenant_def try_lock_tenant_for_bootstrap_def try_lock_tenants_for_bootstrap_def)
  qed
  show ?thesis using first rows N(4) graph kinds second by blast
qed

lemma update_service_account:
  assumes run: "update_active_user default_get_user_id st rp new_uuid user upsert b db = Inr db'"
    and user: "us_is_service_account user"
  shows "(\<exists>x. db' = db\<lparr>db_ws := (db_ws db)\<lparr>wst_repl := x\<rparr>\<rparr>) \<and> tuples (wst_repl (db_ws db')) = tuples (wst_repl (db_ws db))"
proof -
  obtain info where "send_event st rp EV_EXTERNAL_USER_UPDATE info [] [] db = Inr db'"
    using run user by (auto simp: update_active_user_def Let_def bind_r_Inr_iff split: option.splits)
  from send_event_applies [OF this] show ?thesis by simp
qed

lemma update_active_user_groups:
  assumes run: "update_active_user default_get_user_id st rp new_uuid user upsert b db = Inr db'"
    and user: "us_user_id user = Some u" "\<not> us_is_service_account user"
  shows "\<exists>m. bt_mapping b = Some m \<and> (tm_default_group_uuid m \<noteq> tm_default_admin_group_uuid m \<longrightarrow>
      member_tuple (rc_domain st) (tm_default_group_uuid m) u \<in> tuples (wst_repl (db_ws db')) \<and>
      (member_tuple (rc_domain st) (tm_default_admin_group_uuid m) u \<in> tuples (wst_repl (db_ws db')) \<longleftrightarrow> us_admin user))"
proof -
  let ?d = "rc_domain st"
  obtain m where m: "bt_mapping b = Some m" using run by (auto simp: update_active_user_def split: option.splits)
  let ?t1 = "member_tuple ?d (tm_default_group_uuid m) u" and ?t2 = "member_tuple ?d (tm_default_admin_group_uuid m) u"
  obtain info db1 where valid: "valid_relation_tuple ?t1" "valid_relation_tuple ?t2"
    and ev: "send_event st rp EV_EXTERNAL_USER_UPDATE info (if us_admin user then [?t1, ?t2] else [?t1])
        (if us_admin user then [] else [?t2]) db1 = Inr db'"
    using run m user
    by (auto simp: update_active_user_def default_get_user_id_def default_group_tuple_edits_def Let_def bind_r_Inr_iff
        member_constructors_Inr split: if_splits)
  have "tuples (wst_repl (db_ws db')) = (tuples (wst_repl (db_ws db1)) - set (if us_admin user then [] else [?t2])) \<union>
      set (if us_admin user then [?t1, ?t2] else [?t1])" if "tm_default_group_uuid m \<noteq> tm_default_admin_group_uuid m"
    using valid that by (intro send_event_applies(2) [OF ev]) (auto simp: member_tuple_graph)
  then show ?thesis using m by auto
qed

lemma leave_groups:
  assumes "foldM_r (leave_group d user p) (ts, db) gs = Inr (ts', db')" and "us_user_id user = Some u"
  shows "ts' = ts @ map (\<lambda>g. member_tuple d (gr_uuid g) u) gs \<and>
    (\<forall>g \<in> set gs. valid_relation_tuple (member_tuple d (gr_uuid g) u)) \<and> (\<exists>x. db' = db\<lparr>db_groups := x\<rparr>) \<and>
    memberships db' \<subseteq> memberships db"
  using assms
proof (induction gs arbitrary: ts db)
  case (Cons g gs)
  then have v: "valid_relation_tuple (member_tuple d (gr_uuid g) u)"
    and rest: "foldM_r (leave_group d user p) (ts @ [member_tuple d (gr_uuid g) u], remove_member (gr_uuid g) (pr_uuid p) db) gs
      = Inr (ts', db')"
    by (auto simp: leave_group_def bind_r_Inr_iff member_constructors_Inr)
  have "\<exists>x. remove_member (gr_uuid g) (pr_uuid p) db = db\<lparr>db_groups := x\<rparr>" by (auto simp: remove_member_def)
  moreover have "memberships (remove_member (gr_uuid g) (pr_uuid p) db) \<subseteq> memberships db"
    by (auto simp: remove_member_memberships)
  ultimately show ?case using Cons.IH [OF rest Cons.prems(2)] v by auto
qed (auto intro: exI [of _ "db_groups db'"])

lemma remove_user_principal_gone:
  assumes run: "remove_user_principal d user db = Inr (ts, puuid, db')" and user: "us_user_id user = Some u"
  shows "p \<in> set (principals_of_org db (us_username user) (us_org_id user)) \<Longrightarrow>
      pr_uuid p \<notin> pr_uuid ` set (db_principals db') \<and> pr_uuid p \<notin> snd ` memberships db' \<and>
      (\<forall>g. (g, pr_uuid p) \<in> memberships db \<longrightarrow> member_tuple d g u \<in> set ts)"
    and "list_all valid_relation_tuple ts" and "db_ws db' = db_ws db"
proof -
  let ?rows = "principals_of_org db (us_username user) (us_org_id user)"
  have "list_all valid_relation_tuple ts \<and> db_ws db' = db_ws db"
  proof (cases "get_one ?rows")
    case (Inl e)
    then show ?thesis using run by (cases e) (simp_all add: remove_user_principal_def)
  next
    case (Inr q)
    then obtain db1 where "foldM_r (leave_group d user q) ([], db) (groups_of_principal db q) = Inr (ts, db1)"
        "delete_principal q db1 = Inr db'"
      using run by (auto simp: remove_user_principal_def bind_r_Inr_iff)
    from leave_groups [OF this(1) user] this(2) show ?thesis by (auto simp: list_all_iff delete_principal_def bind_r_Inr_iff)
  qed
  then show "list_all valid_relation_tuple ts" "db_ws db' = db_ws db" by simp_all
  assume "p \<in> set ?rows"
  then have p: "?rows = [p]" using run by (auto simp: remove_user_principal_def get_one_def split: list.splits)
  obtain db1 where out: "foldM_r (leave_group d user p) ([], db) (groups_of_principal db p) = Inr (ts, db1)"
    and del: "delete_principal p db1 = Inr db'"
    using run by (auto simp: remove_user_principal_def get_one_def p bind_r_Inr_iff)
  note D = delete_principal_Inr [OF del]
  have "set ts = (\<lambda>g. member_tuple d g u) ` gr_uuid ` set (groups_of_principal db p)"
    using leave_groups [OF out user] by (auto simp: image_image)
  then show "pr_uuid p \<notin> pr_uuid ` set (db_principals db') \<and> pr_uuid p \<notin> snd ` memberships db' \<and>
      (\<forall>g. (g, pr_uuid p) \<in> memberships db \<longrightarrow> member_tuple d g u \<in> set ts)"
    unfolding groups_of_principal_memberships D(1,2) by auto
qed

lemma disable_user_gone:
  assumes run: "disable_user_in_tenant default_get_user_id st rp user db = Inr db'" and user: "us_user_id user = Some u"
  shows "m \<in> set (mappings_of_org db (us_org_id user)) \<Longrightarrow>
      g \<in> {tm_default_group_uuid m, tm_default_admin_group_uuid m} \<Longrightarrow>
      member_tuple (rc_domain st) g u \<notin> tuples (wst_repl (db_ws db'))"
    and "p \<in> set (principals_of_org db (us_username user) (us_org_id user)) \<Longrightarrow>
      pr_uuid p \<notin> pr_uuid ` set (db_principals db') \<and> pr_uuid p \<notin> snd ` memberships db' \<and>
      (\<forall>g. (g, pr_uuid p) \<in> memberships db \<longrightarrow> member_tuple (rc_domain st) g u \<notin> tuples (wst_repl (db_ws db')))"
    and "tuples (wst_repl (db_ws db')) \<subseteq> tuples (wst_repl (db_ws db))"
proof -
  let ?d = "rc_domain st"
  have "\<exists>ts1 om ts2 puuid db1 info. disabled_default_tuples ?d u user db = Inr (ts1, om) \<and>
      remove_user_principal ?d user db = Inr (ts2, puuid, db1) \<and>
      (if ts1 @ ts2 = [] then Inr db1 else send_event st rp EV_EXTERNAL_USER_DISABLE info [] (ts1 @ ts2) db1) = Inr db'"
    using run user by (auto simp: disable_user_in_tenant_def default_get_user_id_def bind_r_Inr_iff
        simp del: append_is_Nil_conv split del: if_split)
  then obtain ts1 om ts2 puuid db1 info where t1: "disabled_default_tuples ?d u user db = Inr (ts1, om)"
    and t2: "remove_user_principal ?d user db = Inr (ts2, puuid, db1)"
    and ev: "(if ts1 @ ts2 = [] then Inr db1 else send_event st rp EV_EXTERNAL_USER_DISABLE info [] (ts1 @ ts2) db1) = Inr db'"
    by blast
  have default: "\<And>m. m \<in> set (mappings_of_org db (us_org_id user)) \<Longrightarrow>
        ts1 = [member_tuple ?d (tm_default_group_uuid m) u, member_tuple ?d (tm_default_admin_group_uuid m) u]"
      "list_all valid_relation_tuple ts1"
    using t1 by (auto simp: disabled_default_tuples_def get_one_def bind_r_Inr_iff member_constructors_Inr split: list.splits)
  note P = remove_user_principal_gone [OF t2 user]
  have "(\<exists>x. db' = db1\<lparr>db_ws := (db_ws db1)\<lparr>wst_repl := x\<rparr>\<rparr>) \<and>
      tuples (wst_repl (db_ws db')) = tuples (wst_repl (db_ws db1)) - set (ts1 @ ts2)"
  proof (cases "ts1 @ ts2 = []")
    case True
    then have "db' = db1" using ev by simp
    then show ?thesis unfolding True by (intro conjI exI [of _ "wst_repl (db_ws db1)"]) simp_all
  next
    case False
    have "list_all valid_relation_tuple (ts1 @ ts2)" using default(2) P(2) by simp
    moreover have "send_event st rp EV_EXTERNAL_USER_DISABLE info [] (ts1 @ ts2) db1 = Inr db'"
      using ev unfolding if_not_P [OF False] .
    ultimately show ?thesis
      using send_event_applies [of st EV_EXTERNAL_USER_DISABLE info "[]" "ts1 @ ts2" db1 db'] by simp
  qed
  then have same: "db_principals db' = db_principals db1" "memberships db' = memberships db1"
    and graph: "tuples (wst_repl (db_ws db')) = tuples (wst_repl (db_ws db1)) - set (ts1 @ ts2)"
    by (auto simp: memberships_def)
  show "tuples (wst_repl (db_ws db')) \<subseteq> tuples (wst_repl (db_ws db))" unfolding graph P(3) by (rule Diff_subset)
  show "member_tuple ?d g u \<notin> tuples (wst_repl (db_ws db'))"
    if "m \<in> set (mappings_of_org db (us_org_id user))" "g \<in> {tm_default_group_uuid m, tm_default_admin_group_uuid m}"
    using default(1) [OF that(1)] that(2) by (auto simp: graph)
  show "pr_uuid p \<notin> pr_uuid ` set (db_principals db') \<and> pr_uuid p \<notin> snd ` memberships db' \<and>
      (\<forall>g. (g, pr_uuid p) \<in> memberships db \<longrightarrow> member_tuple ?d g u \<notin> tuples (wst_repl (db_ws db')))"
    if "p \<in> set (principals_of_org db (us_username user) (us_org_id user))"
    using P(1) [OF that] by (simp add: same graph)
qed

end

section \<open>Properties\<close>

text \<open>
  C9 (functional): bootstrapping a tenant that has no mapping, once its rows can be made, is never refused
  by the outbox. It adds exactly the mapping, the root workspace and the default workspace below it, and to
  the graph exactly the hierarchy of the tenant and its default access: for every scope a binding of the
  platform role to the default group, for users only without a custom default group, and for an access type
  only if its public default group exists. Parent tuples and parent links stay in step. Bootstrapping the
  same tenant again, forced or not, changes no row and no tuple.
\<close>

theorem tenant_bootstrap_exact:
  fixes db :: "outbox_wal rbac_db" and time :: int
  defines "rp \<equiv> outbox_replicator outbox_wal_log time"
    and "graph \<equiv> \<lambda>db :: outbox_wal rbac_db. log_tuples (wal_rows (wst_repl (db_ws db)))"
  assumes run: "bootstrap_tenants_no_replicate st pf new_uuid now [t] db service = Inr (entries, rels, dbr, service')"
    and loaded: "filter (\<lambda>t'. tn_pk t' = tn_pk t) (wst_tenants (db_ws db)) = [t]" and uuids: "inj new_uuid"
    and free: "mappings_of (db_tenant_mappings db) t = []"
  shows "\<exists>m root dflt r db1.
      bootstrap_tenant st pf rp new_uuid now t force db service =
        Inr (\<lparr>bt_tenant = t, bt_mapping = Some m, bt_default_workspace = Some dflt, bt_root_workspace = Some root\<rparr>, db1, service') \<and>
      new_tenant_rows_of db t m root dflt db1 \<and> resources_for_models (rc_domain st) t root dflt = Inr r \<and>
      graph db1 = graph db \<union> set (hierarchy_tuples st t root dflt @ tenant_access pf db service t m r) \<and>
      (hierarchy_in_sync (wst_table (db_ws db)) (graph db) \<longrightarrow> hierarchy_in_sync (wst_table (db_ws db1)) (graph db1)) \<and>
      (\<exists>service2 s. bootstrap_tenant st pf rp new_uuid now t again db1 service' =
          Inr (\<lparr>bt_tenant = t, bt_mapping = Some m, bt_default_workspace = None, bt_root_workspace = None\<rparr>,
               db1\<lparr>db_ws := (db_ws db1)\<lparr>wst_repl := s\<rparr>\<rparr>, service2) \<and>
         log_tuples (wal_rows s) = graph db1)"
proof -
  obtain m root dflt r db1 where B: "bootstrap_tenant st pf rp new_uuid now t force db service =
        Inr (\<lparr>bt_tenant = t, bt_mapping = Some m, bt_default_workspace = Some dflt, bt_root_workspace = Some root\<rparr>, db1, service')"
      "new_tenant_rows_of db t m root dflt db1" "resources_for_models (rc_domain st) t root dflt = Inr r"
      "graph db1 = graph db \<union> set (hierarchy_tuples st t root dflt @ tenant_access pf db service t m r)"
      "\<forall>x \<in> set (tenant_access pf db service t m r). binding_tuple_kind x"
      "\<exists>service2 s. bootstrap_tenant st pf rp new_uuid now t again db1 service' =
          Inr (\<lparr>bt_tenant = t, bt_mapping = Some m, bt_default_workspace = None, bt_root_workspace = None\<rparr>,
               db1\<lparr>db_ws := (db_ws db1)\<lparr>wst_repl := s\<rparr>\<rparr>, service2) \<and> log_tuples (wal_rows s) = graph db1"
    using outbox_wal_ws.bootstrap_new_tenant [OF run loaded uuids free, of time force again]
    unfolding rp_def graph_def by blast
  have "hierarchy_in_sync (wst_table (db_ws db1)) (graph db1)" if "hierarchy_in_sync (wst_table (db_ws db)) (graph db)"
    unfolding B(4) by (rule bootstrapped_hierarchy_in_sync [OF B(2) that B(5)])
  with B show ?thesis by blast
qed

definition sample_platform_settings :: platform_settings where
  "sample_platform_settings = \<lparr>
     pf_default_root_workspace_role_uuid = ''00000000-0000-0000-0000-0000000000c1'',
     pf_default_tenant_role_uuid = ''00000000-0000-0000-0000-0000000000c2'',
     pf_admin_root_workspace_role_uuid = ''00000000-0000-0000-0000-0000000000c3'',
     pf_admin_tenant_role_uuid = ''00000000-0000-0000-0000-0000000000c4''\<rparr>"

text \<open>The public tenant with its default group for users, and a tenant without any rows.\<close>

definition sample_public_db :: "outbox_wal rbac_db" where
  "sample_public_db = (sample_db \<lparr>wal_table = [], wal_entries = []\<rparr>)
     \<lparr>db_ws := (sample_state \<lparr>wal_table = [], wal_entries = []\<rparr>)\<lparr>wst_tenants := [sample_tenant,
        sample_tenant\<lparr>tn_pk := 2, tn_tenant_name := ''public'', tn_org_id := None\<rparr>], wst_table := []\<rparr>,
      db_groups := [sample_group\<lparr>gr_uuid := ''g9'', gr_system := True, gr_platform_default := True, gr_tenant := 2\<rparr>],
      db_policies := [sample_policy\<lparr>po_group := Some ''g9''\<rparr>]\<rparr>"

lemma sample_bootstrap_ok:
  "is_ok (bootstrap_tenants_no_replicate sample_role_settings sample_platform_settings sample_uuid7 ''0'' [sample_tenant]
     sample_public_db empty_policy_id_service)"
  by code_simp

theorem tenant_bootstrap_exact_witness:
  "\<exists>m root dflt db1 service. bootstrap_tenant sample_role_settings sample_platform_settings (outbox_replicator outbox_wal_log 0)
       sample_uuid7 ''0'' sample_tenant False sample_public_db empty_policy_id_service =
     Inr (\<lparr>bt_tenant = sample_tenant, bt_mapping = Some m, bt_default_workspace = Some dflt, bt_root_workspace = Some root\<rparr>,
       db1, service) \<and> new_tenant_rows_of sample_public_db sample_tenant m root dflt db1"
proof -
  obtain entries rels dbr service where run: "bootstrap_tenants_no_replicate sample_role_settings sample_platform_settings
      sample_uuid7 ''0'' [sample_tenant] sample_public_db empty_policy_id_service = Inr (entries, rels, dbr, service)"
    using sample_bootstrap_ok by (auto simp: is_ok_iff)
  have "filter (\<lambda>t'. tn_pk t' = tn_pk sample_tenant) (wst_tenants (db_ws sample_public_db)) = [sample_tenant]"
    by (simp add: sample_public_db_def sample_tenant_def)
  moreover have "mappings_of (db_tenant_mappings sample_public_db) sample_tenant = []"
    by (simp add: mappings_of_def sample_public_db_def sample_db_def)
  ultimately show ?thesis using tenant_bootstrap_exact [OF run _ sample_uuid7_inj, of 0 False False] by blast
qed

text \<open>
  C10 (safety): the default groups follow the account of a user. After an update of an active user, the graph has the
  user in the tenant's default group, and in its admin group exactly if the user is an administrator; a service
  account has no default groups, and its update changes nothing beyond making sure of the tenant. After an update of
  an inactive user, the graph has the user neither in the default groups of the organisation nor in any group that
  the principal found by username and organisation was in, and this principal and its memberships are gone. So the
  user is in no group at all, if all other groups were in step and no other principal with this id was in one.
\<close>

theorem user_access_follows_account:
  fixes db :: "outbox_wal rbac_db" and time :: int
  defines "graph \<equiv> \<lambda>db :: outbox_wal rbac_db. log_tuples (wal_rows (wst_repl (db_ws db)))"
    and "rp \<equiv> outbox_replicator outbox_wal_log time"
  assumes run: "update_user default_get_user_id st pf rp new_uuid now user upsert b0 ready db service
      = Inr (result, db', service')"
    and user: "us_user_id user = Some u"
  shows "if us_is_active user
     then \<exists>b m db1. result = Some b \<and> bt_mapping b = Some m \<and>
       (case b0 of Some b1 \<Rightarrow> b = b1 \<and> db1 = db
        | None \<Rightarrow> get_or_bootstrap_tenant st pf rp new_uuid now (the (us_org_id user)) ready (us_account user) db service
            = Inr (b, db1, service')) \<and>
       (if us_is_service_account user
        then graph db' = graph db1 \<and> (\<exists>x. db' = db1\<lparr>db_ws := (db_ws db1)\<lparr>wst_repl := x\<rparr>\<rparr>)
        else tm_default_group_uuid m \<noteq> tm_default_admin_group_uuid m \<longrightarrow>
          member_tuple (rc_domain st) (tm_default_group_uuid m) u \<in> graph db' \<and>
          (member_tuple (rc_domain st) (tm_default_admin_group_uuid m) u \<in> graph db' \<longleftrightarrow> us_admin user))
     else result = None \<and>
       (\<forall>m \<in> set (mappings_of_org db (us_org_id user)).
          member_tuple (rc_domain st) (tm_default_group_uuid m) u \<notin> graph db' \<and>
          member_tuple (rc_domain st) (tm_default_admin_group_uuid m) u \<notin> graph db') \<and>
       (\<forall>p \<in> set (principals_of_org db (us_username user) (us_org_id user)).
          pr_uuid p \<notin> pr_uuid ` set (db_principals db') \<and> pr_uuid p \<notin> snd ` memberships db' \<and>
          (\<forall>g. (g, pr_uuid p) \<in> memberships db \<longrightarrow> member_tuple (rc_domain st) g u \<notin> graph db')) \<and>
       ((\<forall>g. group_synced (rc_domain st) (graph db) db g \<or>
           (\<exists>m \<in> set (mappings_of_org db (us_org_id user)). g = tm_default_group_uuid m \<or> g = tm_default_admin_group_uuid m)) \<and>
        (\<forall>p \<in> set (db_principals db). pr_user_id p = Some u \<and> pr_uuid p \<in> snd ` memberships db \<longrightarrow>
           p \<in> set (principals_of_org db (us_username user) (us_org_id user))) \<longrightarrow>
        (\<forall>g. member_tuple (rc_domain st) g u \<notin> graph db'))"
proof (cases "us_is_active user")
  case True
  obtain b db1 where up: "update_active_user default_get_user_id st rp new_uuid user upsert b db1 = Inr db'"
    and res: "result = Some b"
    and b: "case b0 of Some b1 \<Rightarrow> b = b1 \<and> db1 = db
        | None \<Rightarrow> get_or_bootstrap_tenant st pf rp new_uuid now (the (us_org_id user)) ready (us_account user) db service
            = Inr (b, db1, service')"
    using run True by (auto simp: update_user_def bind_r_Inr_iff split: option.splits)
  obtain m where "bt_mapping b = Some m" using up by (auto simp: update_active_user_def split: option.splits)
  then show ?thesis
    using outbox_wal_ws.update_active_user_groups [OF up [unfolded rp_def] user]
      outbox_wal_ws.update_service_account [OF up [unfolded rp_def]] True res b
    by (auto simp: graph_def)
next
  case False
  then have dis: "disable_user_in_tenant default_get_user_id st rp user db = Inr db'" and res: "result = None"
    using run by (auto simp: update_user_def bind_r_Inr_iff split: option.splits)
  note D = outbox_wal_ws.disable_user_gone [OF dis [unfolded rp_def] user, folded graph_def]
  have "member_tuple (rc_domain st) g u \<notin> graph db'"
    if synced: "\<forall>g. group_synced (rc_domain st) (graph db) db g \<or>
        (\<exists>m \<in> set (mappings_of_org db (us_org_id user)). g = tm_default_group_uuid m \<or> g = tm_default_admin_group_uuid m)"
      and found: "\<forall>p \<in> set (db_principals db). pr_user_id p = Some u \<and> pr_uuid p \<in> snd ` memberships db \<longrightarrow>
        p \<in> set (principals_of_org db (us_username user) (us_org_id user))" for g
  proof
    assume in_graph: "member_tuple (rc_domain st) g u \<in> graph db'"
    then have "group_synced (rc_domain st) (graph db) db g" using synced D(1) unfolding graph_def by blast
    moreover have "member_tuple (rc_domain st) g u \<in> graph db" using in_graph D(3) unfolding graph_def by blast
    ultimately obtain p where p: "p \<in> set (db_principals db)" "pr_user_id p = Some u" "(g, pr_uuid p) \<in> memberships db"
      unfolding group_synced_def by blast
    then have "p \<in> set (principals_of_org db (us_username user) (us_org_id user))" using found by force
    then show False using D(2) p(3) in_graph unfolding graph_def by blast
  qed
  then show ?thesis using D(1,2) False res unfolding graph_def by simp
qed

text \<open>An inactive user in a group of a tenant without a mapping.\<close>

lemma sample_disable_ok:
  "is_ok (update_user default_get_user_id sample_role_settings sample_platform_settings (outbox_replicator outbox_wal_log 0)
     sample_uuid7 ''0'' (sample_user\<lparr>us_is_active := False\<rparr>) False None True sample_principals_db empty_policy_id_service)"
  by code_simp

theorem user_access_follows_account_witness:
  "\<exists>db' service. update_user default_get_user_id sample_role_settings sample_platform_settings (outbox_replicator outbox_wal_log 0)
       sample_uuid7 ''0'' (sample_user\<lparr>us_is_active := False\<rparr>) False None True sample_principals_db empty_policy_id_service
     = Inr (None, db', service) \<and>
     ''p2'' \<notin> pr_uuid ` set (db_principals db') \<and> ''p2'' \<notin> snd ` memberships db' \<and>
     member_tuple ''redhat'' ''g1'' ''7'' \<notin> log_tuples (wal_rows (wst_repl (db_ws db')))"
proof -
  let ?user = "sample_user\<lparr>us_is_active := False\<rparr>"
  obtain result db' service where run: "update_user default_get_user_id sample_role_settings sample_platform_settings
      (outbox_replicator outbox_wal_log 0) sample_uuid7 ''0'' ?user False None True sample_principals_db empty_policy_id_service
      = Inr (result, db', service)"
    using sample_disable_ok by (auto simp: is_ok_iff)
  have "us_user_id ?user = Some ''7''" by (simp add: sample_user_def)
  note U = user_access_follows_account [OF run this]
  have p: "sample_principal ''p2'' ''new'' None \<in> set (principals_of_org sample_principals_db (us_username ?user) (us_org_id ?user))"
    by (simp add: principals_of_org_def sample_principals_db_def sample_db_def sample_state_def sample_tenant_def sample_user_def
        sample_principal_def)
  have m: "(''g1'', ''p2'') \<in> memberships sample_principals_db"
    by (simp add: memberships_def sample_principals_db_def sample_group_def)
  have inactive: "\<not> us_is_active ?user" by (simp add: sample_user_def)
  note U' = U [unfolded if_not_P [OF inactive]]
  have dom: "rc_domain sample_role_settings = ''redhat''" "pr_uuid (sample_principal ''p2'' ''new'' None) = ''p2''"
    by (simp_all add: sample_role_settings_def sample_principal_def)
  have "result = None" using U' by blast
  moreover note bspec [OF conjunct1 [OF conjunct2 [OF conjunct2 [OF U']]] p, unfolded dom]
  ultimately show ?thesis using run m by blast
qed

end
