(* ===== verification/Group_Dual_Write.thy ===== *)
theory Group_Dual_Write
  imports Role_Dual_Write Tenant_Bootstrap
begin

text \<open>
  The dual-write handlers of subjects: the part that groups and users share
  (\<open>management/group/inventory_api_dual_write_subject_handler.py\<close>), which keeps the binding mappings of a
  tenant that writes through V1 and the role binding rows they stand for in step, and the handler of groups
  (\<open>management/group/inventory_api_dual_write_group_handler.py\<close>), which replicates the members of a group
  and the roles it is given.

  A handler is \<open>None\<close> when replication is off: its methods do nothing then. A set of roles is gone through
  in the order of a list. The callbacks of the source add to the handler's tuples, so they take and return it.
\<close>

section \<open>Binding mappings and role bindings\<close>

definition v1_role_by_pk :: "'s rbac_db \<Rightarrow> int \<Rightarrow> v1_role result" where
  "v1_role_by_pk db pk = get_one (filter (\<lambda>r. ro_pk r = pk) (db_v1_roles db))"

definition sync_binding_mapping_to_role_binding ::
  "binding_mapping \<Rightarrow> role_binding \<Rightarrow> 's rbac_db \<Rightarrow> 's rbac_db result" where
  "sync_binding_mapping_to_role_binding m b db =
     bind_r (role_by_pk db (rb_role b)) (\<lambda>r.
     bind_r (check_r (r2_v1_source r = Some (bm_role m)) AssertionError) (\<lambda>_.
     bind_r (check_r (rb_resource_type b = bm_resource_type_name m) AssertionError) (\<lambda>_.
     bind_r (check_r (rb_resource_id b = bm_resource_id m) AssertionError) (\<lambda>_.
     bind_r (update_groups_by_uuid b (bm_groups m) db) (\<lambda>db1.
     bind_r (update_principals_by_user_id b (map (\<lambda>(source, u). (source, Some u)) (bm_users m)) db1) (\<lambda>db2.
       save_role_binding b db2))))))"

definition mapping_key :: "binding_mapping \<Rightarrow> string \<times> int \<times> string \<times> string \<times> string" where
  "mapping_key m =
     (bm_id m, bm_role m, bm_resource_type_namespace m, bm_resource_type_name m, bm_resource_id m)"

text \<open>The handler of a subject; the handlers of groups and of cross-account requests extend it.\<close>

record subject_handler =
  sj_tenant :: tenant
  sj_root_workspace :: workspace
  sj_default_workspace :: workspace
  sj_event_type :: replication_event_type
  sj_tenant_version :: tenant_version
  sj_relations_to_add :: "relation_tuple list"
  sj_relations_to_remove :: "relation_tuple list"

type_synonym 'z mapping_update =
  "'z subject_handler_scheme \<Rightarrow> binding_mapping \<Rightarrow> (binding_mapping \<times> 'z subject_handler_scheme) result"

type_synonym ('z, 's) mapping_creation =
  "v2_bound_resource \<Rightarrow> 'z subject_handler_scheme \<Rightarrow> 's rbac_db
   \<Rightarrow> (binding_mapping \<times> 'z subject_handler_scheme \<times> 's rbac_db) result"

definition relations_added :: "relation_tuple list \<Rightarrow> 'z subject_handler_scheme \<Rightarrow> 'z subject_handler_scheme" where
  "relations_added ts h = h\<lparr>sj_relations_to_add := sj_relations_to_add h @ ts\<rparr>"

definition relations_removed :: "relation_tuple list \<Rightarrow> 'z subject_handler_scheme \<Rightarrow> 'z subject_handler_scheme" where
  "relations_removed ts h = h\<lparr>sj_relations_to_remove := sj_relations_to_remove h @ ts\<rparr>"

text \<open>\<open>save(force_update=True)\<close> needs the row to exist.\<close>

definition force_update_mapping :: "binding_mapping \<Rightarrow> 's rbac_db \<Rightarrow> 's rbac_db result" where
  "force_update_mapping m db =
     bind_r (check_r (bm_pk m \<noteq> None) ValueError) (\<lambda>_.
     bind_r (check_r (bm_pk m \<in> bm_pk ` set (db_mappings db)) DatabaseError) (\<lambda>_.
     bind_r (save_binding_mapping m db) (\<lambda>(_, db'). Inr db')))"

definition update_role_binding ::
  "binding_mapping \<Rightarrow> role_binding option \<Rightarrow> 'z mapping_update \<Rightarrow> 'z subject_handler_scheme \<Rightarrow> 's rbac_db
   \<Rightarrow> (binding_mapping \<times> 'z subject_handler_scheme \<times> 's rbac_db) result" where
  "update_role_binding m binding update_mapping h db =
     bind_r (update_mapping h m) (\<lambda>(m', h').
     bind_r (check_r (mapping_key m' = mapping_key m) ValueError) (\<lambda>_.
     bind_r (v1_role_by_pk db (bm_role m')) (\<lambda>role.
     bind_r (check_r (ro_system role \<or> length (bm_users m') = 0) ValueError) (\<lambda>_.
     bind_r (force_update_mapping m' db) (\<lambda>db1.
     bind_r (case binding of None \<Rightarrow> Inr db1 | Some b \<Rightarrow> sync_binding_mapping_to_role_binding m' b db1) (\<lambda>db2.
       Inr (m', h', db2)))))))"

definition get_or_migrate_binding_for_system_role ::
  "tenant \<Rightarrow> binding_mapping \<Rightarrow> 's rbac_db \<Rightarrow> (role_binding \<times> 's rbac_db) result" where
  "get_or_migrate_binding_for_system_role t m db =
     bind_r (v1_role_by_pk db (bm_role m)) (\<lambda>role.
     bind_r (check_r (ro_system role) ValueError) (\<lambda>_.
     bind_r (get_one (filter (\<lambda>r. r2_v1_source r = Some (ro_pk role)) (typed_role_queryset ROLE_SEEDED (db_roles db)))) (\<lambda>r.
       case get_one (filter (\<lambda>b. rb_tenant b = tn_pk t \<and> rb_uuid b = bm_id m \<and> rb_role b = r2_pk r \<and>
                                 rb_resource_type b = bm_resource_type_name m \<and> rb_resource_id b = bm_resource_id m)
                       (db_bindings db)) of
         Inl DoesNotExist \<Rightarrow>
           bind_r (create_role_binding (bm_id m) (tn_pk t) (r2_pk r) (bm_resource_type_name m) (bm_resource_id m) db)
             (\<lambda>(b, db1).
           bind_r (sync_binding_mapping_to_role_binding m b db1) (\<lambda>db2. Inr (b, db2)))
       | Inl e \<Rightarrow> Inl e
       | Inr b \<Rightarrow> Inr (b, db))))"

section \<open>The handler of subjects\<close>

definition init_subject_handler ::
  "tenant \<Rightarrow> workspace \<Rightarrow> workspace \<Rightarrow> replication_event_type \<Rightarrow> mapping_table \<Rightarrow> subject_handler result" where
  "init_subject_handler t root dflt event_type tbl = dual_write_try (
     bind_r (check_r (ws_tenant root = tn_pk t) ValueError) (\<lambda>_.
     bind_r (check_r (ws_tenant dflt = tn_pk t) ValueError) (\<lambda>_.
     bind_r (lock_tenant_version tbl t) (\<lambda>version.
       Inr \<lparr>sj_tenant = t, sj_root_workspace = root, sj_default_workspace = dflt, sj_event_type = event_type,
            sj_tenant_version = version, sj_relations_to_add = [], sj_relations_to_remove = []\<rparr>))))"

definition is_subject_tuple :: "relation_tuple \<Rightarrow> bool" where
  "is_subject_tuple t \<longleftrightarrow>
     ot_namespace (or_type (rt_resource t)) = ''rbac'' \<and> ot_name (or_type (rt_resource t)) = ''role_binding'' \<and>
     rt_relation t = ''subject''"

definition deduplicate_step ::
  "string list \<times> relation_tuple list \<Rightarrow> relation_tuple \<Rightarrow> (string list \<times> relation_tuple list) result" where
  "deduplicate_step = (\<lambda>(seen, deduplicated) t.
     let key = stringify_spicedb_relationship t in
     if key \<in> set seen
     then (if is_subject_tuple t then Inr (seen, deduplicated) else Inl ValueError)
     else Inr (set_add key seen, deduplicated @ [t]))"

definition deduplicate_subject_relations :: "relation_tuple list \<Rightarrow> relation_tuple list result" where
  "deduplicate_subject_relations relationships =
     bind_r (foldM_r deduplicate_step ([], []) relationships) (\<lambda>(_, deduplicated). Inr deduplicated)"

definition expect_v1_tenant :: "'z subject_handler_scheme \<Rightarrow> unit result" where
  "expect_v1_tenant h = check_r (sj_tenant_version h = VERSION_1) RuntimeError"

definition create_default_mapping_for_system_role ::
  "string \<Rightarrow> (nat \<Rightarrow> string) \<Rightarrow> v1_role \<Rightarrow> string list \<Rightarrow> (string \<times> string) list \<Rightarrow> ('z, 's) mapping_creation" where
  "create_default_mapping_for_system_role domain uuid4 system_role groups users resource h db =
     bind_r (check_r (ro_system system_role) AssertionError) (\<lambda>_.
     let (uuid, db1) = fresh_uuid uuid4 db;
         binding = \<lparr>vb_id = uuid, vb_role = for_system_role (ro_uuid system_role), vb_resource = resource,
                    vb_groups = groups, vb_users = users\<rparr>;
         v2_role = (case filter (\<lambda>r. r2_uuid r = ro_uuid system_role) (typed_role_queryset ROLE_SEEDED (db_roles db1)) of
                      [] \<Rightarrow> None | r # _ \<Rightarrow> Some (r2_pk r));
         m = for_role_binding binding (ro_pk system_role) v2_role
     in bind_r (mapping_as_tuples domain m) (\<lambda>ts. Inr (m, relations_added ts h, db1)))"

definition lock_resource_for_update :: "bound_model \<Rightarrow> 's rbac_db \<Rightarrow> unit result" where
  "lock_resource_for_update model db =
     (case model of
        TenantModel t \<Rightarrow> bind_r (tenant_by_pk (wst_tenants (db_ws db)) (tn_pk t)) (\<lambda>_. Inr ())
      | WorkspaceModel w \<Rightarrow> bind_r (get_one (filter (\<lambda>w'. ws_id w' = ws_id w) (wst_table (db_ws db)))) (\<lambda>_. Inr ()))"

text \<open>
  The binding of a system role at a scope. A mapping that nobody is assigned to any more is deleted with its
  tuples and its role binding. A missing mapping is created if the caller gives a way to; \<open>on_missing\<close> is
  what is done then.
\<close>

definition binding_for_update ::
  "bool \<Rightarrow> tenant \<Rightarrow> binding_mapping \<Rightarrow> 's rbac_db \<Rightarrow> (role_binding option \<times> 's rbac_db) result" where
  "binding_for_update suppress_migration t m db =
     (if \<not> suppress_migration
      then bind_r (get_or_migrate_binding_for_system_role t m db) (\<lambda>(b, db1). Inr (Some b, db1))
      else case filter (\<lambda>b. rb_uuid b = bm_id m) (db_bindings db) of
             [] \<Rightarrow> Inr (None, db)
           | b # _ \<Rightarrow>
               bind_r (role_by_pk db (rb_role b)) (\<lambda>r.
               bind_r (check_r ((bm_resource_type_name m, bm_resource_id m, Some (bm_role m)) =
                                (rb_resource_type b, rb_resource_id b, r2_v1_source r)) AssertionError) (\<lambda>_.
                 Inr (Some b, db))))"

definition delete_unassigned ::
  "string \<Rightarrow> binding_mapping \<Rightarrow> role_binding option \<Rightarrow> 'z subject_handler_scheme \<Rightarrow> 's rbac_db
   \<Rightarrow> ('z subject_handler_scheme \<times> 's rbac_db) result" where
  "delete_unassigned domain m binding h db =
     (if \<not> is_unassigned m then Inr (h, db)
      else bind_r (mapping_as_tuples domain m) (\<lambda>ts.
           let db1 = delete_binding_mapping m db; h1 = relations_removed ts h
           in case binding of
                None \<Rightarrow> Inr (h1, db1)
              | Some b \<Rightarrow>
                  bind_r (check_r (group_entries db1 b = []) AssertionError) (\<lambda>_.
                  bind_r (check_r (principal_entries db1 b = []) AssertionError) (\<lambda>_.
                    Inr (h1, delete_role_binding b db1)))))"

definition mapping_for_role_and_resource :: "v1_role \<Rightarrow> v2_bound_resource \<Rightarrow> 's rbac_db \<Rightarrow> binding_mapping result" where
  "mapping_for_role_and_resource role resource db =
     get_one (filter (\<lambda>m. bm_role m = ro_pk role \<and> bm_resource_type_namespace m = fst (br_type resource) \<and>
                          bm_resource_type_name m = snd (br_type resource) \<and> bm_resource_id m = br_id resource)
                (db_mappings db))"

definition update_existing_mapping ::
  "string \<Rightarrow> v1_role \<Rightarrow> scope \<Rightarrow> 'z mapping_update \<Rightarrow> bool
   \<Rightarrow> (bound_model \<Rightarrow> v2_bound_resource \<Rightarrow> ('z subject_handler_scheme \<times> 's rbac_db) result)
   \<Rightarrow> 'z subject_handler_scheme \<Rightarrow> 's rbac_db \<Rightarrow> ('z subject_handler_scheme \<times> 's rbac_db) result" where
  "update_existing_mapping domain role s update_mapping suppress_migration on_missing h db =
     bind_r (expect_v1_tenant h) (\<lambda>_.
     bind_r (check_r (ro_system role) DualWriteException) (\<lambda>_.
     bind_r (bound_model_for_scope s (sj_tenant h) (sj_root_workspace h) (sj_default_workspace h)) (\<lambda>model.
     bind_r (for_model domain model) (\<lambda>resource.
       case mapping_for_role_and_resource role resource db of
         Inl DoesNotExist \<Rightarrow> on_missing model resource
       | Inl e \<Rightarrow> Inl e
       | Inr m \<Rightarrow>
           bind_r (binding_for_update suppress_migration (sj_tenant h) m db) (\<lambda>(binding, db1).
           bind_r (update_role_binding m binding update_mapping h db1) (\<lambda>(m', h', db2).
             delete_unassigned domain m' binding h' db2))))))"

definition insert_default_mapping ::
  "('z, 's) mapping_creation \<Rightarrow> v2_bound_resource \<Rightarrow> 'z subject_handler_scheme \<Rightarrow> 's rbac_db
   \<Rightarrow> ('z subject_handler_scheme \<times> 's rbac_db) result" where
  "insert_default_mapping create resource h db =
     bind_r (create resource h db) (\<lambda>(m, h1, db1).
     bind_r (save_binding_mapping m db1) (\<lambda>(m', db2).
     bind_r (get_or_migrate_binding_for_system_role (sj_tenant h1) m' db2) (\<lambda>(_, db3).
       Inr (h1, db3))))"

definition update_mapping_for_system_role ::
  "string \<Rightarrow> v1_role \<Rightarrow> scope \<Rightarrow> 'z mapping_update \<Rightarrow> ('z, 's) mapping_creation option \<Rightarrow> bool \<Rightarrow> bool
   \<Rightarrow> 'z subject_handler_scheme \<Rightarrow> 's rbac_db \<Rightarrow> ('z subject_handler_scheme \<times> 's rbac_db) result" where
  "update_mapping_for_system_role domain role s update_mapping create resource_locked suppress_migration h db =
     update_existing_mapping domain role s update_mapping suppress_migration
       (\<lambda>model resource.
          case create of
            None \<Rightarrow> Inr (h, db)
          | Some c \<Rightarrow>
              (if resource_locked then insert_default_mapping c resource h db
               else bind_r (lock_resource_for_update model db) (\<lambda>_.
                      update_existing_mapping domain role s update_mapping False
                        (\<lambda>_ resource. insert_default_mapping c resource h db) h db)))
       h db"

definition migrate_custom_role ::
  "role_settings \<Rightarrow> 's replicator \<Rightarrow> (nat \<Rightarrow> string) \<Rightarrow> string \<Rightarrow> v1_role \<Rightarrow> 'z subject_handler_scheme \<Rightarrow> 's rbac_db
   \<Rightarrow> 's rbac_db result" where
  "migrate_custom_role st rp uuid7 now role h db =
     bind_r (check_r (\<not> ro_system role) ValueError) (\<lambda>_.
     bind_r (init_role_handler st role EV_MIGRATE_CUSTOM_ROLE (Some (sj_tenant h)) db) (\<lambda>(handler, db1).
       case handler of
         None \<Rightarrow> Inr db1
       | Some rh \<Rightarrow>
           bind_r (prepare_for_update st db1 rh) (\<lambda>rh1.
           bind_r (replicate_new_or_updated_role st rp uuid7 now role rh1 db1) (\<lambda>(_, db2). Inr db2))))"

definition bindings_by_id :: "v1_role \<Rightarrow> 's rbac_db \<Rightarrow> (string \<times> role_binding) list" where
  "bindings_by_id role db = fold (\<lambda>b d. AList.update (rb_uuid b) b d) (bindings_of_role role db) []"

definition update_custom_mapping ::
  "(string \<times> role_binding) list \<Rightarrow> 'z mapping_update \<Rightarrow> 'z subject_handler_scheme \<times> 's rbac_db \<Rightarrow> binding_mapping
   \<Rightarrow> ('z subject_handler_scheme \<times> 's rbac_db) result" where
  "update_custom_mapping by_id update_mapping = (\<lambda>(h, db) m.
     case map_of by_id (bm_id m) of
       None \<Rightarrow> Inl KeyError
     | Some b \<Rightarrow> bind_r (update_role_binding m (Some b) update_mapping h db) (\<lambda>(_, h', db'). Inr (h', db')))"

text \<open>The role has mappings and need not be migrated, or has been.\<close>

definition update_migrated_mappings ::
  "v1_role \<Rightarrow> 'z mapping_update \<Rightarrow> 'z subject_handler_scheme \<Rightarrow> 's rbac_db
   \<Rightarrow> ('z subject_handler_scheme \<times> 's rbac_db) result" where
  "update_migrated_mappings role update_mapping h db =
     (let mappings = mappings_of_role role db; by_id = bindings_by_id role db
      in if mappings = [] then Inr (h, db)
         else bind_r (check_r (length mappings = length by_id) AssertionError) (\<lambda>_.
              foldM_r (update_custom_mapping by_id update_mapping) (h, db) mappings))"

definition update_mappings_for_custom_role ::
  "role_settings \<Rightarrow> 's replicator \<Rightarrow> (nat \<Rightarrow> string) \<Rightarrow> string \<Rightarrow> v1_role \<Rightarrow> 'z mapping_update
   \<Rightarrow> 'z subject_handler_scheme \<Rightarrow> 's rbac_db \<Rightarrow> ('z subject_handler_scheme \<times> 's rbac_db) result" where
  "update_mappings_for_custom_role st rp uuid7 now role update_mapping h db =
     bind_r (expect_v1_tenant h) (\<lambda>_.
       if mappings_of_role role db \<noteq> [] \<and> bindings_by_id role db = []
       then bind_r (migrate_custom_role st rp uuid7 now role h db) (\<lambda>db1.
              update_migrated_mappings role update_mapping h db1)
       else update_migrated_mappings role update_mapping h db)"

definition update_mapping_for_role ::
  "role_settings \<Rightarrow> 's replicator \<Rightarrow> (nat \<Rightarrow> string) \<Rightarrow> string \<Rightarrow> v1_role \<Rightarrow> scope \<Rightarrow> 'z mapping_update
   \<Rightarrow> ('z, 's) mapping_creation option \<Rightarrow> 'z subject_handler_scheme \<Rightarrow> 's rbac_db
   \<Rightarrow> ('z subject_handler_scheme \<times> 's rbac_db) result" where
  "update_mapping_for_role st rp uuid7 now role s update_mapping create h db =
     (if ro_system role
      then update_mapping_for_system_role (rc_domain st) role s update_mapping create False False h db
      else update_mappings_for_custom_role st rp uuid7 now role update_mapping h db)"

definition with_system_roles_for_share :: "v1_role list \<Rightarrow> 's rbac_db \<Rightarrow> v1_role list result" where
  "with_system_roles_for_share roles0 db =
     (let roles = dedup_by ro_pk [] roles0;
          custom = filter (\<lambda>r. \<not> ro_system r) roles;
          system = filter ro_system roles;
          locked_system = filter (\<lambda>r. ro_system r \<and> ro_pk r \<in> ro_pk ` set system) (db_v1_roles db);
          final_roles = custom @ locked_system
      in bind_r (check_r (ro_pk ` set final_roles = ro_pk ` set roles) RuntimeError) (\<lambda>_. Inr final_roles))"

section \<open>The handler of groups\<close>

record group_handler = subject_handler +
  gh_group :: rbac_group
  gh_principals :: "principal list"
  gh_resource_service :: permissions_map
  gh_policy_service :: policy_id_service
  gh_expected_empty_relation_reason :: "string option"

definition init_group_handler ::
  "role_settings \<Rightarrow> rbac_group \<Rightarrow> replication_event_type \<Rightarrow> permissions_map option \<Rightarrow> policy_id_service \<Rightarrow> 's rbac_db
   \<Rightarrow> (group_handler option \<times> 's rbac_db) result" where
  "init_group_handler st g event_type resource_service service db =
     (if \<not> st_replication_enabled (rc_ws st) then Inr (None, db)
      else dual_write_try (
        bind_r (case resource_service of Some pm \<Rightarrow> Inr pm | None \<Rightarrow> scope_service st) (\<lambda>pm.
        bind_r (tenant_by_pk (wst_tenants (db_ws db)) (gr_tenant g)) (\<lambda>t.
        bind_r (manager_default (st_cache_enabled (rc_ws st)) (wst_table (db_ws db)) (wst_cache (db_ws db)) (Some t) None)
          (\<lambda>(dflt, cache1).
        bind_r (manager_root (st_cache_enabled (rc_ws st)) (wst_table (db_ws db)) cache1 (Some t) None)
          (\<lambda>(root, cache2).
        bind_r (init_subject_handler t root dflt event_type (db_tenant_mappings db)) (\<lambda>h.
          Inr (Some (subject_handler.extend h
                 \<lparr>gh_group = g, gh_principals = [], gh_resource_service = pm, gh_policy_service = service,
                  gh_expected_empty_relation_reason = None\<rparr>),
               db\<lparr>db_ws := (db_ws db)\<lparr>wst_cache := cache2\<rparr>\<rparr>))))))))"

definition generate_member_relations :: "string \<Rightarrow> group_handler \<Rightarrow> relation_tuple list result" where
  "generate_member_relations domain h =
     foldM_r (\<lambda>relations p.
        bind_r (relationship_to_principal_for_group domain (gh_group h) (FromPrincipal p)) (\<lambda>t.
          Inr (relations @ (case t of None \<Rightarrow> [] | Some t \<Rightarrow> [t])))) [] (gh_principals h)"

definition generate_relations_to_add_principals :: "string \<Rightarrow> principal list \<Rightarrow> group_handler \<Rightarrow> group_handler result" where
  "generate_relations_to_add_principals domain principals h =
     (let h1 = h\<lparr>gh_principals := principals\<rparr>
      in bind_r (generate_member_relations domain h1) (\<lambda>ts. Inr (h1\<lparr>sj_relations_to_add := ts\<rparr>)))"

definition group_event :: "role_settings \<Rightarrow> tenant \<Rightarrow> relation_tuple list \<Rightarrow> group_handler \<Rightarrow> replication_event" where
  "group_event st group_tenant add h =
     \<lparr>ev_type = sj_event_type h,
      ev_info = [(''group_uuid'', PyStr (gr_uuid (gh_group h))),
                 (''org_id'', PyStr (py_str (py_opt_str (tn_org_id group_tenant))))],
      ev_partition_key = st_env_name (rc_ws st), ev_add = add, ev_remove = sj_relations_to_remove h\<rparr>"

definition replicate_group :: "role_settings \<Rightarrow> 's replicator \<Rightarrow> group_handler \<Rightarrow> 's rbac_db \<Rightarrow> 's rbac_db result" where
  "replicate_group st rp h db =
     (case gh_expected_empty_relation_reason h of
        Some (c # cs) \<Rightarrow> Inr db
      | _ \<Rightarrow>
          bind_r (deduplicate_subject_relations (sj_relations_to_add h)) (\<lambda>add.
            if add = [] \<and> sj_relations_to_remove h = [] then Inr db
            else dual_write_try (
              bind_r (tenant_by_pk (wst_tenants (db_ws db)) (gr_tenant (gh_group h))) (\<lambda>group_tenant.
              bind_r (rp_replicate rp (wst_repl (db_ws db)) (group_event st group_tenant add h)) (\<lambda>s'.
                Inr (db\<lparr>db_ws := (db_ws db)\<lparr>wst_repl := s'\<rparr>\<rparr>))))))"

definition replicate_new_principals ::
  "role_settings \<Rightarrow> 's replicator \<Rightarrow> principal list \<Rightarrow> group_handler \<Rightarrow> 's rbac_db \<Rightarrow> (group_handler \<times> 's rbac_db) result" where
  "replicate_new_principals st rp principals h db =
     bind_r (generate_relations_to_add_principals (rc_domain st) principals h) (\<lambda>h1.
     bind_r (replicate_group st rp h1 db) (\<lambda>db1. Inr (h1, db1)))"

definition replicate_removed_principals ::
  "role_settings \<Rightarrow> 's replicator \<Rightarrow> principal list \<Rightarrow> group_handler \<Rightarrow> 's rbac_db \<Rightarrow> (group_handler \<times> 's rbac_db) result" where
  "replicate_removed_principals st rp principals h db =
     (let h1 = h\<lparr>gh_principals := principals\<rparr>
      in bind_r (generate_member_relations (rc_domain st) h1) (\<lambda>ts.
         let h2 = h1\<lparr>sj_relations_to_remove := ts\<rparr>
         in bind_r (replicate_group st rp h2 db) (\<lambda>db1. Inr (h2, db1))))"

definition default_binding ::
  "role_settings \<Rightarrow> platform_settings \<Rightarrow> bool \<Rightarrow> tenant_mapping option \<Rightarrow> group_handler \<Rightarrow> 's rbac_db
   \<Rightarrow> (relation_tuple list \<times> group_handler) result" where
  "default_binding st pf resource_binding_only given h db =
     bind_r (tenant_by_pk (wst_tenants (db_ws db)) (gr_tenant (gh_group h))) (\<lambda>group_tenant.
     bind_r (case given of
               None \<Rightarrow> get_one (mappings_of (db_tenant_mappings db) group_tenant)
             | Some m \<Rightarrow> bind_r (check_r (tm_tenant m = gr_tenant (gh_group h)) AssertionError) (\<lambda>_. Inr m)) (\<lambda>m.
     bind_r (resources_for_models (rc_domain st) group_tenant (sj_root_workspace h) (sj_default_workspace h)) (\<lambda>resources.
     bind_r (default_role_binding_tuples pf m resources ACCESS_USER resource_binding_only None db (gh_policy_service h))
       (\<lambda>(ts, service). Inr (ts, h\<lparr>gh_policy_service := service\<rparr>)))))"

definition reset_mapping :: "group_handler \<Rightarrow> binding_mapping \<Rightarrow> (binding_mapping \<times> group_handler) result" where
  "reset_mapping h m =
     bind_r (unassign_group (gr_uuid (gh_group h)) m) (\<lambda>(m1, to_remove).
     bind_r (assign_group_to_bindings (gr_uuid (gh_group h)) m1) (\<lambda>(m2, to_add).
       Inr (m2, (case to_add of None \<Rightarrow> relations_removed [to_remove] h
                 | Some t \<Rightarrow> relations_added [t] (relations_removed [to_remove] h)))))"

definition reset_role_at ::
  "role_settings \<Rightarrow> 's replicator \<Rightarrow> (nat \<Rightarrow> string) \<Rightarrow> string \<Rightarrow> v1_role \<Rightarrow> group_handler \<times> 's rbac_db \<Rightarrow> scope
   \<Rightarrow> (group_handler \<times> 's rbac_db) result" where
  "reset_role_at st rp new_uuid now role = (\<lambda>(h, db) s.
     update_mapping_for_role st rp new_uuid now role s reset_mapping
       (Some (create_default_mapping_for_system_role (rc_domain st) new_uuid role [gr_uuid (gh_group h)] [])) h db)"

definition reset_role ::
  "role_settings \<Rightarrow> 's replicator \<Rightarrow> (nat \<Rightarrow> string) \<Rightarrow> string \<Rightarrow> group_handler \<times> 's rbac_db \<Rightarrow> v1_role
   \<Rightarrow> (group_handler \<times> 's rbac_db) result" where
  "reset_role st rp new_uuid now = (\<lambda>(h, db) role.
     bind_r (binding_scopes_for_permissions (gh_resource_service h)
               (map (\<lambda>a. perm_permission (ac_permission a)) (ro_access role))) (\<lambda>scopes.
       foldM_r (reset_role_at st rp new_uuid now role) (h, db) scopes))"

definition generate_relations_reset_roles ::
  "role_settings \<Rightarrow> platform_settings \<Rightarrow> 's replicator \<Rightarrow> (nat \<Rightarrow> string) \<Rightarrow> string \<Rightarrow> v1_role list
   \<Rightarrow> tenant_mapping option \<Rightarrow> group_handler \<Rightarrow> 's rbac_db \<Rightarrow> (group_handler \<times> 's rbac_db) result" where
  "generate_relations_reset_roles st pf rp new_uuid now roles remove_default_access_from h db =
     bind_r (with_system_roles_for_share roles db) (\<lambda>locked.
     bind_r (foldM_r (reset_role st rp new_uuid now) (h, db) locked) (\<lambda>(h1, db1).
       case remove_default_access_from of
         None \<Rightarrow> Inr (h1, db1)
       | Some m \<Rightarrow>
           bind_r (default_binding st pf True (Some m) h1 db1) (\<lambda>(ts, h2).
             Inr (relations_removed ts h2, db1))))"

definition remove_group_from_binding :: "group_handler \<Rightarrow> binding_mapping \<Rightarrow> (binding_mapping \<times> group_handler) result" where
  "remove_group_from_binding h m =
     bind_r (pop_group_from_bindings (gr_uuid (gh_group h)) m) (\<lambda>(m', removal).
       Inr (m', (case removal of None \<Rightarrow> h | Some t \<Rightarrow> relations_removed [t] h)))"

definition update_mapping_for_role_removal ::
  "role_settings \<Rightarrow> 's replicator \<Rightarrow> (nat \<Rightarrow> string) \<Rightarrow> string \<Rightarrow> group_handler \<times> 's rbac_db \<Rightarrow> v1_role
   \<Rightarrow> (group_handler \<times> 's rbac_db) result" where
  "update_mapping_for_role_removal st rp new_uuid now = (\<lambda>(h, db) role.
     foldM_r (\<lambda>(h, db) s. update_mapping_for_role st rp new_uuid now role s remove_group_from_binding None h db)
       (h, db) CONCRETE_SCOPES)"

definition generate_relations_to_remove_roles ::
  "role_settings \<Rightarrow> 's replicator \<Rightarrow> (nat \<Rightarrow> string) \<Rightarrow> string \<Rightarrow> v1_role list \<Rightarrow> group_handler \<Rightarrow> 's rbac_db
   \<Rightarrow> (group_handler \<times> 's rbac_db) result" where
  "generate_relations_to_remove_roles st rp new_uuid now roles h db =
     foldM_r (update_mapping_for_role_removal st rp new_uuid now) (h, db) roles"

definition public_tenant_only :: "'s rbac_db \<Rightarrow> v1_role list \<Rightarrow> v1_role list result" where
  "public_tenant_only db roles =
     bind_r (public_tenant db) (\<lambda>t. Inr (filter (\<lambda>r. ro_system r \<and> ro_tenant r = tn_pk t) roles))"

definition remove_role_once ::
  "role_settings \<Rightarrow> 's replicator \<Rightarrow> (nat \<Rightarrow> string) \<Rightarrow> string \<Rightarrow> int list \<times> group_handler \<times> 's rbac_db \<Rightarrow> v1_role
   \<Rightarrow> (int list \<times> group_handler \<times> 's rbac_db) result" where
  "remove_role_once st rp new_uuid now = (\<lambda>(ids, h, db) role.
     if ro_pk role \<in> set ids then Inr (ids, h, db)
     else bind_r (update_mapping_for_role_removal st rp new_uuid now (h, db) role) (\<lambda>(h', db').
            Inr (ids @ [ro_pk role], h', db')))"

definition prepare_to_delete_group_v1 ::
  "role_settings \<Rightarrow> 's replicator \<Rightarrow> (nat \<Rightarrow> string) \<Rightarrow> string \<Rightarrow> v1_role list \<Rightarrow> group_handler \<Rightarrow> 's rbac_db
   \<Rightarrow> (group_handler \<times> 's rbac_db) result" where
  "prepare_to_delete_group_v1 st rp new_uuid now roles h db =
     bind_r (expect_v1_tenant h) (\<lambda>_.
     bind_r (public_tenant_only db roles) (\<lambda>system_roles.
     bind_r (foldM_r (remove_role_once st rp new_uuid now) ([], h, db)
               (system_roles @ filter (\<lambda>r. ro_tenant r = gr_tenant (gh_group h)) roles))
       (\<lambda>(_, h', db'). Inr (h', db'))))"

definition binding_removal ::
  "string \<Rightarrow> rbac_group \<Rightarrow> 's rbac_db \<Rightarrow> group_handler \<Rightarrow> role_binding \<Rightarrow> group_handler result" where
  "binding_removal domain g db h b =
     bind_r (subject_tuple domain b (GroupSubject g)) (\<lambda>t.
     let h1 = relations_removed [t] h in
     if filter (\<lambda>u. u \<noteq> gr_uuid g) (group_entries db b) = [] \<and> principal_entries db b = []
     then bind_r (role_by_pk db (rb_role b)) (\<lambda>r.
          bind_r (rb_binding_tuples b r) (\<lambda>ts. Inr (relations_removed ts h1)))
     else Inr h1)"

definition prepare_to_delete_group_v2 :: "string \<Rightarrow> group_handler \<Rightarrow> 's rbac_db \<Rightarrow> group_handler result" where
  "prepare_to_delete_group_v2 domain h db =
     foldM_r (binding_removal domain (gh_group h) db) h
       (filter (\<lambda>b. gr_uuid (gh_group h) \<in> set (group_entries db b) \<and> rb_tenant b = tn_pk (sj_tenant h))
          (db_bindings db))"

definition group_members :: "'s rbac_db \<Rightarrow> rbac_group \<Rightarrow> principal list" where
  "group_members db g =
     filter (\<lambda>p. list_ex (\<lambda>g'. gr_uuid g' = gr_uuid g \<and> pr_uuid p \<in> set (gr_principals g')) (db_groups db)) (db_principals db)"

definition prepare_to_delete_group ::
  "role_settings \<Rightarrow> platform_settings \<Rightarrow> 's replicator \<Rightarrow> (nat \<Rightarrow> string) \<Rightarrow> string \<Rightarrow> v1_role list \<Rightarrow> group_handler
   \<Rightarrow> 's rbac_db \<Rightarrow> (group_handler \<times> 's rbac_db) result" where
  "prepare_to_delete_group st pf rp new_uuid now roles h db =
     bind_r (case sj_tenant_version h of
               VERSION_1 \<Rightarrow> prepare_to_delete_group_v1 st rp new_uuid now roles h db
             | VERSION_2 \<Rightarrow> bind_r (prepare_to_delete_group_v2 (rc_domain st) h db) (\<lambda>h1. Inr (h1, db))) (\<lambda>(h1, db1).
       if gr_platform_default (gh_group h1)
       then bind_r (default_binding st pf False None h1 db1) (\<lambda>(ts, h2). Inr (relations_added ts h2, db1))
       else (let h2 = h1\<lparr>gh_principals := group_members db1 (gh_group h1)\<rparr>
             in bind_r (generate_member_relations (rc_domain st) h2) (\<lambda>ts. Inr (relations_removed ts h2, db1))))"

definition set_group_expected_empty_relation_reason :: "string \<Rightarrow> group_handler \<Rightarrow> group_handler" where
  "set_group_expected_empty_relation_reason reason h = h\<lparr>gh_expected_empty_relation_reason := Some reason\<rparr>"

section \<open>The tuples of a binding\<close>

text \<open>
  The binding a tuple is about. The tuples about a mapping's binding are those of its role, its resource
  and its subjects.
\<close>

definition binding_of :: "relation_tuple \<Rightarrow> string option" where
  "binding_of t =
     (if or_type (sr_subject (rt_subject t)) = \<lparr>ot_namespace = ''rbac'', ot_name = ''role_binding''\<rparr> \<and>
         rt_relation t = ''binding''
      then Some (or_id (sr_subject (rt_subject t)))
      else if or_type (rt_resource t) = \<lparr>ot_namespace = ''rbac'', ot_name = ''role_binding''\<rparr>
      then Some (or_id (rt_resource t)) else None)"

lemma binding_of_kinds [simp]:
  "binding_of (group_tuple b g) = Some b" "binding_of (user_tuple d b u) = Some b"
  "binding_of (role_tuple b r) = Some b" "binding_of (bound_tuple res b) = Some b"
  "binding_of (permission_tuple r p) = None" "binding_of (owner_tuple r t) = None"
  by (simp_all add: binding_of_def tuple_kinds plain_tuple_def)

lemma is_subject_kinds [simp]:
  "is_subject_tuple (group_tuple b g)" "is_subject_tuple (user_tuple d b u)"
  "\<not> is_subject_tuple (role_tuple b r)" "\<not> is_subject_tuple (bound_tuple res b)"
  by (simp_all add: is_subject_tuple_def tuple_kinds plain_tuple_def)

text \<open>The member tuples of groups are no business of bindings.\<close>

definition is_member_tuple :: "relation_tuple \<Rightarrow> bool" where
  "is_member_tuple t \<longleftrightarrow> or_type (rt_resource t) = \<lparr>ot_namespace = ''rbac'', ot_name = ''group''\<rparr> \<and> rt_relation t = ''member''"

lemma is_member_kinds [simp]:
  "\<not> is_member_tuple (group_tuple b g)" "\<not> is_member_tuple (user_tuple d b u)"
  "\<not> is_member_tuple (role_tuple b r)" "\<not> is_member_tuple (bound_tuple res b)"
  "\<not> is_member_tuple (permission_tuple r p)" "is_member_tuple (member_tuple d g u)"
  by (simp_all add: is_member_tuple_def tuple_kinds member_tuple_def plain_tuple_def)

definition mapping_part :: "string \<Rightarrow> binding_mapping \<Rightarrow> relation_tuple set" where
  "mapping_part domain m =
     {role_tuple (bm_id m) (vr_id (bm_role_value m)), bound_tuple (mapping_resource m) (bm_id m)} \<union>
     group_tuple (bm_id m) ` set (bm_groups m) \<union> user_tuple domain (bm_id m) ` snd ` set (bm_users m)"

definition binding_part :: "relation_tuple set \<Rightarrow> string \<Rightarrow> relation_tuple set" where
  "binding_part ts i = {t \<in> ts. binding_of t = Some i}"

lemma binding_part_mapping [simp]: "binding_part (mapping_part domain m) i = (if i = bm_id m then mapping_part domain m else {})"
  by (auto simp: binding_part_def mapping_part_def)

lemma binding_part_Un [simp]: "binding_part (A \<union> B) i = binding_part A i \<union> binding_part B i"
  by (auto simp: binding_part_def)

lemma binding_part_Diff [simp]: "binding_part (A - B) i = binding_part A i - binding_part B i"
  by (auto simp: binding_part_def)

lemma mapping_as_tuples_part:
  assumes "mapping_as_tuples domain m = Inr ts"
  shows "set ts = mapping_part domain m \<union> permission_tuple (vr_id (bm_role_value m)) ` set (vr_permissions (bm_role_value m))"
    and "list_all valid_relation_tuple ts"
proof -
  obtain b where b: "get_role_binding m = Inr b" and ts: "binding_as_tuples domain b = Inr ts"
    using assms by (auto simp: mapping_as_tuples_def bind_r_Inr_iff)
  note B = get_role_binding_Inr [OF b]
  have "vb_resource b = mapping_resource m" using B by (simp add: mapping_resource_def)
  then show "set ts = mapping_part domain m \<union> permission_tuple (vr_id (bm_role_value m)) ` set (vr_permissions (bm_role_value m))"
    using ts B by (simp add: binding_as_tuples_Inr_iff set_binding_tuples mapping_part_def) blast
  show "list_all valid_relation_tuple ts" using ts unfolding binding_as_tuples_Inr_iff by blast
qed

text \<open>The access graph once the tuples of the handler are replicated.\<close>

definition pending :: "relation_tuple set \<Rightarrow> 'z subject_handler_scheme \<Rightarrow> relation_tuple set" where
  "pending ts h = (ts - set (sj_relations_to_remove h)) \<union> set (sj_relations_to_add h)"

lemma pending_added: "pending ts (relations_added us h) = pending ts h \<union> set us"
  by (auto simp: pending_def relations_added_def)

lemma pending_removed:
  "set us \<inter> set (sj_relations_to_add h) = {} \<Longrightarrow> pending ts (relations_removed us h) = pending ts h - set us"
  by (auto simp: pending_def relations_removed_def)

lemma pending_readded: "pending ts (relations_added us (relations_removed us h)) = pending ts h \<union> set us"
  by (auto simp: pending_def relations_added_def relations_removed_def)

lemma relations_none [simp]: "relations_added [] h = h" "relations_removed [] h = h"
  by (simp_all add: relations_added_def relations_removed_def)

lemma relations_fields [simp]:
  "sj_relations_to_add (relations_added ts h) = sj_relations_to_add h @ ts"
  "sj_relations_to_remove (relations_added ts h) = sj_relations_to_remove h"
  "sj_relations_to_add (relations_removed ts h) = sj_relations_to_add h"
  "sj_relations_to_remove (relations_removed ts h) = sj_relations_to_remove h @ ts"
  by (simp_all add: relations_added_def relations_removed_def)

text \<open>What the handler does not change of itself.\<close>

definition same_handler :: "'z subject_handler_scheme \<Rightarrow> 'z subject_handler_scheme \<Rightarrow> bool" where
  "same_handler h h' \<longleftrightarrow> (\<exists>add rem. h' = h\<lparr>sj_relations_to_add := add, sj_relations_to_remove := rem\<rparr>)"

lemma same_handler_refl [simp]: "same_handler h h"
  unfolding same_handler_def by (rule exI [of _ "sj_relations_to_add h"], rule exI [of _ "sj_relations_to_remove h"]) simp

lemma same_handler_trans:
  assumes "same_handler h1 h2" and "same_handler h2 h3"
  shows "same_handler h1 h3"
proof -
  obtain a r where "h2 = h1\<lparr>sj_relations_to_add := a, sj_relations_to_remove := r\<rparr>"
    using assms(1) unfolding same_handler_def by blast
  moreover obtain a' r' where "h3 = h2\<lparr>sj_relations_to_add := a', sj_relations_to_remove := r'\<rparr>"
    using assms(2) unfolding same_handler_def by blast
  ultimately have "h3 = h1\<lparr>sj_relations_to_add := a', sj_relations_to_remove := r'\<rparr>" by simp
  then show ?thesis unfolding same_handler_def by blast
qed

lemma same_handler_fields:
  assumes "same_handler h h'"
  shows "sj_tenant h' = sj_tenant h" "sj_root_workspace h' = sj_root_workspace h"
    "sj_default_workspace h' = sj_default_workspace h" "sj_tenant_version h' = sj_tenant_version h"
    "sj_event_type h' = sj_event_type h" "subject_handler.more h' = subject_handler.more h"
  using assms by (auto simp: same_handler_def)

lemma same_handler_relations: "same_handler h (relations_added us (relations_removed vs h))"
  unfolding same_handler_def relations_added_def relations_removed_def
  by (rule exI [of _ "sj_relations_to_add h @ us"], rule exI [of _ "sj_relations_to_remove h @ vs"]) simp

section \<open>Rows and tuples in step\<close>

text \<open>
  A binding is in step if the tuples about it are those of its mapping, none if it has no mapping, and its
  row has the groups of its mapping.
\<close>

definition tuples_in_step :: "string \<Rightarrow> relation_tuple set \<Rightarrow> 's rbac_db \<Rightarrow> string \<Rightarrow> bool" where
  "tuples_in_step domain ts db i \<longleftrightarrow>
     binding_part ts i = (\<Union>m \<in> {m \<in> set (db_mappings db). bm_id m = i}. mapping_part domain m)"

definition rows_in_step :: "'s rbac_db \<Rightarrow> string \<Rightarrow> bool" where
  "rows_in_step db i \<longleftrightarrow>
     (\<forall>m \<in> set (db_mappings db). \<forall>b \<in> set (db_bindings db).
        bm_id m = i \<longrightarrow> rb_uuid b = i \<longrightarrow> set (group_entries db b) = set (bm_groups m))"

definition in_step :: "string \<Rightarrow> relation_tuple set \<Rightarrow> 's rbac_db \<Rightarrow> string \<Rightarrow> bool" where
  "in_step domain ts db i \<longleftrightarrow> tuples_in_step domain ts db i \<and> rows_in_step db i"

definition binding_rows_wf :: "'s rbac_db \<Rightarrow> bool" where
  "binding_rows_wf db \<longleftrightarrow>
     mapping_rows_wf db \<and> distinct (map bm_id (db_mappings db)) \<and>
     distinct (map rb_pk (db_bindings db)) \<and> distinct (map rb_uuid (db_bindings db)) \<and>
     (\<forall>b \<in> set (db_bindings db). rb_pk b < db_next_pk db) \<and> distinct (map r2_pk (db_roles db))"

definition ids_unused :: "(nat \<Rightarrow> string) \<Rightarrow> relation_tuple set \<Rightarrow> 's rbac_db \<Rightarrow> bool" where
  "ids_unused uuid4 ts db \<longleftrightarrow>
     inj uuid4 \<and>
     (\<forall>n \<ge> db_next_uuid db. uuid4 n \<notin> bm_id ` set (db_mappings db) \<and> uuid4 n \<notin> rb_uuid ` set (db_bindings db) \<and>
        binding_part ts (uuid4 n) = {})"

definition relations_ok :: "'z subject_handler_scheme \<Rightarrow> bool" where
  "relations_ok h \<longleftrightarrow>
     list_all graph_tuple (sj_relations_to_add h) \<and> list_all graph_tuple (sj_relations_to_remove h) \<and>
     distinct (filter (\<lambda>t. \<not> is_subject_tuple t) (sj_relations_to_add h))"

definition handler_inv ::
  "string \<Rightarrow> (nat \<Rightarrow> string) \<Rightarrow> string set \<Rightarrow> relation_tuple set \<Rightarrow> 'z subject_handler_scheme \<Rightarrow> 's rbac_db \<Rightarrow> bool" where
  "handler_inv domain uuid4 I ts h db \<longleftrightarrow>
     binding_rows_wf db \<and> ids_unused uuid4 (pending ts h) db \<and> relations_ok h \<and>
     (\<forall>i \<in> I. tuples_in_step domain (pending ts h) db i \<and> rows_in_step db i)"

section \<open>Rows of one binding\<close>

lemma group_entries_frame [simp]:
  "group_entries (db\<lparr>db_binding_principals := x\<rparr>) b = group_entries db b"
  "group_entries (db\<lparr>db_bindings := y\<rparr>) b = group_entries db b"
  "group_entries (db\<lparr>db_mappings := z\<rparr>) b = group_entries db b"
  "group_entries (db\<lparr>db_next_pk := k\<rparr>) b = group_entries db b"
  "group_entries (db\<lparr>db_next_uuid := n\<rparr>) b = group_entries db b"
  by (simp_all add: group_entries_def)

lemma update_groups_by_uuid_entries:
  assumes "update_groups_by_uuid b gs db = Inr db'"
  shows "\<exists>x. db' = db\<lparr>db_binding_groups := x\<rparr>" and "set (group_entries db' b) = set gs"
    and "rb_pk b' \<noteq> rb_pk b \<Longrightarrow> group_entries db' b' = group_entries db b'"
proof -
  let ?found = "filter (\<lambda>g. gr_uuid g \<in> set gs) (db_groups db)"
  have found: "set (map gr_uuid ?found) = set gs" and db': "db' = update_groups b (map gr_uuid ?found) db"
    using assms by (simp_all add: update_groups_by_uuid_def Let_def bind_r_Inr_iff check_r_Inr_iff)
  show "\<exists>x. db' = db\<lparr>db_binding_groups := x\<rparr>" using db' by (auto simp: update_groups_def)
  have own: "group_entries (update_groups b us db) b = remdups us" for us
    by (simp add: group_entries_def update_groups_def filter_map o_def split_def)
  show "set (group_entries db' b) = set gs" unfolding db' own using found by simp
  show "group_entries db' b' = group_entries db b'" if "rb_pk b' \<noteq> rb_pk b"
  proof -
    have "filter (\<lambda>(pk, _). pk = rb_pk b') (map (\<lambda>g. (rb_pk b, g)) us) = []" for us :: "string list"
      using that by (induction us) auto
    moreover have "filter (\<lambda>(pk, _). pk = rb_pk b') (filter (\<lambda>(pk, _). pk \<noteq> rb_pk b) xs) =
        filter (\<lambda>(pk, _). pk = rb_pk b') xs" for xs :: "(int \<times> string) list"
      using that by (induction xs) auto
    ultimately show ?thesis unfolding db' by (simp add: group_entries_def update_groups_def)
  qed
qed

lemma save_role_binding_same:
  assumes "save_role_binding b db = Inr db'" and "b \<in> set (db_bindings db)" and "distinct (map rb_pk (db_bindings db))"
  shows "db' = db"
proof -
  have "(if rb_pk b' = rb_pk b then b else b') = b'" if "b' \<in> set (db_bindings db)" for b'
    using assms(2,3) that by (auto simp: distinct_map inj_on_def)
  then have "map (\<lambda>b'. if rb_pk b' = rb_pk b then b else b') (db_bindings db) = db_bindings db"
    by (intro map_idI)
  then show ?thesis using assms(1,2) by (auto simp: save_role_binding_def bind_r_Inr_iff)
qed

lemma update_principals_by_user_id_frame:
  "update_principals_by_user_id b us db = Inr db' \<Longrightarrow> \<exists>x. db' = db\<lparr>db_binding_principals := x\<rparr>"
  by (auto simp: update_principals_by_user_id_def update_principals_def Let_def bind_r_Inr_iff)

lemma sync_binding_spec:
  assumes run: "sync_binding_mapping_to_role_binding m b db = Inr db'"
    and b: "b \<in> set (db_bindings db)" and wf: "distinct (map rb_pk (db_bindings db))"
  shows "\<exists>x y. db' = db\<lparr>db_binding_groups := x, db_binding_principals := y\<rparr>"
    and "set (group_entries db' b) = set (bm_groups m)"
    and "rb_pk b' \<noteq> rb_pk b \<Longrightarrow> group_entries db' b' = group_entries db b'"
proof -
  obtain db1 db2 where g: "update_groups_by_uuid b (bm_groups m) db = Inr db1"
    and u: "update_principals_by_user_id b (map (\<lambda>(source, u). (source, Some u)) (bm_users m)) db1 = Inr db2"
    and s: "save_role_binding b db2 = Inr db'"
    using run by (auto simp: sync_binding_mapping_to_role_binding_def bind_r_Inr_iff)
  note G = update_groups_by_uuid_entries [OF g]
  obtain x where x: "db1 = db\<lparr>db_binding_groups := x\<rparr>" using G(1) by blast
  obtain y where y: "db2 = db1\<lparr>db_binding_principals := y\<rparr>" using update_principals_by_user_id_frame [OF u] by blast
  have "db' = db2" using save_role_binding_same [OF s] b wf by (simp add: x y)
  then show "\<exists>x y. db' = db\<lparr>db_binding_groups := x, db_binding_principals := y\<rparr>"
    and "set (group_entries db' b) = set (bm_groups m)"
    and "rb_pk b' \<noteq> rb_pk b \<Longrightarrow> group_entries db' b' = group_entries db b'"
    using G(2,3) x y by auto
qed

lemma force_update_mapping_spec:
  assumes run: "force_update_mapping m' db = Inr db'" and wf: "mapping_rows_wf db"
    and m: "m \<in> set (db_mappings db)" "bm_pk m' = bm_pk m"
  shows "db' = db\<lparr>db_mappings := map (\<lambda>x. if x = m then m' else x) (db_mappings db)\<rparr>"
proof -
  obtain k where k: "bm_pk m = Some k" using wf m(1) by (auto simp: mapping_rows_wf_def)
  have "(if bm_pk x = Some k then m' else x) = (if x = m then m' else x)" if "x \<in> set (db_mappings db)" for x
    using wf m(1) k that by (auto simp: mapping_rows_wf_def distinct_map inj_on_def)
  then have "map (\<lambda>x. if bm_pk x = Some k then m' else x) (db_mappings db) =
      map (\<lambda>x. if x = m then m' else x) (db_mappings db)" by (rule map_cong [OF refl])
  moreover have "Some k \<in> bm_pk ` set (db_mappings db)" using m(1) k by (metis image_eqI)
  moreover obtain y where "save_binding_mapping m' db = Inr (y, db')"
    using run by (auto simp: force_update_mapping_def bind_r_Inr_iff)
  then have "db' = db\<lparr>db_mappings :=
      (if Some k \<in> bm_pk ` set (db_mappings db) then map (\<lambda>x. if bm_pk x = Some k then m' else x) (db_mappings db)
       else db_mappings db @ [m'])\<rparr>"
    using k m(2) by (simp add: save_binding_mapping_def bind_r_Inr_iff)
  ultimately show ?thesis by (simp only: if_True)
qed

text \<open>The tables that the handlers of subjects leave alone.\<close>

definition same_base :: "'s rbac_db \<Rightarrow> 's rbac_db \<Rightarrow> bool" where
  "same_base db db' \<longleftrightarrow>
     db_ws db' = db_ws db \<and> db_tenant_mappings db' = db_tenant_mappings db \<and> db_v1_roles db' = db_v1_roles db \<and>
     db_policies db' = db_policies db \<and> db_groups db' = db_groups db \<and> db_principals db' = db_principals db \<and>
     db_roles db' = db_roles db"

lemma same_base_refl [simp]: "same_base db db"
  by (simp add: same_base_def)

lemma same_base_trans: "same_base db1 db2 \<Longrightarrow> same_base db2 db3 \<Longrightarrow> same_base db1 db3"
  by (simp add: same_base_def)

text \<open>The binding row that belongs to a mapping.\<close>

definition binding_for :: "binding_mapping \<Rightarrow> role_binding \<Rightarrow> 's rbac_db \<Rightarrow> bool" where
  "binding_for m b db \<longleftrightarrow>
     b \<in> set (db_bindings db) \<and> rb_uuid b = bm_id m \<and>
     (\<exists>r \<in> set (db_roles db). r2_pk r = rb_role b \<and> r2_v1_source r = Some (bm_role m))"

lemma created_binding_row:
  assumes "create_role_binding uuid t r ty i db = Inr (b, db')" and "binding_rows_wf db"
  shows "b = \<lparr>rb_pk = db_next_pk db, rb_uuid = uuid, rb_tenant = t, rb_role = r, rb_resource_type = ty, rb_resource_id = i\<rparr>"
    and "db' = db\<lparr>db_next_pk := db_next_pk db + 1, db_bindings := db_bindings db @ [b]\<rparr>"
    and "uuid \<notin> rb_uuid ` set (db_bindings db)"
proof -
  show b: "b = \<lparr>rb_pk = db_next_pk db, rb_uuid = uuid, rb_tenant = t, rb_role = r, rb_resource_type = ty, rb_resource_id = i\<rparr>"
    using assms(1) by (auto simp: create_role_binding_def fresh_pk_def Let_def bind_r_Inr_iff)
  have new: "rb_pk b \<notin> rb_pk ` set (db_bindings db)" using assms(2) by (auto simp: b binding_rows_wf_def)
  have save: "save_role_binding b (db\<lparr>db_next_pk := db_next_pk db + 1\<rparr>) = Inr db'"
    using assms(1) by (auto simp: create_role_binding_def fresh_pk_def Let_def bind_r_Inr_iff)
  then have u: "binding_unique (db_bindings db) b"
    and db': "db' = db\<lparr>db_next_pk := db_next_pk db + 1, db_bindings := db_bindings db @ [b]\<rparr>"
    using new by (simp_all add: save_role_binding_def bind_r_Inr_iff check_r_Inr_iff)
  show "db' = db\<lparr>db_next_pk := db_next_pk db + 1, db_bindings := db_bindings db @ [b]\<rparr>" by (fact db')
  show "uuid \<notin> rb_uuid ` set (db_bindings db)"
  proof
    assume "uuid \<in> rb_uuid ` set (db_bindings db)"
    then obtain b' where b': "b' \<in> set (db_bindings db)" "rb_uuid b' = rb_uuid b" by (auto simp: b)
    then have "rb_pk b' = rb_pk b" using u by (auto simp: binding_unique_def list_all_iff)
    then show False using new b'(1) by (metis image_eqI)
  qed
qed

lemma get_or_migrate_inv:
  assumes inv: "handler_inv domain uuid4 I ts h db" and m: "m \<in> set (db_mappings db)"
    and run: "get_or_migrate_binding_for_system_role t m db = Inr (b, db')"
  shows "handler_inv domain uuid4 I ts h db'" and "binding_for m b db'" and "same_base db db'"
    and "db_mappings db' = db_mappings db" and "db_next_uuid db' = db_next_uuid db"
    and "set (db_bindings db) \<subseteq> set (db_bindings db')"
proof -
  have wf: "binding_rows_wf db" using inv by (simp add: handler_inv_def)
  let ?P = "\<lambda>b r. rb_tenant b = tn_pk t \<and> rb_uuid b = bm_id m \<and> rb_role b = r2_pk r \<and>
      rb_resource_type b = bm_resource_type_name m \<and> rb_resource_id b = bm_resource_id m"
  obtain role r where role: "v1_role_by_pk db (bm_role m) = Inr role" "ro_system role"
    and r0: "get_one (filter (\<lambda>r. r2_v1_source r = Some (ro_pk role)) (typed_role_queryset ROLE_SEEDED (db_roles db))) = Inr r"
    and rest: "(case get_one (filter (\<lambda>b. ?P b r) (db_bindings db)) of
         Inl DoesNotExist \<Rightarrow>
           bind_r (create_role_binding (bm_id m) (tn_pk t) (r2_pk r) (bm_resource_type_name m) (bm_resource_id m) db)
             (\<lambda>(b, db1). bind_r (sync_binding_mapping_to_role_binding m b db1) (\<lambda>db2. Inr (b, db2)))
       | Inl e \<Rightarrow> Inl e | Inr b \<Rightarrow> Inr (b, db)) = Inr (b, db')"
    using run by (auto simp: get_or_migrate_binding_for_system_role_def bind_r_Inr_iff check_r_Inr_iff)
  have "ro_pk role = bm_role m" using get_one_filterD [OF role(1) [unfolded v1_role_by_pk_def]] by simp
  then have r: "r \<in> set (db_roles db)" "r2_v1_source r = Some (bm_role m)"
    using get_one_filterD [OF r0] by (auto simp: typed_role_queryset_def)
  have "handler_inv domain uuid4 I ts h db' \<and> binding_for m b db' \<and> same_base db db' \<and>
      db_mappings db' = db_mappings db \<and> db_next_uuid db' = db_next_uuid db \<and>
      set (db_bindings db) \<subseteq> set (db_bindings db')"
  proof (cases "get_one (filter (\<lambda>b. ?P b r) (db_bindings db))")
    case (Inr b0)
    then have "b0 = b" "db' = db" using rest by auto
    moreover have "b \<in> set (db_bindings db) \<and> ?P b r" using get_one_filterD [OF Inr] \<open>b0 = b\<close> by simp
    ultimately show ?thesis using inv r role by (auto simp: binding_for_def)
  next
    case (Inl e)
    then obtain db1 where c: "create_role_binding (bm_id m) (tn_pk t) (r2_pk r) (bm_resource_type_name m)
          (bm_resource_id m) db = Inr (b, db1)"
      and s: "sync_binding_mapping_to_role_binding m b db1 = Inr db'"
      using rest by (cases e) (auto simp: bind_r_Inr_iff)
    note B = created_binding_row [OF c wf]
    have b: "b \<in> set (db_bindings db1)" and pks: "distinct (map rb_pk (db_bindings db1))"
      using wf by (auto simp: B(2) binding_rows_wf_def) (auto simp: B(1))
    obtain x y where db': "db' = db1\<lparr>db_binding_groups := x, db_binding_principals := y\<rparr>"
      using sync_binding_spec(1) [OF s b pks] by blast
    note E = sync_binding_spec(2,3) [OF s b pks]
    have "binding_rows_wf db'"
      using wf B(3) by (auto simp: db' B(2) binding_rows_wf_def mapping_rows_wf_def) (auto simp: B(1))
    moreover have "rows_in_step db' i" if "rows_in_step db i" for i
    proof -
      have "set (group_entries db' b') = set (bm_groups m0)"
        if "m0 \<in> set (db_mappings db)" "b' \<in> set (db_bindings db')" "bm_id m0 = i" "rb_uuid b' = i" for m0 b'
      proof (cases "b' = b")
        case True
        then have "bm_id m0 = bm_id m" using that by (simp add: B(1))
        then have "m0 = m" using wf m that(1) by (auto simp: binding_rows_wf_def distinct_map inj_on_def)
        then show ?thesis using E(1) True by simp
      next
        case False
        then have b': "b' \<in> set (db_bindings db)" using that(2) by (simp add: db' B(2))
        then have "rb_pk b' \<noteq> rb_pk b" using wf by (auto simp: binding_rows_wf_def B(1))
        then have "group_entries db' b' = group_entries db b'" using E(2) by (simp add: B(2))
        then show ?thesis using \<open>rows_in_step db i\<close> that b' by (auto simp: rows_in_step_def)
      qed
      then show ?thesis by (simp add: rows_in_step_def db' B(2))
    qed
    moreover have "db_mappings db' = db_mappings db" "db_next_uuid db' = db_next_uuid db" by (simp_all add: db' B(2))
    moreover from this have "ids_unused uuid4 (pending ts h) db'"
      using inv m by (auto simp: handler_inv_def ids_unused_def db' B(2)) (auto simp: B(1))
    ultimately have "handler_inv domain uuid4 I ts h db'"
      using inv by (simp add: handler_inv_def tuples_in_step_def)
    moreover have "binding_for m b db'" using r b unfolding binding_for_def by (auto simp: db' B)
    ultimately show ?thesis by (auto simp: same_base_def db' B(2))
  qed
  then show "handler_inv domain uuid4 I ts h db'" and "binding_for m b db'" and "same_base db db'"
    and "db_mappings db' = db_mappings db" and "db_next_uuid db' = db_next_uuid db"
    and "set (db_bindings db) \<subseteq> set (db_bindings db')" by blast+
qed

lemma mapping_tuples_graph:
  assumes "mapping_as_tuples domain m = Inr us" and "bm_resource_type_namespace m = ''rbac''"
  shows "list_all graph_tuple us"
proof -
  have "graph_tuple t" if "t \<in> set us" for t
  proof (rule role_graph_tuple_graph)
    have "valid_relation_tuple t" using mapping_as_tuples_part(2) [OF assms(1)] that by (simp add: list_all_iff)
    moreover have "fst (br_type (mapping_resource m)) = ''rbac''" using assms(2) by (simp add: mapping_resource_def)
    ultimately show "role_graph_tuple t"
      using that unfolding mapping_as_tuples_part(1) [OF assms(1)] mapping_part_def role_graph_tuple_def by blast
  qed
  then show ?thesis by (simp add: list_all_iff)
qed

lemma mapping_tuples_binding:
  assumes "mapping_as_tuples domain m = Inr us"
  shows "binding_part (set us) i = (if i = bm_id m then mapping_part domain m else {})"
proof -
  have "binding_part (permission_tuple r ` A) i = {}" for r A by (auto simp: binding_part_def)
  then show ?thesis unfolding mapping_as_tuples_part(1) [OF assms] by simp
qed

lemma group_entries_deleted:
  assumes "b' \<in> set (db_bindings (delete_role_binding b db))"
  shows "group_entries (delete_role_binding b db) b' = group_entries db b'"
proof -
  have "rb_pk b' \<noteq> rb_pk b" using assms by (auto simp: delete_role_binding_def delete_bindings_def Let_def)
  then have "filter (\<lambda>(pk, _). pk = rb_pk b') (filter (\<lambda>(pk, _). pk \<notin> set (map rb_pk
      (filter (\<lambda>b''. rb_pk b'' = rb_pk b) (db_bindings db)))) xs) = filter (\<lambda>(pk, _). pk = rb_pk b') xs"
    for xs :: "(int \<times> string) list" by (induction xs) auto
  then show ?thesis by (simp add: delete_role_binding_def delete_bindings_def Let_def group_entries_def)
qed

lemma delete_unassigned_inv:
  assumes inv: "handler_inv domain uuid4 I ts h db" and m: "m \<in> set (db_mappings db)"
    and empty: "is_unassigned m \<longrightarrow> sj_relations_to_add h = []" and ns: "bm_resource_type_namespace m = ''rbac''"
    and run: "delete_unassigned domain m binding h db = Inr (h', db')"
  shows "handler_inv domain uuid4 I ts h' db'" and "same_base db db'" and "db_next_uuid db' = db_next_uuid db"
    and "set (db_mappings db') = (if is_unassigned m then set (db_mappings db) - {m} else set (db_mappings db))"
    and "\<exists>us. h' = relations_removed us h \<and> list_all (\<lambda>t. \<not> is_member_tuple t) us"
    and "b \<in> set (db_bindings db) \<Longrightarrow> \<forall>b1. binding = Some b1 \<longrightarrow> rb_pk b \<noteq> rb_pk b1 \<Longrightarrow> b \<in> set (db_bindings db')"
proof -
  have wf: "binding_rows_wf db" and unused: "ids_unused uuid4 (pending ts h) db" and ok: "relations_ok h"
    using inv by (auto simp: handler_inv_def)
  have "handler_inv domain uuid4 I ts h' db' \<and> same_base db db' \<and> db_next_uuid db' = db_next_uuid db \<and>
      set (db_mappings db') = (if is_unassigned m then set (db_mappings db) - {m} else set (db_mappings db)) \<and>
      (\<exists>us. h' = relations_removed us h \<and> list_all (\<lambda>t. \<not> is_member_tuple t) us) \<and>
      (\<forall>b \<in> set (db_bindings db). (\<forall>b1. binding = Some b1 \<longrightarrow> rb_pk b \<noteq> rb_pk b1) \<longrightarrow> b \<in> set (db_bindings db'))"
  proof (cases "is_unassigned m")
    case False
    then have "h' = relations_removed [] h" "db' = db" using run by (simp_all add: delete_unassigned_def)
    then show ?thesis using inv False by (simp add: exI [of _ "[]"])
  next
    case True
    let ?db1 = "delete_binding_mapping m db"
    obtain us where us: "mapping_as_tuples domain m = Inr us" and h': "h' = relations_removed us h"
      and db': "db' = (case binding of None \<Rightarrow> ?db1 | Some b \<Rightarrow> delete_role_binding b ?db1)"
      using run True by (auto simp: delete_unassigned_def Let_def bind_r_Inr_iff split: option.splits)
    have "bm_pk x = bm_pk m \<longleftrightarrow> x = m" if "x \<in> set (db_mappings db)" for x
      using wf m that by (auto simp: binding_rows_wf_def mapping_rows_wf_def distinct_map inj_on_def)
    then have maps1: "db_mappings ?db1 = filter (\<lambda>x. x \<noteq> m) (db_mappings db)"
      by (auto simp: delete_binding_mapping_def intro!: filter_cong)
    have frame: "same_base db db'" "db_next_uuid db' = db_next_uuid db" "db_next_pk db' = db_next_pk db"
      "db_mappings db' = filter (\<lambda>x. x \<noteq> m) (db_mappings db)"
      using maps1 by (auto simp: db' same_base_def delete_binding_mapping_def delete_role_binding_def
          delete_bindings_def Let_def split: option.splits)
    have bindings: "\<exists>P. db_bindings db' = filter P (db_bindings db) \<and> (\<forall>b. (\<forall>b1. binding = Some b1 \<longrightarrow> rb_pk b \<noteq> rb_pk b1) \<longrightarrow> P b)"
    proof (cases binding)
      case None
      then show ?thesis
        by (intro exI [of _ "\<lambda>_. True"]) (simp add: db' delete_binding_mapping_def)
    next
      case (Some b1)
      then show ?thesis
        by (intro exI [of _ "\<lambda>b. rb_pk b \<noteq> rb_pk b1"])
          (simp add: db' delete_binding_mapping_def delete_role_binding_def delete_bindings_def Let_def)
    qed
    then obtain P where P: "db_bindings db' = filter P (db_bindings db)"
      and kept: "\<And>b. \<forall>b1. binding = Some b1 \<longrightarrow> rb_pk b \<noteq> rb_pk b1 \<Longrightarrow> P b" by blast
    have entries: "group_entries db' b = group_entries db b" if "b \<in> set (db_bindings db')" for b
    proof (cases binding)
      case None
      then show ?thesis by (simp add: db' delete_binding_mapping_def)
    next
      case (Some b1)
      then have "db' = delete_role_binding b1 ?db1" by (simp add: db')
      then have "group_entries db' b = group_entries ?db1 b" using that by (simp only: group_entries_deleted)
      then show ?thesis by (simp add: delete_binding_mapping_def)
    qed
    have pend: "pending ts h' = pending ts h - set us"
      unfolding h' using empty True by (intro pending_removed) simp
    have part: "binding_part (pending ts h') i = (if i = bm_id m then binding_part (pending ts h) i - mapping_part domain m
        else binding_part (pending ts h) i)" for i
      by (simp add: pend mapping_tuples_binding [OF us])
    have "binding_rows_wf db'"
      using wf by (auto simp: binding_rows_wf_def mapping_rows_wf_def frame P distinct_map_filter)
        (use frame(1) in \<open>simp_all add: same_base_def\<close>)
    moreover have "ids_unused uuid4 (pending ts h') db'"
      using unused by (auto simp: ids_unused_def frame P part)
    moreover have "relations_ok h'"
      using ok mapping_tuples_graph [OF us ns] by (simp add: relations_ok_def h')
    moreover have "tuples_in_step domain (pending ts h') db' i \<and> rows_in_step db' i"
      if "tuples_in_step domain (pending ts h) db i" "rows_in_step db i" for i
    proof
      show "rows_in_step db' i" using that(2) entries by (auto simp: rows_in_step_def frame P)
      show "tuples_in_step domain (pending ts h') db' i"
      proof (cases "i = bm_id m")
        case True
        have "{x \<in> set (db_mappings db). bm_id x = i} = {m}" "{x \<in> set (db_mappings db'). bm_id x = i} = {}"
          using wf m True by (auto simp: binding_rows_wf_def distinct_map inj_on_def frame)
        then show ?thesis using that(1) True by (simp add: tuples_in_step_def part) blast
      next
        case False
        then have "{x \<in> set (db_mappings db'). bm_id x = i} = {x \<in> set (db_mappings db). bm_id x = i}"
          by (auto simp: frame)
        then show ?thesis using that(1) False by (simp add: tuples_in_step_def part)
      qed
    qed
    ultimately have "handler_inv domain uuid4 I ts h' db'" using inv by (simp add: handler_inv_def)
    moreover have "list_all (\<lambda>t. \<not> is_member_tuple t) us"
      using mapping_as_tuples_part(1) [OF us] by (auto simp: list_all_iff mapping_part_def)
    ultimately show ?thesis using frame True h' kept by (auto simp: P)
  qed
  then show "handler_inv domain uuid4 I ts h' db'" and "same_base db db'" and "db_next_uuid db' = db_next_uuid db"
    and "set (db_mappings db') = (if is_unassigned m then set (db_mappings db) - {m} else set (db_mappings db))"
    and "\<exists>us. h' = relations_removed us h \<and> list_all (\<lambda>t. \<not> is_member_tuple t) us"
    and "b \<in> set (db_bindings db) \<Longrightarrow> \<forall>b1. binding = Some b1 \<longrightarrow> rb_pk b \<noteq> rb_pk b1 \<Longrightarrow> b \<in> set (db_bindings db')"
    by (blast, blast, blast, simp only:, blast, blast)
qed

lemma binding_for_update_inv:
  assumes inv: "handler_inv domain uuid4 I ts h db" and m: "m \<in> set (db_mappings db)"
    and run: "binding_for_update suppress t m db = Inr (binding, db')"
  shows "handler_inv domain uuid4 I ts h db'" and "same_base db db'"
    and "db_mappings db' = db_mappings db" and "set (db_bindings db) \<subseteq> set (db_bindings db')"
    and "case binding of None \<Rightarrow> bm_id m \<notin> rb_uuid ` set (db_bindings db') | Some b \<Rightarrow> binding_for m b db'"
proof -
  have "handler_inv domain uuid4 I ts h db' \<and> same_base db db' \<and> db_mappings db' = db_mappings db \<and>
      set (db_bindings db) \<subseteq> set (db_bindings db') \<and>
      (case binding of None \<Rightarrow> bm_id m \<notin> rb_uuid ` set (db_bindings db') | Some b \<Rightarrow> binding_for m b db')"
  proof (cases suppress)
    case False
    then obtain b where "binding = Some b" and mig: "get_or_migrate_binding_for_system_role t m db = Inr (b, db')"
      using run by (auto simp: binding_for_update_def bind_r_Inr_iff)
    then show ?thesis using get_or_migrate_inv [OF inv m mig] by simp
  next
    case True
    show ?thesis
    proof (cases "filter (\<lambda>b. rb_uuid b = bm_id m) (db_bindings db)")
      case Nil
      then have "bm_id m \<notin> rb_uuid ` set (db_bindings db)" by (auto simp: filter_empty_conv)
      moreover have "binding = None" "db' = db" using run True Nil by (simp_all add: binding_for_update_def)
      ultimately show ?thesis using inv by simp
    next
      case (Cons b bs)
      then have "b \<in> set (filter (\<lambda>b. rb_uuid b = bm_id m) (db_bindings db))" by simp
      then have b: "b \<in> set (db_bindings db)" "rb_uuid b = bm_id m" by simp_all
      obtain r where "role_by_pk db (rb_role b) = Inr r" "r2_v1_source r = Some (bm_role m)" "binding = Some b" "db' = db"
        using run True Cons by (auto simp: binding_for_update_def bind_r_Inr_iff check_r_Inr_iff)
      moreover from this have "r \<in> set (db_roles db)" "r2_pk r = rb_role b"
        using get_one_filterD [of "\<lambda>r. r2_pk r = rb_role b" "db_roles db" r] by (simp_all add: role_by_pk_def)
      ultimately show ?thesis using inv b by (auto simp: binding_for_def)
    qed
  qed
  then show "handler_inv domain uuid4 I ts h db'" and "same_base db db'"
    and "db_mappings db' = db_mappings db" and "set (db_bindings db) \<subseteq> set (db_bindings db')"
    and "case binding of None \<Rightarrow> bm_id m \<notin> rb_uuid ` set (db_bindings db') | Some b \<Rightarrow> binding_for m b db'"
    by blast+
qed

text \<open>A new mapping with the next uuid and its tuples.\<close>

lemma new_mapping_inv:
  assumes inv: "handler_inv domain uuid4 I ts h db" and id: "bm_id m = uuid4 (db_next_uuid db)"
    and pk: "bm_pk m = Some (db_next_pk db)" and ns: "bm_resource_type_namespace m = ''rbac''"
    and perms: "vr_permissions (bm_role_value m) = []" and us: "mapping_as_tuples domain m = Inr us"
    and db': "db' = db\<lparr>db_next_uuid := Suc (db_next_uuid db), db_next_pk := db_next_pk db + 1,
                       db_mappings := db_mappings db @ [m]\<rparr>"
  shows "handler_inv domain uuid4 I ts (relations_added us h) db'"
proof -
  have wf: "binding_rows_wf db" and unused: "ids_unused uuid4 (pending ts h) db" and ok: "relations_ok h"
    using inv by (auto simp: handler_inv_def)
  have new: "bm_id m \<notin> bm_id ` set (db_mappings db)" "bm_id m \<notin> rb_uuid ` set (db_bindings db)"
    "binding_part (pending ts h) (bm_id m) = {}" and uuid4: "inj uuid4"
    using unused unfolding ids_unused_def id by blast+
  note U = mapping_tuples_binding [OF us]
  have part: "binding_part (pending ts (relations_added us h)) i =
      (if i = bm_id m then mapping_part domain m else binding_part (pending ts h) i)" for i
    using new(3) by (simp add: pending_added U)
  have "binding_rows_wf db'"
    using wf new(1) pk by (auto simp: db' binding_rows_wf_def mapping_rows_wf_def)
  moreover have "ids_unused uuid4 (pending ts (relations_added us h)) db'"
  proof -
    have "uuid4 n \<noteq> bm_id m" if "Suc (db_next_uuid db) \<le> n" for n
      using uuid4 that by (auto simp: id dest: injD)
    then show ?thesis using unused by (auto simp: ids_unused_def db' part)
  qed
  moreover have "relations_ok (relations_added us h)"
  proof -
    obtain b where b: "get_role_binding m = Inr b" and us': "us = binding_tuples domain b"
      using us by (auto simp: mapping_as_tuples_def bind_r_Inr_iff binding_as_tuples_Inr_iff)
    have "vr_permissions (vb_role b) = []" using get_role_binding_Inr [OF b] perms by auto
    then have f: "filter (\<lambda>t. \<not> is_subject_tuple t) us =
        [role_tuple (vb_id b) (vr_id (vb_role b)), bound_tuple (vb_resource b) (vb_id b)]"
      by (simp add: us' binding_tuples_def filter_map o_def)
    have "t \<notin> set (sj_relations_to_add h)" if "t \<in> set (filter (\<lambda>t. \<not> is_subject_tuple t) us)" for t
    proof
      assume "t \<in> set (sj_relations_to_add h)"
      then have "t \<in> pending ts h" by (simp add: pending_def)
      moreover have "binding_of t = Some (bm_id m)" using that get_role_binding_Inr [OF b] by (auto simp: f)
      ultimately show False using new(3) by (auto simp: binding_part_def)
    qed
    then have "distinct (filter (\<lambda>t. \<not> is_subject_tuple t) (sj_relations_to_add h @ us))"
      using ok by (auto simp: relations_ok_def f)
    then show ?thesis using ok mapping_tuples_graph [OF us ns] by (simp add: relations_ok_def)
  qed
  moreover have "tuples_in_step domain (pending ts (relations_added us h)) db' i \<and> rows_in_step db' i"
    if "tuples_in_step domain (pending ts h) db i" "rows_in_step db i" for i
  proof
    have "rb_uuid b \<noteq> bm_id m" if "b \<in> set (db_bindings db)" for b using new(2) that by (metis image_eqI)
    then show "rows_in_step db' i" using that(2) by (auto simp: rows_in_step_def db')
    show "tuples_in_step domain (pending ts (relations_added us h)) db' i"
    proof (cases "i = bm_id m")
      case True
      then have "{x \<in> set (db_mappings db'). bm_id x = i} = {m}" using new(1) by (auto simp: db' image_iff)
      then show ?thesis unfolding tuples_in_step_def part True by simp
    next
      case False
      then have "{x \<in> set (db_mappings db'). bm_id x = i} = {x \<in> set (db_mappings db). bm_id x = i}" by (auto simp: db')
      then show ?thesis using that(1) False unfolding tuples_in_step_def part by simp
    qed
  qed
  ultimately show ?thesis using inv by (simp add: handler_inv_def)
qed

lemma insert_default_mapping_inv:
  assumes inv: "handler_inv domain uuid4 I ts h db" and res: "fst (br_type resource) = ''rbac''"
    and run: "insert_default_mapping (create_default_mapping_for_system_role domain uuid4 role gs us) resource h db = Inr (h', db')"
  shows "handler_inv domain uuid4 I ts h' db'" and "same_base db db'" and "\<exists>vs. h' = relations_added vs h"
    and "\<exists>m. set (db_mappings db') = insert m (set (db_mappings db)) \<and> bm_role m = ro_pk role \<and>
           mapping_resource m = resource \<and> bm_groups m = gs \<and> bm_users m = us"
    and "set (db_bindings db) \<subseteq> set (db_bindings db')"
proof -
  let ?db1 = "db\<lparr>db_next_uuid := Suc (db_next_uuid db)\<rparr>"
  define m where "m = for_role_binding \<lparr>vb_id = uuid4 (db_next_uuid db), vb_role = for_system_role (ro_uuid role),
      vb_resource = resource, vb_groups = gs, vb_users = us\<rparr> (ro_pk role)
      (case filter (\<lambda>r. r2_uuid r = ro_uuid role) (typed_role_queryset ROLE_SEEDED (db_roles db)) of
         [] \<Rightarrow> None | r # _ \<Rightarrow> Some (r2_pk r))"
  obtain vs m' db2 b where vs: "mapping_as_tuples domain m = Inr vs" and h': "h' = relations_added vs h"
    and save: "save_binding_mapping m ?db1 = Inr (m', db2)"
    and mig: "get_or_migrate_binding_for_system_role (sj_tenant h') m' db2 = Inr (b, db')"
    using run unfolding m_def
    by (auto simp: insert_default_mapping_def create_default_mapping_for_system_role_def fresh_uuid_def Let_def bind_r_Inr_iff)
  have pk: "bm_pk m = None" by (simp add: m_def for_role_binding_def)
  then have m': "m' = m\<lparr>bm_pk := Some (db_next_pk db)\<rparr>"
    and db2: "db2 = db\<lparr>db_next_uuid := Suc (db_next_uuid db), db_next_pk := db_next_pk db + 1,
                      db_mappings := db_mappings db @ [m']\<rparr>"
    using save by (auto simp: save_binding_mapping_def fresh_pk_def Let_def bind_r_Inr_iff)
  have "mapping_as_tuples domain m' = Inr vs" using vs by (simp add: m' mapping_as_tuples_def get_role_binding_def)
  moreover have M: "bm_id m' = uuid4 (db_next_uuid db)" "bm_pk m' = Some (db_next_pk db)"
    "bm_resource_type_namespace m' = ''rbac''" "vr_permissions (bm_role_value m') = []"
    using res by (simp_all add: m' m_def for_role_binding_def role_as_dict_def for_system_role_def)
  ultimately have "handler_inv domain uuid4 I ts h' db2"
    unfolding h' by (intro new_mapping_inv [OF inv _ _ _ _ _ db2])
  note G = get_or_migrate_inv [OF this _ mig]
  have in2: "m' \<in> set (db_mappings db2)" by (simp add: db2)
  have "same_base db db2" by (simp add: db2 same_base_def)
  then show "same_base db db'" using G(3) [OF in2] by (rule same_base_trans)
  show "handler_inv domain uuid4 I ts h' db'" by (rule G(1) [OF in2])
  show "\<exists>vs. h' = relations_added vs h" using h' by blast
  have "bm_role m' = ro_pk role \<and> mapping_resource m' = resource \<and> bm_groups m' = gs \<and> bm_users m' = us"
    by (simp add: m' m_def for_role_binding_def mapping_resource_def)
  then show "\<exists>m. set (db_mappings db') = insert m (set (db_mappings db)) \<and> bm_role m = ro_pk role \<and>
           mapping_resource m = resource \<and> bm_groups m = gs \<and> bm_users m = us"
    unfolding G(4) [OF in2] by (intro exI [of _ m']) (simp add: db2)
  show "set (db_bindings db) \<subseteq> set (db_bindings db')" using G(6) [OF in2] by (simp add: db2)
qed

text \<open>One mapping of the table is changed with its binding row.\<close>

definition changed :: "binding_mapping \<Rightarrow> binding_mapping \<Rightarrow> 's rbac_db \<Rightarrow> 's rbac_db \<Rightarrow> bool" where
  "changed m m' db db' \<longleftrightarrow>
     (\<exists>x y. db' = db\<lparr>db_mappings := map (\<lambda>x. if x = m then m' else x) (db_mappings db),
                    db_binding_groups := x, db_binding_principals := y\<rparr>)"

section \<open>Groups of roles\<close>

text \<open>
  The groups a role is bound to at a resource, the resources a role is bound at, and the roles whose mappings
  have binding rows. A step changes the groups of some roles at some resources, and keeps the resources of
  the roles in \<open>P\<close>, the custom ones.
\<close>

definition groups_at :: "'s rbac_db \<Rightarrow> int \<Rightarrow> v2_bound_resource \<Rightarrow> string set" where
  "groups_at db p res = (\<Union>m \<in> {m \<in> set (db_mappings db). bm_role m = p \<and> mapping_resource m = res}. set (bm_groups m))"

definition resources_of :: "'s rbac_db \<Rightarrow> int \<Rightarrow> v2_bound_resource set" where
  "resources_of db p = mapping_resource ` {m \<in> set (db_mappings db). bm_role m = p}"

definition migrated_role :: "'s rbac_db \<Rightarrow> int \<Rightarrow> bool" where
  "migrated_role db p \<longleftrightarrow>
     (\<exists>m \<in> set (db_mappings db). bm_role m = p) \<longrightarrow>
     (\<exists>b \<in> set (db_bindings db). \<exists>r \<in> set (db_roles db). r2_pk r = rb_role b \<and> r2_v1_source r = Some p)"

definition role_step ::
  "int set \<Rightarrow> (int \<times> v2_bound_resource) set \<Rightarrow> (string set \<Rightarrow> string set) \<Rightarrow> 's rbac_db \<Rightarrow> 's rbac_db \<Rightarrow> bool" where
  "role_step P T f db db' \<longleftrightarrow>
     (\<forall>p res. groups_at db' p res = (if (p, res) \<in> T then f (groups_at db p res) else groups_at db p res)) \<and>
     (\<forall>p \<in> P. resources_of db' p = resources_of db p \<and> (migrated_role db p \<longrightarrow> migrated_role db' p))"

lemma role_step_refl: "role_step P {} f db db"
  by (simp add: role_step_def)

lemma role_step_trans:
  assumes "role_step P T f db1 db2" and "role_step P T' f db2 db3" and "\<And>A. f (f A) = f A"
  shows "role_step P (T \<union> T') f db1 db3"
  using assms by (auto simp: role_step_def)

text \<open>What every step of the handler achieves.\<close>

definition step_ok ::
  "string \<Rightarrow> (nat \<Rightarrow> string) \<Rightarrow> string set \<Rightarrow> relation_tuple set \<Rightarrow> ('z subject_handler_scheme \<Rightarrow> bool)
   \<Rightarrow> (binding_mapping \<Rightarrow> bool) \<Rightarrow> (string set \<Rightarrow> string set) \<Rightarrow> int set \<Rightarrow> (int \<times> v2_bound_resource) set
   \<Rightarrow> 'z subject_handler_scheme \<times> 's rbac_db \<Rightarrow> 'z subject_handler_scheme \<times> 's rbac_db \<Rightarrow> bool" where
  "step_ok domain uuid4 I ts ready fits f P T = (\<lambda>(h, db) (h', db').
     handler_inv domain uuid4 I ts h' db' \<and> ready h' \<and> (\<forall>m \<in> set (db_mappings db'). fits m) \<and>
     same_base db db' \<and> same_handler h h' \<and> role_step P T f db db')"

lemma step_ok_trans:
  assumes "step_ok domain uuid4 I ts ready fits f P T s1 s2" and "step_ok domain uuid4 I ts ready fits f P T' s2 s3"
    and "\<And>A. f (f A) = f A"
  shows "step_ok domain uuid4 I ts ready fits f P (T \<union> T') s1 s3"
  using assms by (cases s1; cases s2; cases s3)
    (auto simp: step_ok_def intro: same_base_trans same_handler_trans role_step_trans)

lemma bindings_by_id_fold:
  "map_of (fold (\<lambda>b d. AList.update (rb_uuid b) b d) bs d0) i = Some b \<Longrightarrow>
     b \<in> set bs \<and> rb_uuid b = i \<or> map_of d0 i = Some b"
  "b0 \<in> set bs \<or> map_of d0 (rb_uuid b0) \<noteq> None \<Longrightarrow>
     map_of (fold (\<lambda>b d. AList.update (rb_uuid b) b d) bs d0) (rb_uuid b0) \<noteq> None"
proof (induction bs arbitrary: d0)
  case (Cons c bs)
  { case 1
    then show ?case using Cons.IH(1) [of "AList.update (rb_uuid c) c d0"] by (auto split: if_splits)
  next
    case 2
    then show ?case using Cons.IH(2) [of "AList.update (rb_uuid c) c d0"] by (auto split: if_splits) }
qed auto

lemma bindings_by_id_row:
  assumes "map_of (bindings_by_id role db) i = Some b"
  shows "b \<in> set (db_bindings db)" "rb_uuid b = i"
  using bindings_by_id_fold(1) [OF assms [unfolded bindings_by_id_def]] by (auto simp: bindings_of_role_def)

lemma migrated_role_bindings:
  assumes "migrated_role db (ro_pk role)" and "mappings_of_role role db \<noteq> []"
  shows "bindings_by_id role db \<noteq> []"
proof -
  have "\<exists>m \<in> set (db_mappings db). bm_role m = ro_pk role"
    using assms(2) by (auto simp: mappings_of_role_def filter_empty_conv)
  then obtain b r where "b \<in> set (db_bindings db)" "r \<in> set (db_roles db)" "r2_pk r = rb_role b" "r2_v1_source r = Some (ro_pk role)"
    using assms(1) by (auto simp: migrated_role_def)
  then have "b \<in> set (bindings_of_role role db)"
    by (auto simp: bindings_of_role_def v2_roles_of_role_def list_ex_iff)
  then show ?thesis using bindings_by_id_fold(2) [of b "bindings_of_role role db" "[]"] by (auto simp: bindings_by_id_def)
qed

text \<open>
  The bindings that a handler changes for a role and a scope: the one of a system role at the resource of the
  scope, all those of a custom role.
\<close>

definition role_targets ::
  "string \<Rightarrow> 'z subject_handler_scheme \<Rightarrow> 's rbac_db \<Rightarrow> v1_role \<Rightarrow> scope \<Rightarrow> (int \<times> v2_bound_resource) set" where
  "role_targets domain h db role s =
     (if ro_system role
      then {(ro_pk role, res) | res. \<exists>model.
              bound_model_for_scope s (sj_tenant h) (sj_root_workspace h) (sj_default_workspace h) = Inr model \<and>
              for_model domain model = Inr res}
      else {(ro_pk role, res) | res. res \<in> resources_of db (ro_pk role)})"

text \<open>The custom roles among those that are changed are the ones in \<open>P\<close>, and they have their binding rows.\<close>

definition role_admitted :: "int set \<Rightarrow> 's rbac_db \<Rightarrow> v1_role \<Rightarrow> bool" where
  "role_admitted P db role \<longleftrightarrow>
     (if ro_system role then ro_pk role \<notin> P else ro_pk role \<in> P \<and> migrated_role db (ro_pk role))"

lemma steps_fold:
  assumes "foldM_r g s1 xs = Inr s'" and "step_ok domain uuid4 I ts ready fits f P T0 s s1"
    and "\<forall>x \<in> set xs. \<forall>T1 s2 s3. step_ok domain uuid4 I ts ready fits f P T1 s s2 \<longrightarrow> g s2 x = Inr s3 \<longrightarrow>
      step_ok domain uuid4 I ts ready fits f P (T x) s2 s3"
    and "\<And>A. f (f A) = f A"
  shows "step_ok domain uuid4 I ts ready fits f P (T0 \<union> (\<Union>x \<in> set xs. T x)) s s'"
  using assms(1-3)
proof (induction xs arbitrary: s1 T0)
  case (Cons x xs)
  from Cons.prems(1) obtain s2 where x: "g s1 x = Inr s2" and rest: "foldM_r g s2 xs = Inr s'"
    by (auto simp: bind_r_Inr_iff)
  have "step_ok domain uuid4 I ts ready fits f P (T x) s1 s2"
    using Cons.prems(2,3) x by (meson list.set_intros(1))
  then have "step_ok domain uuid4 I ts ready fits f P (T0 \<union> T x) s s2" using Cons.prems(2) assms(4) by (blast intro: step_ok_trans)
  then have "step_ok domain uuid4 I ts ready fits f P ((T0 \<union> T x) \<union> (\<Union>x \<in> set xs. T x)) s s'"
    using Cons.prems(3) by (intro Cons.IH [OF rest]) (assumption, meson list.set_intros(2))
  then show ?case by (simp add: Un_assoc)
qed simp

lemma step_ok_start:
  assumes "handler_inv domain uuid4 I ts h db" and "ready h" and "\<forall>m \<in> set (db_mappings db). fits m"
  shows "step_ok domain uuid4 I ts ready fits f P {} (h, db) (h, db)"
  using assms by (simp add: step_ok_def role_step_refl)

text \<open>The targets and the admitted roles are the same at every point of a run.\<close>

lemma step_ok_targets:
  assumes "step_ok domain uuid4 I ts ready fits f P T (h, db) (h', db')" and "role_admitted P db role"
  shows "role_targets d h' db' role s = role_targets d h db role s" and "role_admitted P db' role"
  using assms same_handler_fields [of h h']
  by (auto simp: step_ok_def role_step_def role_targets_def role_admitted_def split: if_splits)

text \<open>A way to create a mapping that agrees with the function that changes one.\<close>

definition creates ::
  "string \<Rightarrow> ('z subject_handler_scheme \<Rightarrow> bool) \<Rightarrow> (binding_mapping \<Rightarrow> bool) \<Rightarrow> (string set \<Rightarrow> string set)
   \<Rightarrow> (nat \<Rightarrow> string) \<Rightarrow> v1_role \<Rightarrow> ('z, 's) mapping_creation option \<Rightarrow> bool" where
  "creates domain ready fits f uuid4 role create \<longleftrightarrow>
     create = None \<and> f {} = {} \<or>
     (\<exists>gs us. create = Some (create_default_mapping_for_system_role domain uuid4 role gs us) \<and> f {} = set gs) \<and>
     (\<forall>m. fits m) \<and> (\<forall>h us. ready h \<longrightarrow> ready (relations_added us h))"

section \<open>What the handler relies on\<close>

text \<open>
  The contract of the functions that change a mapping: they change only its subjects, they ask for subject
  tuples of its binding only, and afterwards the graph has the tuples of the changed mapping if it had those
  of the mapping before. \<open>effect\<close> is what happens to the set of groups of a mapping that \<open>fits\<close>; \<open>ready\<close> is
  what the handler has to satisfy.
\<close>

locale mapping_callback =
  fixes domain :: string and upd :: "'z mapping_update" and ready :: "'z subject_handler_scheme \<Rightarrow> bool"
    and fits :: "binding_mapping \<Rightarrow> bool" and effect :: "string set \<Rightarrow> string set"
  assumes callback_row: "upd h m = Inr (m', h') \<Longrightarrow> \<exists>gs us. m' = m\<lparr>bm_groups := gs, bm_users := us\<rparr>"
    and callback_relations: "upd h m = Inr (m', h') \<Longrightarrow> \<exists>add rem. h' = relations_added add (relations_removed rem h) \<and>
      (\<forall>t \<in> set add \<union> set rem. graph_tuple t \<and> is_subject_tuple t \<and> binding_of t = Some (bm_id m))"
    and callback_ready: "upd h m = Inr (m', h') \<Longrightarrow> ready h \<Longrightarrow> ready h'"
    and callback_tuples: "upd h m = Inr (m', h') \<Longrightarrow> ready h \<Longrightarrow>
      binding_part (pending ts h) (bm_id m) = mapping_part domain m \<Longrightarrow>
      binding_part (pending ts h') (bm_id m) = mapping_part domain m'"
    and callback_unassigned: "upd h m = Inr (m', h') \<Longrightarrow> ready h \<Longrightarrow> is_unassigned m' \<Longrightarrow> sj_relations_to_add h' = []"
    and callback_effect: "upd h m = Inr (m', h') \<Longrightarrow> ready h \<Longrightarrow> fits m \<Longrightarrow>
      fits m' \<and> set (bm_groups m') = effect (set (bm_groups m))"
    and ready_removed: "ready h \<Longrightarrow> list_all (\<lambda>t. \<not> is_member_tuple t) us \<Longrightarrow> ready (relations_removed us h)"
    and effect_Un: "effect (A \<union> B) = effect A \<union> effect B" and effect_idem: "effect (effect A) = effect A"
begin

lemma callback_other_bindings:
  assumes "upd h m = Inr (m', h')" and "i \<noteq> bm_id m"
  shows "binding_part (pending ts h') i = binding_part (pending ts h) i"
proof -
  obtain add rem where h': "h' = relations_added add (relations_removed rem h)"
    and t: "\<forall>t \<in> set add \<union> set rem. binding_of t = Some (bm_id m)"
    using callback_relations [OF assms(1)] by blast
  show ?thesis using t assms(2) by (auto simp: h' binding_part_def pending_def)
qed

lemma callback_keeps:
  assumes "upd h m = Inr (m', h')"
  shows "bm_id m' = bm_id m" "bm_pk m' = bm_pk m" "bm_role m' = bm_role m" "mapping_resource m' = mapping_resource m"
    "bm_role_value m' = bm_role_value m" "bm_resource_type_namespace m' = bm_resource_type_namespace m"
    "same_handler h h'"
  using callback_row [OF assms] callback_relations [OF assms] same_handler_relations
  by (auto simp: mapping_resource_def)

lemma callback_relations_ok:
  assumes "upd h m = Inr (m', h')" and "relations_ok h"
  shows "relations_ok h'"
proof -
  obtain add rem where h': "h' = relations_added add (relations_removed rem h)"
    and t: "\<forall>t \<in> set add \<union> set rem. graph_tuple t \<and> is_subject_tuple t"
    using callback_relations [OF assms(1)] by blast
  have "filter (\<lambda>t. \<not> is_subject_tuple t) add = []" using t by (auto simp: filter_empty_conv)
  then show ?thesis using assms(2) t by (auto simp: h' relations_ok_def list_all_iff)
qed

lemma update_role_binding_rows:
  assumes inv: "handler_inv domain uuid4 I ts h db"
    and m: "m \<in> set (db_mappings db)"
    and binding: "\<forall>b. binding = Some b \<longrightarrow> b \<in> set (db_bindings db)"
    and run: "update_role_binding m binding upd h db = Inr (m', h', db')"
  shows "upd h m = Inr (m', h')" and "changed m m' db db'"
    and "binding = Some b \<Longrightarrow> set (group_entries db' b) = set (bm_groups m')"
    and "\<forall>b. binding = Some b \<longrightarrow> rb_pk b' \<noteq> rb_pk b \<Longrightarrow> group_entries db' b' = group_entries db b'"
proof -
  obtain db1 where u: "upd h m = Inr (m', h')" and f: "force_update_mapping m' db = Inr db1"
    and s: "(case binding of None \<Rightarrow> Inr db1 | Some b \<Rightarrow> sync_binding_mapping_to_role_binding m' b db1) = Inr db'"
    using run by (auto simp: update_role_binding_def bind_r_Inr_iff)
  show "upd h m = Inr (m', h')" by (fact u)
  have wf: "mapping_rows_wf db" "distinct (map rb_pk (db_bindings db))"
    using inv by (simp_all add: handler_inv_def binding_rows_wf_def)
  have db1: "db1 = db\<lparr>db_mappings := map (\<lambda>x. if x = m then m' else x) (db_mappings db)\<rparr>"
    using force_update_mapping_spec [OF f wf(1) m] callback_keeps(2) [OF u] .
  have "changed m m' db db' \<and> (\<forall>b. binding = Some b \<longrightarrow> set (group_entries db' b) = set (bm_groups m')) \<and>
      (\<forall>b'. (\<forall>b. binding = Some b \<longrightarrow> rb_pk b' \<noteq> rb_pk b) \<longrightarrow> group_entries db' b' = group_entries db b')"
  proof (cases binding)
    case None
    then have eq: "db' = db1" using s by simp
    have "changed m m' db db'"
      unfolding changed_def eq db1
      by (rule exI [of _ "db_binding_groups db"], rule exI [of _ "db_binding_principals db"]) simp
    then show ?thesis using None by (simp add: eq db1)
  next
    case (Some b)
    then have s: "sync_binding_mapping_to_role_binding m' b db1 = Inr db'" using s by simp
    have b: "b \<in> set (db_bindings db1)" "distinct (map rb_pk (db_bindings db1))"
      using binding Some wf(2) by (simp_all add: db1)
    obtain x y where "db' = db1\<lparr>db_binding_groups := x, db_binding_principals := y\<rparr>"
      using sync_binding_spec(1) [OF s b] by blast
    then have "changed m m' db db'" unfolding changed_def db1 by auto
    moreover have "group_entries db' b' = group_entries db b'" if "rb_pk b' \<noteq> rb_pk b" for b'
      using sync_binding_spec(3) [OF s b that] by (simp add: db1)
    ultimately show ?thesis using sync_binding_spec(2) [OF s b] Some by simp
  qed
  then show "changed m m' db db'"
    and "binding = Some b \<Longrightarrow> set (group_entries db' b) = set (bm_groups m')"
    and "\<forall>b. binding = Some b \<longrightarrow> rb_pk b' \<noteq> rb_pk b \<Longrightarrow> group_entries db' b' = group_entries db b'"
    by blast+
qed

lemma changed_mappings:
  assumes "changed m m' db db'" and "m \<in> set (db_mappings db)"
  shows "set (db_mappings db') = insert m' (set (db_mappings db) - {m})"
    and "db_bindings db' = db_bindings db" and "db_next_pk db' = db_next_pk db" and "db_next_uuid db' = db_next_uuid db"
    and "db_roles db' = db_roles db" and "db_v1_roles db' = db_v1_roles db" and "db_ws db' = db_ws db"
    and "db_tenant_mappings db' = db_tenant_mappings db"
  using assms by (auto simp: changed_def)

lemma changed_wf:
  assumes "changed m m' db db'" and "m \<in> set (db_mappings db)" and "binding_rows_wf db"
    and "bm_id m' = bm_id m" and "bm_pk m' = bm_pk m"
  shows "binding_rows_wf db'"
proof -
  have "map bm_id (db_mappings db') = map bm_id (db_mappings db)" "map bm_pk (db_mappings db') = map bm_pk (db_mappings db)"
    using assms(1,4,5) by (auto simp: changed_def)
  moreover have "\<forall>x \<in> set (db_mappings db'). \<exists>k. bm_pk x = Some k \<and> k < db_next_pk db"
    using assms(2,3,5) unfolding changed_mappings(1) [OF assms(1,2)]
    by (auto simp: binding_rows_wf_def mapping_rows_wf_def)
  ultimately show ?thesis
    using assms(3) changed_mappings [OF assms(1,2)] by (simp add: binding_rows_wf_def mapping_rows_wf_def)
qed

lemma update_role_binding_inv:
  assumes inv: "handler_inv domain uuid4 I ts h db" and ready: "ready h"
    and m: "m \<in> set (db_mappings db)"
    and binding: "case binding of None \<Rightarrow> bm_id m \<notin> rb_uuid ` set (db_bindings db)
      | Some b \<Rightarrow> b \<in> set (db_bindings db) \<and> rb_uuid b = bm_id m"
    and run: "update_role_binding m binding upd h db = Inr (m', h', db')"
  shows "handler_inv domain uuid4 I ts h' db'" and "ready h'"
proof -
  have b: "\<forall>b. binding = Some b \<longrightarrow> b \<in> set (db_bindings db)" using binding by auto
  note R = update_role_binding_rows [OF inv m b run]
  note K = callback_keeps [OF R(1)]
  note C = changed_mappings [OF R(2) m]
  note other = callback_other_bindings [OF R(1)]
  show "ready h'" by (rule callback_ready [OF R(1) ready])
  have wf: "binding_rows_wf db" and unused: "ids_unused uuid4 (pending ts h) db" and ok: "relations_ok h"
    and step: "\<And>i. i \<in> I \<Longrightarrow> tuples_in_step domain (pending ts h) db i \<and> rows_in_step db i"
    using inv by (auto simp: handler_inv_def)
  have uniq: "x = m" if "x \<in> set (db_mappings db)" "bm_id x = bm_id m" for x
    using wf m that by (auto simp: binding_rows_wf_def distinct_map inj_on_def)
  have ids: "bm_id ` set (db_mappings db') = bm_id ` set (db_mappings db)"
  proof (rule set_eqI)
    fix i
    show "i \<in> bm_id ` set (db_mappings db') \<longleftrightarrow> i \<in> bm_id ` set (db_mappings db)"
      using m K(1) by (cases "i = bm_id m") (auto simp: C(1) image_iff)
  qed
  have "ids_unused uuid4 (pending ts h') db'"
  proof -
    have "binding_part (pending ts h') (uuid4 n) = binding_part (pending ts h) (uuid4 n)" if "db_next_uuid db \<le> n" for n
      using unused that m by (intro other) (auto simp: ids_unused_def)
    then show ?thesis using unused by (simp only: ids_unused_def ids C(2,4)) simp
  qed
  moreover have "tuples_in_step domain (pending ts h') db' i \<and> rows_in_step db' i" if i: "i \<in> I" for i
  proof (cases "i = bm_id m")
    case True
    have one: "{x \<in> set (db_mappings db). bm_id x = i} = {m}" and one': "{x \<in> set (db_mappings db'). bm_id x = i} = {m'}"
      using m uniq K(1) True by (auto simp: C(1))
    have "binding_part (pending ts h) (bm_id m) = mapping_part domain m"
      using step [OF i] one by (simp add: tuples_in_step_def True)
    then have "binding_part (pending ts h') (bm_id m) = mapping_part domain m'"
      by (rule callback_tuples [OF R(1) ready])
    moreover have "set (group_entries db' b) = set (bm_groups x)"
      if "x \<in> set (db_mappings db')" "bm_id x = i" "b \<in> set (db_bindings db')" "rb_uuid b = i" for x b
    proof -
      have "x = m'" using that one' by blast
      moreover have "binding = Some b"
      proof (cases binding)
        case None
        then show ?thesis using that(3,4) binding True by (auto simp: C(2) image_iff)
      next
        case (Some b1)
        then show ?thesis
          using that(3,4) binding wf True by (auto simp: C(2) binding_rows_wf_def distinct_map inj_on_def)
      qed
      ultimately show ?thesis using R(3) by blast
    qed
    ultimately show ?thesis using one' by (simp add: tuples_in_step_def rows_in_step_def True)
  next
    case False
    then have same: "{x \<in> set (db_mappings db'). bm_id x = i} = {x \<in> set (db_mappings db). bm_id x = i}"
      using K(1) by (auto simp: C(1))
    have "tuples_in_step domain (pending ts h') db' i"
      using step [OF i] by (simp only: tuples_in_step_def same other [OF False])
    moreover have "group_entries db' b = group_entries db b" if b': "b \<in> set (db_bindings db)" "rb_uuid b = i" for b
    proof (rule R(4), intro allI impI notI)
      fix b1 assume b1: "binding = Some b1" "rb_pk b = rb_pk b1"
      then have "b = b1" using wf b'(1) binding by (auto simp: binding_rows_wf_def distinct_map inj_on_def)
      then show False using b1(1) b'(2) binding False by simp
    qed
    then have "rows_in_step db' i" using step [OF i] same by (simp add: rows_in_step_def C(2)) blast
    ultimately show ?thesis by blast
  qed
  ultimately show "handler_inv domain uuid4 I ts h' db'"
    using changed_wf [OF R(2) m wf K(1,2)] callback_relations_ok [OF R(1) ok] by (simp add: handler_inv_def)
qed

lemma existing_mapping_step:
  assumes inv: "handler_inv domain uuid4 I ts h db" and ready: "ready h" and fit: "\<forall>m \<in> set (db_mappings db). fits m"
    and found: "mapping_for_role_and_resource role resource db = Inr m" and ns: "fst (br_type resource) = ''rbac''"
    and bind: "binding_for_update suppress t m db = Inr (binding, db1)"
    and update: "update_role_binding m binding upd h db1 = Inr (m', h1, db2)"
    and delete: "delete_unassigned domain m' binding h1 db2 = Inr (h', db')" and P: "ro_pk role \<notin> P"
  shows "step_ok domain uuid4 I ts ready fits effect P {(ro_pk role, resource)} (h, db) (h', db')"
proof -
  have filter_m: "filter (\<lambda>m. bm_role m = ro_pk role \<and> bm_resource_type_namespace m = fst (br_type resource) \<and>
      bm_resource_type_name m = snd (br_type resource) \<and> bm_resource_id m = br_id resource) (db_mappings db) = [m]"
    using found by (simp add: mapping_for_role_and_resource_def get_one_Inr_iff)
  have key: "bm_resource_type_namespace x = fst (br_type resource) \<and> bm_resource_type_name x = snd (br_type resource) \<and>
      bm_resource_id x = br_id resource \<longleftrightarrow> mapping_resource x = resource" for x
    by (cases resource) (auto simp: mapping_resource_def)
  have only_m: "{x \<in> set (db_mappings db). bm_role x = ro_pk role \<and> mapping_resource x = resource} = {m}"
    using arg_cong [OF filter_m, of set] by (simp only: key set_filter list.set)
  then have m: "m \<in> set (db_mappings db)" "bm_role m = ro_pk role" "mapping_resource m = resource" by auto
  note B = binding_for_update_inv [OF inv m(1) bind]
  have m1: "m \<in> set (db_mappings db1)" using m(1) B(3) by simp
  have bnd: "case binding of None \<Rightarrow> bm_id m \<notin> rb_uuid ` set (db_bindings db1)
      | Some b \<Rightarrow> b \<in> set (db_bindings db1) \<and> rb_uuid b = bm_id m"
    using B(5) by (auto simp: binding_for_def split: option.splits)
  note U = update_role_binding_inv [OF B(1) ready m1 bnd update]
  have some: "\<forall>b. binding = Some b \<longrightarrow> b \<in> set (db_bindings db1)" using bnd by auto
  note R = update_role_binding_rows [OF B(1) m1 some update]
  note K = callback_keeps [OF R(1)] and C = changed_mappings [OF R(2) m1]
  have m2: "m' \<in> set (db_mappings db2)" by (simp add: C(1))
  have empty: "is_unassigned m' \<longrightarrow> sj_relations_to_add h1 = []" using callback_unassigned [OF R(1) ready] by blast
  have ns': "bm_resource_type_namespace m' = ''rbac''" using K(6) m(3) ns by (auto simp: mapping_resource_def)
  note D = delete_unassigned_inv [OF U(1) m2 empty ns' delete]
  obtain us where us: "h' = relations_removed us h1" "list_all (\<lambda>t. \<not> is_member_tuple t) us" using D(5) by blast
  have ready': "ready h'" unfolding us(1) by (rule ready_removed [OF U(2) us(2)])
  have "same_base db1 db2" using R(2) by (auto simp: changed_def same_base_def)
  then have base: "same_base db db'" using B(2) D(2) by (blast intro: same_base_trans)
  have handler: "same_handler h h'" unfolding us(1) using K(7) same_handler_relations [of h1 "[]" us]
    by (auto intro: same_handler_trans)
  have fit': "fits m' \<and> set (bm_groups m') = effect (set (bm_groups m))"
    using fit m(1) by (intro callback_effect [OF R(1) ready]) simp
  have rest: "set (db_mappings db') - {m'} \<subseteq> set (db_mappings db) - {m}" "set (db_mappings db') \<subseteq> insert m' (set (db_mappings db) - {m})"
    using D(4) C(1) B(3) by (auto split: if_splits)
  have fits': "\<forall>m \<in> set (db_mappings db'). fits m" using rest fit fit' by blast
  have others: "{x \<in> set (db_mappings db'). bm_role x = p' \<and> mapping_resource x = res'} =
      {x \<in> set (db_mappings db). bm_role x = p' \<and> mapping_resource x = res'}" if "p' \<noteq> ro_pk role \<or> res' \<noteq> resource" for p' res'
    using that m K D(4) C(1) B(3) by (auto split: if_splits)
  have "groups_at db' (ro_pk role) resource = set (bm_groups m')"
  proof -
    have "{x \<in> set (db_mappings db'). bm_role x = ro_pk role \<and> mapping_resource x = resource} =
        (if is_unassigned m' then {} else {m'})"
      using only_m m K D(4) C(1) B(3) by (auto split: if_splits)
    then show ?thesis by (auto simp: groups_at_def is_unassigned_def)
  qed
  moreover have "groups_at db (ro_pk role) resource = set (bm_groups m)" by (simp add: groups_at_def only_m)
  ultimately have groups: "groups_at db' p' res' = (if (p', res') \<in> {(ro_pk role, resource)}
      then effect (groups_at db p' res') else groups_at db p' res')" for p' res'
    using fit' others [of p' res'] by (auto simp: groups_at_def)
  have rows: "{x \<in> set (db_mappings db'). bm_role x = p'} = {x \<in> set (db_mappings db). bm_role x = p'}" if "p' \<noteq> ro_pk role" for p'
    using others [of p'] that by blast
  have kept: "migrated_role db' p'" if p': "p' \<noteq> ro_pk role" and mig: "migrated_role db p'" for p'
    unfolding migrated_role_def
  proof
    assume "\<exists>m \<in> set (db_mappings db'). bm_role m = p'"
    then have "\<exists>m \<in> set (db_mappings db). bm_role m = p'" using rows [OF p'] by blast
    then obtain b r where b: "b \<in> set (db_bindings db)" and r: "r \<in> set (db_roles db)" "r2_pk r = rb_role b" "r2_v1_source r = Some p'"
      using mig by (auto simp: migrated_role_def)
    have b2: "b \<in> set (db_bindings db2)" using b B(4) C(2) by auto
    have "b \<in> set (db_bindings db')"
    proof (rule D(6) [OF b2], intro allI impI notI)
      fix b1 assume b1: "binding = Some b1" "rb_pk b = rb_pk b1"
      then obtain r1 where r1: "b1 \<in> set (db_bindings db1)" "r1 \<in> set (db_roles db1)" "r2_pk r1 = rb_role b1"
          "r2_v1_source r1 = Some (bm_role m)"
        using B(5) by (auto simp: binding_for_def)
      have wf: "binding_rows_wf db1" using B(1) by (simp add: handler_inv_def)
      have "b1 = b" using wf b1(2) r1(1) b B(4) by (auto simp: binding_rows_wf_def distinct_map inj_on_def)
      moreover have "r \<in> set (db_roles db1)" using r(1) B(2) by (simp add: same_base_def)
      ultimately have "r1 = r" using wf r1(2,3) r(2) by (auto simp: binding_rows_wf_def distinct_map inj_on_def)
      then show False using r(3) r1(4) m(2) p' by simp
    qed
    then show "\<exists>b \<in> set (db_bindings db'). \<exists>r \<in> set (db_roles db'). r2_pk r = rb_role b \<and> r2_v1_source r = Some p'"
      using r base by (auto simp: same_base_def)
  qed
  have keep: "\<forall>p \<in> P. resources_of db' p = resources_of db p \<and> (migrated_role db p \<longrightarrow> migrated_role db' p)"
  proof
    fix p assume "p \<in> P"
    then have p: "p \<noteq> ro_pk role" using P by blast
    then show "resources_of db' p = resources_of db p \<and> (migrated_role db p \<longrightarrow> migrated_role db' p)"
      using kept rows [OF p] by (simp add: resources_of_def)
  qed
  have "role_step P {(ro_pk role, resource)} effect db db'"
    unfolding role_step_def by (intro conjI allI groups keep)
  then show ?thesis using D(1) ready' base handler fits' by (simp add: step_ok_def)
qed

lemma missing_mapping_step:
  assumes inv: "handler_inv domain uuid4 I ts h db" and ready: "ready h" and fit: "\<forall>m \<in> set (db_mappings db). fits m"
    and missing: "mapping_for_role_and_resource role resource db = Inl DoesNotExist" and ns: "fst (br_type resource) = ''rbac''"
    and P: "ro_pk role \<notin> P"
    and create: "creates domain ready fits effect uuid4 role create"
    and run: "case create of None \<Rightarrow> h' = h \<and> db' = db | Some c \<Rightarrow> insert_default_mapping c resource h db = Inr (h', db')"
  shows "step_ok domain uuid4 I ts ready fits effect P {(ro_pk role, resource)} (h, db) (h', db')"
proof -
  have none: "groups_at db (ro_pk role) resource = {}"
  proof -
    have "filter (\<lambda>m. bm_role m = ro_pk role \<and> bm_resource_type_namespace m = fst (br_type resource) \<and>
        bm_resource_type_name m = snd (br_type resource) \<and> bm_resource_id m = br_id resource) (db_mappings db) = []"
      using missing by (auto simp: mapping_for_role_and_resource_def get_one_def split: list.splits)
    then show ?thesis by (cases resource) (auto simp: groups_at_def filter_empty_conv mapping_resource_def)
  qed
  show ?thesis
  proof (cases create)
    case None
    then have eq: "h' = h" "db' = db" using run by simp_all
    have "effect {} = {}" using create None by (simp add: creates_def)
    then show ?thesis using inv ready fit none by (auto simp: eq step_ok_def role_step_def)
  next
    case (Some c)
    then obtain gs us where c: "c = create_default_mapping_for_system_role domain uuid4 role gs us" "effect {} = set gs"
      and always: "\<And>m. fits m" "\<And>h us. ready h \<Longrightarrow> ready (relations_added us h)"
      using create by (auto simp: creates_def)
    have run: "insert_default_mapping (create_default_mapping_for_system_role domain uuid4 role gs us) resource h db = Inr (h', db')"
      using run Some c by simp
    note N = insert_default_mapping_inv [OF inv ns run]
    obtain m where maps: "set (db_mappings db') = insert m (set (db_mappings db))"
      and m: "bm_role m = ro_pk role" "mapping_resource m = resource" "bm_groups m = gs" using N(4) by blast
    obtain vs where vs: "h' = relations_added vs h" using N(3) by blast
    have "groups_at db' p res = (if (p, res) \<in> {(ro_pk role, resource)} then effect (groups_at db p res) else groups_at db p res)" for p res
    proof (cases "(p, res) = (ro_pk role, resource)")
      case True
      have "groups_at db' (ro_pk role) resource = set gs \<union> groups_at db (ro_pk role) resource"
        using m by (auto simp: groups_at_def maps)
      then show ?thesis using True none c(2) by simp
    next
      case False
      then have "{x \<in> set (db_mappings db'). bm_role x = p \<and> mapping_resource x = res} =
          {x \<in> set (db_mappings db). bm_role x = p \<and> mapping_resource x = res}" using m by (auto simp: maps)
      then show ?thesis using False by (auto simp: groups_at_def)
    qed
    moreover have "resources_of db' p = resources_of db p \<and> (migrated_role db p \<longrightarrow> migrated_role db' p)" if "p \<in> P" for p
    proof -
      have "p \<noteq> bm_role m" using that P m(1) by auto
      then have "{x \<in> set (db_mappings db'). bm_role x = p} = {x \<in> set (db_mappings db). bm_role x = p}" by (auto simp: maps)
      then show ?thesis using N(2,5) \<open>p \<noteq> bm_role m\<close>
        by (auto simp: resources_of_def migrated_role_def same_base_def maps)
    qed
    ultimately have "role_step P {(ro_pk role, resource)} effect db db'"
      unfolding role_step_def by blast
    then show ?thesis
      using N(1,2) always ready same_handler_relations [of h vs "[]"] by (simp add: step_ok_def vs)
  qed
qed

lemma system_role_step:
  assumes inv: "handler_inv domain uuid4 I ts h db" and ready: "ready h" and fit: "\<forall>m \<in> set (db_mappings db). fits m"
    and P: "ro_pk role \<notin> P" and create: "creates domain ready fits effect uuid4 role create"
    and run: "update_mapping_for_system_role domain role s upd create locked suppress h db = Inr (h', db')"
  shows "\<exists>model resource. bound_model_for_scope s (sj_tenant h) (sj_root_workspace h) (sj_default_workspace h) = Inr model \<and>
    for_model domain model = Inr resource \<and>
    step_ok domain uuid4 I ts ready fits effect P {(ro_pk role, resource)} (h, db) (h', db')"
proof -
  obtain model resource where
    model: "bound_model_for_scope s (sj_tenant h) (sj_root_workspace h) (sj_default_workspace h) = Inr model"
    and res: "for_model domain model = Inr resource"
    and checks: "expect_v1_tenant h = Inr ()" "ro_system role"
    using run by (auto simp: update_mapping_for_system_role_def update_existing_mapping_def bind_r_Inr_iff check_r_Inr_iff)
  note ns = for_model_rbac [OF res]
  have again: "update_existing_mapping domain role s upd suppress' on_missing h db =
      (case mapping_for_role_and_resource role resource db of
         Inl DoesNotExist \<Rightarrow> on_missing model resource
       | Inl e \<Rightarrow> Inl e
       | Inr m \<Rightarrow>
           bind_r (binding_for_update suppress' (sj_tenant h) m db) (\<lambda>(binding, db1).
           bind_r (update_role_binding m binding upd h db1) (\<lambda>(m', h', db2). delete_unassigned domain m' binding h' db2)))"
    for suppress' on_missing
    unfolding update_existing_mapping_def by (simp add: model res checks)
  have "step_ok domain uuid4 I ts ready fits effect P {(ro_pk role, resource)} (h, db) (h', db')"
  proof (cases "mapping_for_role_and_resource role resource db")
    case (Inr m)
    then obtain binding db1 m' h1 db2 where "binding_for_update suppress (sj_tenant h) m db = Inr (binding, db1)"
      "update_role_binding m binding upd h db1 = Inr (m', h1, db2)" "delete_unassigned domain m' binding h1 db2 = Inr (h', db')"
      using run unfolding update_mapping_for_system_role_def again by (auto simp: bind_r_Inr_iff)
    then show ?thesis using existing_mapping_step [OF inv ready fit Inr ns _ _ _ P] by blast
  next
    case (Inl e)
    then have e: "e = DoesNotExist"
      using run unfolding update_mapping_for_system_role_def again by (cases e) simp_all
    have "case create of None \<Rightarrow> h' = h \<and> db' = db | Some c \<Rightarrow> insert_default_mapping c resource h db = Inr (h', db')"
      using run unfolding update_mapping_for_system_role_def again Inl e
      by (auto simp: bind_r_Inr_iff split: option.splits if_splits)
    then show ?thesis using missing_mapping_step [OF inv ready fit _ ns P create] Inl e by simp
  qed
  then show ?thesis using model res by blast
qed

text \<open>The mappings of a custom role are changed one after the other; their binding rows exist.\<close>

lemma custom_mappings_fold:
  assumes "foldM_r (update_custom_mapping by_id upd) (h, db) ms = Inr (h', db')"
    and "handler_inv domain uuid4 I ts h db" and "ready h" and "\<forall>m \<in> set (db_mappings db). fits m"
    and "set ms \<subseteq> set (db_mappings db)" and "distinct ms"
    and "\<forall>i b. map_of by_id i = Some b \<longrightarrow> b \<in> set (db_bindings db) \<and> rb_uuid b = i"
  shows "handler_inv domain uuid4 I ts h' db' \<and> ready h' \<and> (\<forall>m \<in> set (db_mappings db'). fits m) \<and>
    same_base db db' \<and> same_handler h h' \<and> db_bindings db' = db_bindings db \<and>
    (\<exists>f. (\<forall>m \<in> set ms. bm_role (f m) = bm_role m \<and> mapping_resource (f m) = mapping_resource m \<and>
                      set (bm_groups (f m)) = effect (set (bm_groups m))) \<and>
         set (db_mappings db') = f ` set ms \<union> (set (db_mappings db) - set ms))"
  using assms
proof (induction ms arbitrary: h db)
  case Nil
  then show ?case by auto
next
  case (Cons m ms)
  obtain b m1 h1 db1 where b: "map_of by_id (bm_id m) = Some b"
    and u: "update_role_binding m (Some b) upd h db = Inr (m1, h1, db1)"
    and rest: "foldM_r (update_custom_mapping by_id upd) (h1, db1) ms = Inr (h', db')"
    using Cons.prems(1) by (auto simp: update_custom_mapping_def bind_r_Inr_iff split: option.splits)
  have m: "m \<in> set (db_mappings db)" using Cons.prems(5) by simp
  have bnd: "case Some b of None \<Rightarrow> bm_id m \<notin> rb_uuid ` set (db_bindings db) | Some b \<Rightarrow> b \<in> set (db_bindings db) \<and> rb_uuid b = bm_id m"
    and some: "\<forall>b'. Some b = Some b' \<longrightarrow> b' \<in> set (db_bindings db)"
    using Cons.prems(7) b by auto
  note U = update_role_binding_inv [OF Cons.prems(2,3) m bnd u]
  note R = update_role_binding_rows [OF Cons.prems(2) m some u]
  note K = callback_keeps [OF R(1)] and C = changed_mappings [OF R(2) m]
  have fit: "fits m1 \<and> set (bm_groups m1) = effect (set (bm_groups m))"
    using Cons.prems(4) m by (intro callback_effect [OF R(1) Cons.prems(3)]) simp
  have "x = m" if "x \<in> set (db_mappings db)" "bm_pk x = bm_pk m" for x
    using Cons.prems(2) m that
    by (auto simp: handler_inv_def binding_rows_wf_def mapping_rows_wf_def distinct_map inj_on_def)
  then have new: "m1 \<notin> set ms" using Cons.prems(5,6) K(2) by auto
  have "set ms \<subseteq> set (db_mappings db1)" using Cons.prems(5,6) by (auto simp: C(1))
  moreover have "\<forall>m \<in> set (db_mappings db1). fits m" using Cons.prems(4) fit by (auto simp: C(1))
  moreover have "\<forall>i b. map_of by_id i = Some b \<longrightarrow> b \<in> set (db_bindings db1) \<and> rb_uuid b = i"
    using Cons.prems(7) by (simp add: C(2))
  ultimately obtain f where IH: "handler_inv domain uuid4 I ts h' db'" "ready h'" "\<forall>m \<in> set (db_mappings db'). fits m"
      "same_base db1 db'" "same_handler h1 h'" "db_bindings db' = db_bindings db1"
      "\<forall>m \<in> set ms. bm_role (f m) = bm_role m \<and> mapping_resource (f m) = mapping_resource m \<and>
         set (bm_groups (f m)) = effect (set (bm_groups m))"
    and maps: "set (db_mappings db') = f ` set ms \<union> (set (db_mappings db1) - set ms)"
    using Cons.IH [OF rest U] Cons.prems(6) by auto
  have "same_base db db1" using R(2) by (auto simp: changed_def same_base_def)
  then have base: "same_base db db'" using IH(4) by (rule same_base_trans)
  have handler: "same_handler h h'" using K(7) IH(5) by (rule same_handler_trans)
  let ?f = "f(m := m1)"
  have "m \<notin> set ms" using Cons.prems(6) by simp
  then have "?f ` set ms = f ` set ms" by (auto simp: image_iff)
  then have "set (db_mappings db') = ?f ` set (m # ms) \<union> (set (db_mappings db) - set (m # ms))"
    using maps new by (auto simp: C(1))
  moreover have "\<forall>x \<in> set (m # ms). bm_role (?f x) = bm_role x \<and> mapping_resource (?f x) = mapping_resource x \<and>
      set (bm_groups (?f x)) = effect (set (bm_groups x))"
    using IH(7) K fit by simp
  ultimately have "\<exists>f. (\<forall>x \<in> set (m # ms). bm_role (f x) = bm_role x \<and> mapping_resource (f x) = mapping_resource x \<and>
        set (bm_groups (f x)) = effect (set (bm_groups x))) \<and>
      set (db_mappings db') = f ` set (m # ms) \<union> (set (db_mappings db) - set (m # ms))" by blast
  then show ?case using IH(1,2,3,6) base handler C(2) by simp
qed

lemma effect_Union: "finite A \<Longrightarrow> A \<noteq> {} \<Longrightarrow> effect (\<Union>x \<in> A. g x) = (\<Union>x \<in> A. effect (g x))"
  by (induction A rule: finite_ne_induct) (simp_all add: effect_Un)

lemma custom_role_step:
  assumes inv: "handler_inv domain uuid4 I ts h db" and ready: "ready h" and fit: "\<forall>m \<in> set (db_mappings db). fits m"
    and migrated: "migrated_role db (ro_pk role)"
    and run: "update_mappings_for_custom_role st rp uuid7 now role upd h db = Inr (h', db')"
  shows "step_ok domain uuid4 I ts ready fits effect P {(ro_pk role, res) | res. res \<in> resources_of db (ro_pk role)} (h, db) (h', db')"
proof -
  let ?ms = "mappings_of_role role db"
  have run: "update_migrated_mappings role upd h db = Inr (h', db')"
    using run migrated_role_bindings [OF migrated]
    by (auto simp: update_mappings_for_custom_role_def bind_r_Inr_iff split: if_splits)
  show ?thesis
  proof (cases "?ms = []")
    case True
    then have "h' = h" "db' = db" using run by (simp_all add: update_migrated_mappings_def)
    moreover have "resources_of db (ro_pk role) = {}"
      using True by (auto simp: resources_of_def mappings_of_role_def filter_empty_conv)
    ultimately show ?thesis using inv ready fit by (simp add: step_ok_def role_step_refl)
  next
    case False
    then have fold: "foldM_r (update_custom_mapping (bindings_by_id role db) upd) (h, db) ?ms = Inr (h', db')"
      using run by (auto simp: update_migrated_mappings_def Let_def bind_r_Inr_iff)
    have dist: "distinct ?ms"
      using inv by (auto simp: mappings_of_role_def handler_inv_def binding_rows_wf_def mapping_rows_wf_def distinct_map)
    have ms: "set ?ms = {m \<in> set (db_mappings db). bm_role m = ro_pk role}" by (auto simp: mappings_of_role_def)
    obtain f where F: "handler_inv domain uuid4 I ts h' db'" "ready h'" "\<forall>m \<in> set (db_mappings db'). fits m"
        "same_base db db'" "same_handler h h'" "db_bindings db' = db_bindings db"
      and f: "\<forall>m \<in> set ?ms. bm_role (f m) = bm_role m \<and> mapping_resource (f m) = mapping_resource m \<and>
         set (bm_groups (f m)) = effect (set (bm_groups m))"
      and maps: "set (db_mappings db') = f ` set ?ms \<union> (set (db_mappings db) - set ?ms)"
      using custom_mappings_fold [OF fold inv ready fit _ dist] bindings_by_id_row ms by blast
    have other: "{m \<in> set (db_mappings db'). bm_role m = p} = {m \<in> set (db_mappings db). bm_role m = p}" if "p \<noteq> ro_pk role" for p
      using f that unfolding maps ms by auto
    have own: "{m \<in> set (db_mappings db'). bm_role m = ro_pk role \<and> mapping_resource m = res} =
        f ` {m \<in> set (db_mappings db). bm_role m = ro_pk role \<and> mapping_resource m = res}" for res
      using f unfolding maps ms by force
    have groups: "groups_at db' p res = (if (p, res) \<in> {(ro_pk role, res) | res. res \<in> resources_of db (ro_pk role)}
        then effect (groups_at db p res) else groups_at db p res)" for p res
    proof (cases "p = ro_pk role")
      case True
      let ?A = "{m \<in> set (db_mappings db). bm_role m = ro_pk role \<and> mapping_resource m = res}"
      have "groups_at db' p res = (\<Union>m \<in> ?A. effect (set (bm_groups m)))"
        using f unfolding groups_at_def True own ms by auto
      moreover have "?A \<noteq> {} \<longleftrightarrow> res \<in> resources_of db (ro_pk role)" by (auto simp: resources_of_def)
      moreover have "effect (\<Union>m \<in> ?A. set (bm_groups m)) = (\<Union>m \<in> ?A. effect (set (bm_groups m)))" if "?A \<noteq> {}"
        using that by (intro effect_Union) auto
      ultimately show ?thesis by (cases "?A = {}") (auto simp: True groups_at_def)
    next
      case False
      have "{m \<in> set (db_mappings db'). bm_role m = p \<and> mapping_resource m = res} =
          {m \<in> set (db_mappings db). bm_role m = p \<and> mapping_resource m = res}"
        using other [OF False] by blast
      then show ?thesis using False by (simp add: groups_at_def)
    qed
    have rows: "{m \<in> set (db_mappings db'). bm_role m = ro_pk role} = f ` {m \<in> set (db_mappings db). bm_role m = ro_pk role}"
      using f unfolding maps ms by force
    have "mapping_resource (f m) = mapping_resource m" if "m \<in> {m \<in> set (db_mappings db). bm_role m = ro_pk role}" for m
      using f that ms by blast
    then have res_own: "resources_of db' (ro_pk role) = resources_of db (ro_pk role)"
      unfolding resources_of_def rows image_image by (rule image_cong [OF refl])
    have keep: "resources_of db' p = resources_of db p \<and> (migrated_role db p \<longrightarrow> migrated_role db' p)" for p
    proof -
      have res: "resources_of db' p = resources_of db p"
        using res_own other [of p] by (cases "p = ro_pk role") (simp_all add: resources_of_def)
      then have "(\<exists>m \<in> set (db_mappings db'). bm_role m = p) \<longleftrightarrow> (\<exists>m \<in> set (db_mappings db). bm_role m = p)"
        unfolding resources_of_def by blast
      then show ?thesis using res F(4,6) by (simp add: migrated_role_def same_base_def)
    qed
    have "role_step P {(ro_pk role, res) | res. res \<in> resources_of db (ro_pk role)} effect db db'"
      unfolding role_step_def by (intro conjI allI ballI groups keep [THEN conjunct1] keep [THEN conjunct2])
    then show ?thesis using F by (simp add: step_ok_def)
  qed
qed

lemma update_mapping_for_role_step:
  assumes inv: "handler_inv domain uuid4 I ts h db" and ready: "ready h" and fit: "\<forall>m \<in> set (db_mappings db). fits m"
    and role: "role_admitted P db role" and create: "creates domain ready fits effect uuid4 role create" and st: "rc_domain st = domain"
    and run: "update_mapping_for_role st rp uuid7 now role s upd create h db = Inr (h', db')"
  shows "step_ok domain uuid4 I ts ready fits effect P (role_targets domain h db role s) (h, db) (h', db')"
proof (cases "ro_system role")
  case True
  then have "update_mapping_for_system_role domain role s upd create False False h db = Inr (h', db')"
    and "ro_pk role \<notin> P" using run role st by (simp_all add: update_mapping_for_role_def role_admitted_def)
  then obtain model resource where
    M: "bound_model_for_scope s (sj_tenant h) (sj_root_workspace h) (sj_default_workspace h) = Inr model"
      "for_model domain model = Inr resource"
      "step_ok domain uuid4 I ts ready fits effect P {(ro_pk role, resource)} (h, db) (h', db')"
    using system_role_step [OF inv ready fit _ create] by blast
  have "role_targets domain h db role s = {(ro_pk role, resource)}"
    using M(1,2) True by (auto simp: role_targets_def)
  then show ?thesis using M(3) by simp
next
  case False
  then have "update_mappings_for_custom_role st rp uuid7 now role upd h db = Inr (h', db')"
    and "migrated_role db (ro_pk role)" using run role by (simp_all add: update_mapping_for_role_def role_admitted_def)
  then show ?thesis using custom_role_step [OF inv ready fit] False by (simp add: role_targets_def)
qed

end

section \<open>Assigning and removing a group\<close>

lemma group_tuple_graph: "valid_relation_tuple (group_tuple b g) \<Longrightarrow> graph_tuple (group_tuple b g)"
  by (rule role_graph_tuple_graph) (auto simp: role_graph_tuple_def)

lemma reset_mapping_Inr:
  "reset_mapping h m = Inr (m', h') \<longleftrightarrow>
     m' = m\<lparr>bm_groups := removeAll (gr_uuid (gh_group h)) (bm_groups m) @ [gr_uuid (gh_group h)]\<rparr> \<and>
     h' = relations_added [group_tuple (bm_id m) (gr_uuid (gh_group h))]
            (relations_removed [group_tuple (bm_id m) (gr_uuid (gh_group h))] h) \<and>
     valid_relation_tuple (group_tuple (bm_id m) (gr_uuid (gh_group h)))"
  by (auto simp: reset_mapping_def bind_r_Inr_iff unassign_group_spec assign_group_to_bindings_def
      tuple_constructors_Inr split: if_splits)

interpretation group_reset: mapping_callback domain reset_mapping "\<lambda>h. gr_uuid (gh_group h) = g" "\<lambda>_. True" "insert g"
  for domain g
proof
  fix h :: group_handler and m m' h' and ts :: "relation_tuple set"
  assume run: "reset_mapping h m = Inr (m', h')"
  note R = run [unfolded reset_mapping_Inr]
  show "\<exists>gs us. m' = m\<lparr>bm_groups := gs, bm_users := us\<rparr>"
    using R by (intro exI [of _ "bm_groups m'"] exI [of _ "bm_users m"]) auto
  show "\<exists>add rem. h' = relations_added add (relations_removed rem h) \<and>
      (\<forall>t \<in> set add \<union> set rem. graph_tuple t \<and> is_subject_tuple t \<and> binding_of t = Some (bm_id m))"
    using R group_tuple_graph by (intro exI [of _ "[group_tuple (bm_id m) (gr_uuid (gh_group h))]"]) simp
  assume g: "gr_uuid (gh_group h) = g"
  then show "gr_uuid (gh_group h') = g" using R by (simp add: relations_added_def relations_removed_def)
  show "True \<and> set (bm_groups m') = insert g (set (bm_groups m))" using R g by auto
  show "sj_relations_to_add h' = []" if "is_unassigned m'" using R that by (simp add: is_unassigned_def)
  show "binding_part (pending ts h') (bm_id m) = mapping_part domain m'"
    if "binding_part (pending ts h) (bm_id m) = mapping_part domain m"
  proof -
    have "pending ts h' = pending ts h \<union> {group_tuple (bm_id m) g}" using R g by (simp add: pending_readded)
    then have "binding_part (pending ts h') (bm_id m) = mapping_part domain m \<union> {group_tuple (bm_id m) g}"
      using that by (auto simp: binding_part_def)
    then show ?thesis using R g by (auto simp: mapping_part_def mapping_resource_def)
  qed
qed (auto simp: relations_removed_def)

lemma remove_group_from_binding_Inr:
  "remove_group_from_binding h m = Inr (m', h') \<longleftrightarrow>
     m' = m\<lparr>bm_groups := remove1 (gr_uuid (gh_group h)) (bm_groups m)\<rparr> \<and>
     (if gr_uuid (gh_group h) \<in> set (bm_groups m') then h' = h
      else h' = relations_removed [group_tuple (bm_id m) (gr_uuid (gh_group h))] h \<and>
           valid_relation_tuple (group_tuple (bm_id m) (gr_uuid (gh_group h))))"
  by (auto simp: remove_group_from_binding_def pop_group_from_bindings_def Let_def bind_r_Inr_iff tuple_constructors_Inr)

lemma set_remove1_cases: "set (remove1 g xs) = (if g \<in> set (remove1 g xs) then set xs else set xs - {g})"
proof (rule set_eqI)
  fix x
  show "x \<in> set (remove1 g xs) \<longleftrightarrow> x \<in> (if g \<in> set (remove1 g xs) then set xs else set xs - {g})"
    using set_remove1_subset [of g xs] by (cases "x = g") (auto simp: set_remove1_other)
qed

lemma remove1_single:
  "count_list xs x \<le> 1 \<Longrightarrow> count_list (remove1 x xs) x \<le> 1 \<and> set (remove1 x xs) = set xs - {x}"
proof (induction xs)
  case (Cons y xs)
  then show ?case using count_list_0_iff [of xs x] by (cases "y = x") auto
qed simp

text \<open>A handler that removes a group has nothing to add and leaves members alone.\<close>

definition removing :: "string \<Rightarrow> group_handler \<Rightarrow> bool" where
  "removing g h \<longleftrightarrow> gr_uuid (gh_group h) = g \<and> sj_relations_to_add h = [] \<and>
     list_all (\<lambda>t. \<not> is_member_tuple t) (sj_relations_to_remove h)"

interpretation group_removal: mapping_callback domain remove_group_from_binding
    "removing g" "\<lambda>m. count_list (bm_groups m) g \<le> 1" "\<lambda>A. A - {g}"
  for domain g
proof
  fix h :: group_handler and m m' h' and ts :: "relation_tuple set"
  assume run: "remove_group_from_binding h m = Inr (m', h')"
  note R = run [unfolded remove_group_from_binding_Inr]
  show "\<exists>gs us. m' = m\<lparr>bm_groups := gs, bm_users := us\<rparr>"
    using R by (intro exI [of _ "bm_groups m'"] exI [of _ "bm_users m"]) auto
  let ?t = "group_tuple (bm_id m) (gr_uuid (gh_group h))"
  have h': "h' = relations_removed (if gr_uuid (gh_group h) \<in> set (bm_groups m') then [] else [?t]) h" using R by auto
  show "\<exists>add rem. h' = relations_added add (relations_removed rem h) \<and>
      (\<forall>t \<in> set add \<union> set rem. graph_tuple t \<and> is_subject_tuple t \<and> binding_of t = Some (bm_id m))"
    using R group_tuple_graph unfolding h'
    by (intro exI [of _ "[]"] exI [of _ "if gr_uuid (gh_group h) \<in> set (bm_groups m') then [] else [?t]"]) auto
  assume r: "removing g h"
  then have ready: "gr_uuid (gh_group h) = g" "sj_relations_to_add h = []" by (simp_all add: removing_def)
  show "removing g h'" using r unfolding h' by (auto simp: removing_def relations_removed_def)
  then show "sj_relations_to_add h' = []" by (simp add: removing_def)
  show "count_list (bm_groups m') g \<le> 1 \<and> set (bm_groups m') = set (bm_groups m) - {g}" if "count_list (bm_groups m) g \<le> 1"
    using remove1_single [OF that] R ready by auto
  show "binding_part (pending ts h') (bm_id m) = mapping_part domain m'"
    if part: "binding_part (pending ts h) (bm_id m) = mapping_part domain m"
  proof (cases "g \<in> set (bm_groups m')")
    case True
    then have m': "set (bm_groups m') = set (bm_groups m)"
      using R ready set_remove1_cases [of g "bm_groups m"] by simp
    have "h' = h" using True ready unfolding h' by simp
    moreover have "mapping_part domain m' = mapping_part domain m"
      unfolding mapping_part_def m' using R by (auto simp: mapping_resource_def)
    ultimately show ?thesis using part by simp
  next
    case False
    then have m': "set (bm_groups m') = set (bm_groups m) - {g}"
      using R ready set_remove1_cases [of g "bm_groups m"] by simp
    have "pending ts h' = pending ts h - {group_tuple (bm_id m) g}"
      using False ready unfolding h' by (simp add: pending_removed)
    then have "binding_part (pending ts h') (bm_id m) = mapping_part domain m - {group_tuple (bm_id m) g}"
      using part by (auto simp: binding_part_def)
    also have "\<dots> = mapping_part domain m'"
      unfolding mapping_part_def m' using R by (auto simp: mapping_resource_def)
    finally show ?thesis .
  qed
qed (auto simp: removing_def relations_removed_def)

lemma same_group_handler:
  assumes "same_handler h (h' :: group_handler)"
  shows "gh_group h' = gh_group h" "gh_resource_service h' = gh_resource_service h"
    "gh_policy_service h' = gh_policy_service h"
    "gh_expected_empty_relation_reason h' = gh_expected_empty_relation_reason h"
  using assms by (auto simp: same_handler_def)

definition scopes_of :: "group_handler \<Rightarrow> v1_role \<Rightarrow> scope set" where
  "scopes_of h role =
     (case binding_scopes_for_permissions (gh_resource_service h)
             (map (\<lambda>a. perm_permission (ac_permission a)) (ro_access role)) of
        Inl _ \<Rightarrow> {}
      | Inr ss \<Rightarrow> set ss)"

definition assigned_targets ::
  "string \<Rightarrow> group_handler \<Rightarrow> 's rbac_db \<Rightarrow> v1_role list \<Rightarrow> (int \<times> v2_bound_resource) set" where
  "assigned_targets domain h db roles = (\<Union>role \<in> set roles. \<Union>s \<in> scopes_of h role. role_targets domain h db role s)"

definition removed_targets ::
  "string \<Rightarrow> group_handler \<Rightarrow> 's rbac_db \<Rightarrow> v1_role list \<Rightarrow> (int \<times> v2_bound_resource) set" where
  "removed_targets domain h db roles = (\<Union>role \<in> set roles. \<Union>s \<in> set CONCRETE_SCOPES. role_targets domain h db role s)"

lemma reset_role_step:
  assumes inv: "handler_inv domain uuid4 I ts h db" and g: "gr_uuid (gh_group h) = g"
    and role: "role_admitted P db role" and st: "rc_domain st = domain"
    and run: "reset_role st rp uuid4 now (h, db) role = Inr (h', db')"
  shows "step_ok domain uuid4 I ts (\<lambda>h. gr_uuid (gh_group h) = g) (\<lambda>_. True) (insert g) P
     (\<Union>s \<in> scopes_of h role. role_targets domain h db role s) (h, db) (h', db')"
proof -
  let ?ok = "step_ok domain uuid4 I ts (\<lambda>h. gr_uuid (gh_group h) = g) (\<lambda>_. True) (insert g) P"
  obtain ss where ss: "binding_scopes_for_permissions (gh_resource_service h)
      (map (\<lambda>a. perm_permission (ac_permission a)) (ro_access role)) = Inr ss"
    and fold: "foldM_r (reset_role_at st rp uuid4 now role) (h, db) ss = Inr (h', db')"
    using run by (auto simp: reset_role_def bind_r_Inr_iff)
  have start: "?ok {} (h, db) (h, db)" using inv g by (intro step_ok_start) simp_all
  have "?ok (role_targets domain h db role s) s2 s3"
    if "?ok T1 (h, db) s2" "reset_role_at st rp uuid4 now role s2 s = Inr s3" for T1 s2 s3 s
  proof (cases s2; cases s3)
    fix h2 db2 h3 db3 assume s: "s2 = (h2, db2)" "s3 = (h3, db3)"
    note keep = step_ok_targets [OF that(1) [unfolded s] role]
    have inv2: "handler_inv domain uuid4 I ts h2 db2" and g2: "gr_uuid (gh_group h2) = g"
      using that(1) by (simp_all add: step_ok_def s)
    have up: "update_mapping_for_role st rp uuid4 now role s reset_mapping
       (Some (create_default_mapping_for_system_role domain uuid4 role [g] [])) h2 db2 = Inr (h3, db3)"
      using that(2) by (simp add: reset_role_at_def s st g2)
    have "creates domain (\<lambda>h. gr_uuid (gh_group h) = g) (\<lambda>_. True) (insert g) uuid4 role
        (Some (create_default_mapping_for_system_role domain uuid4 role [g] []))"
      by (auto simp: creates_def relations_added_def)
    then show ?thesis
      using group_reset.update_mapping_for_role_step [OF inv2 g2 _ keep(2) _ st up] keep(1) by (simp add: s)
  qed
  then have "?ok ({} \<union> (\<Union>s \<in> set ss. role_targets domain h db role s)) (h, db) (h', db')"
    by (intro steps_fold [OF fold start]) (blast, simp)
  then show ?thesis by (simp add: scopes_of_def ss)
qed

lemma reset_roles_step:
  assumes inv: "handler_inv domain uuid4 I ts h db" and g: "gr_uuid (gh_group h) = g"
    and roles: "\<forall>role \<in> set roles. role_admitted P db role" and st: "rc_domain st = domain"
    and run: "foldM_r (reset_role st rp uuid4 now) (h, db) roles = Inr (h', db')"
  shows "step_ok domain uuid4 I ts (\<lambda>h. gr_uuid (gh_group h) = g) (\<lambda>_. True) (insert g) P
     (assigned_targets domain h db roles) (h, db) (h', db')"
proof -
  let ?ok = "step_ok domain uuid4 I ts (\<lambda>h. gr_uuid (gh_group h) = g) (\<lambda>_. True) (insert g) P"
  have start: "?ok {} (h, db) (h, db)" using inv g by (intro step_ok_start) simp_all
  have "?ok (\<Union>s \<in> scopes_of h role. role_targets domain h db role s) s2 s3"
    if "role \<in> set roles" "?ok T1 (h, db) s2" "reset_role st rp uuid4 now s2 role = Inr s3" for T1 s2 s3 role
  proof (cases s2; cases s3)
    fix h2 db2 h3 db3 assume s: "s2 = (h2, db2)" "s3 = (h3, db3)"
    have role: "role_admitted P db role" using roles that(1) by blast
    note keep = step_ok_targets [OF that(2) [unfolded s] role]
    have S: "handler_inv domain uuid4 I ts h2 db2" "gr_uuid (gh_group h2) = g" "same_handler h h2"
      using that(2) by (simp_all add: step_ok_def s)
    have "scopes_of h2 role = scopes_of h role" by (simp add: scopes_of_def same_group_handler [OF S(3)])
    then show ?thesis using reset_role_step [OF S(1,2) keep(2) st] that(3) keep(1) by (simp add: s)
  qed
  then have "?ok ({} \<union> (\<Union>role \<in> set roles. \<Union>s \<in> scopes_of h role. role_targets domain h db role s)) (h, db) (h', db')"
    by (intro steps_fold [OF run start]) (blast, simp)
  then show ?thesis by (simp add: assigned_targets_def)
qed

lemma remove_role_step:
  fixes g :: string
  defines "ready \<equiv> removing g"
    and "fits \<equiv> \<lambda>m. count_list (bm_groups m) g \<le> 1"
  assumes inv: "handler_inv domain uuid4 I ts h db" and ready: "ready h" and fit: "\<forall>m \<in> set (db_mappings db). fits m"
    and role: "role_admitted P db role" and st: "rc_domain st = domain"
    and run: "update_mapping_for_role_removal st rp uuid4 now (h, db) role = Inr (h', db')"
  shows "step_ok domain uuid4 I ts ready fits (\<lambda>A. A - {g}) P
     (\<Union>s \<in> set CONCRETE_SCOPES. role_targets domain h db role s) (h, db) (h', db')"
proof -
  let ?ok = "step_ok domain uuid4 I ts ready fits (\<lambda>A. A - {g}) P"
  let ?f = "\<lambda>(h, db) s. update_mapping_for_role st rp uuid4 now role s remove_group_from_binding None h db"
  have fold: "foldM_r ?f (h, db) CONCRETE_SCOPES = Inr (h', db')"
    using run by (simp add: update_mapping_for_role_removal_def)
  have start: "?ok {} (h, db) (h, db)" using inv ready fit by (rule step_ok_start)
  have "?ok (role_targets domain h db role s) s2 s3"
    if "?ok T1 (h, db) s2" "?f s2 s = Inr s3" for T1 s2 s3 s
  proof (cases s2; cases s3)
    fix h2 db2 h3 db3 assume s: "s2 = (h2, db2)" "s3 = (h3, db3)"
    note keep = step_ok_targets [OF that(1) [unfolded s] role]
    have S: "handler_inv domain uuid4 I ts h2 db2" "ready h2" "\<forall>m \<in> set (db_mappings db2). fits m"
      using that(1) by (simp_all add: step_ok_def s)
    have up: "update_mapping_for_role st rp uuid4 now role s remove_group_from_binding None h2 db2 = Inr (h3, db3)"
      using that(2) by (simp add: s)
    have "creates domain ready fits (\<lambda>A. A - {g}) uuid4 role None" by (simp add: creates_def)
    from group_removal.update_mapping_for_role_step
      [OF S(1) S(2) [unfolded ready_def] S(3) [unfolded fits_def] keep(2) this [unfolded ready_def fits_def] st up]
    show ?thesis using keep(1) by (simp add: s ready_def fits_def)
  qed
  then have "?ok ({} \<union> (\<Union>s \<in> set CONCRETE_SCOPES. role_targets domain h db role s)) (h, db) (h', db')"
    by (intro steps_fold [OF fold start]) (blast, simp)
  then show ?thesis by simp
qed

lemma remove_roles_step:
  fixes g :: string
  defines "ready \<equiv> removing g"
    and "fits \<equiv> \<lambda>m. count_list (bm_groups m) g \<le> 1"
  assumes inv: "handler_inv domain uuid4 I ts h db" and ready: "ready h" and fit: "\<forall>m \<in> set (db_mappings db). fits m"
    and roles: "\<forall>role \<in> set roles. role_admitted P db role" and st: "rc_domain st = domain"
    and run: "generate_relations_to_remove_roles st rp uuid4 now roles h db = Inr (h', db')"
  shows "step_ok domain uuid4 I ts ready fits (\<lambda>A. A - {g}) P (removed_targets domain h db roles) (h, db) (h', db')"
proof -
  let ?ok = "step_ok domain uuid4 I ts ready fits (\<lambda>A. A - {g}) P"
  have start: "?ok {} (h, db) (h, db)" using inv ready fit by (rule step_ok_start)
  have "?ok (\<Union>s \<in> set CONCRETE_SCOPES. role_targets domain h db role s) s2 s3"
    if "role \<in> set roles" "?ok T1 (h, db) s2" "update_mapping_for_role_removal st rp uuid4 now s2 role = Inr s3" for T1 s2 s3 role
  proof (cases s2; cases s3)
    fix h2 db2 h3 db3 assume s: "s2 = (h2, db2)" "s3 = (h3, db3)"
    have role: "role_admitted P db role" using roles that(1) by blast
    note keep = step_ok_targets [OF that(2) [unfolded s] role]
    have S: "handler_inv domain uuid4 I ts h2 db2" "ready h2" "\<forall>m \<in> set (db_mappings db2). fits m"
      using that(2) by (simp_all add: step_ok_def s)
    from remove_role_step [OF S(1) S(2) [unfolded ready_def] S(3) [unfolded fits_def] keep(2) st that(3) [unfolded s]]
    show ?thesis using keep(1) by (simp add: s ready_def fits_def)
  qed
  then have "?ok ({} \<union> (\<Union>role \<in> set roles. \<Union>s \<in> set CONCRETE_SCOPES. role_targets domain h db role s)) (h, db) (h', db')"
    by (intro steps_fold [OF run [unfolded generate_relations_to_remove_roles_def] start]) (blast, simp)
  then show ?thesis by (simp add: removed_targets_def)
qed

section \<open>Deleting a group\<close>

lemma remove_once_fold:
  assumes "foldM_r (remove_role_once st rp uuid4 now) (ids, h, db) roles = Inr (ids', h', db')" and "set ids = set seen"
  shows "generate_relations_to_remove_roles st rp uuid4 now (dedup_by ro_pk seen roles) h db = Inr (h', db')"
  using assms
proof (induction roles arbitrary: ids seen h db)
  case (Cons role roles)
  show ?case
  proof (cases "ro_pk role \<in> set seen")
    case True
    then show ?thesis using Cons by (simp add: remove_role_once_def)
  next
    case False
    then obtain h1 db1 where role: "update_mapping_for_role_removal st rp uuid4 now (h, db) role = Inr (h1, db1)"
      and rest: "foldM_r (remove_role_once st rp uuid4 now) (ids @ [ro_pk role], h1, db1) roles = Inr (ids', h', db')"
      using Cons.prems by (auto simp: remove_role_once_def bind_r_Inr_iff)
    have "generate_relations_to_remove_roles st rp uuid4 now (dedup_by ro_pk (ro_pk role # seen) roles) h1 db1 = Inr (h', db')"
      using Cons.prems(2) by (intro Cons.IH [OF rest]) simp
    then show ?thesis using False role by (simp add: generate_relations_to_remove_roles_def)
  qed
qed (simp add: generate_relations_to_remove_roles_def)

lemma dedup_by_subset: "set (dedup_by f seen xs) \<subseteq> set xs"
  by (induction xs arbitrary: seen) auto

lemma dedup_by_inj:
  assumes "inj_on f (set xs)"
  shows "set (dedup_by f [] xs) = set xs"
proof
  show "set (dedup_by f [] xs) \<subseteq> set xs" by (rule dedup_by_subset)
  have "f ` set (dedup_by f [] xs) = f ` set xs" by (simp add: dedup_by_keys)
  then show "set xs \<subseteq> set (dedup_by f [] xs)"
    using assms dedup_by_subset [of f "[]" xs] by (metis inj_on_image_eq_iff subset_refl)
qed

lemma generate_member_relations_Inr:
  assumes "generate_member_relations domain h = Inr ts"
  shows "set ts = {member_tuple domain (gr_uuid (gh_group h)) u |u. \<exists>p \<in> set (gh_principals h). pr_user_id p = Some u}"
    and "list_all graph_tuple ts"
proof -
  let ?f = "\<lambda>relations p. bind_r (relationship_to_principal_for_group domain (gh_group h) (FromPrincipal p)) (\<lambda>t.
          Inr (relations @ (case t of None \<Rightarrow> [] | Some t \<Rightarrow> [t])))"
  have "set us = set acc \<union> {member_tuple domain (gr_uuid (gh_group h)) u |u. \<exists>p \<in> set ps. pr_user_id p = Some u} \<and>
      (list_all graph_tuple acc \<longrightarrow> list_all graph_tuple us)"
    if "foldM_r ?f acc ps = Inr us" for acc ps us
    using that
  proof (induction ps arbitrary: acc)
    case (Cons p ps)
    show ?case
    proof (cases "pr_user_id p")
      case None
      then have "?f acc p = Inr acc" by (simp add: relationship_to_principal_for_group_def principal_resource_id_def)
      then show ?thesis using Cons None by simp
    next
      case (Some u)
      then obtain us1 where "?f acc p = Inr us1" using Cons.prems by (auto simp: bind_r_Inr_iff)
      with Some have us1: "us1 = acc @ [member_tuple domain (gr_uuid (gh_group h)) u]"
        and "valid_relation_tuple (member_tuple domain (gr_uuid (gh_group h)) u)"
        by (auto simp: bind_r_Inr_iff member_constructors_Inr)
      moreover have "foldM_r ?f us1 ps = Inr us" using Cons.prems \<open>?f acc p = Inr us1\<close> by simp
      ultimately show ?thesis using Cons.IH Some member_tuple_graph by fastforce
    qed
  qed simp
  from this [OF assms [unfolded generate_member_relations_def]]
  show "set ts = {member_tuple domain (gr_uuid (gh_group h)) u |u. \<exists>p \<in> set (gh_principals h). pr_user_id p = Some u}"
    and "list_all graph_tuple ts" by simp_all
qed

lemma binding_of_member [simp]: "binding_of (member_tuple d g u) = None"
  by (simp add: binding_of_def member_tuple_def plain_tuple_def)

text \<open>The default access of the users of a tenant, which comes back when the tenant's own default group goes.\<close>

definition restored_access ::
  "platform_settings \<Rightarrow> group_handler \<Rightarrow> 's rbac_db \<Rightarrow> tenant_mapping \<Rightarrow> tenant_scope_resources \<Rightarrow> relation_tuple list" where
  "restored_access pf h db m r =
     access_list m r (\<lambda>s. chosen_role (role_of pf db (gh_policy_service h) ACCESS_USER s)) ACCESS_USER"

definition default_access_of ::
  "string \<Rightarrow> group_handler \<Rightarrow> 's rbac_db \<Rightarrow> tenant_mapping \<Rightarrow> tenant_scope_resources \<Rightarrow> bool" where
  "default_access_of domain h db m r \<longleftrightarrow>
     (\<exists>t. tenant_by_pk (wst_tenants (db_ws db)) (gr_tenant (gh_group h)) = Inr t \<and>
        mappings_of (db_tenant_mappings db) t = [m] \<and>
        resources_for_models domain t (sj_root_workspace h) (sj_default_workspace h) = Inr r)"

definition mapping_uuids_wf :: "'s rbac_db \<Rightarrow> bool" where
  "mapping_uuids_wf db \<longleftrightarrow> (\<forall>m \<in> set (db_tenant_mappings db). distinct (mapping_unique_uuids m))"

lemma default_binding_restores:
  assumes run: "default_binding st pf False None h db = Inr (ts, h')" and wf: "mapping_uuids_wf db"
  obtains m r service where "default_access_of (rc_domain st) h db m r" "ts = restored_access pf h db m r"
    "h' = h\<lparr>gh_policy_service := service\<rparr>" "list_all graph_tuple ts" "distinct ts" "\<forall>t \<in> set ts. \<not> is_member_tuple t"
proof -
  obtain t m r service where t: "tenant_by_pk (wst_tenants (db_ws db)) (gr_tenant (gh_group h)) = Inr t"
    and m: "mappings_of (db_tenant_mappings db) t = [m]"
    and r: "resources_for_models (rc_domain st) t (sj_root_workspace h) (sj_default_workspace h) = Inr r"
    and ts: "default_role_binding_tuples pf m r ACCESS_USER False None db (gh_policy_service h) = Inr (ts, service)"
    and h': "h' = h\<lparr>gh_policy_service := service\<rparr>"
    using run by (auto simp: default_binding_def bind_r_Inr_iff get_one_Inr_iff)
  note D = default_role_bindings_Inr [OF ts]
  have "m \<in> set (db_tenant_mappings db)"
    using arg_cong [OF m, of set] by (auto simp: mappings_of_def)
  then have uuids: "distinct (mapping_unique_uuids m)" using wf by (simp add: mapping_uuids_wf_def)
  have kinds: "binding_tuple_kind x" if "x \<in> set ts" for x
    using that resources_rbac [OF r] unfolding D(2) access_list_def binding_triple_def binding_tuple_kind_def by fastforce
  have "graph_tuple x" if "x \<in> set ts" for x
    using kinds [OF that] D(3) that
    by (intro role_graph_tuple_graph) (auto simp: role_graph_tuple_def binding_tuple_kind_def list_all_iff)
  then have "list_all graph_tuple ts" by (simp add: list_all_iff)
  moreover have "distinct ts" unfolding D(2) by (rule access_list_distinct(1) [OF uuids])
  moreover have "\<forall>t \<in> set ts. \<not> is_member_tuple t" using kinds by (fastforce simp: binding_tuple_kind_def)
  ultimately show thesis using that [of m r service] t m r h' D(2) by (auto simp: default_access_of_def restored_access_def)
qed

text \<open>The last part of a deletion.\<close>

definition finish_deletion ::
  "role_settings \<Rightarrow> platform_settings \<Rightarrow> group_handler \<Rightarrow> 's rbac_db \<Rightarrow> (group_handler \<times> 's rbac_db) result" where
  "finish_deletion st pf h db =
     (if gr_platform_default (gh_group h)
      then bind_r (default_binding st pf False None h db) (\<lambda>(ts, h2). Inr (relations_added ts h2, db))
      else (let h2 = h\<lparr>gh_principals := group_members db (gh_group h)\<rparr>
            in bind_r (generate_member_relations (rc_domain st) h2) (\<lambda>ts. Inr (relations_removed ts h2, db))))"

definition deletion_members :: "string \<Rightarrow> 's rbac_db \<Rightarrow> rbac_group \<Rightarrow> relation_tuple set" where
  "deletion_members domain db g =
     (if gr_platform_default g then {}
      else {member_tuple domain (gr_uuid g) u |u. \<exists>p \<in> set (db_principals db).
              pr_user_id p = Some u \<and> (gr_uuid g, pr_uuid p) \<in> memberships db})"

lemma group_members_memberships:
  "p \<in> set (group_members db g) \<longleftrightarrow> p \<in> set (db_principals db) \<and> (gr_uuid g, pr_uuid p) \<in> memberships db"
  by (simp add: group_members_def memberships_def list_ex_iff) metis

lemma finish_deletion_Inr:
  assumes run: "finish_deletion st pf h db = Inr (h', db')" and wf: "mapping_uuids_wf db" and add: "sj_relations_to_add h = []"
  shows "db' = db"
    and "\<exists>us vs. sj_relations_to_add h' = vs \<and> sj_relations_to_remove h' = sj_relations_to_remove h @ us \<and>
       gh_group h' = gh_group h \<and> gh_expected_empty_relation_reason h' = gh_expected_empty_relation_reason h \<and>
       list_all graph_tuple us \<and> set us = deletion_members (rc_domain st) db (gh_group h) \<and>
       list_all graph_tuple vs \<and> distinct vs \<and> (\<forall>t \<in> set vs. \<not> is_member_tuple t) \<and>
       (if gr_platform_default (gh_group h)
        then \<exists>m r. default_access_of (rc_domain st) h db m r \<and> vs = restored_access pf h db m r else vs = [])"
proof -
  show "db' = db" using run by (auto simp: finish_deletion_def Let_def bind_r_Inr_iff split: if_splits)
  show "\<exists>us vs. sj_relations_to_add h' = vs \<and> sj_relations_to_remove h' = sj_relations_to_remove h @ us \<and>
       gh_group h' = gh_group h \<and> gh_expected_empty_relation_reason h' = gh_expected_empty_relation_reason h \<and>
       list_all graph_tuple us \<and> set us = deletion_members (rc_domain st) db (gh_group h) \<and>
       list_all graph_tuple vs \<and> distinct vs \<and> (\<forall>t \<in> set vs. \<not> is_member_tuple t) \<and>
       (if gr_platform_default (gh_group h)
        then \<exists>m r. default_access_of (rc_domain st) h db m r \<and> vs = restored_access pf h db m r else vs = [])"
  proof (cases "gr_platform_default (gh_group h)")
    case True
    then obtain ts h2 where b: "default_binding st pf False None h db = Inr (ts, h2)" and h': "h' = relations_added ts h2"
      using run by (auto simp: finish_deletion_def bind_r_Inr_iff)
    obtain m r service where D: "default_access_of (rc_domain st) h db m r" "ts = restored_access pf h db m r"
        "h2 = h\<lparr>gh_policy_service := service\<rparr>" "list_all graph_tuple ts" "distinct ts" "\<forall>t \<in> set ts. \<not> is_member_tuple t"
      by (rule default_binding_restores [OF b wf])
    show ?thesis using True D add h' by (intro exI [of _ "[]"] exI [of _ ts]) (auto simp: relations_added_def deletion_members_def)
  next
    case False
    let ?h2 = "h\<lparr>gh_principals := group_members db (gh_group h)\<rparr>"
    obtain us where us: "generate_member_relations (rc_domain st) ?h2 = Inr us" and h': "h' = relations_removed us ?h2"
      using run False by (auto simp: finish_deletion_def Let_def bind_r_Inr_iff)
    note M = generate_member_relations_Inr [OF us]
    have "set us = deletion_members (rc_domain st) db (gh_group h)"
      using False unfolding M(1) deletion_members_def Bex_def by (simp add: group_members_memberships conj_ac)
    then show ?thesis using False M(2) add h' by (intro exI [of _ us] exI [of _ "[]"]) (simp add: relations_removed_def)
  qed
qed

lemma prepare_to_delete_group_finish:
  "prepare_to_delete_group st pf rp new_uuid now roles h db =
     bind_r (case sj_tenant_version h of
               VERSION_1 \<Rightarrow> prepare_to_delete_group_v1 st rp new_uuid now roles h db
             | VERSION_2 \<Rightarrow> bind_r (prepare_to_delete_group_v2 (rc_domain st) h db) (\<lambda>h1. Inr (h1, db)))
       (\<lambda>(h1, db1). finish_deletion st pf h1 db1)"
  by (simp add: prepare_to_delete_group_def finish_deletion_def)

lemma default_access_same:
  assumes "same_base db db'" and "same_handler h h'"
  shows "default_access_of domain h' db' m r = default_access_of domain h db m r"
    and "restored_access pf h' db' m r = restored_access pf h db m r"
    and "deletion_members domain db' g = deletion_members domain db g"
proof -
  note B = assms(1) [unfolded same_base_def]
  note G = same_group_handler [OF assms(2)] same_handler_fields [OF assms(2)]
  show "default_access_of domain h' db' m r = default_access_of domain h db m r" using B G by (simp add: default_access_of_def)
  have "role_of pf db' service = role_of pf db service" for service using B by (intro role_of_same_rows) simp_all
  then show "restored_access pf h' db' m r = restored_access pf h db m r" using G by (simp add: restored_access_def)
  show "deletion_members domain db' g = deletion_members domain db g"
    using B by (simp add: deletion_members_def memberships_def)
qed

text \<open>
  What a tenant that writes through V2 loses with a group: the group as a subject of its bindings, and the bindings
  that have no other subject.
\<close>

definition deletion_tuples :: "'s rbac_db \<Rightarrow> string \<Rightarrow> role_binding \<Rightarrow> relation_tuple set" where
  "deletion_tuples db g b = insert (group_tuple (rb_uuid b) g)
     (if set (group_entries db b) \<subseteq> {g} \<and> principal_entries db b = []
      then insert (bound_tuple \<lparr>br_type = (''rbac'', rb_resource_type b), br_id = rb_resource_id b\<rparr> (rb_uuid b))
             {role_tuple (rb_uuid b) (r2_uuid r) |r. role_by_pk db (rb_role b) = Inr r}
      else {})"

lemma binding_removal_Inr:
  assumes "binding_removal domain g db h b = Inr h'"
  shows "\<exists>us. h' = relations_removed us h \<and> list_all graph_tuple us \<and> set us = deletion_tuples db (gr_uuid g) b"
proof -
  let ?g = "group_tuple (rb_uuid b) (gr_uuid g)"
  let ?res = "\<lparr>br_type = (''rbac'', rb_resource_type b), br_id = rb_resource_id b\<rparr>"
  have only: "filter (\<lambda>u. u \<noteq> gr_uuid g) (group_entries db b) = [] \<longleftrightarrow> set (group_entries db b) \<subseteq> {gr_uuid g}"
    by (auto simp: filter_empty_conv)
  have g: "graph_tuple ?g" and h': "(if set (group_entries db b) \<subseteq> {gr_uuid g} \<and> principal_entries db b = []
      then bind_r (role_by_pk db (rb_role b)) (\<lambda>r.
           bind_r (rb_binding_tuples b r) (\<lambda>ts. Inr (relations_removed ts (relations_removed [?g] h))))
      else Inr (relations_removed [?g] h)) = Inr h'"
    using assms unfolding binding_removal_def only
    by (simp_all add: subject_tuple_def group_subject_tuple_def create_relationship_Inr_iff bind_r_Inr_iff
        group_tuple_def [symmetric] group_tuple_graph Let_def)
  show ?thesis
  proof (cases "set (group_entries db b) \<subseteq> {gr_uuid g} \<and> principal_entries db b = []")
    case True
    then obtain r where r: "role_by_pk db (rb_role b) = Inr r"
      and h2: "h' = relations_removed [?g, role_tuple (rb_uuid b) (r2_uuid r), bound_tuple ?res (rb_uuid b)] h"
      and valid: "valid_relation_tuple (role_tuple (rb_uuid b) (r2_uuid r))" "valid_relation_tuple (bound_tuple ?res (rb_uuid b))"
      using h' by (auto simp: rb_binding_tuples_def role_relation_tuple_def rb_resource_binding_tuple_def
          binding_resource_type_pair_def create_relationship_Inr_iff bind_r_Inr_iff role_tuple_def bound_tuple_def
          relations_removed_def)
    have "graph_tuple (role_tuple (rb_uuid b) (r2_uuid r))" "graph_tuple (bound_tuple ?res (rb_uuid b))"
      using valid by (auto intro!: role_graph_tuple_graph simp: role_graph_tuple_def)
    then show ?thesis
      using True r h2 g by (intro exI [of _ "[?g, role_tuple (rb_uuid b) (r2_uuid r), bound_tuple ?res (rb_uuid b)]"])
        (auto simp: deletion_tuples_def)
  next
    case False
    then have "h' = relations_removed [?g] h" using h' unfolding if_not_P [OF False] by simp
    then show ?thesis using False g by (intro exI [of _ "[?g]"]) (simp add: deletion_tuples_def)
  qed
qed

lemma binding_removals_Inr:
  assumes "foldM_r (binding_removal domain g db) h bs = Inr h'"
  shows "\<exists>us. h' = relations_removed us h \<and> list_all graph_tuple us \<and> set us = (\<Union>b \<in> set bs. deletion_tuples db (gr_uuid g) b)"
  using assms
proof (induction bs arbitrary: h)
  case (Cons b bs)
  then obtain h1 where h1: "binding_removal domain g db h b = Inr h1" "foldM_r (binding_removal domain g db) h1 bs = Inr h'"
    by (auto simp: bind_r_Inr_iff)
  obtain us where us: "h1 = relations_removed us h" "list_all graph_tuple us" "set us = deletion_tuples db (gr_uuid g) b"
    using binding_removal_Inr [OF h1(1)] by blast
  obtain vs where vs: "h' = relations_removed vs h1" "list_all graph_tuple vs"
      "set vs = (\<Union>b \<in> set bs. deletion_tuples db (gr_uuid g) b)"
    using Cons.IH [OF h1(2)] by blast
  then show ?case using us by (intro exI [of _ "us @ vs"]) (simp add: relations_removed_def)
qed (auto intro: exI [of _ "[]"])

section \<open>Replication\<close>

lemma deduplicate_fold:
  assumes "list_all graph_tuple (acc @ xs)" and "distinct (filter (\<lambda>t. \<not> is_subject_tuple t) (acc @ xs))"
    and "set seen = stringify_spicedb_relationship ` set acc" and "distinct acc"
  shows "\<exists>seen' out. foldM_r deduplicate_step (seen, acc) xs = Inr (seen', out) \<and> set out = set (acc @ xs) \<and> distinct out"
  using assms
proof (induction xs arbitrary: seen acc)
  case (Cons t xs)
  have key: "stringify_spicedb_relationship t \<in> set seen \<longleftrightarrow> t \<in> set acc"
    using Cons.prems(1,3) graph_key_exact by (auto simp: image_iff list_all_iff)
  show ?case
  proof (cases "t \<in> set acc")
    case True
    then have sub: "is_subject_tuple t" using Cons.prems(2) by (auto split: if_splits)
    then have "\<exists>seen' out. foldM_r deduplicate_step (seen, acc) xs = Inr (seen', out) \<and> set out = set (acc @ xs) \<and> distinct out"
      using Cons.prems by (intro Cons.IH) simp_all
    then show ?thesis using True key sub by (auto simp: deduplicate_step_def Let_def)
  next
    case False
    have "set (set_add (stringify_spicedb_relationship t) seen) = stringify_spicedb_relationship ` set (acc @ [t])"
      using Cons.prems(3) by simp
    then have "\<exists>seen' out. foldM_r deduplicate_step (set_add (stringify_spicedb_relationship t) seen, acc @ [t]) xs = Inr (seen', out) \<and>
        set out = set ((acc @ [t]) @ xs) \<and> distinct out"
      using Cons.prems False by (intro Cons.IH) simp_all
    then show ?thesis using False key by (auto simp: deduplicate_step_def Let_def)
  qed
qed simp

lemma deduplicate_ok:
  assumes "relations_ok h"
  shows "\<exists>add. deduplicate_subject_relations (sj_relations_to_add h) = Inr add \<and> set add = set (sj_relations_to_add h) \<and>
     distinct (map stringify_spicedb_relationship add) \<and> list_all graph_tuple add"
proof -
  obtain seen add where "foldM_r deduplicate_step ([], []) (sj_relations_to_add h) = Inr (seen, add)"
    and add: "set add = set (sj_relations_to_add h)" "distinct add"
    using deduplicate_fold [of "[]" "sj_relations_to_add h" "[]"] assms by (auto simp: relations_ok_def)
  moreover from add have "list_all graph_tuple add" using assms by (auto simp: relations_ok_def list_all_iff)
  ultimately show ?thesis using graph_tuple_keys by (auto simp: deduplicate_subject_relations_def)
qed

context workspace_replicator
begin

lemma replicate_group_applies:
  assumes ok: "relations_ok h" and t: "tenant_by_pk (wst_tenants (db_ws db)) (gr_tenant (gh_group h)) = Inr t"
    and reason: "gh_expected_empty_relation_reason h = None"
  shows "\<exists>s'. replicate_group st rp h db = Inr (db\<lparr>db_ws := (db_ws db)\<lparr>wst_repl := s'\<rparr>\<rparr>) \<and>
     tuples s' = pending (tuples (wst_repl (db_ws db))) h"
proof -
  obtain add where add: "deduplicate_subject_relations (sj_relations_to_add h) = Inr add"
      "set add = set (sj_relations_to_add h)" "distinct (map stringify_spicedb_relationship add)" "list_all graph_tuple add"
    using deduplicate_ok [OF ok] by blast
  show ?thesis
  proof (cases "add = [] \<and> sj_relations_to_remove h = []")
    case True
    then have "replicate_group st rp h db = Inr db" using add(1) reason by (simp add: replicate_group_def)
    moreover have "pending (tuples (wst_repl (db_ws db))) h = tuples (wst_repl (db_ws db))"
      using True add(2) by (simp add: pending_def)
    ultimately show ?thesis by (intro exI [of _ "wst_repl (db_ws db)"]) simp
  next
    case False
    let ?e = "group_event st t add h"
    have e: "replicable ?e"
      using add ok graph_tuple_valid by (simp add: group_event_def replicable_def relations_ok_def)
    then obtain s' where s': "rp_replicate rp (wst_repl (db_ws db)) ?e = Inr s'" using replicate_accepts by blast
    moreover have "tuples s' = pending (tuples (wst_repl (db_ws db))) h"
      using replicate_applies [OF e s'] add(2) by (simp add: apply_event_def group_event_def pending_def)
    moreover have "replicate_group st rp h db = Inr (db\<lparr>db_ws := (db_ws db)\<lparr>wst_repl := s'\<rparr>\<rparr>)"
      using False add(1) reason t s' by (auto simp: replicate_group_def)
    ultimately show ?thesis by blast
  qed
qed

lemma replicate_handler:
  assumes inv: "handler_inv domain uuid4 I (tuples (wst_repl (db_ws db))) h db"
    and t: "tenant_by_pk (wst_tenants (db_ws db)) (gr_tenant (gh_group h)) = Inr t"
    and reason: "gh_expected_empty_relation_reason h = None"
  shows "\<exists>db2. replicate_group st rp h db = Inr db2 \<and> tuples (wst_repl (db_ws db2)) = pending (tuples (wst_repl (db_ws db))) h \<and>
     (\<forall>i \<in> I. in_step domain (tuples (wst_repl (db_ws db2))) db2 i) \<and> (\<forall>p res. groups_at db2 p res = groups_at db p res)"
proof -
  obtain s' where R: "replicate_group st rp h db = Inr (db\<lparr>db_ws := (db_ws db)\<lparr>wst_repl := s'\<rparr>\<rparr>)"
      "tuples s' = pending (tuples (wst_repl (db_ws db))) h"
    using replicate_group_applies [of h db t st] inv t reason unfolding handler_inv_def by blast
  let ?db2 = "db\<lparr>db_ws := (db_ws db)\<lparr>wst_repl := s'\<rparr>\<rparr>"
  have "in_step domain (tuples (wst_repl (db_ws ?db2))) ?db2 i" if "i \<in> I" for i
    using inv that R(2)
    by (auto simp: handler_inv_def in_step_def tuples_in_step_def rows_in_step_def group_entries_def)
  moreover have "groups_at ?db2 p res = groups_at db p res" for p res by (simp add: groups_at_def)
  ultimately show ?thesis using R by simp
qed

text \<open>A run of a fresh handler, replicated.\<close>

lemma replicate_steps:
  assumes step: "step_ok domain uuid4 I (tuples (wst_repl (db_ws db))) ready fits f P T (h, db) (h1, db1)"
    and t: "tenant_by_pk (wst_tenants (db_ws db)) (gr_tenant (gh_group h)) = Inr t"
    and reason: "gh_expected_empty_relation_reason h = None"
  shows "\<exists>db2. replicate_group st rp h1 db1 = Inr db2 \<and>
     (\<forall>i \<in> I. in_step domain (tuples (wst_repl (db_ws db2))) db2 i) \<and>
     (\<forall>p res. groups_at db2 p res = (if (p, res) \<in> T then f (groups_at db p res) else groups_at db p res))"
proof -
  have S: "handler_inv domain uuid4 I (tuples (wst_repl (db_ws db))) h1 db1" "same_base db db1" "same_handler h h1"
      "role_step P T f db db1"
    using step by (simp_all add: step_ok_def)
  have ws: "db_ws db1 = db_ws db" using S(2) by (simp add: same_base_def)
  have "tenant_by_pk (wst_tenants (db_ws db1)) (gr_tenant (gh_group h1)) = Inr t" "gh_expected_empty_relation_reason h1 = None"
    using t reason ws same_group_handler [OF S(3)] by simp_all
  from replicate_handler [OF S(1) [folded ws] this, of st] show ?thesis using S(4) by (auto simp: role_step_def)
qed

text \<open>A handler of a group that is deleted also removes members or adds default access.\<close>

lemma replicate_deletion:
  fixes h h1 :: group_handler
  assumes step: "step_ok domain uuid4 I (tuples (wst_repl (db_ws db))) ready fits f P T (h, db) (h1, db1)"
    and h2: "sj_relations_to_add h2 = vs" "sj_relations_to_remove h2 = sj_relations_to_remove h1 @ us" "gh_group h2 = gh_group h1"
      "gh_expected_empty_relation_reason h2 = gh_expected_empty_relation_reason h1"
    and us: "list_all graph_tuple us" "\<forall>t \<in> set us. binding_of t = None"
    and vs: "list_all graph_tuple vs" "distinct vs"
    and t: "tenant_by_pk (wst_tenants (db_ws db)) (gr_tenant (gh_group h)) = Inr t"
    and reason: "gh_expected_empty_relation_reason h = None" and add: "sj_relations_to_add h1 = []"
  shows "\<exists>db2. replicate_group st rp h2 db1 = Inr db2 \<and>
     (\<forall>i \<in> I. binding_part (set vs) i = {} \<longrightarrow> in_step domain (tuples (wst_repl (db_ws db2))) db2 i) \<and>
     (\<forall>p res. groups_at db2 p res = (if (p, res) \<in> T then f (groups_at db p res) else groups_at db p res)) \<and>
     tuples (wst_repl (db_ws db2)) =
       (tuples (wst_repl (db_ws db)) - set (sj_relations_to_remove h1) - set us) \<union> set vs"
proof -
  have S: "handler_inv domain uuid4 I (tuples (wst_repl (db_ws db))) h1 db1" "same_base db db1" "same_handler h h1"
      "role_step P T f db db1"
    using step by (simp_all add: step_ok_def)
  let ?ts = "tuples (wst_repl (db_ws db))"
  have ws: "db_ws db1 = db_ws db" using S(2) by (simp add: same_base_def)
  have ok: "relations_ok h2" using S(1) us(1) vs by (simp add: handler_inv_def relations_ok_def h2)
  obtain s' where R: "replicate_group st rp h2 db1 = Inr (db1\<lparr>db_ws := (db_ws db1)\<lparr>wst_repl := s'\<rparr>\<rparr>)"
      "tuples s' = pending ?ts h2"
    using replicate_group_applies [OF ok, of db1 t st] t reason same_group_handler [OF S(3)] ws h2(3,4) by auto
  let ?db2 = "db1\<lparr>db_ws := (db_ws db1)\<lparr>wst_repl := s'\<rparr>\<rparr>"
  have new: "tuples s' = (?ts - set (sj_relations_to_remove h1) - set us) \<union> set vs"
    unfolding R(2) using h2(1,2) by (auto simp: pending_def)
  have old: "pending ?ts h1 = ?ts - set (sj_relations_to_remove h1)" using add by (simp add: pending_def)
  have "in_step domain (tuples s') ?db2 i" if "i \<in> I" "binding_part (set vs) i = {}" for i
  proof -
    have "binding_part (set us) i = {}" using us(2) by (auto simp: binding_part_def)
    then have "binding_part (tuples s') i = binding_part (pending ?ts h1) i" by (simp add: new old that(2))
    then show ?thesis using S(1) that(1)
      by (auto simp: handler_inv_def in_step_def tuples_in_step_def rows_in_step_def group_entries_def)
  qed
  moreover have "groups_at ?db2 p res = groups_at db1 p res" for p res by (simp add: groups_at_def)
  ultimately show ?thesis using R(1) S(4) new by (intro exI [of _ ?db2]) (simp add: role_step_def)
qed

end

section \<open>Properties\<close>

lemma fresh_group_handler:
  assumes "init_group_handler st g event_type resource_service service db0 = Inr (Some h, db)"
  shows "gh_group h = g" "sj_relations_to_add h = []" "sj_relations_to_remove h = []"
    "gh_expected_empty_relation_reason h = None"
    "\<exists>t. tenant_by_pk (wst_tenants (db_ws db)) (gr_tenant (gh_group h)) = Inr t"
  using assms
  by (auto simp: init_group_handler_def init_subject_handler_def bind_r_Inr_iff subject_handler.extend_def
      split: if_splits)

lemma fresh_handler_inv:
  assumes "sj_relations_to_add h = []" and "sj_relations_to_remove h = []"
    and "binding_rows_wf db" and "ids_unused uuid4 ts db"
  shows "handler_inv domain uuid4 {i. in_step domain ts db i} ts h db"
  using assms by (simp add: handler_inv_def pending_def relations_ok_def in_step_def)

lemma shared_roles_admitted:
  assumes run: "with_system_roles_for_share roles db = Inr locked"
    and custom: "\<forall>r \<in> set roles. ro_system r \<or> migrated_role db (ro_pk r)"
  shows "\<forall>r \<in> set locked. role_admitted (ro_pk ` {r \<in> set locked. \<not> ro_system r}) db r"
proof -
  let ?rs = "dedup_by ro_pk [] roles"
  have locked: "locked = filter (\<lambda>r. \<not> ro_system r) ?rs @
      filter (\<lambda>r. ro_system r \<and> ro_pk r \<in> ro_pk ` set (filter ro_system ?rs)) (db_v1_roles db)"
    using run by (simp add: with_system_roles_for_share_def Let_def bind_r_Inr_iff)
  have inj: "r = r'" if "r \<in> set ?rs" "r' \<in> set ?rs" "ro_pk r = ro_pk r'" for r r'
    using distinct_dedup_by [of ro_pk "[]" roles] that by (auto simp: distinct_map inj_on_def)
  show ?thesis
  proof
    fix r assume r: "r \<in> set locked"
    show "role_admitted (ro_pk ` {r \<in> set locked. \<not> ro_system r}) db r"
    proof (cases "ro_system r")
      case True
      then obtain r1 where r1: "r1 \<in> set ?rs" "ro_system r1" "ro_pk r1 = ro_pk r" using r by (auto simp: locked)
      have "ro_pk r \<noteq> ro_pk r'" if "r' \<in> set locked" "\<not> ro_system r'" for r'
        using inj [of r1 r'] r1 that by (auto simp: locked)
      then show ?thesis using True by (auto simp: role_admitted_def)
    next
      case False
      then have "r \<in> set roles" using r dedup_by_subset [of ro_pk "[]" roles] by (auto simp: locked)
      then show ?thesis using False r custom by (auto simp: role_admitted_def)
    qed
  qed
qed

text \<open>
  C4 (refinement): assigning roles to a group is never refused by the outbox and keeps binding mappings, role
  binding rows and the access graph in step. Every binding that was in step before is in step afterwards: the
  tuples about it are those of its mapping, none without a mapping, and its row has the mapping's groups. The
  group is added to the binding of each system role at the resource of every scope the role is bound at, and to
  every binding of each custom role; no other group is added or removed anywhere. Custom roles have been given
  their binding rows before.
\<close>

theorem group_roles_assigned:
  fixes db :: "outbox_wal rbac_db" and time :: int
  defines "rp \<equiv> outbox_replicator outbox_wal_log time"
    and "graph \<equiv> \<lambda>db :: outbox_wal rbac_db. log_tuples (wal_rows (wst_repl (db_ws db)))"
  assumes init: "init_group_handler st g event_type resource_service service db0 = Inr (Some h, db)"
    and wf: "binding_rows_wf db" and ids: "ids_unused new_uuid (graph db) db"
    and custom: "\<forall>r \<in> set roles. ro_system r \<or> migrated_role db (ro_pk r)"
    and locked: "with_system_roles_for_share roles db = Inr locked"
    and run: "generate_relations_reset_roles st pf rp new_uuid now roles None h db = Inr (h1, db1)"
  shows "\<exists>db2. replicate_group st rp h1 db1 = Inr db2 \<and>
     (\<forall>i. in_step (rc_domain st) (graph db) db i \<longrightarrow> in_step (rc_domain st) (graph db2) db2 i) \<and>
     (\<forall>p res. groups_at db2 p res =
        (if (p, res) \<in> assigned_targets (rc_domain st) h db locked
         then insert (gr_uuid g) (groups_at db p res) else groups_at db p res))"
proof -
  note H = fresh_group_handler [OF init]
  obtain t where t: "tenant_by_pk (wst_tenants (db_ws db)) (gr_tenant (gh_group h)) = Inr t" using H(5) by blast
  have "gr_uuid (gh_group h) = gr_uuid g" by (simp add: H(1))
  moreover have "foldM_r (reset_role st rp new_uuid now) (h, db) locked = Inr (h1, db1)"
    using run locked by (simp add: generate_relations_reset_roles_def bind_r_Inr_iff split_def)
  ultimately have "step_ok (rc_domain st) new_uuid {i. in_step (rc_domain st) (graph db) db i} (graph db)
      (\<lambda>h. gr_uuid (gh_group h) = gr_uuid g) (\<lambda>_. True) (insert (gr_uuid g)) (ro_pk ` {r \<in> set locked. \<not> ro_system r})
      (assigned_targets (rc_domain st) h db locked) (h, db) (h1, db1)"
    by (intro reset_roles_step [OF fresh_handler_inv [OF H(2,3) wf ids]] shared_roles_admitted [OF locked custom]) simp_all
  from outbox_wal_ws.replicate_steps [where now = time and st = st, OF this [unfolded graph_def] t H(4)]
  show ?thesis by (simp add: graph_def rp_def)
qed

text \<open>A tenant with a system role, its V2 role and a group.\<close>

definition sample_system_role :: v1_role where
  "sample_system_role = sample_role\<lparr>ro_pk := 6, ro_uuid := ''s1'', ro_system := True, ro_tenant := 2\<rparr>"

definition sample_seeded_role :: role_v2 where
  "sample_seeded_role = \<lparr>r2_pk = 7, r2_uuid = ''s1'', r2_name = ''R'', r2_description = None, r2_type = ROLE_SEEDED,
     r2_tenant = 2, r2_permissions = [], r2_children = [], r2_v1_source = Some 6\<rparr>"

definition sample_member :: principal where
  "sample_member = sample_principal ''p2'' ''new'' (Some ''7'')"

definition sample_group_db :: "outbox_wal rbac_db" where
  "sample_group_db = (sample_mapped_db \<lparr>wal_table = [], wal_entries = []\<rparr>)
     \<lparr>db_ws := (sample_state \<lparr>wal_table = [], wal_entries = []\<rparr>)\<lparr>wst_tenants := [sample_tenant,
        sample_tenant\<lparr>tn_pk := 2, tn_tenant_name := ''public'', tn_org_id := None\<rparr>]\<rparr>,
      db_v1_roles := [sample_system_role], db_roles := [sample_seeded_role], db_groups := [sample_group],
      db_principals := [sample_member]\<rparr>"

definition sample_handler_for ::
  "replication_event_type \<Rightarrow> outbox_wal rbac_db \<Rightarrow> (group_handler \<times> outbox_wal rbac_db) result" where
  "sample_handler_for event_type db0 =
     bind_r (init_group_handler sample_role_settings sample_group event_type None empty_policy_id_service db0)
       (\<lambda>(h, db). case h of None \<Rightarrow> Inl ValueError | Some h \<Rightarrow> Inr (h, db))"

lemma sample_handler_init:
  "sample_handler_for event_type db0 = Inr (h, db) \<Longrightarrow>
     init_group_handler sample_role_settings sample_group event_type None empty_policy_id_service db0 = Inr (Some h, db)"
  by (auto simp: sample_handler_for_def bind_r_Inr_iff split: option.splits)

definition sample_group_handler :: "(group_handler \<times> outbox_wal rbac_db) result" where
  "sample_group_handler = sample_handler_for EV_ASSIGN_ROLE sample_group_db"

definition sample_assignment :: "(group_handler \<times> outbox_wal rbac_db) result" where
  "sample_assignment = bind_r sample_group_handler (\<lambda>(h, db).
     generate_relations_reset_roles sample_role_settings sample_platform_settings (outbox_replicator outbox_wal_log 0)
       sample_uuid7 ''0'' [sample_system_role] None h db)"

definition sample_workspace_resource :: v2_bound_resource where
  "sample_workspace_resource = \<lparr>br_type = (''rbac'', ''workspace''), br_id = ''d''\<rparr>"

definition sample_fresh :: "group_handler \<Rightarrow> outbox_wal rbac_db \<Rightarrow> bool" where
  "sample_fresh h db \<longleftrightarrow>
     sj_tenant h = sample_tenant \<and> sj_root_workspace h = sample_root \<and> sj_default_workspace h = sample_default \<and>
     gh_resource_service h = [] \<and> db_v1_roles db = [sample_system_role] \<and> db_roles db = [sample_seeded_role]"

lemma sample_assignment_ok:
  "is_ok sample_assignment"
  "case sample_group_handler of Inl _ \<Rightarrow> False
   | Inr (h, db) \<Rightarrow> sample_fresh h db \<and> db_mappings db = [] \<and> db_bindings db = [] \<and> wal_entries (wst_repl (db_ws db)) = []"
  by code_simp+

lemma sample_scopes:
  assumes "sample_fresh h db"
  shows "scopes_of h sample_system_role = {SCOPE_DEFAULT}"
    and "role_targets ''redhat'' h db sample_system_role SCOPE_DEFAULT = {(6, sample_workspace_resource)}"
proof -
  have "binding_scopes_for_permissions [] (map (\<lambda>a. perm_permission (ac_permission a)) (ro_access sample_system_role)) = Inr [SCOPE_DEFAULT]"
    by code_simp
  then show "scopes_of h sample_system_role = {SCOPE_DEFAULT}" using assms by (simp add: scopes_of_def sample_fresh_def)
  have "bound_model_for_scope SCOPE_DEFAULT sample_tenant sample_root sample_default = Inr (WorkspaceModel sample_default)"
    "for_model ''redhat'' (WorkspaceModel sample_default) = Inr sample_workspace_resource"
    "ro_system sample_system_role" "ro_pk sample_system_role = 6" by code_simp+
  then show "role_targets ''redhat'' h db sample_system_role SCOPE_DEFAULT = {(6, sample_workspace_resource)}"
    using assms by (auto simp: role_targets_def sample_fresh_def)
qed

theorem group_roles_assigned_witness:
  "\<exists>h db h1 db1 db2. sample_group_handler = Inr (h, db) \<and> sample_assignment = Inr (h1, db1) \<and>
     replicate_group sample_role_settings (outbox_replicator outbox_wal_log 0) h1 db1 = Inr db2 \<and>
     in_step ''redhat'' (log_tuples (wal_rows (wst_repl (db_ws db2)))) db2 ''u'' \<and>
     groups_at db2 6 sample_workspace_resource = {''g1''}"
proof -
  obtain h db where h: "sample_group_handler = Inr (h, db)" and fresh: "sample_fresh h db"
    and none: "db_mappings db = []" "db_bindings db = []" "wal_entries (wst_repl (db_ws db)) = []"
    using sample_assignment_ok(2) by (auto split: sum.splits)
  obtain h1 db1 where run: "sample_assignment = Inr (h1, db1)" using sample_assignment_ok(1) by (auto simp: is_ok_iff)
  have run': "generate_relations_reset_roles sample_role_settings sample_platform_settings (outbox_replicator outbox_wal_log 0)
      sample_uuid7 ''0'' [sample_system_role] None h db = Inr (h1, db1)"
    using run unfolding sample_assignment_def h by simp
  have graph: "log_tuples (wal_rows (wst_repl (db_ws db))) = {}" by (simp add: none(3) wal_rows_def log_tuples_def)
  have step: "in_step ''redhat'' {} db i" for i
    by (simp add: in_step_def tuples_in_step_def rows_in_step_def binding_part_def none)
  have wf: "binding_rows_wf db"
    using fresh by (simp add: binding_rows_wf_def mapping_rows_wf_def none sample_fresh_def)
  have ids: "ids_unused sample_uuid7 (log_tuples (wal_rows (wst_repl (db_ws db)))) db"
    by (simp add: ids_unused_def none graph binding_part_def sample_uuid7_inj)
  have system: "ro_system sample_system_role" by (simp add: sample_system_role_def)
  have locked: "with_system_roles_for_share [sample_system_role] db = Inr [sample_system_role]"
    using fresh system by (auto simp: with_system_roles_for_share_def Let_def sample_fresh_def check_r_def)
  have domain: "rc_domain sample_role_settings = ''redhat''" "gr_uuid sample_group = ''g1''"
    by (simp_all add: sample_role_settings_def sample_group_def)
  obtain db2 where R: "replicate_group sample_role_settings (outbox_replicator outbox_wal_log 0) h1 db1 = Inr db2"
      "\<forall>i. in_step ''redhat'' {} db i \<longrightarrow> in_step ''redhat'' (log_tuples (wal_rows (wst_repl (db_ws db2)))) db2 i"
      "\<forall>p res. groups_at db2 p res = (if (p, res) \<in> assigned_targets ''redhat'' h db [sample_system_role]
         then insert ''g1'' (groups_at db p res) else groups_at db p res)"
    using group_roles_assigned [OF sample_handler_init [OF h [unfolded sample_group_handler_def]] wf ids _ locked run'] system by (auto simp: domain graph)
  have "(6, sample_workspace_resource) \<in> assigned_targets ''redhat'' h db [sample_system_role]"
    by (simp add: assigned_targets_def sample_scopes [OF fresh])
  then have "groups_at db2 6 sample_workspace_resource = {''g1''}" using R(3) by (simp add: groups_at_def none)
  then show ?thesis using h run R(1,2) step by blast
qed

text \<open>
  C5 (refinement): removing roles from a group is never refused by the outbox and keeps mappings, rows and graph
  in step in the same way. The group is taken from the bindings of each system role at every scope and from every
  binding of each custom role; no other group is added or removed anywhere. The group is in each mapping at
  most once.
\<close>

theorem group_roles_removed:
  fixes db :: "outbox_wal rbac_db" and time :: int
  defines "rp \<equiv> outbox_replicator outbox_wal_log time"
    and "graph \<equiv> \<lambda>db :: outbox_wal rbac_db. log_tuples (wal_rows (wst_repl (db_ws db)))"
  assumes init: "init_group_handler st g event_type resource_service service db0 = Inr (Some h, db)"
    and wf: "binding_rows_wf db" and ids: "ids_unused new_uuid (graph db) db"
    and custom: "\<forall>r \<in> set roles. ro_system r \<or> migrated_role db (ro_pk r)" and rows: "inj_on ro_pk (set roles)"
    and once: "\<forall>m \<in> set (db_mappings db). count_list (bm_groups m) (gr_uuid g) \<le> 1"
    and run: "generate_relations_to_remove_roles st rp new_uuid now roles h db = Inr (h1, db1)"
  shows "\<exists>db2. replicate_group st rp h1 db1 = Inr db2 \<and>
     (\<forall>i. in_step (rc_domain st) (graph db) db i \<longrightarrow> in_step (rc_domain st) (graph db2) db2 i) \<and>
     (\<forall>p res. groups_at db2 p res =
        (if (p, res) \<in> removed_targets (rc_domain st) h db roles
         then groups_at db p res - {gr_uuid g} else groups_at db p res))"
proof -
  note H = fresh_group_handler [OF init]
  obtain t where t: "tenant_by_pk (wst_tenants (db_ws db)) (gr_tenant (gh_group h)) = Inr t" using H(5) by blast
  have "\<forall>r \<in> set roles. role_admitted (ro_pk ` {r \<in> set roles. \<not> ro_system r}) db r"
    using custom rows by (auto simp: role_admitted_def dest: inj_onD)
  moreover have "removing (gr_uuid g) h" by (simp add: removing_def H)
  ultimately have "step_ok (rc_domain st) new_uuid {i. in_step (rc_domain st) (graph db) db i} (graph db)
      (removing (gr_uuid g)) (\<lambda>m. count_list (bm_groups m) (gr_uuid g) \<le> 1)
      (\<lambda>A. A - {gr_uuid g}) (ro_pk ` {r \<in> set roles. \<not> ro_system r})
      (removed_targets (rc_domain st) h db roles) (h, db) (h1, db1)"
    using once run by (intro remove_roles_step [OF fresh_handler_inv [OF H(2,3) wf ids]]) simp_all
  from outbox_wal_ws.replicate_steps [where now = time and st = st, OF this [unfolded graph_def] t H(4)]
  show ?thesis by (simp add: graph_def rp_def)
qed

definition sample_assigned_db :: "outbox_wal rbac_db result" where
  "sample_assigned_db = bind_r sample_assignment (\<lambda>(h, db).
     replicate_group sample_role_settings (outbox_replicator outbox_wal_log 0) h db)"

definition sample_removal_handler :: "(group_handler \<times> outbox_wal rbac_db) result" where
  "sample_removal_handler = bind_r sample_assigned_db (sample_handler_for EV_UNASSIGN_ROLE)"

definition sample_removal :: "(group_handler \<times> outbox_wal rbac_db) result" where
  "sample_removal = bind_r sample_removal_handler (\<lambda>(h, db).
     generate_relations_to_remove_roles sample_role_settings (outbox_replicator outbox_wal_log 1) sample_uuid7 ''1''
       [sample_system_role] h db)"

text \<open>The group has the role at the default workspace.\<close>

definition sample_start :: "group_handler \<Rightarrow> outbox_wal rbac_db \<Rightarrow> bool" where
  "sample_start h db \<longleftrightarrow>
     sample_fresh h db \<and> map bm_groups (db_mappings db) = [[''g1'']] \<and> map bm_id (db_mappings db) = [''u''] \<and>
     map rb_uuid (db_bindings db) = [''u''] \<and>
     list_all (\<lambda>m. case bm_pk m of None \<Rightarrow> False | Some k \<Rightarrow> k < db_next_pk db) (db_mappings db) \<and>
     list_all (\<lambda>b. rb_pk b < db_next_pk db) (db_bindings db) \<and> 1 \<le> db_next_uuid db \<and>
     in_step ''redhat'' (log_tuples (wal_rows (wst_repl (db_ws db)))) db ''u'' \<and>
     (\<forall>t \<in> log_tuples (wal_rows (wst_repl (db_ws db))). binding_of t = None \<or> binding_of t = Some ''u'')"

lemma sample_removal_ok:
  "is_ok sample_removal"
  "case sample_removal_handler of Inl _ \<Rightarrow> False | Inr (h, db) \<Rightarrow> sample_start h db"
  by code_simp+

lemma sample_start_wf:
  assumes start: "sample_start h db"
  shows "sample_fresh h db" and "binding_rows_wf db"
    and "ids_unused sample_uuid7 (log_tuples (wal_rows (wst_repl (db_ws db)))) db"
    and "in_step ''redhat'' (log_tuples (wal_rows (wst_repl (db_ws db)))) db ''u''"
    and "\<forall>m \<in> set (db_mappings db). bm_groups m = [''g1'']"
    and "(6, sample_workspace_resource) \<in> removed_targets ''redhat'' h db [sample_system_role]"
proof -
  note ok = start [unfolded sample_start_def]
  show fresh: "sample_fresh h db" using ok by blast
  obtain m b where rows: "db_mappings db = [m]" "db_bindings db = [b]" "bm_id m = ''u''" "rb_uuid b = ''u''"
    using ok by (auto simp: map_eq_Cons_conv)
  have "sample_uuid7 n \<noteq> ''u''" if "db_next_uuid db \<le> n" for n
    using that ok by (cases n) (auto simp: sample_uuid7_def)
  then show "ids_unused sample_uuid7 (log_tuples (wal_rows (wst_repl (db_ws db)))) db"
    using ok unfolding ids_unused_def rows binding_part_def by (force simp: rows sample_uuid7_inj)
  show "binding_rows_wf db"
    using ok by (auto simp: binding_rows_wf_def mapping_rows_wf_def rows sample_fresh_def split: option.splits)
  show "(6, sample_workspace_resource) \<in> removed_targets ''redhat'' h db [sample_system_role]"
    by (auto simp: removed_targets_def CONCRETE_SCOPES_def intro!: bexI [of _ SCOPE_DEFAULT])
      (simp_all add: sample_scopes [OF fresh])
qed (use start in \<open>auto simp: sample_start_def map_eq_Cons_conv\<close>)

theorem group_roles_removed_witness:
  "\<exists>h db h1 db1 db2. sample_removal_handler = Inr (h, db) \<and> sample_removal = Inr (h1, db1) \<and>
     replicate_group sample_role_settings (outbox_replicator outbox_wal_log 1) h1 db1 = Inr db2 \<and>
     in_step ''redhat'' (log_tuples (wal_rows (wst_repl (db_ws db2)))) db2 ''u'' \<and>
     groups_at db2 6 sample_workspace_resource = {}"
proof -
  obtain h db where h: "sample_removal_handler = Inr (h, db)" using sample_removal_ok(2) by (auto split: sum.splits)
  note start = sample_start_wf [OF sample_removal_ok(2) [unfolded h, simplified]]
  obtain h1 db1 where run: "sample_removal = Inr (h1, db1)" using sample_removal_ok(1) by (auto simp: is_ok_iff)
  have run': "generate_relations_to_remove_roles sample_role_settings (outbox_replicator outbox_wal_log 1) sample_uuid7 ''1''
      [sample_system_role] h db = Inr (h1, db1)"
    using run unfolding sample_removal_def h by simp
  obtain db0 where init: "init_group_handler sample_role_settings sample_group EV_UNASSIGN_ROLE None
      empty_policy_id_service db0 = Inr (Some h, db)"
    using h unfolding sample_removal_handler_def bind_r_Inr_iff by (blast dest: sample_handler_init)
  have domain: "rc_domain sample_role_settings = ''redhat''" "gr_uuid sample_group = ''g1''" "ro_system sample_system_role"
    by (simp_all add: sample_role_settings_def sample_group_def sample_system_role_def)
  obtain db2 where R: "replicate_group sample_role_settings (outbox_replicator outbox_wal_log 1) h1 db1 = Inr db2"
      "\<forall>i. in_step ''redhat'' (log_tuples (wal_rows (wst_repl (db_ws db)))) db i \<longrightarrow>
         in_step ''redhat'' (log_tuples (wal_rows (wst_repl (db_ws db2)))) db2 i"
      "\<forall>p res. groups_at db2 p res = (if (p, res) \<in> removed_targets ''redhat'' h db [sample_system_role]
         then groups_at db p res - {''g1''} else groups_at db p res)"
    using group_roles_removed [OF init start(2,3) _ _ _ run'] start(5) by (auto simp: domain)
  have "groups_at db2 6 sample_workspace_resource = {}" using R(3) start(5,6) by (auto simp: groups_at_def)
  then show ?thesis using h run R(1,2) start(4) by blast
qed

text \<open>
  C6 (refinement): deleting a group of a tenant that writes through V1, whose preparation succeeds, is never refused
  by the outbox and keeps mapping, rows and graph of a binding in step. The group is taken from every binding of its
  roles and from no other, and no other group loses a binding. Of the members of groups, the graph loses exactly those
  of the principals in the group. When the group is the tenant's own default group, members stay instead, and the
  default access of the tenant's users comes back; a binding that is also one of this default access is not covered.
  The group is in each mapping at most once.
\<close>

theorem group_deleted_v1:
  fixes db :: "outbox_wal rbac_db" and time :: int
  defines "rp \<equiv> outbox_replicator outbox_wal_log time"
    and "graph \<equiv> \<lambda>db :: outbox_wal rbac_db. log_tuples (wal_rows (wst_repl (db_ws db)))"
  assumes init: "init_group_handler st g event_type resource_service service db0 = Inr (Some h, db)"
    and wf: "binding_rows_wf db" "mapping_uuids_wf db" and ids: "ids_unused new_uuid (graph db) db"
    and custom: "\<forall>r \<in> set roles. ro_system r \<or> migrated_role db (ro_pk r)" and rows: "inj_on ro_pk (set roles)"
    and once: "\<forall>m \<in> set (db_mappings db). count_list (bm_groups m) (gr_uuid g) \<le> 1"
    and version: "sj_tenant_version h = VERSION_1" and public: "public_tenant db = Inr pt"
    and run: "prepare_to_delete_group st pf rp new_uuid now roles h db = Inr (h1, db1)"
  shows "\<exists>db2 restored. replicate_group st rp h1 db1 = Inr db2 \<and>
     (if gr_platform_default g
      then \<exists>m r. default_access_of (rc_domain st) h db m r \<and> restored = set (restored_access pf h db m r)
      else restored = {}) \<and>
     restored \<subseteq> graph db2 \<and>
     (\<forall>i. in_step (rc_domain st) (graph db) db i \<and> binding_part restored i = {} \<longrightarrow>
        in_step (rc_domain st) (graph db2) db2 i) \<and>
     (\<forall>p res. groups_at db2 p res =
        (if (p, res) \<in> removed_targets (rc_domain st) h db
              (filter (\<lambda>r. ro_system r \<and> ro_tenant r = tn_pk pt \<or> ro_tenant r = gr_tenant g) roles)
         then groups_at db p res - {gr_uuid g} else groups_at db p res)) \<and>
     (\<forall>g' u. member_tuple (rc_domain st) g' u \<in> graph db2 \<longleftrightarrow>
        member_tuple (rc_domain st) g' u \<in> graph db - deletion_members (rc_domain st) db g)"
proof -
  note H = fresh_group_handler [OF init]
  let ?d = "rc_domain st"
  obtain t where t: "tenant_by_pk (wst_tenants (db_ws db)) (gr_tenant (gh_group h)) = Inr t" using H(5) by blast
  let ?all = "filter (\<lambda>r. ro_system r \<and> ro_tenant r = tn_pk pt) roles @ filter (\<lambda>r. ro_tenant r = gr_tenant g) roles"
  let ?once = "dedup_by ro_pk [] ?all"
  let ?gone = "filter (\<lambda>r. ro_system r \<and> ro_tenant r = tn_pk pt \<or> ro_tenant r = gr_tenant g) roles"
  obtain h2 db2 where v1: "prepare_to_delete_group_v1 st rp new_uuid now roles h db = Inr (h2, db2)"
    and finish: "finish_deletion st pf h2 db2 = Inr (h1, db1)"
    using run version by (auto simp: prepare_to_delete_group_finish bind_r_Inr_iff)
  obtain ids' where "foldM_r (remove_role_once st rp new_uuid now) ([], h, db) ?all = Inr (ids', h2, db2)"
    using v1 H(1) by (auto simp: prepare_to_delete_group_v1_def public_tenant_only_def public bind_r_Inr_iff)
  then have run1: "generate_relations_to_remove_roles st rp new_uuid now ?once h db = Inr (h2, db2)"
    by (rule remove_once_fold) simp
  have "inj_on ro_pk (set ?all)" using rows by (auto intro: inj_on_subset)
  then have once_set: "set ?once = set ?gone" using dedup_by_inj [of ro_pk ?all] by auto
  have "\<forall>r \<in> set ?once. role_admitted (ro_pk ` {r \<in> set ?once. \<not> ro_system r}) db r"
    using custom rows unfolding once_set by (auto simp: role_admitted_def dest: inj_onD)
  moreover have "removing (gr_uuid g) h" by (simp add: removing_def H)
  ultimately have step: "step_ok ?d new_uuid {i. in_step ?d (graph db) db i} (graph db)
      (removing (gr_uuid g)) (\<lambda>m. count_list (bm_groups m) (gr_uuid g) \<le> 1)
      (\<lambda>A. A - {gr_uuid g}) (ro_pk ` {r \<in> set ?once. \<not> ro_system r}) (removed_targets ?d h db ?once) (h, db) (h2, db2)"
    using once run1 by (intro remove_roles_step [OF fresh_handler_inv [OF H(2,3) wf(1) ids]]) simp_all
  have targets: "removed_targets ?d h db ?once = removed_targets ?d h db ?gone" unfolding removed_targets_def once_set ..
  have S: "sj_relations_to_add h2 = []" "list_all (\<lambda>t. \<not> is_member_tuple t) (sj_relations_to_remove h2)"
      "same_base db db2" "same_handler h h2"
    using step by (simp_all add: step_ok_def removing_def)
  have "mapping_uuids_wf db2" using wf(2) S(3) by (simp add: mapping_uuids_wf_def same_base_def)
  note F = finish_deletion_Inr [OF finish this S(1)]
  have g2: "gh_group h2 = g" using same_group_handler(1) [OF S(4)] H(1) by simp
  obtain us vs where F2: "sj_relations_to_add h1 = vs" "sj_relations_to_remove h1 = sj_relations_to_remove h2 @ us"
      "gh_group h1 = gh_group h2" "gh_expected_empty_relation_reason h1 = gh_expected_empty_relation_reason h2"
      "list_all graph_tuple us" "set us = deletion_members ?d db g" "list_all graph_tuple vs" "distinct vs"
      "\<forall>t \<in> set vs. \<not> is_member_tuple t"
      "if gr_platform_default g then \<exists>m r. default_access_of ?d h db m r \<and> vs = restored_access pf h db m r else vs = []"
    using F(2) unfolding g2 default_access_same [OF S(3,4)] by blast
  have "\<forall>t \<in> set us. binding_of t = None" unfolding F2(6) by (auto simp: deletion_members_def)
  from outbox_wal_ws.replicate_deletion
    [where now = time and st = st, OF step [unfolded graph_def] F2(1-5) this F2(7,8) t H(4) S(1)]
  obtain db3 where R: "replicate_group st rp h1 db2 = Inr db3"
      "\<forall>i. in_step ?d (graph db) db i \<longrightarrow> binding_part (set vs) i = {} \<longrightarrow> in_step ?d (graph db3) db3 i"
      "\<forall>p res. groups_at db3 p res = (if (p, res) \<in> removed_targets ?d h db ?gone
         then groups_at db p res - {gr_uuid g} else groups_at db p res)"
      "graph db3 = (graph db - set (sj_relations_to_remove h2) - set us) \<union> set vs"
    unfolding graph_def rp_def targets by auto
  have "member_tuple ?d g' u \<in> graph db3 \<longleftrightarrow> member_tuple ?d g' u \<in> graph db - deletion_members ?d db g" for g' u
    using S(2) F2(9) is_member_kinds(6) [of ?d g' u] unfolding R(4) F2(6) list_all_iff by blast
  then show ?thesis
    using R F2(10) F(1) by (intro exI [of _ db3] exI [of _ "set vs"]) (auto split: if_splits)
qed

text \<open>The group of the example has a member when it is deleted.\<close>

definition sample_deletion_handler :: "(group_handler \<times> outbox_wal rbac_db) result" where
  "sample_deletion_handler =
     bind_r sample_assigned_db (\<lambda>db.
     bind_r (sample_handler_for EV_ADD_PRINCIPALS_TO_GROUP db) (\<lambda>(h, db1).
     bind_r (replicate_new_principals sample_role_settings (outbox_replicator outbox_wal_log 1) [sample_member] h db1) (\<lambda>(_, db2).
       sample_handler_for EV_DELETE_GROUP db2)))"

definition sample_deletion :: "(group_handler \<times> outbox_wal rbac_db) result" where
  "sample_deletion = bind_r sample_deletion_handler (\<lambda>(h, db).
     prepare_to_delete_group sample_role_settings sample_platform_settings (outbox_replicator outbox_wal_log 2)
       sample_uuid7 ''2'' [sample_system_role] h db)"

lemma sample_deletion_ok:
  "is_ok sample_deletion"
  "case sample_deletion_handler of Inl _ \<Rightarrow> False
   | Inr (h, db) \<Rightarrow> sample_start h db \<and> sj_tenant_version h = VERSION_1 \<and> map gr_uuid (db_groups db) = [''g1''] \<and>
       map gr_principals (db_groups db) = [[''p2'']] \<and> db_principals db = [sample_member] \<and> mapping_uuids_wf db"
  "case sample_deletion_handler of Inl _ \<Rightarrow> False
   | Inr (h, db) \<Rightarrow> (case public_tenant db of Inl _ \<Rightarrow> False | Inr t \<Rightarrow> tn_pk t = 2)"
  by code_simp+

lemma sample_deletion_members:
  assumes "sample_deletion_handler = Inr (h, db)"
  shows "deletion_members ''redhat'' db sample_group = {member_tuple ''redhat'' ''g1'' ''7''}"
proof -
  note ok = sample_deletion_ok(2) [unfolded assms, simplified]
  have "memberships db = {(''g1'', ''p2'')}" using ok by (auto simp: memberships_def map_eq_Cons_conv)
  moreover have "db_principals db = [sample_member]" using ok by simp
  ultimately show ?thesis by (auto simp: deletion_members_def sample_group_def sample_member_def sample_principal_def)
qed

theorem group_deleted_v1_witness:
  "\<exists>h db h1 db1 db2. sample_deletion_handler = Inr (h, db) \<and> sample_deletion = Inr (h1, db1) \<and>
     replicate_group sample_role_settings (outbox_replicator outbox_wal_log 2) h1 db1 = Inr db2 \<and>
     in_step ''redhat'' (log_tuples (wal_rows (wst_repl (db_ws db2)))) db2 ''u'' \<and>
     groups_at db2 6 sample_workspace_resource = {} \<and>
     member_tuple ''redhat'' ''g1'' ''7'' \<notin> log_tuples (wal_rows (wst_repl (db_ws db2)))"
proof -
  obtain h db where h: "sample_deletion_handler = Inr (h, db)" using sample_deletion_ok(2) by (auto split: sum.splits)
  note ok = sample_deletion_ok(2,3) [unfolded h, simplified]
  have "sample_start h db" and version: "sj_tenant_version h = VERSION_1" and wf: "mapping_uuids_wf db" using ok(1) by blast+
  note start = sample_start_wf [OF this(1)]
  obtain pt where pt: "public_tenant db = Inr pt" "tn_pk pt = 2" using ok(2) by (auto split: sum.splits)
  obtain h1 db1 where run: "sample_deletion = Inr (h1, db1)" using sample_deletion_ok(1) by (auto simp: is_ok_iff)
  have run': "prepare_to_delete_group sample_role_settings sample_platform_settings (outbox_replicator outbox_wal_log 2)
      sample_uuid7 ''2'' [sample_system_role] h db = Inr (h1, db1)"
    using run unfolding sample_deletion_def h by simp
  obtain db0 where "sample_handler_for EV_DELETE_GROUP db0 = Inr (h, db)"
    using h unfolding sample_deletion_handler_def by (auto simp: bind_r_Inr_iff)
  note init = sample_handler_init [OF this]
  have domain: "rc_domain sample_role_settings = ''redhat''" "gr_uuid sample_group = ''g1''" "ro_system sample_system_role"
      "ro_tenant sample_system_role = 2" "\<not> gr_platform_default sample_group"
    by (simp_all add: sample_role_settings_def sample_group_def sample_system_role_def)
  obtain db2 where R: "replicate_group sample_role_settings (outbox_replicator outbox_wal_log 2) h1 db1 = Inr db2"
      "\<forall>i. in_step ''redhat'' (log_tuples (wal_rows (wst_repl (db_ws db)))) db i \<longrightarrow>
         in_step ''redhat'' (log_tuples (wal_rows (wst_repl (db_ws db2)))) db2 i"
      "\<forall>p res. groups_at db2 p res = (if (p, res) \<in> removed_targets ''redhat'' h db [sample_system_role]
         then groups_at db p res - {''g1''} else groups_at db p res)"
      "member_tuple ''redhat'' ''g1'' ''7'' \<notin> log_tuples (wal_rows (wst_repl (db_ws db2)))"
    using group_deleted_v1 [OF init start(2) wf start(3) _ _ _ version pt(1) run'] start(5) sample_deletion_members [OF h]
    by (auto simp: domain pt(2) binding_part_def cong: if_cong)
  have "groups_at db2 6 sample_workspace_resource = {}" using R(3) start(5,6) by (auto simp: groups_at_def)
  then show ?thesis using h run R(1,2,4) start(4) by blast
qed

text \<open>
  C7 (functional): deleting a group of a tenant that writes through V2 is never refused by the outbox, and the rows
  do not change. It takes from the graph exactly the group as a subject of its bindings, the bindings of the tenant
  that have no other subject, and the members of the group, unless the group is the tenant's default group: then
  the members stay and exactly the default access of the tenant's users is added.
\<close>

theorem group_deleted_v2:
  fixes db :: "outbox_wal rbac_db" and time :: int
  defines "rp \<equiv> outbox_replicator outbox_wal_log time"
    and "graph \<equiv> \<lambda>db :: outbox_wal rbac_db. log_tuples (wal_rows (wst_repl (db_ws db)))"
  assumes init: "init_group_handler st g event_type resource_service service db0 = Inr (Some h, db)"
    and version: "sj_tenant_version h = VERSION_2" and wf: "mapping_uuids_wf db"
    and run: "prepare_to_delete_group st pf rp new_uuid now roles h db = Inr (h1, db1)"
  shows "\<exists>db2 w restored. replicate_group st rp h1 db1 = Inr db2 \<and> db2 = db\<lparr>db_ws := (db_ws db)\<lparr>wst_repl := w\<rparr>\<rparr> \<and>
     (if gr_platform_default g
      then \<exists>m r. default_access_of (rc_domain st) h db m r \<and> restored = set (restored_access pf h db m r)
      else restored = {}) \<and>
     graph db2 = (graph db -
       (\<Union>b \<in> {b \<in> set (db_bindings db). rb_tenant b = gr_tenant g \<and> gr_uuid g \<in> set (group_entries db b)}.
          deletion_tuples db (gr_uuid g) b) -
       deletion_members (rc_domain st) db g) \<union> restored"
proof -
  note H = fresh_group_handler [OF init]
  let ?d = "rc_domain st"
  obtain t where t: "tenant_by_pk (wst_tenants (db_ws db)) (gr_tenant (gh_group h)) = Inr t" using H(5) by blast
  have pk: "tn_pk (sj_tenant h) = gr_tenant g"
    using init by (auto simp: init_group_handler_def init_subject_handler_def bind_r_Inr_iff subject_handler.extend_def
        dest!: tenant_by_pk_Inr split: if_splits)
  let ?bs = "filter (\<lambda>b. gr_uuid g \<in> set (group_entries db b) \<and> rb_tenant b = gr_tenant g) (db_bindings db)"
  obtain h2 where "foldM_r (binding_removal ?d g db) h ?bs = Inr h2" and finish: "finish_deletion st pf h2 db = Inr (h1, db1)"
    using run version by (auto simp: prepare_to_delete_group_finish prepare_to_delete_group_v2_def bind_r_Inr_iff pk H(1))
  from binding_removals_Inr [OF this(1)] obtain ws where ws: "h2 = relations_removed ws h" "list_all graph_tuple ws"
      "set ws = (\<Union>b \<in> set ?bs. deletion_tuples db (gr_uuid g) b)" by blast
  have rel2: "sj_relations_to_add h2 = []" "sj_relations_to_remove h2 = ws" "gh_group h2 = g"
      "gh_expected_empty_relation_reason h2 = None"
    using H by (simp_all add: ws(1) relations_removed_def)
  have same: "same_handler h h2" unfolding ws(1) using same_handler_relations [of h "[]" ws] by simp
  note F = finish_deletion_Inr [OF finish wf rel2(1)]
  obtain us vs where F2: "sj_relations_to_add h1 = vs" "sj_relations_to_remove h1 = ws @ us" "gh_group h1 = g"
      "gh_expected_empty_relation_reason h1 = None" "list_all graph_tuple us" "set us = deletion_members ?d db g"
      "list_all graph_tuple vs" "distinct vs"
      "if gr_platform_default g then \<exists>m r. default_access_of ?d h db m r \<and> vs = restored_access pf h db m r else vs = []"
    using F(2) unfolding rel2 default_access_same(1,2) [OF same_base_refl same] by blast
  have ok: "relations_ok h1" using ws(2) F2(5,7,8) by (simp add: relations_ok_def F2(1,2))
  obtain w where w: "replicate_group st rp h1 db = Inr (db\<lparr>db_ws := (db_ws db)\<lparr>wst_repl := w\<rparr>\<rparr>)"
      "log_tuples (wal_rows w) = pending (graph db) h1"
    using outbox_wal_ws.replicate_group_applies [where now = time and st = st, OF ok, of db t] t H(1) F2(3,4)
    by (auto simp: rp_def graph_def)
  have "pending (graph db) h1 = (graph db - set ws - deletion_members ?d db g) \<union> set vs"
    using F2(1,2,6) by (auto simp: pending_def)
  moreover have "set ?bs = {b \<in> set (db_bindings db). rb_tenant b = gr_tenant g \<and> gr_uuid g \<in> set (group_entries db b)}" by auto
  ultimately have "log_tuples (wal_rows w) = (graph db -
       (\<Union>b \<in> {b \<in> set (db_bindings db). rb_tenant b = gr_tenant g \<and> gr_uuid g \<in> set (group_entries db b)}.
          deletion_tuples db (gr_uuid g) b) - deletion_members ?d db g) \<union> set vs"
    unfolding w(2) ws(3) by simp
  then show ?thesis using w(1) F2(9) F(1)
    by (intro exI [of _ "db\<lparr>db_ws := (db_ws db)\<lparr>wst_repl := w\<rparr>\<rparr>"] exI [of _ w] exI [of _ "set vs"])
      (auto simp: graph_def split: if_splits)
qed

text \<open>The default group of a tenant that writes through V2, beside the default group of the public tenant.\<close>

definition sample_default_group :: rbac_group where
  "sample_default_group = sample_group\<lparr>gr_platform_default := True\<rparr>"

definition sample_v2_handler :: "(group_handler \<times> outbox_wal rbac_db) result" where
  "sample_v2_handler = bind_r sample_deletion_handler (\<lambda>(_, db).
     bind_r (init_group_handler sample_role_settings sample_default_group EV_DELETE_GROUP None empty_policy_id_service
       (db\<lparr>db_tenant_mappings := map (\<lambda>m. m\<lparr>tm_v2_write_activated_at := Some ''0''\<rparr>) (db_tenant_mappings db),
           db_groups := map (\<lambda>g. g\<lparr>gr_platform_default := True\<rparr>) (db_groups db) @ db_groups sample_public_db,
           db_policies := db_policies sample_public_db\<rparr>))
       (\<lambda>(h, db). case h of None \<Rightarrow> Inl ValueError | Some h \<Rightarrow> Inr (h, db)))"

definition sample_v2_deletion :: "(group_handler \<times> outbox_wal rbac_db) result" where
  "sample_v2_deletion = bind_r sample_v2_handler (\<lambda>(h, db).
     prepare_to_delete_group sample_role_settings sample_platform_settings (outbox_replicator outbox_wal_log 2)
       sample_uuid7 ''2'' [sample_system_role] h db)"

lemma sample_v2_ok:
  "is_ok sample_v2_deletion"
  "case sample_v2_handler of Inl _ \<Rightarrow> False
   | Inr (h, db) \<Rightarrow> sj_tenant_version h = VERSION_2 \<and> mapping_uuids_wf db \<and>
       (\<exists>b \<in> set (db_bindings db). rb_uuid b = ''u'' \<and> rb_tenant b = 1 \<and> ''g1'' \<in> set (group_entries db b)) \<and>
       group_tuple ''u'' ''g1'' \<in> log_tuples (wal_rows (wst_repl (db_ws db)))"
  by code_simp+

theorem group_deleted_v2_witness:
  "\<exists>h db h1 db1 db2 m r. sample_v2_handler = Inr (h, db) \<and> sample_v2_deletion = Inr (h1, db1) \<and>
     replicate_group sample_role_settings (outbox_replicator outbox_wal_log 2) h1 db1 = Inr db2 \<and>
     group_tuple ''u'' ''g1'' \<in> log_tuples (wal_rows (wst_repl (db_ws db))) \<and>
     (group_tuple ''u'' ''g1'' \<in> log_tuples (wal_rows (wst_repl (db_ws db2))) \<longrightarrow>
        group_tuple ''u'' ''g1'' \<in> set (restored_access sample_platform_settings h db m r)) \<and>
     default_access_of ''redhat'' h db m r \<and>
     set (restored_access sample_platform_settings h db m r) \<subseteq> log_tuples (wal_rows (wst_repl (db_ws db2)))"
proof -
  obtain h db where h: "sample_v2_handler = Inr (h, db)" using sample_v2_ok(2) by (auto split: sum.splits)
  note ok = sample_v2_ok(2) [unfolded h, simplified]
  have version: "sj_tenant_version h = VERSION_2" and wf: "mapping_uuids_wf db" using ok by blast+
  obtain b where b: "b \<in> set (db_bindings db)" "rb_uuid b = ''u''" "rb_tenant b = 1" "''g1'' \<in> set (group_entries db b)"
    using ok by blast
  obtain h1 db1 where run: "sample_v2_deletion = Inr (h1, db1)" using sample_v2_ok(1) by (auto simp: is_ok_iff)
  have run': "prepare_to_delete_group sample_role_settings sample_platform_settings (outbox_replicator outbox_wal_log 2)
      sample_uuid7 ''2'' [sample_system_role] h db = Inr (h1, db1)"
    using run unfolding sample_v2_deletion_def h by simp
  obtain db0 where init: "init_group_handler sample_role_settings sample_default_group EV_DELETE_GROUP None
      empty_policy_id_service db0 = Inr (Some h, db)"
    using h unfolding sample_v2_handler_def by (auto simp: bind_r_Inr_iff split: option.splits)
  have group: "gr_uuid sample_default_group = ''g1''" "gr_tenant sample_default_group = 1"
      "gr_platform_default sample_default_group" "rc_domain sample_role_settings = ''redhat''"
    by (simp_all add: sample_default_group_def sample_group_def sample_role_settings_def)
  have gone: "group_tuple ''u'' ''g1'' \<in> (\<Union>b \<in> {b \<in> set (db_bindings db). rb_tenant b = gr_tenant sample_default_group \<and>
      gr_uuid sample_default_group \<in> set (group_entries db b)}. deletion_tuples db (gr_uuid sample_default_group) b)"
    using b by (intro UN_I [of b]) (simp_all add: group deletion_tuples_def)
  obtain db2 m r where R: "replicate_group sample_role_settings (outbox_replicator outbox_wal_log 2) h1 db1 = Inr db2"
      "default_access_of ''redhat'' h db m r"
      "log_tuples (wal_rows (wst_repl (db_ws db2))) = (log_tuples (wal_rows (wst_repl (db_ws db))) -
         (\<Union>b \<in> {b \<in> set (db_bindings db). rb_tenant b = gr_tenant sample_default_group \<and>
            gr_uuid sample_default_group \<in> set (group_entries db b)}. deletion_tuples db (gr_uuid sample_default_group) b) -
         deletion_members ''redhat'' db sample_default_group) \<union> set (restored_access sample_platform_settings h db m r)"
    using group_deleted_v2 [OF init version wf run'] unfolding if_P [OF group(3)] group(4) by (elim exE conjE) simp
  have "group_tuple ''u'' ''g1'' \<in> log_tuples (wal_rows (wst_repl (db_ws db2))) \<longrightarrow>
      group_tuple ''u'' ''g1'' \<in> set (restored_access sample_platform_settings h db m r)"
    unfolding R(3) using gone by (simp only: Un_iff Diff_iff simp_thms)
  moreover have "set (restored_access sample_platform_settings h db m r) \<subseteq> log_tuples (wal_rows (wst_repl (db_ws db2)))"
    unfolding R(3) by (rule Un_upper2)
  ultimately show ?thesis using h run R(1,2) ok by blast
qed

end
