(* ===== verification/Spec2Isabelle.thy ===== *)
theory Spec2Isabelle
  imports Relation_Types Permission_Values Scope_Service Tuple_Store Replication Domain_Model
    Workspace_Tree Workspace_Service Kafka_Retry Kafka_Consumer Delivery V2_Values Tenant_Mapping
    Role_Models Platform_Roles Role_Migration Role_Dual_Write
    Principal_Service Tenant_Bootstrap Group_Dual_Write
begin

text \<open>
  Verification of the role-based access control service under \<open>src/rbac\<close>.

  \<^bold>\<open>The program.\<close> The service keeps tenants, principals, groups, roles and workspaces in a relational
  database (the V1 model) and mirrors the access they give to a graph of relation tuples in another service
  (the V2 model). Every operation that changes access is a \<^emph>\<open>dual write\<close>: in one transaction it changes
  rows and hands a replication event with tuples to add and to remove to a replicator. The outbox replicator
  writes the event as a row to a table that a connector reads from the write-ahead log and publishes to Kafka;
  a consumer applies the tuples to the graph, with retries, offsets and a fencing lock. The theorems follow
  that path: operations keep rows and events in step, events reach the graph, and the consumer delivers each
  of them.

  \<^bold>\<open>Theories and sources\<close>, in the order they build on each other; paths are below \<open>src/rbac\<close>.

  \<^item> \<open>Rbac_Prelude\<close>: the exceptions as \<open>py_error\<close>, fallible operations as \<open>'a result\<close> with \<open>bind_r\<close>, \<open>check_r\<close>,
    \<open>mapM_r\<close> and \<open>foldM_r\<close>, Python values as \<open>pyval\<close>, dictionaries as association lists, sets as lists without
    duplicates, and the lemmas about them.
  \<^item> \<open>Relation_Types\<close>: relation tuples with their validation, string keys and dictionaries
    (\<open>management/inventory_replicator/types.py\<close>, \<open>migration_tool/utils.py\<close>). Printing and reading back, validity of
    every constructed tuple, what the key of the duplicate check identifies.
  \<^item> \<open>Permission_Values\<close>, \<open>Scope_Service\<close>: permission patterns, and the scope (default workspace, root
    workspace, tenant) at which a permission is bound (\<open>management/permission/model.py\<close>, \<open>scope_service.py\<close>).
    Subsumption is inclusion of what patterns grant; the most specific configured pattern decides; splitting a
    list by scope meets its documented contract.
  \<^item> \<open>Tuple_Store\<close>: the in-memory tuple store with its predicates and queries
    (\<open>migration_tool/in_memory_tuples.py\<close>). Which groups of tuples a list of predicates matches, and what a write does.
  \<^item> \<open>Replication\<close>: events and the in-memory, outbox, logging, no-op and direct replicators
    (\<open>management/inventory_replicator/\<close>, \<open>management/debezium/model.py\<close>). The locale \<open>inventory_replicator\<close> is what callers
    rely on, \<open>workspace_replicator\<close> adds the workspace events; both are interpreted on the in-memory and on the
    outbox replicator, and the outbox is shown to refine the in-memory one. The direct replicator
    keeps the tuples that events remove; which of them are left is characterised exactly.
  \<^item> \<open>Domain_Model\<close>: rows of tenants, users, principals and groups (\<open>api/models.py\<close>,
    \<open>management/principal/model.py\<close>, \<open>management/group/model.py\<close>).
  \<^item> \<open>Workspace_Tree\<close>, \<open>Workspace_Service\<close>: the workspace table with its constraints and tree queries, and creating,
    updating and moving workspaces with their events (\<open>management/workspace/model.py\<close>, \<open>service.py\<close>,
    \<open>inventory_api_dual_write_workspace_handler.py\<close>, \<open>management/managers.py\<close>). The hierarchy stays a forest within the depth
    limit, and parent tuples stay in step with parent links.
  \<^item> \<open>Kafka_Retry\<close>, \<open>Kafka_Consumer\<close>, \<open>Delivery\<close>: the retry loop, offset book-keeping and message loop of
    \<open>core/kafka_consumer.py\<close>. The locale \<open>delivery\<close> states the documented behaviour of the tuple service and the
    broker; \<open>available_delivery\<close> adds that the service answers. At every point of every history of sessions no
    unapplied message is skipped; an available session converges to the tuples of the outbox; a consumer whose
    lock is stale changes nothing.
  \<^item> \<open>V2_Values\<close>, \<open>Tenant_Mapping\<close>: V2 roles, bindings and bound resources (\<open>migration_tool/models.py\<close>,
    \<open>scope_service.py\<close>), and the mapping of a tenant to V2 with the switch from V1 to V2 writes
    (\<open>management/tenant_mapping/\<close>), a step relation in which V1 writes stay blocked once V2 has written.
  \<^item> \<open>Role_Models\<close>, \<open>Platform_Roles\<close>: rows of V1 roles, binding mappings, V2 roles and role bindings
    (\<open>management/role/model.py\<close>, \<open>v2_model.py\<close>, \<open>management/role_binding/model.py\<close>, \<open>management/role/platform.py\<close>).
    A mapping's subject tuples follow its multiset of subjects.
  \<^item> \<open>Role_Migration\<close>, \<open>Role_Dual_Write\<close>: the migration of a V1 role to V2 roles and bindings, and the
    handlers that replicate new, updated, deleted and seeded roles
    (\<open>migration_tool/sharedSystemRolesReplicatedRoleBindings.py\<close>, \<open>migrate_role.py\<close>,
    \<open>management/role/inventory_api_dual_write_handler.py\<close>). A migrated role has one binding for each
    resource and grants there exactly what the V1 role grants; an update fails only if its tuples cannot be generated,
    and otherwise replaces exactly the tuples of the old rows by those of the new ones.
  \<^item> \<open>Principal_Service\<close>, \<open>Tenant_Bootstrap\<close>: user ids of principals and merging of principals, bootstrapping tenants, and
    updating, disabling and importing users (\<open>management/tenant_service/\<close>). A bootstrap adds exactly the rows and tuples
    of a tenant and repeating it changes nothing; the default groups follow the account of a user.
  \<^item> \<open>Group_Dual_Write\<close>: the handlers that give roles to subjects and take them away
    (\<open>management/group/inventory_api_dual_write_subject_handler.py\<close>, \<open>inventory_api_dual_write_group_handler.py\<close>). The locale
    \<open>mapping_callback\<close> is what the shared handler relies on of the callback that changes a binding mapping; it is
    interpreted on the callbacks that assign and remove a group. Mappings, role binding rows and the graph stay in step,
    and the group is added to or removed from exactly the bindings of the roles; a deleted group
    leaves no binding behind, whether the tenant writes through V1 or V2, and none of the members its rows know of, unless
    it is the tenant's default group: then the members stay and the default access of the tenant comes back.

  \<^bold>\<open>State.\<close> \<open>rbac_db\<close> of \<open>Role_Models\<close> is the database: one list per table, with the constraints of the tables
  checked by the operations that save, and counters for the keys and uuids it hands out. Its component \<open>db_ws\<close>
  holds tenants, workspaces, the workspace cache and the state of the replicator, a type parameter that the
  interpretations instantiate. Functions that make uuids or read the clock are parameters; what is needed of
  them (freshness, injectivity) is a hypothesis where it is used. A transaction that raises is rolled back: an
  operation returns the new state only if it succeeds.

  \<^bold>\<open>Loops.\<close> No definition takes fuel. Recursion is structural wherever the source iterates over a collection,
  the message loop over the messages a session is given included. The tree queries, which the source leaves to
  recursive SQL, and the loops of the tuple store end because what is left to visit shrinks. \<open>retry_run\<close> and
  \<open>depth_loop\<close> are \<open>partial_function (option)\<close>, since unlimited retries and a cyclic table keep the source
  from returning: \<open>None\<close> is not returning, and when they return is a theorem.

  \<^bold>\<open>Boundaries.\<close> The JSON column of a binding mapping is kept as its fields, so that encoding and decoding it are not
  part of the model. \<open>offset_commit\<close> has no branch for a missing consumer, since the manager of offsets is made with one.
  The making of the ungrouped workspace runs alone, without the branch for a concurrent insert. A notification
  about a workspace whose id is not a string is left out, and rebalances happen between the runs of the message loop.

  \<^bold>\<open>Not modelled.\<close> Django views, serializers, pagination, filters, middleware and the MCP and internal
  endpoints are HTTP plumbing around the operations above. Redis caches other than the workspace cache, audit log,
  notifications, metrics, health checks and logging change nothing the theorems speak of. The clients of the
  BOP, IT and inventory services are code outside the repository. Row locks are taken by the source so that a
  transaction runs as if alone, which is how operations are modelled; their interleaving is modelled for the
  consumer and its offsets and for the switch to V2, where the code relies on more than locks.
\<close>

end
